(* ===== verification/Prelude.thy ===== *)
theory Prelude
  imports Main "HOL-Library.List_Lexorder" "HOL-Library.Char_ord" "HOL-Library.Multiset"
    "HOL-Library.Sublist"
begin

text \<open>
  What every component of the development shares: the parts of Go's standard library the
  control plane uses on strings (\<^verbatim>\<open>strings\<close>, \<^verbatim>\<open>strconv\<close>, \<^verbatim>\<open>fmt\<close>), on slices
  (\<^verbatim>\<open>sort.Strings\<close>, \<^verbatim>\<open>sort.SliceStable\<close>) and on maps with string keys, as executable
  functions, with the lemmas about them.

  A Go \<^verbatim>\<open>string\<close> is a sequence of bytes; it is modelled as a HOL \<open>string\<close>, whose
  characters are bytes, so \<open>length\<close> is \<^verbatim>\<open>len\<close> and the lexicographic order of
  \<open>List_Lexorder\<close> and \<open>Char_ord\<close> is Go's \<^verbatim>\<open><\<close> on strings.
\<close>

named_theorems wf_intros \<open>introduction rules for the well-formedness predicates\<close>
named_theorems status_simps \<open>the string constants of the status vocabularies\<close>

section \<open>Strings\<close>

subsection \<open>Prefixes, suffixes, substrings\<close>

definition has_prefix :: "string \<Rightarrow> string \<Rightarrow> bool" where
  "has_prefix s p \<longleftrightarrow> take (length p) s = p"

definition has_suffix :: "string \<Rightarrow> string \<Rightarrow> bool" where
  "has_suffix s p \<longleftrightarrow> length p \<le> length s \<and> drop (length s - length p) s = p"

definition trim_suffix :: "string \<Rightarrow> string \<Rightarrow> string" where
  "trim_suffix s p = (if has_suffix s p then take (length s - length p) s else s)"

definition trim_prefix :: "string \<Rightarrow> string \<Rightarrow> string" where
  "trim_prefix s p = (if has_prefix s p then drop (length p) s else s)"

fun contains_str :: "string \<Rightarrow> string \<Rightarrow> bool" where
  "contains_str [] p = (p = [])"
| "contains_str (c # s) p = (has_prefix (c # s) p \<or> contains_str s p)"

text \<open>\<^verbatim>\<open>strings.Count\<close> and \<^verbatim>\<open>strings.ReplaceAll\<close> for a non-empty pattern: matches do not overlap.\<close>

fun count_str :: "string \<Rightarrow> string \<Rightarrow> nat" where
  "count_str [] p = 0"
| "count_str (c # s) p =
     (if has_prefix (c # s) p then Suc (count_str (drop (length p - 1) s) p) else count_str s p)"

fun replace_all :: "string \<Rightarrow> string \<Rightarrow> string \<Rightarrow> string" where
  "replace_all [] old new = []"
| "replace_all (c # s) old new =
     (if has_prefix (c # s) old then new @ replace_all (drop (length old - 1) s) old new
      else c # replace_all s old new)"

fun split_on :: "char \<Rightarrow> string \<Rightarrow> string list" where
  "split_on sep [] = [[]]"
| "split_on sep (c # s) =
     (if c = sep then [] # split_on sep s
      else (case split_on sep s of [] \<Rightarrow> [[c]] | x # xs \<Rightarrow> (c # x) # xs))"

fun join_str :: "string \<Rightarrow> string list \<Rightarrow> string" where
  "join_str sep [] = []"
| "join_str sep [x] = x"
| "join_str sep (x # y # xs) = x @ sep @ join_str sep (y # xs)"

lemma has_prefix_iff: "has_prefix s p \<longleftrightarrow> (\<exists>r. s = p @ r)"
  by (metis append_eq_conv_conj append_take_drop_id has_prefix_def)

lemma has_prefix_append [simp]: "has_prefix (p @ r) p"
  by (auto simp: has_prefix_iff)

lemma has_suffix_iff: "has_suffix s p \<longleftrightarrow> (\<exists>r. s = r @ p)"
proof
  assume "has_suffix s p"
  then have "s = take (length s - length p) s @ p"
    by (metis append_take_drop_id has_suffix_def)
  then show "\<exists>r. s = r @ p" ..
qed (auto simp: has_suffix_def)

lemma contains_str_iff: "contains_str s p \<longleftrightarrow> (\<exists>a b. s = a @ p @ b)"
proof (induction s)
  case (Cons c s)
  have "(\<exists>a b. c # s = a @ p @ b) \<longleftrightarrow> (\<exists>b. c # s = p @ b) \<or> (\<exists>a b. s = a @ p @ b)"
    by (metis append_Cons append_Nil neq_Nil_conv list.inject)
  then show ?case using Cons.IH by (simp add: has_prefix_iff)
qed auto

lemma split_on_not_Nil [simp]: "split_on sep s \<noteq> []"
  by (induction s) (auto split: list.splits)

lemma split_on_no_sep: "x \<in> set (split_on sep s) \<Longrightarrow> sep \<notin> set x"
  by (induction s arbitrary: x) (auto split: if_splits list.splits)

lemma join_split_on: "join_str [sep] (split_on sep s) = s"
proof (induction s)
  case (Cons c s)
  then show ?case
    by (cases "split_on sep s"; cases "tl (split_on sep s)") (auto split: list.splits)
qed simp

lemma split_on_single: "sep \<notin> set s \<Longrightarrow> split_on sep s = [s]"
  by (induction s) auto

lemma split_on_append: "sep \<notin> set a \<Longrightarrow> split_on sep (a @ sep # b) = a # split_on sep b"
  by (induction a) auto

lemma count_str_single: "count_str s [c] = count_list s c"
  by (induction s) (auto simp: has_prefix_def)

lemma replace_all_absent: "\<not> contains_str s old \<Longrightarrow> replace_all s old new = s"
  by (induction s) auto


subsection \<open>White space, case\<close>

text \<open>
  The UTF-8 encodings of the characters \<^verbatim>\<open>unicode.IsSpace\<close> accepts. No encoding is a
  proper prefix or suffix of another, so trimming byte sequences trims exactly the runes.
\<close>

definition go_spaces :: "string list" where
  "go_spaces =
    [[CHR 0x09], [CHR 0x0A], [CHR 0x0B], [CHR 0x0C], [CHR 0x0D], [CHR 0x20], 
     [CHR 0xC2, CHR 0x85], [CHR 0xC2, CHR 0xA0], [CHR 0xE1, CHR 0x9A, CHR 0x80], 
     [CHR 0xE2, CHR 0x80, CHR 0x80], [CHR 0xE2, CHR 0x80, CHR 0x81], 
     [CHR 0xE2, CHR 0x80, CHR 0x82], [CHR 0xE2, CHR 0x80, CHR 0x83], 
     [CHR 0xE2, CHR 0x80, CHR 0x84], [CHR 0xE2, CHR 0x80, CHR 0x85], 
     [CHR 0xE2, CHR 0x80, CHR 0x86], [CHR 0xE2, CHR 0x80, CHR 0x87], 
     [CHR 0xE2, CHR 0x80, CHR 0x88], [CHR 0xE2, CHR 0x80, CHR 0x89], 
     [CHR 0xE2, CHR 0x80, CHR 0x8A], [CHR 0xE2, CHR 0x80, CHR 0xA8], 
     [CHR 0xE2, CHR 0x80, CHR 0xA9], [CHR 0xE2, CHR 0x80, CHR 0xAF], 
     [CHR 0xE2, CHR 0x81, CHR 0x9F], [CHR 0xE3, CHR 0x80, CHR 0x80]]"

definition space_prefix :: "string \<Rightarrow> nat" where
  "space_prefix s = (case find (has_prefix s) go_spaces of None \<Rightarrow> 0 | Some w \<Rightarrow> length w)"

definition space_suffix :: "string \<Rightarrow> nat" where
  "space_suffix s = (case find (has_suffix s) go_spaces of None \<Rightarrow> 0 | Some w \<Rightarrow> length w)"

function trim_left :: "string \<Rightarrow> string" where
  "trim_left s = (if space_prefix s = 0 \<or> s = [] then s else trim_left (drop (space_prefix s) s))"
  by pat_completeness auto
termination
  by (relation "measure length") auto

function trim_right :: "string \<Rightarrow> string" where
  "trim_right s =
     (if space_suffix s = 0 \<or> s = [] then s else trim_right (take (length s - space_suffix s) s))"
  by pat_completeness auto
termination
  by (relation "measure length") auto

declare trim_left.simps [simp del] trim_right.simps [simp del]

definition trim_space :: "string \<Rightarrow> string" where
  "trim_space s = trim_right (trim_left s)"

text \<open>The ASCII part of \<^verbatim>\<open>strings.ToLower\<close> and \<^verbatim>\<open>strings.EqualFold\<close>.\<close>

definition lower_char :: "char \<Rightarrow> char" where
  "lower_char c = (if CHR ''A'' \<le> c \<and> c \<le> CHR ''Z'' then char_of (of_char c + 32 :: int) else c)"

definition to_lower :: "string \<Rightarrow> string" where
  "to_lower = map lower_char"

definition upper_char :: "char \<Rightarrow> char" where
  "upper_char c = (if CHR ''a'' \<le> c \<and> c \<le> CHR ''z'' then char_of (of_char c - 32 :: int) else c)"

definition to_upper :: "string \<Rightarrow> string" where
  "to_upper = map upper_char"

definition equal_fold :: "string \<Rightarrow> string \<Rightarrow> bool" where
  "equal_fold a b \<longleftrightarrow> to_lower a = to_lower b"

lemma trim_left_Nil [simp]: "trim_left [] = []"
  by (simp add: trim_left.simps)

lemma trim_right_Nil [simp]: "trim_right [] = []"
  by (simp add: trim_right.simps)

lemma trim_space_Nil [simp]: "trim_space [] = []"
  by (simp add: trim_space_def)

text \<open>\<^verbatim>\<open>strings.TrimRight\<close> for a cutset of one character.\<close>

definition trim_right_char :: "char \<Rightarrow> string \<Rightarrow> string" where
  "trim_right_char c s = rev (dropWhile (\<lambda>x. x = c) (rev s))"

lemma equal_fold_refl [simp]: "equal_fold a a"
  by (simp add: equal_fold_def)

lemma equal_fold_sym: "equal_fold a b \<Longrightarrow> equal_fold b a"
  by (simp add: equal_fold_def)

subsection \<open>Decimal and quoted output\<close>

definition digit_char :: "int \<Rightarrow> char" where
  "digit_char d = char_of (48 + d)"

function show_pos :: "int \<Rightarrow> string" where
  "show_pos n = (if n < 10 then [digit_char n] else show_pos (n div 10) @ [digit_char (n mod 10)])"
  by pat_completeness auto
termination
  by (relation "measure nat") auto

declare show_pos.simps [simp del]

definition show_int :: "int \<Rightarrow> string" where
  "show_int i = (if i < 0 then ''-'' @ show_pos (- i) else show_pos i)"

definition show_nat :: "nat \<Rightarrow> string" where
  "show_nat n = show_int (int n)"

definition hex_digit :: "int \<Rightarrow> char" where
  "hex_digit d = (if d < 10 then char_of (48 + d) else char_of (87 + d))"

text \<open>
  \<^verbatim>\<open>%q\<close> on ASCII text: the escapes of \<^verbatim>\<open>strconv.Quote\<close>. Bytes above 127 are copied.
\<close>

definition quote_char :: "char \<Rightarrow> string" where
  "quote_char c =
     (let n = of_char c :: int in
      if n = 34 then [CHR 0x5C, c] else if n = 92 then [CHR 0x5C, c]
      else if n = 7 then CHR 0x5C # ''a'' else if n = 8 then CHR 0x5C # ''b''
      else if n = 12 then CHR 0x5C # ''f'' else if n = 10 then CHR 0x5C # ''n''
      else if n = 13 then CHR 0x5C # ''r'' else if n = 9 then CHR 0x5C # ''t''
      else if n = 11 then CHR 0x5C # ''v''
      else if n < 32 \<or> n = 127 then CHR 0x5C # ''x'' @ [hex_digit (n div 16), hex_digit (n mod 16)]
      else [c])"

definition quote :: "string \<Rightarrow> string" where
  "quote s = CHR 0x22 # concat (map quote_char s) @ [CHR 0x22]"

section \<open>Slices\<close>

text \<open>
  \<^verbatim>\<open>sort.SliceStable\<close>: for a comparison that is a strict weak order, the stably sorted
  permutation is unique, and insertion from the right computes it.
\<close>

fun stable_insert :: "('a \<Rightarrow> 'a \<Rightarrow> bool) \<Rightarrow> 'a \<Rightarrow> 'a list \<Rightarrow> 'a list" where
  "stable_insert lt x [] = [x]"
| "stable_insert lt x (y # ys) = (if lt y x then y # stable_insert lt x ys else x # y # ys)"

definition stable_sort :: "('a \<Rightarrow> 'a \<Rightarrow> bool) \<Rightarrow> 'a list \<Rightarrow> 'a list" where
  "stable_sort lt xs = foldr (stable_insert lt) xs []"

definition strict_weak :: "('a \<Rightarrow> 'a \<Rightarrow> bool) \<Rightarrow> bool" where
  "strict_weak lt \<longleftrightarrow>
     (\<forall>x y. lt x y \<longrightarrow> \<not> lt y x) \<and> (\<forall>x y z. lt x y \<longrightarrow> lt x z \<or> lt z y)"

lemma mset_stable_insert [simp]: "mset (stable_insert lt x ys) = add_mset x (mset ys)"
  by (induction ys) auto

lemma mset_stable_sort [simp]: "mset (stable_sort lt xs) = mset xs"
  by (induction xs) (auto simp: stable_sort_def)

lemma set_stable_sort [simp]: "set (stable_sort lt xs) = set xs"
  using mset_stable_sort by (metis set_mset_mset)

lemma length_stable_sort [simp]: "length (stable_sort lt xs) = length xs"
  using mset_stable_sort by (metis size_mset)

lemma stable_sort_eq_Nil [simp]: "stable_sort lt xs = [] \<longleftrightarrow> xs = []"
  using length_stable_sort by (metis length_0_conv)

lemma distinct_map_stable_sort: "distinct (map f (stable_sort lt xs)) \<longleftrightarrow> distinct (map f xs)"
  by (metis mset_map mset_stable_sort distinct_count_atmost_1 mset_eq_imp_distinct_iff)

lemma stable_insert_sorted:
  assumes sw: "strict_weak lt" and "sorted_wrt (\<lambda>a b. \<not> lt b a) ys"
  shows "sorted_wrt (\<lambda>a b. \<not> lt b a) (stable_insert lt x ys)"
  using assms(2)
proof (induction ys)
  case (Cons y ys)
  have set_ins: "set (stable_insert lt x ys) = insert x (set ys)"
    by (metis mset_stable_insert set_mset_add_mset_insert set_mset_mset)
  show ?case
  proof (cases "lt y x")
    case True
    then have "\<not> lt x y" using sw unfolding strict_weak_def by blast
    with True Cons show ?thesis by (auto simp: set_ins)
  next
    case False
    have "\<not> lt z x" if "z \<in> set ys" for z
      using that False Cons.prems sw unfolding strict_weak_def by (auto; blast)
    with False Cons.prems show ?thesis by auto
  qed
qed simp

lemma stable_sort_sorted:
  assumes "strict_weak lt"
  shows "sorted_wrt (\<lambda>a b. \<not> lt b a) (stable_sort lt xs)"
  by (induction xs) (auto simp: stable_sort_def intro: stable_insert_sorted [OF assms])

text \<open>The head of a sorted slice is minimal: nothing in the slice is strictly before it.\<close>

lemma stable_sort_hd_min:
  assumes "strict_weak lt" "stable_sort lt xs = b # bs" "x \<in> set xs"
  shows "\<not> lt x b"
proof -
  from assms(3) have "x \<in> set (b # bs)" by (metis assms(2) set_stable_sort)
  then have x: "x = b \<or> x \<in> set bs" by simp
  have "sorted_wrt (\<lambda>a b. \<not> lt b a) (b # bs)"
    using stable_sort_sorted [OF assms(1), of xs] assms(2) by simp
  moreover have "\<not> lt b b" using assms(1) unfolding strict_weak_def by blast
  ultimately show ?thesis using x by auto
qed

text \<open>Elements the comparison does not separate keep their order.\<close>

lemma stable_insert_filter:
  assumes "\<And>y. y \<in> set ys \<Longrightarrow> P y \<Longrightarrow> P x \<Longrightarrow> \<not> lt y x"
  shows "filter P (stable_insert lt x ys) = filter P (x # ys)"
  using assms by (induction ys) auto

lemma stable_sort_stable:
  assumes "\<And>x y. x \<in> set xs \<Longrightarrow> y \<in> set xs \<Longrightarrow> P x \<Longrightarrow> P y \<Longrightarrow> \<not> lt y x"
  shows "filter P (stable_sort lt xs) = filter P xs"
  using assms
proof (induction xs)
  case (Cons x xs)
  have eq: "stable_sort lt (x # xs) = stable_insert lt x (stable_sort lt xs)"
    by (simp add: stable_sort_def)
  have "filter P (stable_insert lt x (stable_sort lt xs)) = filter P (x # stable_sort lt xs)"
    by (rule stable_insert_filter) (use Cons.prems in auto)
  with eq Cons show ?case by auto
qed (simp add: stable_sort_def)

text \<open>\<^verbatim>\<open>append\<close> of a value that is not there yet.\<close>

definition append_unique :: "'a list \<Rightarrow> 'a \<Rightarrow> 'a list" where
  "append_unique xs x = (if x \<in> set xs then xs else xs @ [x])"

lemma set_append_unique [simp]: "set (append_unique xs x) = insert x (set xs)"
  by (auto simp: append_unique_def)

lemma distinct_append_unique [simp]: "distinct xs \<Longrightarrow> distinct (append_unique xs x)"
  by (auto simp: append_unique_def)

section \<open>Maps with string keys\<close>

text \<open>
  A Go map is an association list whose first entry for a key counts. \<open>map_str m k\<close> is
  \<^verbatim>\<open>m[k]\<close> of a \<^verbatim>\<open>map[string]string\<close>: the empty string when the key is absent.
\<close>

type_synonym 'v gomap = "(string \<times> 'v) list"

definition map_len :: "'v gomap \<Rightarrow> nat" where
  "map_len m = length (remdups (map fst m))"

definition map_str :: "string gomap \<Rightarrow> string \<Rightarrow> string" where
  "map_str m k = (case map_of m k of None \<Rightarrow> [] | Some v \<Rightarrow> v)"

fun map_set :: "'v gomap \<Rightarrow> string \<Rightarrow> 'v \<Rightarrow> 'v gomap" where
  "map_set [] k v = [(k, v)]"
| "map_set ((k', v') # m) k v = (if k' = k then (k, v) # m else (k', v') # map_set m k v)"

lemma map_of_map_set [simp]: "map_of (map_set m k v) = (map_of m)(k \<mapsto> v)"
  by (induction m) auto

lemma map_len_0 [simp]: "map_len m = 0 \<longleftrightarrow> m = []"
  by (cases m) (auto simp: map_len_def)

lemma map_len_card: "map_len m = card (dom (map_of m))"
  by (metis dom_map_of_conv_image_fst length_remdups_card_conv list.set_map map_len_def)

section \<open>Results\<close>

text \<open>\<^verbatim>\<open>value, ok\<close> pairs and errors: \<open>Inl\<close> carries the error.\<close>

lemma sum_case_Inr: "(case r of Inl e \<Rightarrow> Inl e | Inr x \<Rightarrow> f x) = Inr y \<longleftrightarrow> (\<exists>x. r = Inr x \<and> f x = Inr y)"
  by (cases r) auto

definition opt_guard :: "bool \<Rightarrow> 'e \<Rightarrow> 'e option \<Rightarrow> 'e option" where
  "opt_guard b e k = (if b then Some e else k)"

lemma opt_guard_None [simp]: "opt_guard b e k = None \<longleftrightarrow> \<not> b \<and> k = None"
  by (simp add: opt_guard_def)

lemma mset_concat_map: "mset (concat (map f xs)) = \<Sum>\<^sub># (image_mset (\<lambda>x. mset (f x)) (mset xs))"
  by (induction xs) simp_all

lemma mset_concat_map_cong:
  "mset xs = mset ys \<Longrightarrow> mset (concat (map f xs)) = mset (concat (map f ys))"
  by (simp only: mset_concat_map)

end
