(* ===== verification/Go_Float.thy ===== *)
theory Go_Float
  imports Prelude Complex_Main
begin

text \<open>
  Go's \<^verbatim>\<open>float64\<close> for the arithmetic of scores. A finite \<^verbatim>\<open>float64\<close> is a rational; every
  operation rounds its exact result to the nearest number with a 53-bit significand, ties to
  even, as IEEE 754 binary64 does. The scores, weights and thresholds of the program lie
  between \<open>10 ^ -5\<close> and \<open>10 ^ 5\<close>, far from overflow and from the subnormal range, which are
  not modelled; \<^verbatim>\<open>NaN\<close> and the infinities are constructors of \<open>f64\<close>, because the code that
  reads a backend sample tests for them.
\<close>

section \<open>Rounding to a 53-bit significand\<close>

definition rnd_even :: "rat \<Rightarrow> int" where
  "rnd_even y =
     (let n = \<lfloor>y\<rfloor>; r = y - of_int n in
      if r < 1/2 then n else if r > 1/2 then n + 1 else if even n then n else n + 1)"

function int_log2 :: "int \<Rightarrow> nat" where
  "int_log2 n = (if n \<le> 1 then 0 else Suc (int_log2 (n div 2)))"
  by pat_completeness auto
termination
  by (relation "measure nat") auto

declare int_log2.simps [simp del]

definition ilog2 :: "rat \<Rightarrow> int" where
  "ilog2 x =
     (let (p, q) = quotient_of x;
          e = int (int_log2 p) - int (int_log2 q)
      in if 2 powi e \<le> x then e else e - 1)"

definition fl :: "rat \<Rightarrow> rat" where
  "fl x =
     (if x = 0 then 0
      else let u = 2 powi (ilog2 \<bar>x\<bar> - 52) in of_int (rnd_even (x / u)) * u)"

definition fadd :: "rat \<Rightarrow> rat \<Rightarrow> rat" where "fadd a b = fl (a + b)"
definition fsub :: "rat \<Rightarrow> rat \<Rightarrow> rat" where "fsub a b = fl (a - b)"
definition fmul :: "rat \<Rightarrow> rat \<Rightarrow> rat" where "fmul a b = fl (a * b)"
definition fdiv :: "rat \<Rightarrow> rat \<Rightarrow> rat" where "fdiv a b = fl (a / b)"

text \<open>The conversion \<^verbatim>\<open>int64(x)\<close> truncates towards zero.\<close>

definition ftrunc :: "rat \<Rightarrow> int" where
  "ftrunc x = (if x < 0 then - \<lfloor>- x\<rfloor> else \<lfloor>x\<rfloor>)"

text \<open>\<^verbatim>\<open>%.nf\<close>: the exact value, correctly rounded to \<open>n\<close> decimals.\<close>

definition pad_left :: "nat \<Rightarrow> string \<Rightarrow> string" where
  "pad_left n s = replicate (n - length s) (CHR ''0'') @ s"

definition fmt_fixed :: "nat \<Rightarrow> rat \<Rightarrow> string" where
  "fmt_fixed n x =
     (let m = rnd_even (\<bar>x\<bar> * 10 ^ n)
      in (if x < 0 then ''-'' else []) @ show_int (m div 10 ^ n)
         @ (if n = 0 then [] else ''.'' @ pad_left n (show_int (m mod 10 ^ n))))"

section \<open>Rounding is monotone and symmetric\<close>

lemma rnd_even_bounds: "of_int (rnd_even y) \<le> y + 1/2" "y - 1/2 \<le> of_int (rnd_even y)"
  unfolding rnd_even_def Let_def by (auto split: if_splits) (linarith)+

lemma rnd_even_of_int [simp]: "rnd_even (of_int n) = n"
  by (simp add: rnd_even_def)

lemma rnd_even_mono:
  assumes "x \<le> y"
  shows "rnd_even x \<le> rnd_even y"
proof -
  have fl: "\<lfloor>x\<rfloor> \<le> \<lfloor>y\<rfloor>" using assms by (rule floor_mono)
  show ?thesis
  proof (cases "\<lfloor>x\<rfloor> = \<lfloor>y\<rfloor>")
    case True
    then show ?thesis using assms unfolding rnd_even_def Let_def by auto
  next
    case False
    with fl have "\<lfloor>x\<rfloor> + 1 \<le> \<lfloor>y\<rfloor>" by simp
    then show ?thesis unfolding rnd_even_def Let_def by auto
  qed
qed

lemma rnd_even_neg: "rnd_even (- y) = - rnd_even y"
proof (cases "y = of_int \<lfloor>y\<rfloor>")
  case True
  then show ?thesis by (metis of_int_minus rnd_even_of_int)
next
  case False
  have "\<lfloor>- y\<rfloor> = - \<lfloor>y\<rfloor> - 1" using False
    by (smt (verit, ccfv_threshold) ceiling_altdef ceiling_def floor_of_int)
  then have "\<lfloor>y\<rfloor> = - \<lfloor>- y\<rfloor> - 1" "even \<lfloor>- y\<rfloor> \<longleftrightarrow> odd \<lfloor>y\<rfloor>" by auto
  then show ?thesis unfolding rnd_even_def Let_def by (auto simp: field_simps)
qed

lemma int_log2_bounds: "0 < n \<Longrightarrow> 2 ^ int_log2 n \<le> n \<and> n < 2 ^ Suc (int_log2 n)"
proof (induction n rule: int_log2.induct)
  case (1 n)
  show ?case
  proof (cases "n \<le> 1")
    case True
    with 1 show ?thesis by (subst (1 2) int_log2.simps) auto
  next
    case False
    with 1 have "2 ^ int_log2 (n div 2) \<le> n div 2 \<and> n div 2 < 2 ^ Suc (int_log2 (n div 2))"
      by auto
    with False show ?thesis by (subst (1 2) int_log2.simps) auto
  qed
qed

lemma ilog2_bounds:
  assumes "0 < x"
  shows "2 powi ilog2 x \<le> x" "x < 2 powi (ilog2 x + 1)"
proof -
  obtain p q where pq: "quotient_of x = (p, q)" by fastforce
  have q: "0 < q" using pq by (rule quotient_of_denom_pos)
  have x: "x = of_int p / of_int q" using pq by (rule quotient_of_div)
  with assms q have p: "0 < p" by (simp add: zero_less_divide_iff)
  define a b where "a = int_log2 p" and "b = int_log2 q"
  have "2 ^ a \<le> p \<and> p < 2 ^ Suc a" "2 ^ b \<le> q \<and> q < 2 ^ Suc b"
    unfolding a_def b_def by (rule int_log2_bounds, use p q in simp)+
  then have P: "(2::rat) ^ a \<le> of_int p" "of_int p < (2::rat) ^ Suc a"
    and Q: "(2::rat) ^ b \<le> of_int q" "of_int q < (2::rat) ^ Suc b"
    by (metis of_int_le_iff of_int_less_iff of_int_numeral of_int_power)+
  have lo: "2 powi (int a - int b - 1) \<le> x"
  proof -
    have "2 powi (int a - int b - 1) = (2::rat) ^ a / 2 ^ Suc b"
      by (simp add: power_int_diff power_int_add)
    also have "\<dots> \<le> of_int p / of_int q"
      using P Q q p by (intro frac_le) auto
    finally show ?thesis using x by simp
  qed
  have hi: "x < 2 powi (int a - int b + 1)"
  proof -
    have "of_int p / of_int q < (2::rat) ^ Suc a / 2 ^ b"
      using P Q q by (intro frac_less) (auto simp: p less_imp_le)
    also have "\<dots> = 2 powi (int a - int b + 1)"
      by (simp add: power_int_diff power_int_add field_simps)
    finally show ?thesis using x by simp
  qed
  have e: "ilog2 x = (if 2 powi (int a - int b) \<le> x then int a - int b else int a - int b - 1)"
    by (simp add: ilog2_def pq a_def b_def)
  show "2 powi ilog2 x \<le> x" using lo by (auto simp: e)
  show "x < 2 powi (ilog2 x + 1)" using hi by (auto simp: e)
qed

lemma powi_less_D: "(2::rat) powi a < 2 powi b \<Longrightarrow> a < b"
  by (metis linorder_not_less one_le_numeral power_int_increasing)

lemma ilog2_mono: "0 < x \<Longrightarrow> x \<le> y \<Longrightarrow> ilog2 x \<le> ilog2 y"
  using ilog2_bounds(1) [of x] ilog2_bounds(2) [of y] powi_less_D [of "ilog2 x" "ilog2 y + 1"]
  by linarith

lemma fl_0 [simp]: "fl 0 = 0"
  by (simp add: fl_def)

lemma fl_neg: "fl (- x) = - fl x"
  by (simp add: fl_def Let_def rnd_even_neg)

lemma fl_pos_bounds:
  assumes "0 < x"
  shows "2 powi ilog2 x \<le> fl x" "fl x \<le> 2 powi (ilog2 x + 1)"
proof -
  define u :: rat where "u = 2 powi (ilog2 x - 52)"
  have u: "0 < u" by (simp add: u_def)
  have eq: "fl x = of_int (rnd_even (x / u)) * u"
    using assms by (simp add: fl_def u_def Let_def)
  have lo: "2 powi ilog2 x = of_int (2 ^ 52) * u" and hi: "2 powi (ilog2 x + 1) = of_int (2 ^ 53) * u"
    by (simp_all add: u_def power_int_diff power_int_add)
  have "of_int (2 ^ 52) \<le> x / u"
    using ilog2_bounds(1) [OF assms] u by (simp add: lo pos_le_divide_eq)
  then have "2 ^ 52 \<le> rnd_even (x / u)" using rnd_even_mono rnd_even_of_int by metis
  then have "(of_int (2 ^ 52) :: rat) \<le> of_int (rnd_even (x / u))" by (rule of_int_le_iff [THEN iffD2])
  then show "2 powi ilog2 x \<le> fl x" unfolding lo eq using u by (intro mult_right_mono) auto
  have "x / u \<le> of_int (2 ^ 53)"
    using ilog2_bounds(2) [OF assms] u by (simp add: hi pos_divide_le_eq)
  then have "rnd_even (x / u) \<le> 2 ^ 53" using rnd_even_mono rnd_even_of_int by metis
  then have "of_int (rnd_even (x / u)) \<le> (of_int (2 ^ 53) :: rat)" by (rule of_int_le_iff [THEN iffD2])
  then show "fl x \<le> 2 powi (ilog2 x + 1)" unfolding hi eq using u by (intro mult_right_mono) auto
qed

text \<open>The rounding error relative to the exact value.\<close>

lemma fl_rel:
  assumes "0 \<le> x"
  shows "fl x \<le> x + x / 2 ^ 53" "x - x / 2 ^ 53 \<le> fl x"
proof -
  have "fl x \<le> x + x / 2 ^ 53 \<and> x - x / 2 ^ 53 \<le> fl x"
  proof (cases "x = 0")
    case False
    then have x: "0 < x" using assms by simp
    define u :: rat where "u = 2 powi (ilog2 x - 52)"
    have u: "0 < u" by (simp add: u_def)
    have "2 ^ 52 * u = 2 powi ilog2 x" by (simp add: u_def power_int_diff)
    then have le: "u / 2 \<le> x / 2 ^ 53" using ilog2_bounds(1) [OF x] by simp
    have eq: "fl x = of_int (rnd_even (x / u)) * u" using x by (simp add: fl_def u_def Let_def)
    have b: "of_int (rnd_even (x / u)) * u \<le> (x / u + 1 / 2) * u" "(x / u - 1 / 2) * u \<le> of_int (rnd_even (x / u)) * u"
      using u rnd_even_bounds [of "x / u"] by (auto intro!: mult_right_mono)
    have "(x / u + 1 / 2) * u = x + u / 2" "(x / u - 1 / 2) * u = x - u / 2"
      using u by (simp_all add: algebra_simps)
    with b show ?thesis using le unfolding eq by linarith
  qed simp
  then show "fl x \<le> x + x / 2 ^ 53" "x - x / 2 ^ 53 \<le> fl x" by auto
qed

lemma fl_pos: "0 < x \<Longrightarrow> 0 < fl x"
  using fl_pos_bounds(1) [of x] by (meson less_le_trans zero_less_numeral zero_less_power_int)

lemma fl_mono_pos:
  assumes "0 < x" "x \<le> y"
  shows "fl x \<le> fl y"
proof (cases "ilog2 x = ilog2 y")
  case True
  define u :: rat where "u = 2 powi (ilog2 x - 52)"
  have u: "0 < u" by (simp add: u_def)
  have "rnd_even (x / u) \<le> rnd_even (y / u)"
    using assms u by (intro rnd_even_mono divide_right_mono) auto
  then have "of_int (rnd_even (x / u)) * u \<le> of_int (rnd_even (y / u)) * u"
    using u by (intro mult_right_mono) auto
  then show ?thesis using assms True by (simp add: fl_def u_def Let_def)
next
  case False
  with ilog2_mono [OF assms] have "ilog2 x + 1 \<le> ilog2 y" by simp
  then have "(2::rat) powi (ilog2 x + 1) \<le> 2 powi ilog2 y" by (intro power_int_increasing) auto
  with fl_pos_bounds(2) [of x] fl_pos_bounds(1) [of y] assms show ?thesis by linarith
qed

theorem fl_mono: "x \<le> y \<Longrightarrow> fl x \<le> fl y"
proof -
  assume xy: "x \<le> y"
  consider "0 < x" | "x = 0" | "x < 0" "y \<le> 0" | "x < 0" "0 < y" by linarith
  then show ?thesis
  proof cases
    case 1
    then show ?thesis using xy by (rule fl_mono_pos)
  next
    case 2
    then show ?thesis using xy fl_pos [of y] by (cases "y = 0") auto
  next
    case 3
    then show ?thesis
      using xy fl_mono_pos [of "- y" "- x"] fl_pos [of "- x"] fl_neg [of x] fl_neg [of y]
      by (cases "y = 0") auto
  next
    case 4
    then show ?thesis using fl_pos [of "- x"] fl_pos [of y] fl_neg [of x] by linarith
  qed
qed

lemma fl_nonneg: "0 \<le> x \<Longrightarrow> 0 \<le> fl x"
  using fl_mono [of 0 x] by simp

lemma fadd_mono: "a \<le> a' \<Longrightarrow> b \<le> b' \<Longrightarrow> fadd a b \<le> fadd a' b'"
  by (simp add: fadd_def fl_mono)

lemma fsub_mono: "a \<le> a' \<Longrightarrow> b' \<le> b \<Longrightarrow> fsub a b \<le> fsub a' b'"
  by (simp add: fsub_def fl_mono)

lemma fmul_mono: "0 \<le> c \<Longrightarrow> a \<le> b \<Longrightarrow> fmul a c \<le> fmul b c"
  by (simp add: fmul_def fl_mono mult_right_mono)

lemma fmul_mono2: "0 \<le> c \<Longrightarrow> a \<le> b \<Longrightarrow> fmul c a \<le> fmul c b"
  by (simp add: fmul_def fl_mono mult_left_mono)

lemma fdiv_mono: "0 < c \<Longrightarrow> a \<le> b \<Longrightarrow> fdiv a c \<le> fdiv b c"
  by (simp add: fdiv_def fl_mono divide_right_mono)

lemma ftrunc_mono: "a \<le> b \<Longrightarrow> ftrunc a \<le> ftrunc b"
proof -
  assume ab: "a \<le> b"
  show ?thesis
  proof (cases "a < 0 \<and> \<not> b < 0")
    case True
    have "0 \<le> \<lfloor>- a\<rfloor>" "0 \<le> \<lfloor>b\<rfloor>"
      unfolding zero_le_floor using True by simp_all
    then have "- \<lfloor>- a\<rfloor> \<le> \<lfloor>b\<rfloor>" by linarith
    with True show ?thesis by (simp add: ftrunc_def)
  next
    case False
    then show ?thesis using ab floor_mono [OF ab] floor_mono [of "- b" "- a"]
      by (auto simp: ftrunc_def)
  qed
qed

text \<open>A number with at most 53 significant bits is its own rounding.\<close>

lemma fl_exact:
  assumes "y = of_int k * 2 powi e" and "0 < k" and "k \<le> 2 ^ 53"
  shows "fl y = y"
proof -
  have y: "0 < y" using assms by simp
  define l where "l = ilog2 y"
  have lo: "2 powi l \<le> y" and hi: "y < 2 powi (l + 1)" using ilog2_bounds [OF y] by (simp_all add: l_def)
  have ub: "y \<le> 2 powi (53 + e)"
  proof -
    have "(of_int k :: rat) \<le> of_int (2 ^ 53)" using assms(3) by (simp only: of_int_le_iff)
    then show ?thesis using assms(1) by (simp add: power_int_add)
  qed
  have "l \<le> 53 + e"
  proof (rule ccontr)
    assume "\<not> l \<le> 53 + e"
    then have "(2::rat) powi (53 + e) < 2 powi l" by (intro power_int_strict_increasing) auto
    then show False using lo ub by simp
  qed
  moreover have "\<exists>m. y / 2 powi (l - 52) = of_int m" if "l \<le> 52 + e"
  proof -
    have "y / 2 powi (l - 52) = of_int k * 2 powi (e - l + 52)" by (simp add: assms(1) power_int_diff power_int_add)
    also have "\<dots> = of_int (k * 2 ^ nat (e - l + 52))" using that by (simp add: power_int_def)
    finally show ?thesis ..
  qed
  moreover have "\<exists>m. y / 2 powi (l - 52) = of_int m" if "l = 53 + e"
  proof -
    have "y = 2 powi (53 + e)" using lo ub that by simp
    then have "y / 2 powi (l - 52) = of_int (2 ^ 52)" by (simp add: that power_int_add power_int_diff)
    then show ?thesis ..
  qed
  ultimately obtain m where "y / 2 powi (l - 52) = of_int m"
    by (cases "l = 53 + e") (blast, force)
  then show ?thesis using y by (simp add: fl_def Let_def l_def [symmetric]) (simp add: field_simps)
qed

lemma fl_fl [simp]: "fl (fl x) = fl x"
proof -
  have pos: "fl (fl z) = fl z" if "0 < z" for z
  proof -
    define u :: rat where "u = 2 powi (ilog2 z - 52)"
    have eq: "fl z = of_int (rnd_even (z / u)) * 2 powi (ilog2 z - 52)" using that by (simp add: fl_def u_def Let_def)
    have "fl z \<le> of_int (2 ^ 53) * u" using fl_pos_bounds(2) [OF that] by (simp add: u_def power_int_add power_int_diff)
    then have "of_int (rnd_even (z / u)) \<le> (of_int (2 ^ 53) :: rat)" using eq by (simp add: u_def)
    then have "rnd_even (z / u) \<le> 2 ^ 53" by (simp only: of_int_le_iff)
    moreover have "(0::rat) < of_int (rnd_even (z / u))"
      using fl_pos [OF that] unfolding eq by (rule zero_less_mult_pos2) simp
    ultimately show ?thesis using fl_exact [OF eq] by simp
  qed
  consider "x = 0" | "0 < x" | "0 < - x" by linarith
  then show ?thesis
  proof cases
    case 3
    then show ?thesis using pos [OF 3] by (simp add: fl_neg)
  qed (auto simp: pos)
qed

section \<open>Bounds on sums\<close>

lemma fl_upper: "0 \<le> a \<Longrightarrow> a \<le> 1 \<Longrightarrow> 0 \<le> fl a \<and> fl a \<le> a + 1 / 2 ^ 53"
  using fl_rel(1) [of a] fl_nonneg [of a] by auto

lemma fadd_upper: "0 \<le> a \<Longrightarrow> 0 \<le> b \<Longrightarrow> a + b \<le> c \<Longrightarrow> c \<le> 1 \<Longrightarrow> 0 \<le> fadd a b \<and> fadd a b \<le> c + 1 / 2 ^ 53"
  using fl_upper [of "a + b"] by (auto simp: fadd_def)

lemma total_upper:
  "list_all (\<lambda>x. 0 \<le> x) (w # ws) \<Longrightarrow> sum_list (w # ws) \<le> c \<Longrightarrow> c + of_nat (length ws) / 2 ^ 53 \<le> 1 \<Longrightarrow>
     0 \<le> foldl fadd w ws \<and> foldl fadd w ws \<le> c + of_nat (length ws) / 2 ^ 53"
proof (induction ws arbitrary: w c)
  case (Cons x ws)
  have "0 \<le> fadd w x" "fadd w x \<le> w + x + 1 / 2 ^ 53"
    using Cons.prems fadd_upper [of w x "w + x"] sum_list_nonneg [of ws] by (auto simp: list_all_iff add_divide_distrib)
  then show ?case using Cons.IH [of "fadd w x" "c + 1 / 2 ^ 53"] Cons.prems by (auto simp: add_divide_distrib)
qed auto

end
