(* ===== verification/Values.thy ===== *)
theory Values
  imports Go_Float
begin

text \<open>
  Dynamically typed Go values (\<^verbatim>\<open>any\<close>): what a \<^verbatim>\<open>map[string]any\<close> of action parameters,
  signal bodies or handler results can hold. The constructors are the dynamic types the code
  distinguishes in its type switches.
\<close>

section \<open>Values\<close>

datatype f64 = Fin rat | NaN | PosInf | NegInf

datatype gval =
    VNil
  | VBool bool
  | VInt int
  | VInt32 int
  | VInt64 int
  | VFloat f64
  | VNumber string
  | VStr string
  | VTime int
  | VStrs "string list"
  | VStrMap "(string \<times> string) list"
  | VList "gval list"
  | VMap "(string \<times> gval) list"

text \<open>Reading a key of a \<^verbatim>\<open>map[string]any\<close>: \<^verbatim>\<open>nil\<close> when the key is absent.\<close>

definition map_any :: "gval gomap \<Rightarrow> string \<Rightarrow> gval" where
  "map_any m k = (case map_of m k of None \<Rightarrow> VNil | Some v \<Rightarrow> v)"

section \<open>Integer conversions\<close>

definition min_int64 :: int where "min_int64 = - (2 ^ 63)"
definition max_int64 :: int where "max_int64 = 2 ^ 63 - 1"

definition is_digit :: "char \<Rightarrow> bool" where
  "is_digit c \<longleftrightarrow> 48 \<le> (of_char c :: int) \<and> of_char c \<le> (57 :: int)"

definition digits_val :: "string \<Rightarrow> int" where
  "digits_val s = foldl (\<lambda>n c. 10 * n + (of_char c - 48)) 0 s"

text \<open>\<^verbatim>\<open>json.Number.Int64\<close> is \<^verbatim>\<open>strconv.ParseInt(s, 10, 64)\<close>: a sign, digits, and a range check.\<close>

definition parse_int64 :: "string \<Rightarrow> int option" where
  "parse_int64 s =
     (let (neg, ds) = (case s of [] \<Rightarrow> (False, [])
                       | c # r \<Rightarrow> if c = CHR ''-'' then (True, r)
                                 else if c = CHR ''+'' then (False, r) else (False, s));
          v = (if neg then - digits_val ds else digits_val ds)
      in if ds = [] \<or> \<not> list_all is_digit ds then None
         else if min_int64 \<le> v \<and> v \<le> max_int64 then Some v else None)"

text \<open>Arithmetic on \<^verbatim>\<open>int64\<close> wraps around.\<close>

definition wrap64 :: "int \<Rightarrow> int" where
  "wrap64 n = (n + 2 ^ 63) mod 2 ^ 64 - 2 ^ 63"

lemma wrap64_id: "min_int64 \<le> n \<Longrightarrow> n \<le> max_int64 \<Longrightarrow> wrap64 n = n"
  by (simp add: wrap64_def min_int64_def max_int64_def)

text \<open>
  The conversion \<^verbatim>\<open>int(x)\<close> of a \<^verbatim>\<open>float64\<close>. Outside the range of \<^verbatim>\<open>int\<close> Go leaves the
  result to the implementation; amd64 yields the least \<^verbatim>\<open>int\<close>.
\<close>

definition f64_to_int :: "rat \<Rightarrow> int" where
  "f64_to_int r =
     (let n = ftrunc r in if min_int64 \<le> n \<and> n \<le> max_int64 then n else min_int64)"

end
