(* ===== verification/Go_Time.thy ===== *)
theory Go_Time
  imports Values
begin

text \<open>
  Instants and durations. A \<^verbatim>\<open>time.Time\<close> is the number of nanoseconds since the Unix epoch, in
  UTC, and a \<^verbatim>\<open>time.Duration\<close> a number of nanoseconds; a \<^verbatim>\<open>*time.Time\<close> is an option. The theory
  holds the units, the zero instant, the truncation the database and the audit ledger apply, and
  the \<^verbatim>\<open>RFC3339Nano\<close> rendering that goes into audit hashes and JSON, and its parser.
\<close>

section \<open>Units\<close>

definition Microsecond :: int where "Microsecond = 1000"
definition Millisecond :: int where "Millisecond = 1000000"
definition Second :: int where "Second = 1000000000"
definition Minute :: int where "Minute = 60 * Second"
definition Hour :: int where "Hour = 60 * Minute"

lemmas duration_units = Microsecond_def Millisecond_def Second_def Minute_def Hour_def

text \<open>\<^verbatim>\<open>time.Time{}\<close> is midnight of 1 January of year 1.\<close>

definition zero_time :: int where
  "zero_time = - 62135596800 * Second"

text \<open>\<^verbatim>\<open>Truncate(time.Microsecond)\<close>, which is also the precision of a \<^verbatim>\<open>TIMESTAMPTZ\<close> column.\<close>

definition trunc_micro :: "int \<Rightarrow> int" where
  "trunc_micro t = t div Microsecond * Microsecond"

lemma trunc_micro_idem [simp]: "trunc_micro (trunc_micro t) = trunc_micro t"
  by (simp add: trunc_micro_def Microsecond_def)

lemma trunc_micro_le: "trunc_micro t \<le> t"
  by (simp add: trunc_micro_def Microsecond_def)

section \<open>Rendering\<close>

text \<open>
  The proleptic Gregorian date of a day number counted from the epoch: years start in March, so
  the leap day is the last of a 400-year era.
\<close>

definition civil :: "int \<Rightarrow> int \<times> int \<times> int" where
  "civil days =
     (let z = days + 719468;
          era = z div 146097;
          doe = z mod 146097;
          yoe = (doe - doe div 1460 + doe div 36524 - doe div 146096) div 365;
          doy = doe - (365 * yoe + yoe div 4 - yoe div 100);
          mp = (5 * doy + 2) div 153;
          d = doy - (153 * mp + 2) div 5 + 1;
          m = (if mp < 10 then mp + 3 else mp - 9);
          y = yoe + era * 400 + (if m \<le> 2 then 1 else 0)
      in (y, m, d))"

fun zero_pad :: "nat \<Rightarrow> string \<Rightarrow> string" where
  "zero_pad n s = replicate (n - length s) (CHR ''0'') @ s"

definition trim_zeros :: "string \<Rightarrow> string" where
  "trim_zeros s = rev (dropWhile (\<lambda>c. c = CHR ''0'') (rev s))"

definition fraction :: "int \<Rightarrow> string" where
  "fraction ns = (if ns = 0 then [] else ''.'' @ trim_zeros (zero_pad 9 (show_int ns)))"

definition rfc3339nano :: "int \<Rightarrow> string" where
  "rfc3339nano t =
     (let secs = t div Second; ns = t mod Second; sod = secs mod 86400;
          (y, m, d) = civil (secs div 86400)
      in zero_pad 4 (show_int y) @ ''-'' @ zero_pad 2 (show_int m) @ ''-'' @ zero_pad 2 (show_int d) @
         ''T'' @ zero_pad 2 (show_int (sod div 3600)) @ '':'' @ zero_pad 2 (show_int (sod mod 3600 div 60)) @
         '':'' @ zero_pad 2 (show_int (sod mod 60)) @ fraction ns @ ''Z'')"

lemma rfc3339nano_epoch: "rfc3339nano 0 = ''1970-01-01T00:00:00Z''"
  by code_simp

lemma rfc3339nano_sample:
  "rfc3339nano (1767225600 * Second + 120500000) = ''2026-01-01T00:00:00.1205Z''"
  by code_simp

lemma rfc3339nano_zero_time: "rfc3339nano zero_time = ''0001-01-01T00:00:00Z''"
  by code_simp

text \<open>\<^verbatim>\<open>Duration.String\<close>.\<close>

definition unit_fraction :: "nat \<Rightarrow> int \<Rightarrow> string" where
  "unit_fraction n v = (let f = v mod 10 ^ n in if f = 0 then [] else ''.'' @ trim_zeros (zero_pad n (show_int f)))"

definition duration_string :: "int \<Rightarrow> string" where
  "duration_string d =
     (let u = abs d; s = u div Second; sign = (if d < 0 then ''-'' else [])
      in if d = 0 then ''0s''
         else if u < Microsecond then sign @ show_int u @ ''ns''
         else if u < Millisecond then sign @ show_int (u div Microsecond) @ unit_fraction 3 u @ [CHR 0xC2, CHR 0xB5] @ ''s''
         else if u < Second then sign @ show_int (u div Millisecond) @ unit_fraction 6 u @ ''ms''
         else sign @ (if 3600 \<le> s then show_int (s div 3600) @ ''h'' else []) @
              (if 60 \<le> s then show_int (s div 60 mod 60) @ ''m'' else []) @
              show_int (s mod 60) @ unit_fraction 9 u @ ''s'')"

lemma duration_string_samples:
  "duration_string (2 * Minute) = ''2m0s''" "duration_string (1500 * Millisecond) = ''1.5s''"
  "duration_string (90 * Minute) = ''1h30m0s''"
  by code_simp+

section \<open>Parsing\<close>

text \<open>
  \<^verbatim>\<open>time.Time\<close> reads JSON strings in strict RFC 3339: fixed-width fields in range, an optional fraction
  of which nine digits count, and \<^verbatim>\<open>Z\<close> or a numeric offset.
\<close>

definition days_from_civil :: "int \<Rightarrow> int \<Rightarrow> int \<Rightarrow> int" where
  "days_from_civil y m d =
     (let y' = (if m \<le> 2 then y - 1 else y); era = y' div 400; yoe = y' mod 400;
          doy = (153 * (if m > 2 then m - 3 else m + 9) + 2) div 5 + d - 1;
          doe = yoe * 365 + yoe div 4 - yoe div 100 + doy
      in era * 146097 + doe - 719468)"

definition leap_year :: "int \<Rightarrow> bool" where
  "leap_year y \<longleftrightarrow> y mod 4 = 0 \<and> (y mod 100 \<noteq> 0 \<or> y mod 400 = 0)"

definition days_in :: "int \<Rightarrow> int \<Rightarrow> int" where
  "days_in y m =
     (if m = 2 then (if leap_year y then 29 else 28) else if m \<in> set [4, 6, 9, 11] then 30 else 31)"

definition digits_field :: "nat \<Rightarrow> int \<Rightarrow> int \<Rightarrow> string \<Rightarrow> (int \<times> string) option" where
  "digits_field n lo hi s =
     (let ds = take n s; v = digits_val ds
      in if length ds = n \<and> list_all is_digit ds \<and> lo \<le> v \<and> v \<le> hi then Some (v, drop n s) else None)"

definition expect_char :: "char \<Rightarrow> string \<Rightarrow> string option" where
  "expect_char c s = (case s of [] \<Rightarrow> None | x # r \<Rightarrow> if x = c then Some r else None)"

definition parse_fraction :: "string \<Rightarrow> (int \<times> string) option" where
  "parse_fraction s =
     (case s of
        [] \<Rightarrow> Some (0, s)
      | c # r \<Rightarrow>
          if c \<noteq> CHR ''.'' then Some (0, s)
          else let ds = takeWhile is_digit r in
            if ds = [] then None
            else Some (digits_val (take 9 (ds @ replicate 9 (CHR ''0''))), dropWhile is_digit r))"

text \<open>The offset from UTC in seconds; nothing may follow it.\<close>

definition parse_zone :: "string \<Rightarrow> int option" where
  "parse_zone s =
     (if s = ''Z'' then Some 0
      else case s of
        [] \<Rightarrow> None
      | c # r \<Rightarrow>
          if c \<noteq> CHR ''+'' \<and> c \<noteq> CHR ''-'' then None
          else Option.bind (digits_field 2 0 23 r) (\<lambda>(hh, r1).
               Option.bind (expect_char (CHR '':'') r1) (\<lambda>r2.
               Option.bind (digits_field 2 0 59 r2) (\<lambda>(mm, r3).
               if r3 \<noteq> [] then None
               else Some ((if c = CHR ''-'' then -1 else 1) * (hh * 3600 + mm * 60))))))"

definition parse_rfc3339 :: "string \<Rightarrow> int option" where
  "parse_rfc3339 s =
     Option.bind (digits_field 4 0 9999 s) (\<lambda>(y, s).
     Option.bind (expect_char (CHR ''-'') s) (\<lambda>s.
     Option.bind (digits_field 2 1 12 s) (\<lambda>(m, s).
     Option.bind (expect_char (CHR ''-'') s) (\<lambda>s.
     Option.bind (digits_field 2 1 (days_in y m) s) (\<lambda>(d, s).
     Option.bind (expect_char (CHR ''T'') s) (\<lambda>s.
     Option.bind (digits_field 2 0 23 s) (\<lambda>(hh, s).
     Option.bind (expect_char (CHR '':'') s) (\<lambda>s.
     Option.bind (digits_field 2 0 59 s) (\<lambda>(mm, s).
     Option.bind (expect_char (CHR '':'') s) (\<lambda>s.
     Option.bind (digits_field 2 0 59 s) (\<lambda>(ss, s).
     Option.bind (parse_fraction s) (\<lambda>(ns, s).
     Option.bind (parse_zone s) (\<lambda>off.
     Some ((days_from_civil y m d * 86400 + hh * 3600 + mm * 60 + ss - off) * Second + ns))))))))))))))"

lemma parse_rfc3339_samples:
  "parse_rfc3339 ''1970-01-01T00:00:00Z'' = Some 0"
  "parse_rfc3339 ''2024-02-29T12:34:56.789+05:30'' = Some 1709190296789000000"
  "parse_rfc3339 ''0001-01-01T00:00:00Z'' = Some zero_time"
  "parse_rfc3339 ''2023-02-29T00:00:00Z'' = None"
  by code_simp+

section \<open>Parsing durations\<close>

text \<open>
  \<^verbatim>\<open>time.ParseDuration\<close>: a sign and terms of digits, a fraction and a unit. Whole parts are counted in a
  64-bit register whose overflow is an error; digits of a fraction that no longer fit are dropped, and
  the fraction is scaled in \<^verbatim>\<open>float64\<close>.
\<close>

fun leadingInt :: "int \<Rightarrow> string \<Rightarrow> (int \<times> string) option" where
  "leadingInt x [] = Some (x, [])"
| "leadingInt x (c # s) =
     (if \<not> is_digit c then Some (x, c # s)
      else if x > 2 ^ 63 div 10 then None
      else let y = x * 10 + (of_char c - 48) in if y > 2 ^ 63 then None else leadingInt y s)"

fun leadingFraction :: "int \<Rightarrow> rat \<Rightarrow> bool \<Rightarrow> string \<Rightarrow> int \<times> rat \<times> string" where
  "leadingFraction x scale overflow [] = (x, scale, [])"
| "leadingFraction x scale overflow (c # s) =
     (if \<not> is_digit c then (x, scale, c # s)
      else if overflow \<or> x > (2 ^ 63 - 1) div 10 then leadingFraction x scale True s
      else let y = x * 10 + (of_char c - 48) in
           if y > 2 ^ 63 then leadingFraction x scale True s
           else leadingFraction y (fmul scale 10) False s)"

definition duration_unit :: "string \<Rightarrow> int option" where
  "duration_unit =
     map_of [(''ns'', 1), (''us'', Microsecond), ([CHR 0xC2, CHR 0xB5, CHR ''s''], Microsecond),
       ([CHR 0xCE, CHR 0xBC, CHR ''s''], Microsecond), (''ms'', Millisecond), (''s'', Second), (''m'', Minute), (''h'', Hour)]"

definition number_char :: "char \<Rightarrow> bool" where
  "number_char c \<longleftrightarrow> c = CHR ''.'' \<or> is_digit c"

text \<open>One term, and what follows it.\<close>

definition duration_term :: "string \<Rightarrow> (int \<times> string) option" where
  "duration_term s =
     (if s = [] \<or> \<not> number_char (hd s) then None
      else case leadingInt 0 s of
        None \<Rightarrow> None
      | Some (v, s1) \<Rightarrow>
          (let pre = length s1 \<noteq> length s;
               dot = s1 \<noteq> [] \<and> hd s1 = CHR ''.'';
               (f, scale, s2) = (if dot then leadingFraction 0 1 False (tl s1) else (0, 1, s1));
               post = dot \<and> length s2 \<noteq> length (tl s1);
               u = takeWhile (\<lambda>c. \<not> number_char c) s2
           in if \<not> pre \<and> \<not> post \<or> u = [] then None
              else case duration_unit u of
                None \<Rightarrow> None
              | Some unit \<Rightarrow>
                  if v > 2 ^ 63 div unit then None
                  else let n = v * unit + (if f > 0 then ftrunc (fmul (fl (of_int f)) (fdiv (of_int unit) scale)) else 0)
                       in if n > 2 ^ 63 then None else Some (n, dropWhile (\<lambda>c. \<not> number_char c) s2)))"

lemma leadingInt_length: "leadingInt x s = Some (v, s1) \<Longrightarrow> length s1 \<le> length s"
  by (induction x s rule: leadingInt.induct) (auto simp: Let_def split: if_splits)

lemma leadingFraction_length: "leadingFraction x scale ov s = (f, sc, s1) \<Longrightarrow> length s1 \<le> length s"
  by (induction x scale ov s rule: leadingFraction.induct) (auto simp: Let_def split: if_splits)

lemma dropWhile_shorter: "takeWhile P s \<noteq> [] \<Longrightarrow> length (dropWhile P s) < length s"
  by (cases s) (auto simp: less_Suc_eq_le length_dropWhile_le split: if_splits)

lemma duration_term_length: "duration_term s = Some (n, rest) \<Longrightarrow> length rest < length s"
proof -
  assume a: "duration_term s = Some (n, rest)"
  then obtain v s1 where s1: "leadingInt 0 s = Some (v, s1)" by (auto simp: duration_term_def split: if_splits option.splits)
  define r where "r = (if s1 \<noteq> [] \<and> hd s1 = CHR ''.'' then leadingFraction 0 1 False (tl s1) else (0, 1, s1))"
  obtain f sc s2 where r: "r = (f, sc, s2)" by (cases r)
  have "length s2 \<le> length s1" using r leadingFraction_length [of 0 1 False "tl s1" f sc s2] by (auto simp: r_def split: if_splits)
  moreover have "takeWhile (\<lambda>c. \<not> number_char c) s2 \<noteq> []" "rest = dropWhile (\<lambda>c. \<not> number_char c) s2"
    using a s1 r unfolding r_def duration_term_def by (auto simp: Let_def split: if_splits option.splits)
  ultimately show ?thesis using leadingInt_length [OF s1] dropWhile_shorter by (metis le_trans less_le_trans)
qed

function duration_terms :: "int \<Rightarrow> string \<Rightarrow> int option" where
  "duration_terms d s =
     (if s = [] then Some d
      else case duration_term s of
        None \<Rightarrow> None
      | Some (n, rest) \<Rightarrow> if d + n > 2 ^ 63 then None else duration_terms (d + n) rest)"
  by auto
termination
  by (relation "measure (\<lambda>(d, s). length s)") (auto dest: duration_term_length)

declare duration_terms.simps [simp del]

definition ParseDuration :: "string \<Rightarrow> int option" where
  "ParseDuration s =
     (let neg = (s \<noteq> [] \<and> hd s = CHR ''-''); s = (if s \<noteq> [] \<and> (hd s = CHR ''-'' \<or> hd s = CHR ''+'') then tl s else s)
      in if s = ''0'' then Some 0
         else if s = [] then None
         else case duration_terms 0 s of
           None \<Rightarrow> None
         | Some d \<Rightarrow> if neg then Some (- d) else if d > 2 ^ 63 - 1 then None else Some d)"

lemma ParseDuration_samples:
  "ParseDuration ''1h15m30s'' = Some (Hour + 15 * Minute + 30 * Second)"
  "ParseDuration ''-1.5h'' = Some (- 90 * Minute)" "ParseDuration ''5'' = None" "ParseDuration ''.s'' = None"
  by code_simp+

end
