(* ===== verification/Json.thy ===== *)
theory Json
  imports Values Go_Time
begin

text \<open>
  JSON text as \<^verbatim>\<open>encoding/json\<close> writes and reads it: string escaping with UTF-8 validation and
  HTML escaping, numbers, objects with sorted keys, and a decoder for whole values. The audit
  ledger hashes this text, the outbox stores it, and action parameters and results travel
  through it. \<^verbatim>\<open>Marshal\<close> fails on values JSON cannot express, so the encoder returns an option.
\<close>

section \<open>UTF-8\<close>

definition byte_in :: "int \<Rightarrow> int \<Rightarrow> char \<Rightarrow> bool" where
  "byte_in lo hi c \<longleftrightarrow> lo \<le> of_char c \<and> of_char c \<le> hi"

text \<open>
  The number of bytes of the UTF-8 sequence that starts the string, 0 when there is none: the
  accept ranges of \<^verbatim>\<open>utf8.DecodeRune\<close>, which exclude overlong forms, surrogates and code points
  above \<^verbatim>\<open>U+10FFFF\<close>.
\<close>

definition rune2 :: "string \<Rightarrow> bool" where
  "rune2 s \<longleftrightarrow> 2 \<le> length s \<and> byte_in 0xC2 0xDF (s ! 0) \<and> byte_in 0x80 0xBF (s ! 1)"

definition rune3 :: "string \<Rightarrow> bool" where
  "rune3 s \<longleftrightarrow>
     3 \<le> length s \<and> byte_in 0xE0 0xEF (s ! 0) \<and>
     byte_in (if s ! 0 = CHR 0xE0 then 0xA0 else 0x80) (if s ! 0 = CHR 0xED then 0x9F else 0xBF) (s ! 1) \<and>
     byte_in 0x80 0xBF (s ! 2)"

definition rune4 :: "string \<Rightarrow> bool" where
  "rune4 s \<longleftrightarrow>
     4 \<le> length s \<and> byte_in 0xF0 0xF4 (s ! 0) \<and>
     byte_in (if s ! 0 = CHR 0xF0 then 0x90 else 0x80) (if s ! 0 = CHR 0xF4 then 0x8F else 0xBF) (s ! 1) \<and>
     byte_in 0x80 0xBF (s ! 2) \<and> byte_in 0x80 0xBF (s ! 3)"

definition rune_len :: "string \<Rightarrow> nat" where
  "rune_len s =
     (if s = [] then 0 else if byte_in 0 127 (s ! 0) then 1 else if rune2 s then 2
      else if rune3 s then 3 else if rune4 s then 4 else 0)"

lemma rune_len_le: "rune_len s \<le> length s"
  by (cases s) (auto simp: rune_len_def rune2_def rune3_def rune4_def)

function valid_utf8 :: "string \<Rightarrow> bool" where
  "valid_utf8 s =
     (if s = [] then True else if rune_len s = 0 then False else valid_utf8 (drop (rune_len s) s))"
  by pat_completeness auto
termination
  by (relation "measure length") auto

declare valid_utf8.simps [simp del]

definition rune_bytes :: "int \<Rightarrow> string" where
  "rune_bytes n =
     (if n < 0x80 then [char_of n]
      else if n < 0x800 then [char_of (0xC0 + n div 64), char_of (0x80 + n mod 64)]
      else if n < 0x10000 then
        [char_of (0xE0 + n div 4096), char_of (0x80 + n div 64 mod 64), char_of (0x80 + n mod 64)]
      else
        [char_of (0xF0 + n div 262144), char_of (0x80 + n div 4096 mod 64),
         char_of (0x80 + n div 64 mod 64), char_of (0x80 + n mod 64)])"

definition replacement :: string where
  "replacement = [CHR 0xEF, CHR 0xBF, CHR 0xBD]"

section \<open>Strings\<close>

definition unicode_escape :: "int \<Rightarrow> string" where
  "unicode_escape n =
     [CHR 0x5C, CHR ''u'', hex_digit (n div 4096), hex_digit (n div 256 mod 16),
      hex_digit (n div 16 mod 16), hex_digit (n mod 16)]"

definition json_byte :: "char \<Rightarrow> string" where
  "json_byte c =
     (if c = CHR 0x22 \<or> c = CHR 0x5C then [CHR 0x5C, c]
      else if c = CHR 8 then [CHR 0x5C, CHR ''b''] else if c = CHR 12 then [CHR 0x5C, CHR ''f'']
      else if c = CHR 10 then [CHR 0x5C, CHR ''n''] else if c = CHR 13 then [CHR 0x5C, CHR ''r'']
      else if c = CHR 9 then [CHR 0x5C, CHR ''t'']
      else if byte_in 0 31 c \<or> c = CHR ''<'' \<or> c = CHR ''>'' \<or> c = CHR ''&'' then unicode_escape (of_char c)
      else [c])"

text \<open>One step over a non-ASCII byte: how many bytes it takes and what is written.\<close>

definition json_rune :: "string \<Rightarrow> nat \<times> string" where
  "json_rune s =
     (if rune_len s = 0 then (1, unicode_escape 0xFFFD)
      else if take 3 s = [CHR 0xE2, CHR 0x80, CHR 0xA8] then (3, unicode_escape 0x2028)
      else if take 3 s = [CHR 0xE2, CHR 0x80, CHR 0xA9] then (3, unicode_escape 0x2029)
      else (rune_len s, take (rune_len s) s))"

lemma json_rune_pos: "0 < fst (json_rune s)"
  by (auto simp: json_rune_def)

function json_body :: "string \<Rightarrow> string" where
  "json_body s =
     (case s of
        [] \<Rightarrow> []
      | c # r \<Rightarrow>
          if byte_in 0 127 c then json_byte c @ json_body r
          else snd (json_rune s) @ json_body (drop (fst (json_rune s)) s))"
  by pat_completeness auto
termination
  by (relation "measure length") (use json_rune_pos in auto)

declare json_body.simps [simp del]

definition json_string :: "string \<Rightarrow> string" where
  "json_string s = CHR 0x22 # json_body s @ [CHR 0x22]"

section \<open>Numbers\<close>

text \<open>
  \<^verbatim>\<open>strconv.AppendFloat(f, -1)\<close>: the fewest significant digits that read back as the same
  number, and of those the nearest. \<open>dec_exp\<close> is the decimal exponent of the leading digit.
\<close>

definition pow10 :: "int \<Rightarrow> rat" where
  "pow10 e = (if 0 \<le> e then of_int (10 ^ nat e) else 1 / of_int (10 ^ nat (- e)))"

definition dec_exp :: "rat \<Rightarrow> int" where
  "dec_exp q =
     (let (a, b) = quotient_of q; e = int (length (show_int a)) - int (length (show_int b))
      in if q < pow10 e then e - 1 else e)"

definition digits_at :: "rat \<Rightarrow> int \<Rightarrow> int option" where
  "digits_at q k =
     (let scale = pow10 (k - 1 - dec_exp q); lo = \<lfloor>q * scale\<rfloor>; hi = lo + 1;
          back = (\<lambda>m. fl (of_int m / scale) = q);
          near = (if q * scale - of_int lo \<le> of_int hi - q * scale then lo else hi)
      in if back near then Some near else if back lo then Some lo else if back hi then Some hi else None)"

fun shortest_from :: "rat \<Rightarrow> nat \<Rightarrow> int \<Rightarrow> int \<times> int" where
  "shortest_from q 0 k = (\<lfloor>q * pow10 (k - 1 - dec_exp q)\<rfloor>, k)"
| "shortest_from q (Suc n) k = (case digits_at q k of Some m \<Rightarrow> (m, k) | None \<Rightarrow> shortest_from q n (k + 1))"

text \<open>The digits, without trailing zeros, and the exponent of the first one.\<close>

definition shortest_digits :: "rat \<Rightarrow> string \<times> int" where
  "shortest_digits q =
     (let (m, k) = shortest_from q 16 1; ds = show_int m
      in (trim_zeros ds, dec_exp q + (int (length ds) - k)))"

definition format_plain :: "string \<Rightarrow> int \<Rightarrow> string" where
  "format_plain ds e =
     (if e < 0 then ''0.'' @ replicate (nat (- e - 1)) (CHR ''0'') @ ds
      else if int (length ds) \<le> e + 1 then ds @ replicate (nat (e + 1) - length ds) (CHR ''0'')
      else take (nat (e + 1)) ds @ ''.'' @ drop (nat (e + 1)) ds)"

definition format_exp :: "string \<Rightarrow> int \<Rightarrow> string" where
  "format_exp ds e =
     take 1 ds @ (if length ds \<le> 1 then [] else ''.'' @ drop 1 ds) @
     (if e < 0 then ''e-'' @ show_int (- e) else ''e+'' @ show_int e)"

definition json_float :: "rat \<Rightarrow> string" where
  "json_float q =
     (if q = 0 then ''0''
      else let a = \<bar>q\<bar>; (ds, e) = shortest_digits a
           in (if q < 0 then ''-'' else []) @
              (if a < 1 / 1000000 \<or> 1000000000000000000000 \<le> a then format_exp ds e else format_plain ds e))"

text \<open>A number literal of the JSON grammar at the head of the text, and what follows it.\<close>

definition span_digits :: "string \<Rightarrow> string \<times> string" where
  "span_digits s = (takeWhile is_digit s, dropWhile is_digit s)"

definition scan_frac :: "string \<Rightarrow> (string \<times> string) option" where
  "scan_frac s =
     (case s of
        c # r \<Rightarrow>
          if c = CHR ''.'' then (case span_digits r of (ds, r') \<Rightarrow> if ds = [] then None else Some (c # ds, r'))
          else Some ([], s)
      | [] \<Rightarrow> Some ([], []))"

definition split_sign :: "string \<Rightarrow> string \<Rightarrow> string \<times> string" where
  "split_sign signs s =
     (case s of [] \<Rightarrow> ([], []) | c # r \<Rightarrow> if c \<in> set signs then ([c], r) else ([], s))"

definition scan_exp :: "string \<Rightarrow> (string \<times> string) option" where
  "scan_exp s =
     (case s of
        c # r \<Rightarrow>
          if c = CHR ''e'' \<or> c = CHR ''E'' then
            (case split_sign ''+-'' r of (sg, r') \<Rightarrow>
               (case span_digits r' of (ds, rest) \<Rightarrow> if ds = [] then None else Some (c # sg @ ds, rest)))
          else Some ([], s)
      | [] \<Rightarrow> Some ([], []))"

definition scan_int :: "string \<Rightarrow> (string \<times> string) option" where
  "scan_int s =
     (case span_digits s of (ds, r) \<Rightarrow>
        if ds = [] then None
        else if hd ds = CHR ''0'' then Some ([CHR ''0''], tl ds @ r)
        else Some (ds, r))"

definition scan_number :: "string \<Rightarrow> (string \<times> string) option" where
  "scan_number s =
     (case split_sign ''-'' s of (sg, r1) \<Rightarrow>
        (case scan_int r1 of
           None \<Rightarrow> None
         | Some (i, r2) \<Rightarrow>
             (case scan_frac r2 of
                None \<Rightarrow> None
              | Some (f, r3) \<Rightarrow>
                  (case scan_exp r3 of None \<Rightarrow> None | Some (e, r4) \<Rightarrow> Some (sg @ i @ f @ e, r4)))))"

section \<open>Encoding\<close>

definition json_object :: "(string \<times> string) list \<Rightarrow> string" where
  "json_object fields =
     ''{'' @ join_str '','' (map (\<lambda>(k, v). json_string k @ '':'' @ v) fields) @ ''}''"

definition json_array :: "string list \<Rightarrow> string" where
  "json_array items = ''['' @ join_str '','' items @ '']''"

fun all_some :: "'a option list \<Rightarrow> 'a list option" where
  "all_some [] = Some []"
| "all_some (None # xs) = None"
| "all_some (Some x # xs) = map_option (Cons x) (all_some xs)"

text \<open>\<^verbatim>\<open>json.Marshal\<close>; the keys of a map are written in sorted order.\<close>

fun json_enc :: "gval \<Rightarrow> string option" where
  "json_enc VNil = Some ''null''"
| "json_enc (VBool b) = Some (if b then ''true'' else ''false'')"
| "json_enc (VInt n) = Some (show_int n)"
| "json_enc (VInt32 n) = Some (show_int n)"
| "json_enc (VInt64 n) = Some (show_int n)"
| "json_enc (VFloat f) = (case f of Fin q \<Rightarrow> Some (json_float q) | _ \<Rightarrow> None)"
| "json_enc (VNumber s) =
     (if s = [] then Some ''0'' else if scan_number s = Some (s, []) then Some s else None)"
| "json_enc (VStr s) = Some (json_string s)"
| "json_enc (VTime t) = Some (json_string (rfc3339nano t))"
| "json_enc (VStrs ss) = Some (json_array (map json_string ss))"
| "json_enc (VStrMap m) = Some (json_object (sort_key fst (map (\<lambda>(k, v). (k, json_string v)) m)))"
| "json_enc (VList vs) = map_option json_array (all_some (map json_enc vs))"
| "json_enc (VMap m) =
     map_option (\<lambda>es. json_object (sort_key fst (zip (map fst m) es))) (all_some (map (json_enc \<circ> snd) m))"

section \<open>Decoding\<close>

definition skip_ws :: "string \<Rightarrow> string" where
  "skip_ws s = dropWhile (\<lambda>c. c \<in> {CHR 0x20, CHR 0x09, CHR 0x0A, CHR 0x0D}) s"

definition hex_val :: "char \<Rightarrow> int option" where
  "hex_val c =
     (if byte_in 48 57 c then Some (of_char c - 48)
      else if byte_in 97 102 c then Some (of_char c - 87)
      else if byte_in 65 70 c then Some (of_char c - 55)
      else None)"

fun hex4 :: "string \<Rightarrow> (int \<times> string) option" where
  "hex4 (a # b # c # d # r) =
     (case (hex_val a, hex_val b, hex_val c, hex_val d) of
        (Some w, Some x, Some y, Some z) \<Rightarrow> Some (4096 * w + 256 * x + 16 * y + z, r)
      | _ \<Rightarrow> None)"
| "hex4 _ = None"

text \<open>
  A \<^verbatim>\<open>\u\<close> escape after its \<^verbatim>\<open>u\<close>: a surrogate pair is one code point, a lone surrogate is replaced.
\<close>

definition unescape_u :: "string \<Rightarrow> (string \<times> string) option" where
  "unescape_u s =
     (case hex4 s of
        None \<Rightarrow> None
      | Some (n, r) \<Rightarrow>
          if 0xD800 \<le> n \<and> n < 0xE000 then
            (case r of
               x # y # r' \<Rightarrow>
                 if x = CHR 0x5C \<and> y = CHR ''u'' then
                   (case hex4 r' of
                      None \<Rightarrow> Some (replacement, r)
                    | Some (m, r'') \<Rightarrow>
                        if n < 0xDC00 \<and> 0xDC00 \<le> m \<and> m < 0xE000
                        then Some (rune_bytes (0x10000 + (n - 0xD800) * 1024 + (m - 0xDC00)), r'')
                        else Some (replacement, r))
                 else Some (replacement, r)
             | _ \<Rightarrow> Some (replacement, r))
          else Some (rune_bytes n, r))"

text \<open>One item of a string literal: the bytes it denotes and the rest; \<open>None\<close> at a syntax error.\<close>

definition str_item :: "string \<Rightarrow> (string \<times> string) option" where
  "str_item s =
     (case s of
        [] \<Rightarrow> None
      | c # r \<Rightarrow>
          if c = CHR 0x5C then
            (case r of
               [] \<Rightarrow> None
             | e # r' \<Rightarrow>
                 if e = CHR 0x22 \<or> e = CHR 0x5C \<or> e = CHR ''/'' then Some ([e], r')
                 else if e = CHR ''b'' then Some ([CHR 8], r') else if e = CHR ''f'' then Some ([CHR 12], r')
                 else if e = CHR ''n'' then Some ([CHR 10], r') else if e = CHR ''r'' then Some ([CHR 13], r')
                 else if e = CHR ''t'' then Some ([CHR 9], r')
                 else if e = CHR ''u'' then unescape_u r'
                 else None)
          else if byte_in 0 31 c then None
          else if byte_in 0 127 c then Some ([c], r)
          else if rune_len s = 0 then Some (replacement, r)
          else Some (take (rune_len s) s, drop (rune_len s) s))"

lemma hex4_length: "hex4 s = Some (n, r) \<Longrightarrow> length r < length s"
  by (induction s rule: hex4.induct) (auto split: option.splits)

lemma unescape_u_length: "unescape_u s = Some (x, r) \<Longrightarrow> length r < length s"
  unfolding unescape_u_def
  by (fastforce split: option.splits if_splits list.splits dest: hex4_length)

lemma str_item_length: "str_item s = Some (x, r) \<Longrightarrow> length r < length s"
  unfolding str_item_def
  by (auto split: list.splits if_splits dest: unescape_u_length)

function parse_str :: "string \<Rightarrow> (string \<times> string) option" where
  "parse_str s =
     (if take 1 s = [CHR 0x22] then Some ([], drop 1 s)
      else case str_item s of
        None \<Rightarrow> None
      | Some (x, r) \<Rightarrow> (case parse_str r of None \<Rightarrow> None | Some (y, r') \<Rightarrow> Some (x @ y, r')))"
  by pat_completeness auto
termination
  by (relation "measure length") (auto dest: str_item_length)

declare parse_str.simps [simp del]

text \<open>
  Values. The fuel bounds the number of nested calls; \<open>json_decode\<close> starts with the length of the
  text, and every call consumes at least one character. The number constructor is the
  decoder's: \<open>VNumber\<close> under \<^verbatim>\<open>UseNumber\<close>, a rounded \<^verbatim>\<open>float64\<close> otherwise.
\<close>

fun parse_value :: "(string \<Rightarrow> gval) \<Rightarrow> nat \<Rightarrow> string \<Rightarrow> (gval \<times> string) option"
  and parse_elems :: "(string \<Rightarrow> gval) \<Rightarrow> nat \<Rightarrow> string \<Rightarrow> (gval list \<times> string) option"
  and parse_members :: "(string \<Rightarrow> gval) \<Rightarrow> nat \<Rightarrow> string \<Rightarrow> (gval gomap \<times> string) option" where
  "parse_value num 0 s = None"
| "parse_value num (Suc n) s =
     (case skip_ws s of
        [] \<Rightarrow> None
      | c # r \<Rightarrow>
          if c = CHR 0x22 then map_option (apfst VStr) (parse_str r)
          else if c = CHR ''['' then
            (if take 1 (skip_ws r) = '']'' then Some (VList [], drop 1 (skip_ws r))
             else map_option (apfst VList) (parse_elems num n r))
          else if c = CHR ''{'' then
            (if take 1 (skip_ws r) = ''}'' then Some (VMap [], drop 1 (skip_ws r))
             else map_option (apfst (\<lambda>m. VMap (foldl (\<lambda>acc (k, v). map_set acc k v) [] m))) (parse_members num n r))
          else if has_prefix (c # r) ''null'' then Some (VNil, drop 4 (c # r))
          else if has_prefix (c # r) ''true'' then Some (VBool True, drop 4 (c # r))
          else if has_prefix (c # r) ''false'' then Some (VBool False, drop 5 (c # r))
          else map_option (apfst num) (scan_number (c # r)))"
| "parse_elems num 0 s = None"
| "parse_elems num (Suc n) s =
     (case parse_value num n s of
        None \<Rightarrow> None
      | Some (v, r) \<Rightarrow>
          (case skip_ws r of
             [] \<Rightarrow> None
           | c # r' \<Rightarrow>
               if c = CHR '','' then map_option (apfst (Cons v)) (parse_elems num n r')
               else if c = CHR '']'' then Some ([v], r')
               else None))"
| "parse_members num 0 s = None"
| "parse_members num (Suc n) s =
     (case skip_ws s of
        [] \<Rightarrow> None
      | q # r \<Rightarrow>
          if q \<noteq> CHR 0x22 then None
          else case parse_str r of
            None \<Rightarrow> None
          | Some (k, r1) \<Rightarrow>
              (case skip_ws r1 of
                 [] \<Rightarrow> None
               | c # r2 \<Rightarrow>
                   if c \<noteq> CHR '':'' then None
                   else case parse_value num n r2 of
                     None \<Rightarrow> None
                   | Some (v, r3) \<Rightarrow>
                       (case skip_ws r3 of
                          [] \<Rightarrow> None
                        | d # r4 \<Rightarrow>
                            if d = CHR '','' then map_option (apfst (Cons (k, v))) (parse_members num n r4)
                            else if d = CHR ''}'' then Some ([(k, v)], r4)
                            else None)))"

text \<open>\<^verbatim>\<open>Decoder.Decode\<close> with \<^verbatim>\<open>UseNumber\<close>: the first value of the text.\<close>

definition json_decode :: "string \<Rightarrow> gval option" where
  "json_decode s = map_option fst (parse_value VNumber (2 * length s + 2) s)"

end
