(* ===== verification/Json_Roundtrip.thy ===== *)
theory Json_Roundtrip
  imports Json
begin

text \<open>
  The encoder and the decoder of \<open>Json\<close> agree: what \<^verbatim>\<open>Marshal\<close> writes for a well-formed value, the
  decoder reads back, up to the normal form a decoded value has.
\<close>

section \<open>Strings round-trip\<close>

lemma of_char_bounds: "0 \<le> (of_char c :: int)" "(of_char c :: int) < 256"
  using pos_mod_bound [of 256 "of_char c :: int"] pos_mod_sign [of 256 "of_char c :: int"]
  by (simp_all only: of_char_mod_256)

lemma of_char_of: "0 \<le> n \<Longrightarrow> n < 256 \<Longrightarrow> (of_char (char_of n) :: int) = n"
  by simp

lemma hex_val_digit [simp]: "0 \<le> d \<Longrightarrow> d < 16 \<Longrightarrow> hex_val (hex_digit d) = Some d"
  by (auto simp: hex_val_def hex_digit_def byte_in_def)

lemma hex4_escape:
  assumes "0 \<le> n" "n < 65536"
  shows "hex4 (hex_digit (n div 4096) # hex_digit (n div 256 mod 16) # hex_digit (n div 16 mod 16) #
       hex_digit (n mod 16) # r) = Some (n, r)"
proof -
  have d: "n div 256 = n div 16 div 16" "n div 4096 = n div 16 div 16 div 16"
    by (simp_all add: zdiv_zmult2_eq [symmetric])
  have "n = 16 * (n div 16) + n mod 16" "n div 16 = 16 * (n div 256) + n div 16 mod 16"
    "n div 256 = 16 * (n div 4096) + n div 256 mod 16" unfolding d by simp_all
  then have sum: "4096 * (n div 4096) + 256 * (n div 256 mod 16) + 16 * (n div 16 mod 16) + n mod 16 = n"
    by linarith
  have h: "hex_val (hex_digit (n div 4096)) = Some (n div 4096)"
    "hex_val (hex_digit (m mod 16)) = Some (m mod 16)" for m
    using assms by (auto intro!: hex_val_digit)
  show ?thesis unfolding hex4.simps h prod.case option.case sum ..
qed

lemma str_item_escape:
  "0 \<le> n \<Longrightarrow> n < 65536 \<Longrightarrow> \<not> (0xD800 \<le> n \<and> n < 0xE000) \<Longrightarrow>
     str_item (unicode_escape n @ t) = Some (rune_bytes n, t)"
  by (simp only: unicode_escape_def append_Cons append_Nil)
    (auto simp: str_item_def unescape_u_def hex4_escape simp del: hex4.simps)

lemma str_item_short [simp]:
  "str_item (CHR 0x5C # CHR 0x22 # t) = Some ([CHR 0x22], t)"
  "str_item (CHR 0x5C # CHR 0x5C # t) = Some ([CHR 0x5C], t)"
  "str_item (CHR 0x5C # CHR ''b'' # t) = Some ([CHR 8], t)"
  "str_item (CHR 0x5C # CHR ''f'' # t) = Some ([CHR 12], t)"
  "str_item (CHR 0x5C # CHR ''n'' # t) = Some ([CHR 10], t)"
  "str_item (CHR 0x5C # CHR ''r'' # t) = Some ([CHR 13], t)"
  "str_item (CHR 0x5C # CHR ''t'' # t) = Some ([CHR 9], t)"
  by (simp_all add: str_item_def)

lemma str_item_byte:
  assumes c: "byte_in 0 127 c" shows "str_item (json_byte c @ t) = Some ([c], t)"
proof -
  have esc: "str_item (unicode_escape (of_char c) @ t) = Some ([c], t)"
    using str_item_escape [of "of_char c" t] c by (simp add: rune_bytes_def byte_in_def)
  have plain: "str_item (c # t) = Some ([c], t)" if "c \<noteq> CHR 0x5C" "\<not> byte_in 0 31 c"
    using that c by (simp add: str_item_def)
  show ?thesis unfolding json_byte_def using esc plain by simp
qed

lemma rune_cases:
  assumes "0 < rune_len s"
  obtains "s \<noteq> []" "byte_in 0 127 (s ! 0)" "rune_len s = 1" | "rune2 s" "rune_len s = 2"
    | "rune3 s" "rune_len s = 3" | "rune4 s" "rune_len s = 4"
  using assms by (auto simp: rune_len_def split: if_splits)

lemma rune2_len: "rune2 s \<Longrightarrow> rune_len s = 2"
  by (auto simp: rune_len_def rune2_def byte_in_def)

lemma rune3_len: "rune3 s \<Longrightarrow> rune_len s = 3"
  by (auto simp: rune_len_def rune2_def rune3_def byte_in_def)

lemma rune4_len: "rune4 s \<Longrightarrow> rune_len s = 4"
  by (auto simp: rune_len_def rune2_def rune3_def rune4_def byte_in_def)

lemma rune_len_prefix:
  assumes "0 < rune_len s" shows "rune_len (take (rune_len s) s @ t) = rune_len s"
  using assms
proof (cases rule: rune_cases)
  case 1
  then show ?thesis by (cases s) (simp_all add: rune_len_def)
next
  case 2
  then have "rune2 (take 2 s @ t)" by (simp add: rune2_def nth_append)
  with 2 show ?thesis by (simp add: rune2_len)
next
  case 3
  then have "rune3 (take 3 s @ t)" by (simp add: rune3_def nth_append)
  with 3 show ?thesis by (simp add: rune3_len)
next
  case 4
  then have "rune4 (take 4 s @ t)" by (simp add: rune4_def nth_append)
  with 4 show ?thesis by (simp add: rune4_len)
qed

lemma rune_len_ascii: "byte_in 0 127 c \<Longrightarrow> rune_len (c # r) = 1"
  by (simp add: rune_len_def)

lemma take_rune_head: "0 < rune_len (c # r) \<Longrightarrow> take (rune_len (c # r)) (c # r) = c # take (rune_len (c # r) - 1) r"
  by (cases "rune_len (c # r)") auto

lemma str_item_copy:
  "\<not> byte_in 0 127 c \<Longrightarrow> rune_len (c # w @ t) = Suc (length w) \<Longrightarrow> str_item (c # w @ t) = Some (c # w, t)"
  by (auto simp: str_item_def byte_in_def)

lemma rune_bytes_separators:
  "rune_bytes 0x2028 = [CHR 0xE2, CHR 0x80, CHR 0xA8]" "rune_bytes 0x2029 = [CHR 0xE2, CHR 0x80, CHR 0xA9]"
  by code_simp+

lemma str_item_rune:
  assumes c: "\<not> byte_in 0 127 c" and len: "0 < rune_len (c # r)"
  shows "str_item (snd (json_rune (c # r)) @ t) = Some (take (fst (json_rune (c # r))) (c # r), t)"
proof (cases "take 3 (c # r) = rune_bytes 0x2028 \<or> take 3 (c # r) = rune_bytes 0x2029")
  case True
  then show ?thesis using len str_item_escape [of "0x2028" t] str_item_escape [of "0x2029" t]
    by (auto simp: json_rune_def rune_bytes_separators)
next
  case False
  define w where "w = take (rune_len (c # r) - 1) r"
  have w: "take (rune_len (c # r)) (c # r) = c # w" using take_rune_head [OF len] by (simp add: w_def)
  have "length (c # w) = rune_len (c # r)" using rune_len_le [of "c # r"] by (simp add: w [symmetric])
  moreover have "rune_len (c # w @ t) = rune_len (c # r)" using rune_len_prefix [OF len, of t] by (simp add: w)
  ultimately have "str_item (c # w @ t) = Some (c # w, t)" using str_item_copy [OF c] by simp
  moreover have "json_rune (c # r) = (rune_len (c # r), take (rune_len (c # r)) (c # r))"
    using False len unfolding json_rune_def rune_bytes_separators by (simp only: de_Morgan_disj if_False not_gr_zero) simp
  ultimately show ?thesis by (simp only: fst_conv snd_conv w append_Cons)
qed

lemma json_rune_len: "0 < rune_len s \<Longrightarrow> fst (json_rune s) = rune_len s"
proof -
  have "rune_len s = 3" if "take 3 s = [CHR 0xE2, CHR 0x80, x]" "x = CHR 0xA8 \<or> x = CHR 0xA9" for x
  proof -
    from that(1) obtain r where "s = CHR 0xE2 # CHR 0x80 # x # r"
      by (metis append_Cons append_Nil append_take_drop_id)
    then have "rune3 s" using that(2) by (auto simp: rune3_def byte_in_def)
    then show ?thesis by (rule rune3_len)
  qed
  then show "0 < rune_len s \<Longrightarrow> fst (json_rune s) = rune_len s" by (auto simp: json_rune_def)
qed

lemma valid_utf8_Cons:
  "valid_utf8 (c # r) \<longleftrightarrow> 0 < rune_len (c # r) \<and> valid_utf8 (drop (rune_len (c # r)) (c # r))"
  by (subst valid_utf8.simps) simp

lemma json_body_Nil [simp]: "json_body [] = []"
  by (simp add: json_body.simps)

lemma json_body_ascii: "byte_in 0 127 c \<Longrightarrow> json_body (c # r) = json_byte c @ json_body r"
  by (subst json_body.simps) simp

lemma json_body_rune:
  "\<not> byte_in 0 127 c \<Longrightarrow>
     json_body (c # r) = snd (json_rune (c # r)) @ json_body (drop (fst (json_rune (c # r))) (c # r))"
  by (subst json_body.simps) simp

lemma take_1_hd: "xs \<noteq> [] \<Longrightarrow> take 1 (xs @ t) = [hd xs]"
  by (cases xs) auto

lemma byte_not_quote: "take 1 (json_byte c @ t) \<noteq> [CHR 0x22]"
  by (subst take_1_hd) (auto simp: json_byte_def unicode_escape_def)

lemma rune_not_quote:
  assumes "\<not> byte_in 0 127 c" "0 < rune_len (c # r)"
  shows "take 1 (snd (json_rune (c # r)) @ t) \<noteq> [CHR 0x22]"
proof -
  have "c \<noteq> CHR 0x22" using assms(1) by (auto simp: byte_in_def)
  then have "snd (json_rune (c # r)) \<noteq> [] \<and> hd (snd (json_rune (c # r))) \<noteq> CHR 0x22"
    using take_rune_head [OF assms(2)] assms(2) by (simp add: json_rune_def unicode_escape_def)
  then show ?thesis by (metis list.inject take_1_hd)
qed

text \<open>What the encoder writes for a string of valid UTF-8, the decoder reads back.\<close>

lemma parse_str_json_body:
  "valid_utf8 s \<Longrightarrow> parse_str (json_body s @ CHR 0x22 # t) = Some (s, t)"
proof (induction "length s" arbitrary: s rule: less_induct)
  case less
  show ?case
  proof (cases s)
    case Nil
    then show ?thesis by (simp add: parse_str.simps)
  next
    case (Cons c r)
    show ?thesis
    proof (cases "byte_in 0 127 c")
      case True
      have "valid_utf8 r" using less.prems rune_len_ascii [OF True, of r] by (simp add: Cons valid_utf8_Cons)
      then have "parse_str (json_body r @ CHR 0x22 # t) = Some (r, t)" using less.hyps by (simp add: Cons)
      then show ?thesis unfolding Cons json_body_ascii [OF True] append_assoc
        using byte_not_quote [of c "json_body r @ CHR 0x22 # t"]
        by (subst parse_str.simps) (simp only: if_False str_item_byte [OF True] option.case prod.case append_Cons append_Nil)
    next
      case False
      have len: "0 < rune_len (c # r)" and v: "valid_utf8 (drop (rune_len (c # r)) (c # r))"
        using less.prems by (simp_all add: Cons valid_utf8_Cons)
      define k where "k = rune_len (c # r)"
      have k: "fst (json_rune (c # r)) = k" using json_rune_len [OF len] by (simp add: k_def)
      have "length (drop k (c # r)) < length s" using len by (simp add: Cons k_def)
      then have "parse_str (json_body (drop k (c # r)) @ CHR 0x22 # t) = Some (drop k (c # r), t)"
        using less.hyps v by (simp only: k_def)
      then show ?thesis unfolding Cons json_body_rune [OF False] append_assoc k
        using rune_not_quote [OF False len] str_item_rune [OF False len]
        by (subst parse_str.simps) (simp only: k if_False option.case prod.case append_take_drop_id)
    qed
  qed
qed

section \<open>Numbers round-trip\<close>

definition num_end :: "string \<Rightarrow> bool" where
  "num_end t \<longleftrightarrow> t = [] \<or> hd t \<in> {CHR '','', CHR '']'', CHR ''}''}"

lemma num_end_digit: "num_end t \<Longrightarrow> t = [] \<or> \<not> is_digit (hd t)"
  by (auto simp: num_end_def is_digit_def)

lemma span_digits_append: "num_end t \<Longrightarrow> span_digits s = (d, r) \<Longrightarrow> span_digits (s @ t) = (d, r @ t)"
proof (induction s arbitrary: d r)
  case Nil
  then show ?case using num_end_digit [of t] by (cases t) (auto simp: span_digits_def)
qed (auto simp: span_digits_def)

lemma split_sign_append:
  "num_end t \<Longrightarrow> set signs \<subseteq> {CHR ''+'', CHR ''-''} \<Longrightarrow> split_sign signs s = (g, r) \<Longrightarrow>
     split_sign signs (s @ t) = (g, r @ t)"
  by (cases s; cases t) (auto simp: split_sign_def num_end_def split: if_splits)

lemma scan_frac_append:
  assumes t: "num_end t" and s: "scan_frac s = Some (f, r)"
  shows "scan_frac (s @ t) = Some (f, r @ t)"
proof (cases "s \<noteq> [] \<and> hd s = CHR ''.''")
  case True
  then obtain u where c: "s = CHR ''.'' # u" by (cases s) auto
  obtain ds rest where ds: "span_digits u = (ds, rest)" by fastforce
  show ?thesis using s c ds span_digits_append [OF t ds] by (auto simp: scan_frac_def split: if_splits)
next
  case False
  then show ?thesis using s t by (cases s; cases t) (auto simp: scan_frac_def num_end_def)
qed

lemma scan_exp_append:
  assumes t: "num_end t" and s: "scan_exp s = Some (f, r)"
  shows "scan_exp (s @ t) = Some (f, r @ t)"
proof (cases "s \<noteq> [] \<and> hd s \<in> {CHR ''e'', CHR ''E''}")
  case True
  then obtain c u where c: "s = c # u" "c = CHR ''e'' \<or> c = CHR ''E''" by (cases s) auto
  obtain sg u' where sg: "split_sign ''+-'' u = (sg, u')" by fastforce
  obtain ds rest where ds: "span_digits u' = (ds, rest)" by fastforce
  have "split_sign ''+-'' (u @ t) = (sg, u' @ t)" using split_sign_append [OF t _ sg] by simp
  moreover have "span_digits (u' @ t) = (ds, rest @ t)" by (rule span_digits_append [OF t ds])
  ultimately show ?thesis using s c sg ds by (auto simp: scan_exp_def split: if_splits)
next
  case False
  then show ?thesis using s t by (cases s; cases t) (auto simp: scan_exp_def num_end_def)
qed

lemma scan_int_append: "num_end t \<Longrightarrow> scan_int s = Some (i, r) \<Longrightarrow> scan_int (s @ t) = Some (i, r @ t)"
  using span_digits_append [of t s] by (auto simp: scan_int_def split: prod.splits if_splits)

lemma scan_number_append:
  assumes t: "num_end t" and s: "scan_number s = Some (f, r)"
  shows "scan_number (s @ t) = Some (f, r @ t)"
proof -
  obtain sg r1 where sg: "split_sign ''-'' s = (sg, r1)" by fastforce
  obtain i r2 f' r3 e where parts: "scan_int r1 = Some (i, r2)" "scan_frac r2 = Some (f', r3)"
    "scan_exp r3 = Some (e, r)" "f = sg @ i @ f' @ e"
    using s sg by (auto simp: scan_number_def split: option.splits)
  show ?thesis
    using split_sign_append [OF t _ sg] scan_int_append [OF t parts(1)] scan_frac_append [OF t parts(2)]
      scan_exp_append [OF t parts(3)] parts(4)
    by (simp add: scan_number_def)
qed

lemma is_digit_char [simp]: "0 \<le> d \<Longrightarrow> d < 10 \<Longrightarrow> is_digit (digit_char d)"
  by (simp add: is_digit_def digit_char_def)

lemma digit_char_zero: "0 \<le> d \<Longrightarrow> d < 10 \<Longrightarrow> digit_char d = CHR ''0'' \<longleftrightarrow> d = 0"
proof -
  assume d: "0 \<le> d" "d < 10"
  have "digit_char d = CHR ''0'' \<longleftrightarrow> (of_char (digit_char d) :: int) = of_char (CHR ''0'')" by (simp only: of_char_eq_iff)
  also have "\<dots> \<longleftrightarrow> d = 0" using d by (simp add: digit_char_def)
  finally show ?thesis .
qed

lemma show_pos_digits: "0 \<le> n \<Longrightarrow> list_all is_digit (show_pos n) \<and> show_pos n \<noteq> []"
proof (induction n rule: show_pos.induct)
  case (1 n)
  then show ?case by (subst show_pos.simps) (auto simp: show_pos.simps [of n])
qed

lemma show_pos_hd: "0 \<le> n \<Longrightarrow> hd (show_pos n) = CHR ''0'' \<longleftrightarrow> n = 0"
proof (induction n rule: show_pos.induct)
  case (1 n)
  show ?case
  proof (cases "n < 10")
    case True
    then show ?thesis using 1 by (simp add: show_pos.simps [of n] digit_char_zero)
  next
    case False
    moreover have "show_pos (n div 10) \<noteq> []" using show_pos_digits [of "n div 10"] 1 by simp
    ultimately show ?thesis using 1 by (simp add: show_pos.simps [of n])
  qed
qed

lemma span_digits_all: "list_all is_digit ds \<Longrightarrow> num_end t \<Longrightarrow> span_digits (ds @ t) = (ds, t)"
  using span_digits_append [of t ds ds "[]"]
  by (simp add: span_digits_def list_all_iff takeWhile_eq_all_conv [THEN iffD2] dropWhile_eq_Nil_conv [THEN iffD2])

lemma scan_int_show_pos: "0 \<le> n \<Longrightarrow> num_end t \<Longrightarrow> scan_int (show_pos n @ t) = Some (show_pos n, t)"
proof -
  assume n: "0 \<le> n" "num_end t"
  have "show_pos 0 = ''0''" by code_simp
  then show ?thesis using span_digits_all [of "show_pos n" t] show_pos_digits [OF n(1)] show_pos_hd [OF n(1)] n(2)
    by (auto simp: scan_int_def)
qed

lemma scan_rest: "num_end t \<Longrightarrow> scan_frac t = Some ([], t)" "num_end t \<Longrightarrow> scan_exp t = Some ([], t)"
  by (cases t; auto simp: scan_frac_def scan_exp_def num_end_def)+

lemma scan_number_show_int: "num_end t \<Longrightarrow> scan_number (show_int n @ t) = Some (show_int n, t)"
proof -
  assume t: "num_end t"
  have hd: "hd (show_pos n) \<noteq> CHR ''-''" "show_pos n \<noteq> []" if "0 \<le> n"
    using show_pos_digits [OF that] by (cases "show_pos n"; auto simp: is_digit_def)+
  show ?thesis
  proof (cases "n < 0")
    case True
    then show ?thesis using scan_int_show_pos [of "- n" t] t
      by (simp add: show_int_def scan_number_def split_sign_def scan_rest)
  next
    case False
    then have "split_sign ''-'' (show_pos n @ t) = ([], show_pos n @ t)"
      using hd by (cases "show_pos n") (auto simp: split_sign_def)
    then show ?thesis using False scan_int_show_pos [of n t] t
      by (simp add: show_int_def scan_number_def scan_rest)
  qed
qed

section \<open>Values round-trip\<close>

text \<open>
  What decoding makes of a value: numbers become literals, instants strings, and the keys of
  objects come in order. \<open>json_wf\<close> are the values that survive: distinct keys, valid UTF-8,
  finite numbers.
\<close>

fun json_norm :: "gval \<Rightarrow> gval" where
  "json_norm VNil = VNil"
| "json_norm (VBool b) = VBool b"
| "json_norm (VInt n) = VNumber (show_int n)"
| "json_norm (VInt32 n) = VNumber (show_int n)"
| "json_norm (VInt64 n) = VNumber (show_int n)"
| "json_norm (VFloat f) = (case f of Fin q \<Rightarrow> VNumber (json_float q) | _ \<Rightarrow> VNil)"
| "json_norm (VNumber s) = VNumber s"
| "json_norm (VStr s) = VStr s"
| "json_norm (VTime t) = VStr (rfc3339nano t)"
| "json_norm (VStrs ss) = VList (map VStr ss)"
| "json_norm (VStrMap m) = VMap (sort_key fst (map (\<lambda>(k, v). (k, VStr v)) m))"
| "json_norm (VList vs) = VList (map json_norm vs)"
| "json_norm (VMap m) = VMap (sort_key fst (map (\<lambda>(k, v). (k, json_norm v)) m))"

definition number_ok :: "string \<Rightarrow> bool" where
  "number_ok s \<longleftrightarrow> s \<noteq> [] \<and> scan_number s = Some (s, [])"

fun json_wf :: "gval \<Rightarrow> bool" where
  "json_wf (VFloat f) = (case f of Fin q \<Rightarrow> number_ok (json_float q) | _ \<Rightarrow> False)"
| "json_wf (VNumber s) = number_ok s"
| "json_wf (VStr s) = valid_utf8 s"
| "json_wf (VTime t) = valid_utf8 (rfc3339nano t)"
| "json_wf (VStrs ss) = list_all valid_utf8 ss"
| "json_wf (VStrMap m) = (distinct (map fst m) \<and> list_all (\<lambda>(k, v). valid_utf8 k \<and> valid_utf8 v) m)"
| "json_wf (VList vs) = list_all json_wf vs"
| "json_wf (VMap m) = (distinct (map fst m) \<and> list_all (\<lambda>(k, v). valid_utf8 k \<and> json_wf v) m)"
| "json_wf v = True"

definition clean_start :: "string \<Rightarrow> bool" where
  "clean_start s \<longleftrightarrow> s \<noteq> [] \<and> hd s \<notin> {CHR 0x20, CHR 0x09, CHR 0x0A, CHR 0x0D, CHR '']'', CHR ''}''}"

text \<open>Text \<open>s\<close> decodes to \<open>v\<close> in front of any delimiter.\<close>

definition reads_as :: "string \<Rightarrow> gval \<Rightarrow> bool" where
  "reads_as s v \<longleftrightarrow> clean_start s \<and>
     (\<forall>n t. 2 * length s \<le> n \<longrightarrow> num_end t \<longrightarrow> parse_value VNumber n (s @ t) = Some (v, t))"

lemma skip_ws_clean: "clean_start s \<Longrightarrow> skip_ws (s @ t) = s @ t"
  by (cases s) (auto simp: skip_ws_def clean_start_def)

lemma skip_ws_delim [simp]:
  "skip_ws (CHR '','' # t) = CHR '','' # t" "skip_ws (CHR '']'' # t) = CHR '']'' # t"
  "skip_ws (CHR ''}'' # t) = CHR ''}'' # t" "skip_ws (CHR '':'' # t) = CHR '':'' # t"
  "skip_ws (CHR 0x22 # t) = CHR 0x22 # t" "skip_ws (CHR ''['' # t) = CHR ''['' # t"
  "skip_ws (CHR ''{'' # t) = CHR ''{'' # t"
  by (simp_all add: skip_ws_def)

lemma num_end_delim [simp]: "num_end []" "num_end (CHR '','' # t)" "num_end (CHR '']'' # t)" "num_end (CHR ''}'' # t)"
  by (simp_all add: num_end_def)

lemma reads_asD: "reads_as s v \<Longrightarrow> 2 * length s \<le> n \<Longrightarrow> num_end t \<Longrightarrow> parse_value VNumber n (s @ t) = Some (v, t)"
  by (simp add: reads_as_def)

lemma reads_as_string: "valid_utf8 s \<Longrightarrow> reads_as (json_string s) (VStr s)"
  unfolding reads_as_def
proof (intro conjI allI impI)
  fix n t assume "valid_utf8 s" "2 * length (json_string s) \<le> n" "num_end t"
  then obtain m where "n = Suc m" "parse_str (json_body s @ CHR 0x22 # t) = Some (s, t)"
    using parse_str_json_body by (cases n) (auto simp: json_string_def)
  then show "parse_value VNumber n (json_string s @ t) = Some (VStr s, t)" by (simp add: json_string_def)
qed (simp add: clean_start_def json_string_def)

lemma scan_number_head:
  "scan_number (c # r) = Some (f, t) \<Longrightarrow> c = CHR ''-'' \<or> is_digit c"
  by (auto simp: scan_number_def split_sign_def scan_int_def span_digits_def split: if_splits option.splits)

lemma reads_as_number:
  assumes "number_ok s" shows "reads_as s (VNumber s)"
proof -
  obtain c r where s: "s = c # r" using assms by (cases s) (auto simp: number_ok_def)
  have c: "c = CHR ''-'' \<or> is_digit c" using assms scan_number_head by (auto simp: number_ok_def s)
  then have ne: "c \<notin> {CHR 0x20, CHR 0x09, CHR 0x0A, CHR 0x0D, CHR '']'', CHR ''}'', CHR 0x22, CHR ''['', CHR ''{'', CHR ''n'', CHR ''t'', CHR ''f''}"
    by (auto simp: is_digit_def)
  show ?thesis unfolding reads_as_def
  proof (intro conjI allI impI)
    fix n t assume n: "2 * length s \<le> n" and t: "num_end t"
    have "scan_number (s @ t) = Some (s, t)" using scan_number_append [OF t, of s s "[]"] assms by (simp add: number_ok_def)
    moreover obtain m where "n = Suc m" using n by (cases n) (auto simp: s)
    moreover have "skip_ws (s @ t) = c # r @ t" using ne by (simp add: s skip_ws_def)
    moreover have "\<not> has_prefix (c # r @ t) ''null''" "\<not> has_prefix (c # r @ t) ''true''" "\<not> has_prefix (c # r @ t) ''false''"
      using ne by (auto simp: has_prefix_def)
    ultimately show "parse_value VNumber n (s @ t) = Some (VNumber s, t)" using ne by (simp add: s)
  qed (use ne in \<open>simp add: clean_start_def s\<close>)
qed

lemma number_ok_show_int: "number_ok (show_int n)"
  using scan_number_show_int [of "[]" n] show_pos_digits [of n] by (auto simp: number_ok_def show_int_def)

lemma reads_as_word:
  "reads_as ''null'' VNil" "reads_as ''true'' (VBool True)" "reads_as ''false'' (VBool False)"
proof -
  have *: "parse_value VNumber n (''null'' @ t) = Some (VNil, t)" "parse_value VNumber n (''true'' @ t) = Some (VBool True, t)"
    "parse_value VNumber n (''false'' @ t) = Some (VBool False, t)" if "0 < n" for n t
    using that by (cases n; simp add: skip_ws_def has_prefix_def)+
  show "reads_as ''null'' VNil" "reads_as ''true'' (VBool True)" "reads_as ''false'' (VBool False)"
    unfolding reads_as_def clean_start_def using * by (simp_all add: numeral_eq_Suc)
qed

lemma join_str_Cons: "xs \<noteq> [] \<Longrightarrow> join_str sep (x # xs) = x @ sep @ join_str sep xs"
  by (cases xs) auto

lemma parse_elems_ok:
  "list_all2 reads_as es vs \<Longrightarrow> es \<noteq> [] \<Longrightarrow> 2 * length (join_str '','' es) + 1 \<le> n \<Longrightarrow>
     parse_elems VNumber n (join_str '','' es @ CHR '']'' # t) = Some (vs, t)"
proof (induction es arbitrary: vs n)
  case (Cons e es)
  then obtain v vs' where v: "vs = v # vs'" "reads_as e v" "list_all2 reads_as es vs'" by (auto simp: list_all2_Cons1)
  obtain m where n: "n = Suc m" using Cons.prems(3) by (cases n) auto
  show ?case
  proof (cases "es = []")
    case True
    then show ?thesis using v Cons.prems(3) reads_asD [OF v(2), of m "CHR '']'' # t"] by (simp add: n)
  next
    case False
    then have "2 * length e \<le> m" "2 * length (join_str '','' es) + 1 \<le> m" using Cons.prems(3) by (simp_all add: n join_str_Cons)
    then show ?thesis using reads_asD [OF v(2), of m "CHR '','' # join_str '','' es @ CHR '']'' # t"] Cons.IH [OF v(3) False, of m] False
      by (simp add: n join_str_Cons v(1))
  qed
qed simp

definition member_reads :: "string \<times> string \<Rightarrow> string \<times> gval \<Rightarrow> bool" where
  "member_reads e m \<longleftrightarrow> fst e = fst m \<and> valid_utf8 (fst e) \<and> reads_as (snd e) (snd m)"

abbreviation member_text :: "string \<times> string \<Rightarrow> string" where
  "member_text e \<equiv> json_string (fst e) @ '':'' @ snd e"

lemma parse_member:
  assumes "member_reads e m" "2 * length (member_text e) \<le> n" "num_end t"
  shows "parse_members VNumber (Suc n) (member_text e @ t) =
    (case skip_ws t of
       [] \<Rightarrow> None
     | d # r \<Rightarrow> if d = CHR '','' then map_option (apfst (Cons m)) (parse_members VNumber n r)
                else if d = CHR ''}'' then Some ([m], r) else None)"
proof -
  have k: "parse_str (json_body (fst e) @ CHR 0x22 # '':'' @ snd e @ t) = Some (fst e, '':'' @ snd e @ t)"
    using assms(1) unfolding member_reads_def by (intro parse_str_json_body) blast
  have v: "parse_value VNumber n (snd e @ t) = Some (snd m, t)"
    using assms by (intro reads_asD) (simp_all add: member_reads_def)
  show ?thesis using k v assms(1) by (cases m) (simp add: json_string_def member_reads_def split: list.split)
qed

lemma parse_members_ok:
  "list_all2 member_reads es ms \<Longrightarrow> es \<noteq> [] \<Longrightarrow> 2 * length (join_str '','' (map member_text es)) + 1 \<le> n \<Longrightarrow>
     parse_members VNumber n (join_str '','' (map member_text es) @ CHR ''}'' # t) = Some (ms, t)"
proof (induction es arbitrary: ms n)
  case (Cons e es)
  then obtain m ms' where m: "ms = m # ms'" "member_reads e m" "list_all2 member_reads es ms'" by (auto simp: list_all2_Cons1)
  obtain k where n: "n = Suc k" using Cons.prems(3) by (cases n) auto
  show ?case
  proof (cases "es = []")
    case True
    then have "2 * length (member_text e) \<le> k" using Cons.prems(3) by (simp add: n)
    then show ?thesis using m True parse_member [OF m(2), of k "CHR ''}'' # t"] by (simp add: n)
  next
    case False
    then have len: "2 * length (member_text e) \<le> k" "2 * length (join_str '','' (map member_text es)) + 1 \<le> k"
      using Cons.prems(3) by (simp_all add: n join_str_Cons)
    let ?r = "join_str '','' (map member_text es) @ CHR ''}'' # t"
    have "join_str '','' (map member_text (e # es)) @ CHR ''}'' # t = member_text e @ CHR '','' # ?r"
      using False by (simp add: join_str_Cons)
    then show ?thesis using parse_member [OF m(2) len(1), of "CHR '','' # ?r"] Cons.IH [OF m(3) False len(2)] m(1)
      by (simp add: n)
  qed
qed simp

lemma join_str_clean: "list_all2 reads_as es vs \<Longrightarrow> es \<noteq> [] \<Longrightarrow> clean_start (join_str sep es)"
  by (cases es; cases "tl es") (auto simp: list_all2_Cons1 reads_as_def clean_start_def)

lemma take_1_clean: "clean_start s \<Longrightarrow> take 1 (skip_ws (s @ t)) \<noteq> '']'' \<and> take 1 (skip_ws (s @ t)) \<noteq> ''}''"
  using skip_ws_clean [of s t] by (cases s) (auto simp: clean_start_def)

lemma reads_as_array: "list_all2 reads_as es vs \<Longrightarrow> reads_as (json_array es) (VList vs)"
  unfolding reads_as_def [of "json_array es"]
proof (intro conjI allI impI)
  fix n t assume es: "list_all2 reads_as es vs" and n: "2 * length (json_array es) \<le> n" and t: "num_end t"
  obtain m where m: "n = Suc m" using n by (cases n) (auto simp: json_array_def)
  show "parse_value VNumber n (json_array es @ t) = Some (VList vs, t)"
  proof (cases "es = []")
    case True
    then show ?thesis using es by (simp add: m json_array_def)
  next
    case False
    have "2 * length (join_str '','' es) + 1 \<le> m" using n by (simp add: m json_array_def)
    then show ?thesis using parse_elems_ok [OF es False, of m t]
        take_1_clean [OF join_str_clean [OF es False, of "'',''"], of "CHR '']'' # t"]
      by (simp add: m json_array_def)
  qed
qed (simp add: clean_start_def json_array_def)

lemma foldl_map_set: "distinct (map fst (acc @ m)) \<Longrightarrow> foldl (\<lambda>acc (k, v). map_set acc k v) acc m = acc @ m"
proof (induction m arbitrary: acc)
  case (Cons kv m)
  obtain k v where kv: "kv = (k, v)" by (cases kv)
  have "map_set acc k v = acc @ [(k, v)]" if "k \<notin> fst ` set acc" for acc
    using that by (induction acc) auto
  then have "map_set acc k v = acc @ [(k, v)]" using Cons.prems by (auto simp: kv)
  then show ?case using Cons.IH [of "acc @ [(k, v)]"] Cons.prems by (simp add: kv)
qed simp

lemma reads_as_object:
  assumes es: "list_all2 member_reads es ms" and d: "distinct (map fst ms)"
  shows "reads_as (json_object es) (VMap ms)"
  unfolding reads_as_def
proof (intro conjI allI impI)
  have ts: "json_object es = ''{'' @ join_str '','' (map member_text es) @ ''}''"
    by (simp add: json_object_def case_prod_unfold)
  fix n t assume n: "2 * length (json_object es) \<le> n" and t: "num_end t"
  obtain m where m: "n = Suc m" using n by (cases n) (auto simp: json_object_def)
  show "parse_value VNumber n (json_object es @ t) = Some (VMap ms, t)"
  proof (cases "es = []")
    case True
    then show ?thesis using es by (simp add: m json_object_def)
  next
    case False
    have "take 1 (skip_ws (join_str '','' (map member_text es) @ CHR ''}'' # t)) \<noteq> ''}''"
      using False by (cases es; cases "tl es") (auto simp: json_string_def)
    moreover have "2 * length (join_str '','' (map member_text es)) + 1 \<le> m" using n by (simp add: m ts)
    ultimately show ?thesis using parse_members_ok [OF es False, of m t] foldl_map_set [of "[]" ms] d
      by (simp add: m ts)
  qed
qed (simp add: clean_start_def json_object_def)

lemma all_some_iff: "all_some xs = Some ys \<longleftrightarrow> xs = map Some ys"
  by (induction xs arbitrary: ys rule: all_some.induct) auto

lemma list_all2_insort:
  assumes "list_all2 R xs ys" "R x y" "\<And>a b. R a b \<Longrightarrow> f a = g b"
  shows "list_all2 R (insort_key f x xs) (insort_key g y ys)"
  using assms(1) by (induction rule: list_all2_induct) (use assms(2,3) in auto)

lemma list_all2_sort_key:
  assumes "list_all2 R xs ys" "\<And>a b. R a b \<Longrightarrow> f a = g b"
  shows "list_all2 R (sort_key f xs) (sort_key g ys)"
  using assms(1) by (induction rule: list_all2_induct) (auto intro: list_all2_insort assms(2))

lemma sort_key_fst_distinct: "distinct (map fst (sort_key fst m)) = distinct (map fst m)"
  by (metis distinct_count_atmost_1 mset_map mset_sort mset_eq_imp_distinct_iff)

definition enc_reads :: "gval \<Rightarrow> bool" where
  "enc_reads v \<longleftrightarrow> (\<exists>s. json_enc v = Some s \<and> reads_as s (json_norm v))"

lemma enc_reads_list:
  "list_all enc_reads vs \<Longrightarrow> \<exists>es. map json_enc vs = map Some es \<and> list_all2 reads_as es (map json_norm vs)"
proof (induction vs)
  case (Cons v vs)
  then obtain s es where "json_enc v = Some s" "reads_as s (json_norm v)" "map json_enc vs = map Some es"
    "list_all2 reads_as es (map json_norm vs)" unfolding enc_reads_def by auto
  then show ?case by (intro exI [of _ "s # es"]) simp
qed simp

lemma enc_reads_members:
  assumes "list_all (\<lambda>(k, v). valid_utf8 k \<and> enc_reads v) m"
  shows "\<exists>es. map (json_enc \<circ> snd) m = map Some es \<and>
    list_all2 member_reads (zip (map fst m) es) (map (\<lambda>(k, v). (k, json_norm v)) m)"
proof -
  have "list_all enc_reads (map snd m)" using assms by (auto simp: list_all_iff)
  from enc_reads_list [OF this] obtain es where es: "map json_enc (map snd m) = map Some es"
    "list_all2 reads_as es (map json_norm (map snd m))" by blast
  then have "length es = length m" by (auto dest: list_all2_lengthD)
  then have "list_all2 member_reads (zip (map fst m) es) (map (\<lambda>(k, v). (k, json_norm v)) m)"
    using es(2) assms by (auto simp: list_all2_conv_all_nth member_reads_def case_prod_beta list_all_length)
  with es(1) show ?thesis by auto
qed

text \<open>What \<^verbatim>\<open>Marshal\<close> writes for a well-formed value, the decoder reads back up to \<open>json_norm\<close>.\<close>

lemma json_enc_reads: "json_wf v \<Longrightarrow> enc_reads v"
proof (induction v)
  case (VFloat f)
  then show ?case by (auto simp: enc_reads_def reads_as_number split: f64.splits)
next
  case (VNumber s)
  then show ?case by (auto simp: enc_reads_def reads_as_number number_ok_def)
next
  case (VStrs ss)
  then have "list_all2 reads_as (map json_string ss) (map VStr ss)"
    by (induction ss) (auto intro: reads_as_string)
  then show ?case by (auto simp: enc_reads_def intro: reads_as_array)
next
  case (VStrMap m)
  then have "list_all2 member_reads (map (\<lambda>(k, v). (k, json_string v)) m) (map (\<lambda>(k, v). (k, VStr v)) m)"
    by (induction m) (auto simp: member_reads_def intro: reads_as_string)
  then have "list_all2 member_reads (sort_key fst (map (\<lambda>(k, v). (k, json_string v)) m))
      (sort_key fst (map (\<lambda>(k, v). (k, VStr v)) m))" by (rule list_all2_sort_key) (simp add: member_reads_def)
  then show ?case using VStrMap
    by (auto intro!: reads_as_object simp: enc_reads_def sort_key_fst_distinct comp_def case_prod_beta)
next
  case (VList vs)
  then have "list_all enc_reads vs" by (simp add: list_all_iff)
  from enc_reads_list [OF this] obtain es where "map json_enc vs = map Some es" "list_all2 reads_as es (map json_norm vs)"
    by blast
  then show ?case using all_some_iff [of "map json_enc vs" es] reads_as_array by (auto simp: enc_reads_def)
next
  case (VMap m)
  then have "list_all (\<lambda>(k, v). valid_utf8 k \<and> enc_reads v) m" by (fastforce simp: list_all_iff)
  from enc_reads_members [OF this] obtain es where es: "map (json_enc \<circ> snd) m = map Some es"
    "list_all2 member_reads (zip (map fst m) es) (map (\<lambda>(k, v). (k, json_norm v)) m)" by blast
  from es(2) have "list_all2 member_reads (sort_key fst (zip (map fst m) es)) (sort_key fst (map (\<lambda>(k, v). (k, json_norm v)) m))"
    by (rule list_all2_sort_key) (simp add: member_reads_def)
  moreover have "distinct (map fst (sort_key fst (map (\<lambda>(k, v). (k, json_norm v)) m)))"
    using VMap.prems by (simp add: sort_key_fst_distinct comp_def case_prod_beta)
  ultimately have "reads_as (json_object (sort_key fst (zip (map fst m) es))) (json_norm (VMap m))"
    using reads_as_object by simp
  then show ?case using es(1) all_some_iff [of "map (json_enc \<circ> snd) m" es] by (simp add: enc_reads_def)
qed (auto simp: enc_reads_def reads_as_number number_ok_show_int reads_as_word intro: reads_as_string)

lemma json_decode_enc:
  assumes "json_wf v"
  shows "\<exists>s. json_enc v = Some s \<and> json_decode s = Some (json_norm v)"
proof -
  obtain s where s: "json_enc v = Some s" "reads_as s (json_norm v)" using json_enc_reads [OF assms] by (auto simp: enc_reads_def)
  then show ?thesis using reads_asD [OF s(2), of "2 * length s + 2" "[]"] by (simp add: json_decode_def)
qed

end
