(* ===== verification/Json_Canonical.thy ===== *)
theory Json_Canonical
  imports Json_Roundtrip
begin

text \<open>
  Canonical JSON. Whatever text the decoder accepts, the value it returns is well-formed, and the
  text the encoder writes for it decodes to a value from which the same text is written again.
  Canonical texts therefore denote values one to one, which is what makes hashing them sound.
\<close>

section \<open>Decoded strings are valid UTF-8\<close>

definition rune :: "string \<Rightarrow> bool" where
  "rune x \<longleftrightarrow> 0 < rune_len x \<and> rune_len x = length x"

lemma valid_utf8_Nil [simp]: "valid_utf8 []"
  by (simp add: valid_utf8.simps)

lemma valid_utf8_rune: "rune x \<Longrightarrow> valid_utf8 (x @ y) = valid_utf8 y"
  using rune_len_prefix [of x y] by (subst valid_utf8.simps) (auto simp: rune_def)

lemma rune_ascii: "byte_in 0 127 c \<Longrightarrow> rune [c]"
  by (simp add: rune_def rune_len_ascii)

lemma rune_take: "0 < rune_len s \<Longrightarrow> rune (take (rune_len s) s)"
  using rune_len_prefix [of s "[]"] rune_len_le [of s] by (simp add: rune_def)

lemma rune_replacement: "rune replacement"
  by code_simp

lemma byte_in_char_of: "0 \<le> n \<Longrightarrow> n < 256 \<Longrightarrow> byte_in lo hi (char_of n) \<longleftrightarrow> lo \<le> n \<and> n \<le> hi"
  by (simp add: byte_in_def of_char_of)

lemma char_of_eq: "0 \<le> n \<Longrightarrow> n < 256 \<Longrightarrow> char_of n = c \<longleftrightarrow> n = (of_char c :: int)"
  using of_char_of [of n] by (metis char_of_char)

lemma div_split64:
  fixes n :: int
  assumes "0 \<le> a"
  shows "n div a = 64 * (n div (a * 64)) + n div a mod 64"
  using div_mult_mod_eq [of "n div a" 64] zdiv_zmult2_eq [of 64 n a] by simp

lemma rune_bytes3:
  fixes n :: int
  assumes "0x800 \<le> n" "n < 0x10000" "\<not> (0xD800 \<le> n \<and> n < 0xE000)"
  shows "rune3 (rune_bytes n)"
proof -
  define a b c where "a = n div 4096" "b = n div 64 mod 64" "c = n mod 64"
  have n: "n = 4096 * a + 64 * b + c"
  proof -
    define q where "q = n div 64"
    have "n = 64 * q + c" by (simp add: q_def a_b_c_def)
    moreover have "q = 64 * a + b" using div_split64 [of 64 n] by (simp add: q_def a_b_c_def)
    ultimately show ?thesis by linarith
  qed
  have bounds: "0 \<le> b" "b < 64" "0 \<le> c" "c < 64" by (simp_all add: a_b_c_def)
  have "0 \<le> a" "a < 16" using assms n bounds by auto
  moreover have "32 \<le> b" if "a = 0" using that n bounds assms by simp
  moreover have "b < 32" if "a = 13" using that n bounds assms by simp
  moreover have "rune_bytes n = [char_of (0xE0 + a), char_of (0x80 + b), char_of (0x80 + c)]"
    using assms by (simp add: rune_bytes_def a_b_c_def)
  ultimately show ?thesis using bounds by (auto simp: rune3_def byte_in_char_of char_of_eq)
qed

lemma rune_bytes4:
  fixes n :: int
  assumes "0x10000 \<le> n" "n < 0x110000"
  shows "rune4 (rune_bytes n)"
proof -
  define a b c d where "a = n div 262144" "b = n div 4096 mod 64" "c = n div 64 mod 64" "d = n mod 64"
  have n: "n = 262144 * a + 4096 * b + 64 * c + d"
  proof -
    define q p where "q = n div 64" and "p = n div 4096"
    have "n = 64 * q + d" by (simp add: q_def a_b_c_d_def)
    moreover have "q = 64 * p + c" using div_split64 [of 64 n] by (simp add: q_def p_def a_b_c_d_def)
    moreover have "p = 64 * a + b" using div_split64 [of 4096 n] by (simp add: p_def a_b_c_d_def)
    ultimately show ?thesis by linarith
  qed
  have bounds: "0 \<le> b" "b < 64" "0 \<le> c" "c < 64" "0 \<le> d" "d < 64" by (simp_all add: a_b_c_d_def)
  have "0 \<le> a" "a < 5" using assms n bounds by auto
  moreover have "16 \<le> b" if "a = 0" using that n bounds assms by simp
  moreover have "b < 16" if "a = 4" using that n bounds assms by simp
  moreover have "rune_bytes n = [char_of (0xF0 + a), char_of (0x80 + b), char_of (0x80 + c), char_of (0x80 + d)]"
    using assms by (simp add: rune_bytes_def a_b_c_d_def)
  ultimately show ?thesis using bounds by (auto simp: rune4_def byte_in_char_of char_of_eq)
qed

lemma rune_bytes2:
  fixes n :: int
  assumes "0x80 \<le> n" "n < 0x800"
  shows "rune2 (rune_bytes n)"
proof -
  define a b where "a = n div 64" "b = n mod 64"
  have n: "n = 64 * a + b" "0 \<le> b" "b < 64" by (simp_all add: a_b_def)
  then have "2 \<le> a" "a < 32" using assms by auto
  moreover have "rune_bytes n = [char_of (0xC0 + a), char_of (0x80 + b)]" using assms by (simp add: rune_bytes_def a_b_def)
  ultimately show ?thesis using n by (simp add: rune2_def byte_in_char_of)
qed

lemma rune_rune_bytes:
  assumes "0 \<le> n" "n < 0x110000" "\<not> (0xD800 \<le> n \<and> n < 0xE000)"
  shows "rune (rune_bytes n)"
proof -
  consider "n < 0x80" | "0x80 \<le> n" "n < 0x800" | "0x800 \<le> n" "n < 0x10000" | "0x10000 \<le> n" by linarith
  then show ?thesis
  proof cases
    case 1
    then have "rune_bytes n = [char_of n]" "byte_in 0 127 (char_of n)"
      using assms by (simp_all add: rune_bytes_def byte_in_char_of)
    then show ?thesis by (simp add: rune_ascii)
  next
    case 2
    then have "length (rune_bytes n) = 2" by (simp add: rune_bytes_def)
    then show ?thesis by (simp add: rune_def rune2_len [OF rune_bytes2 [OF 2]])
  next
    case 3
    then have "length (rune_bytes n) = 3" by (simp add: rune_bytes_def)
    then show ?thesis by (simp add: rune_def rune3_len [OF rune_bytes3 [OF 3 assms(3)]])
  next
    case 4
    then have "length (rune_bytes n) = 4" by (simp add: rune_bytes_def)
    then show ?thesis by (simp add: rune_def rune4_len [OF rune_bytes4 [OF 4 assms(2)]])
  qed
qed

lemma hex_val_range: "hex_val c = Some x \<Longrightarrow> 0 \<le> x \<and> x < 16"
  by (auto simp: hex_val_def byte_in_def split: if_splits)

lemma hex4_range: "hex4 s = Some (n, r) \<Longrightarrow> 0 \<le> n \<and> n < 0x10000"
  by (induction s rule: hex4.induct) (auto split: option.splits dest!: hex_val_range)

lemma unescape_u_rune: "unescape_u s = Some (x, r) \<Longrightarrow> rune x"
  unfolding unescape_u_def
  by (auto split: option.splits if_splits list.splits intro!: rune_replacement rune_rune_bytes dest!: hex4_range)

lemma str_item_rune_out: "str_item s = Some (x, r) \<Longrightarrow> rune x"
  unfolding str_item_def
  using rune_take [of s]
  by (auto split: list.splits if_splits intro: unescape_u_rune rune_replacement rune_ascii simp: byte_in_def)

lemma parse_str_valid: "parse_str s = Some (x, r) \<Longrightarrow> valid_utf8 x"
proof (induction s arbitrary: x r rule: parse_str.induct)
  case (1 s)
  show ?case
  proof (cases "take 1 s = [CHR 0x22]")
    case False
    then obtain y q z where "str_item s = Some (y, q)" "parse_str q = Some (z, r)" "x = y @ z"
      using "1.prems" by (subst (asm) parse_str.simps) (auto split: option.splits)
    with False show ?thesis using "1.IH" valid_utf8_rune [OF str_item_rune_out] by blast
  qed (use "1.prems" in \<open>simp add: parse_str.simps\<close>)
qed

section \<open>Decoded values\<close>

fun decoded :: "gval \<Rightarrow> bool" where
  "decoded VNil = True"
| "decoded (VBool b) = True"
| "decoded (VNumber s) = number_ok s"
| "decoded (VStr s) = valid_utf8 s"
| "decoded (VList vs) = list_all decoded vs"
| "decoded (VMap m) = (distinct (map fst m) \<and> list_all (\<lambda>(k, v). valid_utf8 k \<and> decoded v) m)"
| "decoded v = False"

lemma decoded_empty [simp]: "decoded (VMap [])"
  by simp

lemma decoded_wf: "decoded v \<Longrightarrow> json_wf v"
  by (induction v) (auto simp: list_all_iff)

lemma map_set_keys: "fst ` set (map_set m k v) = insert k (fst ` set m)"
  by (simp flip: dom_map_of_conv_image_fst)

lemma map_set_distinct: "distinct (map fst m) \<Longrightarrow> distinct (map fst (map_set m k v))"
proof (induction m)
  case (Cons x m)
  then show ?case using map_set_keys [of m k v] by (cases x) (auto simp del: map_set_keys)
qed simp

lemma map_set_all: "list_all P m \<Longrightarrow> P (k, v) \<Longrightarrow> list_all P (map_set m k v)"
  by (induction m) auto

lemma decoded_foldl:
  "distinct (map fst acc) \<Longrightarrow> list_all (\<lambda>(k, v). valid_utf8 k \<and> decoded v) (acc @ m) \<Longrightarrow>
     decoded (VMap (foldl (\<lambda>acc (k, v). map_set acc k v) acc m))"
proof (induction m arbitrary: acc)
  case (Cons kv m)
  obtain k v where kv: "kv = (k, v)" by (cases kv)
  show ?case using Cons.prems Cons.IH [of "map_set acc k v"] map_set_distinct [of acc k v]
      map_set_all [of "\<lambda>(k, v). valid_utf8 k \<and> decoded v" acc k v] by (simp add: kv)
qed simp

definition stops :: "string \<Rightarrow> bool" where
  "stops t \<longleftrightarrow> t = [] \<or> \<not> is_digit (hd t)"

lemma span_digits_stop: "list_all is_digit ds \<Longrightarrow> stops t \<Longrightarrow> span_digits (ds @ t) = (ds, t)"
  by (induction ds) (cases t, auto simp: span_digits_def stops_def)

lemma span_digits_out: "span_digits s = (ds, r) \<Longrightarrow> list_all is_digit ds"
  by (auto simp: span_digits_def list_all_iff dest: set_takeWhileD)

lemma not_digit [simp]: "\<not> is_digit (CHR ''.'')" "\<not> is_digit (CHR ''e'')" "\<not> is_digit (CHR ''E'')" "\<not> is_digit (CHR ''-'')"
    "\<not> is_digit (CHR ''+'')"
  by (simp_all add: is_digit_def)

lemma stops_simps [simp]: "stops []" "stops (c # t) \<longleftrightarrow> \<not> is_digit c"
  by (simp_all add: stops_def)

lemma scan_int_again: "scan_int s = Some (i, r) \<Longrightarrow> stops t \<Longrightarrow> scan_int (i @ t) = Some (i, t)"
proof -
  assume i: "scan_int s = Some (i, r)" and t: "stops t"
  obtain ds q where d: "span_digits s = (ds, q)" by fastforce
  have all: "list_all is_digit ds" using span_digits_out [OF d] .
  have ds: "ds \<noteq> []" "i = (if hd ds = CHR ''0'' then ''0'' else ds)" using i d by (auto simp: scan_int_def split: if_splits)
  then have "list_all is_digit i" "hd i = CHR ''0'' \<longrightarrow> i = ''0''" "i \<noteq> []" using all by (cases ds; auto)+
  then show ?thesis using span_digits_stop [OF _ t, of i] by (auto simp: scan_int_def)
qed

lemma scan_int_digit: "scan_int s = Some (i, r) \<Longrightarrow> i \<noteq> [] \<and> is_digit (hd i)"
proof -
  assume i: "scan_int s = Some (i, r)"
  obtain ds q where d: "span_digits s = (ds, q)" by fastforce
  have "list_all is_digit ds" using span_digits_out [OF d] .
  moreover have "ds \<noteq> []" "i = (if hd ds = CHR ''0'' then ''0'' else ds)" using i d by (auto simp: scan_int_def split: if_splits)
  ultimately show ?thesis by (cases ds) auto
qed

lemma scan_frac_again:
  assumes "scan_frac s = Some (f, r)" "stops t" "take 1 t \<noteq> ''.''"
  shows "scan_frac (f @ t) = Some (f, t) \<and> stops (f @ t)"
proof (cases "f = []")
  case True
  then show ?thesis using assms by (cases t) (auto simp: scan_frac_def)
next
  case False
  then obtain ds q where f: "f = CHR ''.'' # ds" "ds \<noteq> []" "span_digits q = (ds, r)"
    using assms(1) by (auto simp: scan_frac_def split: list.splits if_splits prod.splits)
  then show ?thesis using span_digits_stop [OF span_digits_out [OF f(3)] assms(2)] by (simp add: scan_frac_def)
qed

lemma scan_exp_again: "scan_exp s = Some (e, r) \<Longrightarrow> scan_exp e = Some (e, []) \<and> stops e \<and> take 1 e \<noteq> ''.''"
proof (cases "e = []")
  case False
  assume e: "scan_exp s = Some (e, r)"
  then obtain c sg ds q q' where s: "e = c # sg @ ds" "c = CHR ''e'' \<or> c = CHR ''E''" "ds \<noteq> []" "split_sign ''+-'' q = (sg, q')"
    "span_digits q' = (ds, r)" using False by (auto simp: scan_exp_def split: list.splits if_splits prod.splits)
  have ds: "list_all is_digit ds" using s(5) by (rule span_digits_out)
  then have "split_sign ''+-'' (sg @ ds) = (sg, ds)" using s(3,4)
    by (cases ds) (auto simp: split_sign_def split: list.splits if_splits)
  then show ?thesis using s(1-3) span_digits_stop [OF ds, of "[]"] by (auto simp: scan_exp_def)
qed (simp add: scan_exp_def)

lemma scan_number_ok: "scan_number s = Some (n, r) \<Longrightarrow> number_ok n"
proof -
  assume "scan_number s = Some (n, r)"
  then obtain sg r1 i r2 f r3 e where p: "split_sign ''-'' s = (sg, r1)" "scan_int r1 = Some (i, r2)"
    "scan_frac r2 = Some (f, r3)" "scan_exp r3 = Some (e, r)" "n = sg @ i @ f @ e"
    by (auto simp: scan_number_def split: prod.splits option.splits)
  have e: "scan_exp e = Some (e, [])" "stops e" "take 1 e \<noteq> ''.''" using scan_exp_again [OF p(4)] by auto
  have f: "scan_frac (f @ e) = Some (f, e)" "stops (f @ e)" using scan_frac_again [OF p(3) e(2,3)] by auto
  have i: "scan_int (i @ f @ e) = Some (i, f @ e)" by (rule scan_int_again [OF p(2) f(2)])
  have "i \<noteq> []" "is_digit (hd i)" using scan_int_digit [OF p(2)] by auto
  then have "split_sign ''-'' n = (sg, i @ f @ e)" using p(1,5)
    by (cases i) (auto simp: split_sign_def split: list.splits if_splits)
  then show ?thesis using e(1) f(1) i \<open>i \<noteq> []\<close> p(5) by (simp add: number_ok_def scan_number_def)
qed

lemma parse_decoded:
  "(\<forall>s v r. parse_value VNumber n s = Some (v, r) \<longrightarrow> decoded v) \<and>
   (\<forall>s vs r. parse_elems VNumber n s = Some (vs, r) \<longrightarrow> list_all decoded vs) \<and>
   (\<forall>s m r. parse_members VNumber n s = Some (m, r) \<longrightarrow> list_all (\<lambda>(k, v). valid_utf8 k \<and> decoded v) m)"
proof (induction n)
  case (Suc n)
  have V: "\<And>s v r. parse_value VNumber n s = Some (v, r) \<Longrightarrow> decoded v"
    and E: "\<And>s vs r. parse_elems VNumber n s = Some (vs, r) \<Longrightarrow> list_all decoded vs"
    and M: "\<And>s m r. parse_members VNumber n s = Some (m, r) \<Longrightarrow> list_all (\<lambda>(k, v). valid_utf8 k \<and> decoded v) m"
    using Suc.IH by blast+
  have "decoded v" if "parse_value VNumber (Suc n) s = Some (v, r)" for s v r
    using that by (auto split: list.splits if_splits simp del: decoded.simps(6) simp: decoded_foldl
        dest!: parse_str_valid scan_number_ok E M)
  moreover have "list_all decoded vs" if "parse_elems VNumber (Suc n) s = Some (vs, r)" for s vs r
    using that by (auto split: list.splits option.splits if_splits dest!: V E)
  moreover have "list_all (\<lambda>(k, v). valid_utf8 k \<and> decoded v) m" if "parse_members VNumber (Suc n) s = Some (m, r)" for s m r
    using that by (auto split: list.splits option.splits if_splits dest!: V M parse_str_valid)
  ultimately show ?case by blast
qed simp

lemma json_decode_decoded: "json_decode s = Some v \<Longrightarrow> decoded v"
  unfolding json_decode_def using parse_decoded [of "2 * length s + 2"]
  by (cases "parse_value VNumber (2 * length s + 2) s") (simp_all del: parse_value.simps, metis surjective_pairing)

section \<open>Canonical texts\<close>

text \<open>A canonical text denotes a value, and is what the encoder writes for it.\<close>

definition canonical :: "string \<Rightarrow> gval \<Rightarrow> bool" where
  "canonical s v \<longleftrightarrow> reads_as s v \<and> json_enc v = Some s"

lemma sort_key_fst_map: "sort_key fst (map (\<lambda>(k, v). (k, f v)) m) = map (\<lambda>(k, v). (k, f v)) (sort_key fst m)"
proof -
  have ins: "insort_key fst (k, f v) (map (\<lambda>(k, v). (k, f v)) xs) = map (\<lambda>(k, v). (k, f v)) (insort_key fst (k, v) xs)" for k v xs
    by (induction xs) auto
  show ?thesis by (induction m) (auto simp: ins)
qed

lemma sort_key_sort_key [simp]: "sort_key f (sort_key f m) = sort_key f m"
  by (simp add: sort_key_id_if_sorted)

lemma json_enc_VMap:
  assumes "list_all (\<lambda>(k, v). json_enc v = Some (g v)) m"
  shows "json_enc (VMap m) = Some (json_object (map (\<lambda>(k, v). (k, g v)) (sort_key fst m)))"
proof -
  have "map (json_enc \<circ> snd) m = map Some (map (g \<circ> snd) m)" using assms by (auto simp: list_all_iff)
  then have "all_some (map (json_enc \<circ> snd) m) = Some (map (g \<circ> snd) m)" by (simp only: all_some_iff)
  moreover have "zip (map fst m) (map (g \<circ> snd) m) = map (\<lambda>(k, v). (k, g v)) m" by (induction m) auto
  ultimately show ?thesis by (simp add: sort_key_fst_map)
qed

lemma json_enc_norm: "decoded v \<Longrightarrow> json_enc (json_norm v) = json_enc v"
proof (induction v)
  case (VList vs)
  then have "map json_enc (map json_norm vs) = map json_enc vs" by (auto simp: list_all_iff)
  then show ?case by (simp only: json_norm.simps json_enc.simps)
next
  case (VMap m)
  define g where "g = (\<lambda>v. the (json_enc v))"
  define nrm where "nrm = map (\<lambda>(k, v). (k, json_norm v)) m"
  have g: "json_enc v = Some (g v) \<and> json_enc (json_norm v) = Some (g v)" if kv: "(k, v) \<in> set m" for k v
  proof -
    have d: "decoded v" using VMap.prems kv by (auto simp: list_all_iff)
    then obtain s where "json_enc v = Some s" using json_enc_reads [OF decoded_wf [OF d]] by (auto simp: enc_reads_def)
    moreover have "json_enc (json_norm v) = json_enc v" using VMap.IH [OF kv, of v] d by simp
    ultimately show ?thesis by (simp add: g_def)
  qed
  have gn: "g (json_norm v) = g v" if "(k, v) \<in> set m" for k v
    using g [OF that] by (metis g_def option.sel)
  have "list_all (\<lambda>(k, v). json_enc v = Some (g v)) m" "list_all (\<lambda>(k, v). json_enc v = Some (g v)) (sort_key fst nrm)"
    using g gn by (auto simp: list_all_iff nrm_def)
  note 1 = this [THEN json_enc_VMap, unfolded sort_key_sort_key]
  have "map (\<lambda>(k, v). (k, g v)) nrm = map (\<lambda>(k, v). (k, g v)) m" using gn by (auto simp: nrm_def)
  then have "map (\<lambda>(k, v). (k, g v)) (sort_key fst nrm) = map (\<lambda>(k, v). (k, g v)) (sort_key fst m)"
    by (metis sort_key_fst_map)
  with 1 show ?case by (simp only: json_norm.simps nrm_def)
qed simp_all

lemma json_enc_canonical: "decoded v \<Longrightarrow> \<exists>s. json_enc v = Some s \<and> canonical s (json_norm v)"
  using json_enc_reads [OF decoded_wf] json_enc_norm [of v] by (auto simp: canonical_def enc_reads_def)

lemma canonical_decode: "canonical s v \<Longrightarrow> json_decode s = Some v"
  using reads_asD [of s v "2 * length s + 2" "[]"] by (simp add: canonical_def json_decode_def)

lemma canonical_unique: "canonical s v \<Longrightarrow> canonical t v \<Longrightarrow> s = t"
  by (simp add: canonical_def)

lemma reads_as_unique:
  assumes "reads_as s v" "reads_as s u" shows "v = u"
  using reads_asD [OF assms(1), of "2 * length s" "[]"] reads_asD [OF assms(2), of "2 * length s" "[]"] by simp

end
