(* ===== verification/Actions.thy ===== *)
theory Actions
  imports Values
begin

text \<open>
  The action catalog, \<^verbatim>\<open>src/internal/actions/catalog.go\<close>: the registered action types, the
  authoritative risk class of each, and the validation of a target and its parameters. An
  error of the source is \<open>Some\<close> of its message, \<^verbatim>\<open>nil\<close> is \<open>None\<close>.
\<close>

section \<open>The catalog\<close>

definition CollectDiagnostics :: string where "CollectDiagnostics = ''collect_diagnostics''"
definition RestartService :: string where "RestartService = ''restart_service''"
definition RollbackConfig :: string where "RollbackConfig = ''rollback_config''"
definition ReloadNginx :: string where "ReloadNginx = ''reload_nginx''"
definition ClearRedisKeyspace :: string where "ClearRedisKeyspace = ''clear_redis_keyspace''"
definition DrainPostgresConnections :: string where
  "DrainPostgresConnections = ''drain_postgres_connections''"
definition ScaleWorkerSimulation :: string where
  "ScaleWorkerSimulation = ''scale_worker_simulation''"
definition RevertFeatureFlag :: string where "RevertFeatureFlag = ''revert_feature_flag''"
definition DisableBadRoute :: string where "DisableBadRoute = ''disable_bad_route''"
definition RestartPod :: string where "RestartPod = ''restart_pod''"
definition ResizeConnectionPool :: string where "ResizeConnectionPool = ''resize_connection_pool''"
definition ToggleFeatureFlag :: string where "ToggleFeatureFlag = ''toggle_feature_flag''"
definition PurgeCache :: string where "PurgeCache = ''purge_cache''"

lemmas action_names = CollectDiagnostics_def RestartService_def RollbackConfig_def ReloadNginx_def
  ClearRedisKeyspace_def DrainPostgresConnections_def ScaleWorkerSimulation_def
  RevertFeatureFlag_def DisableBadRoute_def RestartPod_def ResizeConnectionPool_def
  ToggleFeatureFlag_def PurgeCache_def

definition registered :: "string list" where
  "registered =
     [CollectDiagnostics, RestartService, RollbackConfig, ReloadNginx,
      ClearRedisKeyspace, DrainPostgresConnections, ScaleWorkerSimulation,
      RevertFeatureFlag, DisableBadRoute, RestartPod, ResizeConnectionPool,
      ToggleFeatureFlag, PurgeCache]"

definition allowedFlags :: "string list" where
  "allowedFlags =
     [''payments-api/optional-notifications'', ''payments-api/checkout-v2'',
      ''checkout-api/async-confirmation'']"

definition risks :: "string gomap" where
  "risks =
     [(CollectDiagnostics, ''low''), (RestartService, ''medium''), (RollbackConfig, ''medium''),
      (ReloadNginx, ''medium''), (ClearRedisKeyspace, ''medium''),
      (DrainPostgresConnections, ''medium''), (ScaleWorkerSimulation, ''medium''),
      (RevertFeatureFlag, ''medium''), (DisableBadRoute, ''medium''), (RestartPod, ''medium''),
      (ResizeConnectionPool, ''medium''), (ToggleFeatureFlag, ''medium''), (PurgeCache, ''medium'')]"

definition riskRank :: "int gomap" where
  "riskRank = [(''low'', 1), (''medium'', 2), (''high'', 3)]"

text \<open>\<^verbatim>\<open>riskRank[r]\<close> reads 0 for a class that is not in the map.\<close>

definition risk_rank :: "string \<Rightarrow> int" where
  "risk_rank r = (case map_of riskRank r of None \<Rightarrow> 0 | Some n \<Rightarrow> n)"

definition Risk :: "string \<Rightarrow> string" where
  "Risk action = map_str risks action"

definition EffectiveRisk :: "string \<Rightarrow> string \<Rightarrow> string" where
  "EffectiveRisk action requested =
     (let catalog = map_str risks action in
      if requested = [] then catalog
      else if map_of riskRank requested = None then requested
      else if risk_rank catalog > risk_rank requested then catalog
      else requested)"

definition IsRegistered :: "string \<Rightarrow> bool" where
  "IsRegistered action \<longleftrightarrow> action \<in> set registered"

section \<open>Validation\<close>

definition label_alnum :: "char \<Rightarrow> bool" where
  "label_alnum c \<longleftrightarrow> (CHR ''a'' \<le> c \<and> c \<le> CHR ''z'') \<or> (CHR ''0'' \<le> c \<and> c \<le> CHR ''9'')"

text \<open>The pattern \<^verbatim>\<open>^[a-z0-9](?:[-a-z0-9]*[a-z0-9])?$\<close>.\<close>

fun dnsLabelPattern :: "string \<Rightarrow> bool" where
  "dnsLabelPattern [] = False"
| "dnsLabelPattern (c # r) =
     (label_alnum c \<and>
      (r = [] \<or> (list_all (\<lambda>d. d = CHR ''-'' \<or> label_alnum d) (butlast r) \<and> label_alnum (last r))))"

definition validDNSLabel :: "string \<Rightarrow> bool" where
  "validDNSLabel value \<longleftrightarrow> length value \<le> 63 \<and> dnsLabelPattern value"

definition Integer :: "gval \<Rightarrow> int option" where
  "Integer value =
     (case value of
        VInt i \<Rightarrow> Some i
      | VInt32 i \<Rightarrow> Some i
      | VInt64 i \<Rightarrow> Some i
      | VFloat (Fin r) \<Rightarrow>
          (if of_int (ftrunc r) = r \<and> of_int min_int64 \<le> r \<and> r \<le> 2 ^ 63
           then Some (f64_to_int r) else None)
      | VNumber s \<Rightarrow> parse_int64 s
      | _ \<Rightarrow> None)"

fun missing_key :: "gval gomap \<Rightarrow> string list \<Rightarrow> string option" where
  "missing_key parameters [] = None"
| "missing_key parameters (key # keys) =
     (if map_of parameters key = None then Some (''missing parameter '' @ quote key)
      else missing_key parameters keys)"

definition validateKeys :: "gval gomap \<Rightarrow> string list \<Rightarrow> string option" where
  "validateKeys parameters required =
     (if map_len parameters \<noteq> length required
      then Some (''expected parameters: '' @ join_str '', '' required)
      else missing_key parameters required)"

definition validateCachePrefix :: "string \<Rightarrow> string option" where
  "validateCachePrefix target =
     (if \<not> has_prefix target ''demo:'' \<or> \<not> has_suffix target '':*''
         \<or> count_str target ''*'' \<noteq> 1 \<or> length (trim_suffix target ''*'') < length ''demo:x:''
      then Some ''cache purge target must be a scoped demo:<segment>:* prefix''
      else None)"

definition Validate :: "string \<Rightarrow> string \<Rightarrow> gval gomap \<Rightarrow> string option" where
  "Validate action target parameters =
     (if action = RestartPod then
        (case validateKeys parameters [] of
           Some err \<Rightarrow> Some err
         | None \<Rightarrow>
             (let parts = split_on (CHR ''/'') target in
              if length parts \<noteq> 2 \<or> (parts ! 0 \<noteq> ''local'' \<and> parts ! 0 \<noteq> ''demo'')
                 \<or> \<not> validDNSLabel (parts ! 1)
              then Some ''pod target must be local/<pod> or demo/<pod>'' else None))
      else if action = ResizeConnectionPool then
        (if \<not> validDNSLabel target then Some ''connection-pool target must be a service name''
         else case validateKeys parameters [''size''] of
           Some err \<Rightarrow> Some err
         | None \<Rightarrow>
             (case Integer (map_any parameters ''size'') of
                None \<Rightarrow> Some ''connection-pool size must be an integer between 2 and 50''
              | Some n \<Rightarrow>
                  if n < 2 \<or> n > 50
                  then Some ''connection-pool size must be an integer between 2 and 50'' else None))
      else if action = ToggleFeatureFlag then
        (if target \<notin> set allowedFlags then Some ''feature flag target is not allow-listed''
         else case validateKeys parameters [''enabled''] of
           Some err \<Rightarrow> Some err
         | None \<Rightarrow>
             (case map_any parameters ''enabled'' of
                VBool b \<Rightarrow> None
              | _ \<Rightarrow> Some ''feature flag enabled must be a boolean''))
      else if action = PurgeCache then
        (case validateCachePrefix target of
           Some err \<Rightarrow> Some err
         | None \<Rightarrow>
             (case validateKeys parameters [''max_keys''] of
                Some err \<Rightarrow> Some err
              | None \<Rightarrow>
                  (case Integer (map_any parameters ''max_keys'') of
                     None \<Rightarrow> Some ''cache purge max_keys must be an integer between 1 and 1000''
                   | Some maxKeys \<Rightarrow>
                       if maxKeys < 1 \<or> maxKeys > 1000
                       then Some ''cache purge max_keys must be an integer between 1 and 1000''
                       else None)))
      else if action = ClearRedisKeyspace then
        (if \<not> has_prefix target ''demo:pressure:''
         then Some ''redis remediation is restricted to demo:pressure:* keys'' else None)
      else None)"

section \<open>Risk classes\<close>

lemma registered_risk: "IsRegistered a \<longleftrightarrow> map_of risks a \<noteq> None"
  by (auto simp: IsRegistered_def registered_def risks_def)

lemma registered_cases:
  assumes "IsRegistered a"
  shows "a = CollectDiagnostics \<and> Risk a = ''low'' \<or> a \<noteq> CollectDiagnostics \<and> Risk a = ''medium''"
  using assms unfolding IsRegistered_def registered_def
  by (auto simp: Risk_def risks_def map_str_def action_names)

lemma risk_rank_simps [simp]:
  "risk_rank [] = 0" "risk_rank ''low'' = 1" "risk_rank ''medium'' = 2" "risk_rank ''high'' = 3"
  by (simp_all add: risk_rank_def riskRank_def)

lemma riskRank_dom: "map_of riskRank r \<noteq> None \<longleftrightarrow> r \<in> {''low'', ''medium'', ''high''}"
  by (simp add: riskRank_def)

lemma EffectiveRisk_stricter:
  assumes "r = [] \<or> map_of riskRank r \<noteq> None"
  shows "risk_rank (Risk a) \<le> risk_rank (EffectiveRisk a r)"
    and "risk_rank r \<le> risk_rank (EffectiveRisk a r)"
proof -
  have "0 \<le> risk_rank x" for x by (simp add: risk_rank_def riskRank_def)
  then show "risk_rank (Risk a) \<le> risk_rank (EffectiveRisk a r)"
    and "risk_rank r \<le> risk_rank (EffectiveRisk a r)"
    using assms by (auto simp: EffectiveRisk_def Risk_def Let_def)
qed

lemma EffectiveRisk_low:
  assumes "IsRegistered a" "EffectiveRisk a r = ''low''"
  shows "a = CollectDiagnostics"
  using registered_cases [OF assms(1)] assms(2)
  by (auto simp: EffectiveRisk_def Risk_def Let_def riskRank_def split: if_splits)

section \<open>What validation accepts\<close>

lemma missing_key_None: "missing_key ps ks = None \<longleftrightarrow> set ks \<subseteq> dom (map_of ps)"
  by (induction ks) auto

text \<open>Exactly the required keys: none missing and, by the count, no other.\<close>

lemma validateKeys_None:
  assumes "distinct ks"
  shows "validateKeys ps ks = None \<longleftrightarrow> dom (map_of ps) = set ks"
proof -
  have "card (set ks) = length ks" using assms by (rule distinct_card)
  moreover have "finite (dom (map_of ps))" by (rule finite_dom_map_of)
  ultimately show ?thesis
    using card_subset_eq [of "dom (map_of ps)" "set ks"]
    by (auto simp: validateKeys_def missing_key_None map_len_card)
qed

lemma validateKeys_Nil: "validateKeys ps [] = (if ps = [] then None else Some ''expected parameters: '')"
  by (simp add: validateKeys_def)

lemma dnsLabelPattern_chars:
  assumes "dnsLabelPattern s" "c \<in> set s"
  shows "c = CHR ''-'' \<or> label_alnum c"
proof (cases s)
  case (Cons d r)
  show ?thesis
  proof (cases "r = []")
    case False
    then have "set r = insert (last r) (set (butlast r))"
      by (metis append_butlast_last_id list.simps(15) rotate1.simps(2) set_rotate1)
    then show ?thesis using assms Cons False by (auto simp: list_all_iff)
  qed (use assms Cons in auto)
qed (use assms in simp)

lemma label_alnum_not_special:
  "\<not> label_alnum (CHR ''/'')" "\<not> label_alnum (CHR ''*'')" "\<not> label_alnum (CHR '':'')"
  by (simp_all add: label_alnum_def)

lemma validDNSLabel_no_slash: "validDNSLabel s \<Longrightarrow> CHR ''/'' \<notin> set s"
  using dnsLabelPattern_chars label_alnum_not_special by (fastforce simp: validDNSLabel_def)

lemma split_two:
  "length (split_on c t) = 2 \<Longrightarrow> t = split_on c t ! 0 @ [c] @ split_on c t ! 1"
  using join_split_on [of c t]
  by (cases "split_on c t"; cases "tl (split_on c t)") auto

lemma Validate_RestartPod:
  "Validate RestartPod target ps = None \<longleftrightarrow>
     ps = [] \<and> (\<exists>ns pod. target = ns @ ''/'' @ pod \<and> ns \<in> {''local'', ''demo''} \<and> validDNSLabel pod)"
  (is "?l \<longleftrightarrow> ps = [] \<and> ?r")
proof -
  let ?parts = "split_on (CHR ''/'') target"
  have "?r \<longleftrightarrow> length ?parts = 2 \<and> ?parts ! 0 \<in> {''local'', ''demo''} \<and> validDNSLabel (?parts ! 1)"
  proof
    assume ?r
    then obtain ns pod where t: "target = ns @ ''/'' @ pod" "ns \<in> {''local'', ''demo''}"
      and pod: "validDNSLabel pod" by blast
    have "CHR ''/'' \<notin> set ns" using t(2) by auto
    then have "?parts = ns # split_on (CHR ''/'') pod"
      using t(1) split_on_append [of "CHR ''/''" ns pod] by simp
    with t(2) pod show "length ?parts = 2 \<and> ?parts ! 0 \<in> {''local'', ''demo''} \<and> validDNSLabel (?parts ! 1)"
      by (simp add: split_on_single [OF validDNSLabel_no_slash])
  next
    assume "length ?parts = 2 \<and> ?parts ! 0 \<in> {''local'', ''demo''} \<and> validDNSLabel (?parts ! 1)"
    with split_two [of "CHR ''/''" target] show ?r by (metis append_Cons append_Nil)
  qed
  then show ?thesis
    by (simp add: Validate_def Let_def validateKeys_Nil)
qed

lemma action_neq [simp]:
  "ResizeConnectionPool \<noteq> RestartPod" "ToggleFeatureFlag \<noteq> RestartPod"
  "ToggleFeatureFlag \<noteq> ResizeConnectionPool" "PurgeCache \<noteq> RestartPod"
  "PurgeCache \<noteq> ResizeConnectionPool" "PurgeCache \<noteq> ToggleFeatureFlag"
  "ClearRedisKeyspace \<noteq> RestartPod" "ClearRedisKeyspace \<noteq> ResizeConnectionPool"
  "ClearRedisKeyspace \<noteq> ToggleFeatureFlag" "ClearRedisKeyspace \<noteq> PurgeCache"
  by (simp_all add: action_names)

lemma Validate_ResizeConnectionPool:
  "Validate ResizeConnectionPool target ps = None \<longleftrightarrow>
     validDNSLabel target \<and> dom (map_of ps) = {''size''} \<and>
     (\<exists>n. Integer (map_any ps ''size'') = Some n \<and> 2 \<le> n \<and> n \<le> 50)"
proof -
  have k: "validateKeys ps [''size''] = None \<longleftrightarrow> dom (map_of ps) = {''size''}"
    using validateKeys_None [of "[''size'']" ps] by simp
  show ?thesis
    unfolding Validate_def k [symmetric] by (simp add: not_less split: option.split)
qed

lemma Validate_ToggleFeatureFlag:
  "Validate ToggleFeatureFlag target ps = None \<longleftrightarrow>
     target \<in> set allowedFlags \<and> dom (map_of ps) = {''enabled''} \<and>
     (\<exists>b. map_any ps ''enabled'' = VBool b)"
proof -
  have k: "validateKeys ps [''enabled''] = None \<longleftrightarrow> dom (map_of ps) = {''enabled''}"
    using validateKeys_None [of "[''enabled'']" ps] by simp
  show ?thesis
    unfolding Validate_def k [symmetric] by (simp split: option.split gval.split)
qed

lemma validateCachePrefix_None:
  "validateCachePrefix target = None \<longleftrightarrow>
     (\<exists>seg. target = ''demo:'' @ seg @ '':*'' \<and> seg \<noteq> [] \<and> CHR ''*'' \<notin> set seg)" (is "?l \<longleftrightarrow> ?r")
proof
  assume ?l
  then have p: "has_prefix target ''demo:''" and s: "has_suffix target '':*''"
    and c: "count_str target ''*'' = 1" and len: "7 \<le> length (trim_suffix target ''*'')"
    by (auto simp: validateCachePrefix_def split: if_splits)
  obtain r where r: "target = ''demo:'' @ r" using p by (auto simp: has_prefix_iff)
  obtain q where q: "target = q @ '':*''" using s by (auto simp: has_suffix_iff)
  have "has_suffix target ''*''" using q by (auto simp: has_suffix_iff)
  then have "8 \<le> length target" using len by (simp add: trim_suffix_def)
  then have lq: "6 \<le> length q" using q by simp
  have "''demo:'' @ r = q @ '':*''" using r q by simp
  then consider us where "''demo:'' = q @ us" | us where "''demo:'' @ us = q" "r = us @ '':*''"
    unfolding append_eq_append_conv2 by blast
  then obtain seg where seg: "r = seg @ '':*''" "seg \<noteq> []"
  proof cases
    case 1
    then have "length ''demo:'' = length q + length us" by (metis length_append)
    then show ?thesis using lq by simp
  next
    case (2 us)
    then have "us \<noteq> []" using lq by auto
    with 2(2) show ?thesis by (rule that)
  qed
  have "count_list target (CHR ''*'') = 1" using c by (simp add: count_str_single)
  with r seg have "count_list seg (CHR ''*'') = 0" by simp
  with r seg show ?r by (auto simp: count_list_0_iff)
next
  assume ?r
  then obtain seg where t: "target = ''demo:'' @ seg @ '':*''" "seg \<noteq> []" "CHR ''*'' \<notin> set seg"
    by blast
  have "has_suffix target '':*''" "has_suffix target ''*''"
    unfolding has_suffix_iff using t(1) by (metis append.assoc append_Cons append_Nil)+
  moreover have "count_str target ''*'' = 1"
    using t by (simp add: count_str_single count_list_0_iff)
  moreover have "1 \<le> length seg" using t(2) by (cases seg) auto
  ultimately show ?l
    using t(1) by (auto simp: validateCachePrefix_def trim_suffix_def has_prefix_def)
qed

lemma Validate_PurgeCache:
  "Validate PurgeCache target ps = None \<longleftrightarrow>
     validateCachePrefix target = None \<and> dom (map_of ps) = {''max_keys''} \<and>
     (\<exists>n. Integer (map_any ps ''max_keys'') = Some n \<and> 1 \<le> n \<and> n \<le> 1000)"
proof -
  have k: "validateKeys ps [''max_keys''] = None \<longleftrightarrow> dom (map_of ps) = {''max_keys''}"
    using validateKeys_None [of "[''max_keys'']" ps] by simp
  show ?thesis
    unfolding Validate_def k [symmetric] by (simp add: not_less split: option.split)
qed

lemma Validate_ClearRedisKeyspace:
  "Validate ClearRedisKeyspace target ps = None \<longleftrightarrow> (\<exists>r. target = ''demo:pressure:'' @ r)"
  by (simp add: Validate_def has_prefix_iff)

text \<open>Actions without a case in the switch accept any target.\<close>

lemma Validate_other:
  "a \<notin> {RestartPod, ResizeConnectionPool, ToggleFeatureFlag, PurgeCache, ClearRedisKeyspace} \<Longrightarrow>
     Validate a target ps = None"
  by (simp add: Validate_def)

section \<open>Properties\<close>

text \<open>
  C26: validation of a typed action accepts exactly the targets and parameters that are in
  bounds, for every target string and every JSON parameter object. A pod restart takes no
  parameters and names one pod of the \<^verbatim>\<open>local\<close> or \<^verbatim>\<open>demo\<close> namespace; a pool size is an
  integer from 2 to 50 and the only parameter; a flag is on the allow list and is set to a
  boolean; a cache purge names a non-empty segment under \<^verbatim>\<open>demo:\<close> with the only wildcard at
  its end and at most 1000 keys; a Redis clear stays under \<^verbatim>\<open>demo:pressure:\<close>.
\<close>

theorem Validate_accepts_exactly:
  "Validate a target ps = None \<longleftrightarrow>
     (if a = RestartPod then
        ps = [] \<and> (\<exists>ns pod. target = ns @ ''/'' @ pod \<and> ns \<in> {''local'', ''demo''} \<and> validDNSLabel pod)
      else if a = ResizeConnectionPool then
        validDNSLabel target \<and> dom (map_of ps) = {''size''} \<and>
        (\<exists>n. Integer (map_any ps ''size'') = Some n \<and> 2 \<le> n \<and> n \<le> 50)
      else if a = ToggleFeatureFlag then
        target \<in> set allowedFlags \<and> dom (map_of ps) = {''enabled''} \<and>
        (\<exists>b. map_any ps ''enabled'' = VBool b)
      else if a = PurgeCache then
        (\<exists>seg. target = ''demo:'' @ seg @ '':*'' \<and> seg \<noteq> [] \<and> CHR ''*'' \<notin> set seg) \<and>
        dom (map_of ps) = {''max_keys''} \<and>
        (\<exists>n. Integer (map_any ps ''max_keys'') = Some n \<and> 1 \<le> n \<and> n \<le> 1000)
      else if a = ClearRedisKeyspace then \<exists>r. target = ''demo:pressure:'' @ r
      else True)"
  using Validate_RestartPod Validate_ResizeConnectionPool Validate_ToggleFeatureFlag
    Validate_PurgeCache Validate_ClearRedisKeyspace Validate_other validateCachePrefix_None
  by simp

end
