(* ===== verification/Policy.thy ===== *)
theory Policy
  imports Actions
begin

text \<open>
  The policy engine, \<^verbatim>\<open>src/internal/policy/engine.go\<close>: the decision on one proposed
  remediation. The anonymous structs of \<^verbatim>\<open>Input\<close> are records; \<^verbatim>\<open>map[string]struct{}\<close> of
  environments is the list of its keys.
\<close>

section \<open>Data\<close>

record policy_actor =
  pa_id :: string
  pa_role :: string

record policy_incident =
  pi_id :: string
  pi_severity :: string
  pi_service :: string
  pi_environment :: string

record policy_remediation =
  pr_type :: string
  pr_target :: string
  pr_risk :: string
  pr_dry_run :: bool
  pr_parameters :: "gval gomap"

record policy_history =
  ph_same_action_last_10m :: int
  ph_failed_attempts :: int

record policy_input =
  in_actor :: policy_actor
  in_incident :: policy_incident
  in_remediation :: policy_remediation
  in_history :: policy_history

record policy_decision =
  Allow :: bool
  RequiresApproval :: bool
  Reason :: string
  MaxAttempts :: int
  DecisionRisk :: string

record policy_engine =
  pe_environments :: "string list"

section \<open>Operations\<close>

fun add_environments :: "string list \<Rightarrow> string list \<Rightarrow> string list" where
  "add_environments allowed [] = allowed"
| "add_environments allowed (e # es) =
     (let environment = trim_space e in
      add_environments (if environment \<noteq> [] then append_unique allowed environment else allowed) es)"

definition NewEngineForEnvironments :: "string list \<Rightarrow> policy_engine" where
  "NewEngineForEnvironments environments = \<lparr>pe_environments = add_environments [] environments\<rparr>"

definition NewEngine :: policy_engine where
  "NewEngine = NewEngineForEnvironments [''local'']"

definition blocked :: policy_decision where
  "blocked =
     \<lparr>Allow = False, RequiresApproval = True,
      Reason = ''Blocked by default until explicitly allowed'', MaxAttempts = 1, DecisionRisk = []\<rparr>"

definition Evaluate :: "policy_engine \<Rightarrow> policy_input \<Rightarrow> policy_decision" where
  "Evaluate e input =
     (let role = pa_role (in_actor input);
          environment = pi_environment (in_incident input);
          rem = in_remediation input;
          decision = blocked
      in
      if role = ''viewer'' then decision\<lparr>Reason := ''Viewer role cannot propose or execute remediation''\<rparr>
      else if role = [] then decision\<lparr>Reason := ''Actor role is missing''\<rparr>
      else if environment \<notin> set (pe_environments e) then
        decision\<lparr>Reason := ''Remediation is not enabled for environment '' @ quote environment\<rparr>
      else
      let risk = EffectiveRisk (pr_type rem) (pr_risk rem);
          decision = decision\<lparr>DecisionRisk := risk\<rparr>
      in
      if risk = ''high'' then decision\<lparr>Reason := ''High-risk actions are blocked''\<rparr>
      else if \<not> IsRegistered (pr_type rem) then
        decision\<lparr>Reason := ''Remediation type is not registered''\<rparr>
      else if ph_same_action_last_10m (in_history input) \<ge> 2 then
        decision\<lparr>Reason := ''Too many repeated remediation attempts''\<rparr>
      else if ph_failed_attempts (in_history input) \<ge> 2 then
        decision\<lparr>Reason := ''Circuit breaker: repeated remediation failures''\<rparr>
      else case Validate (pr_type rem) (pr_target rem) (pr_parameters rem) of
        Some err \<Rightarrow> decision\<lparr>Reason := err\<rparr>
      | None \<Rightarrow>
          if risk = ''low'' then
            decision\<lparr>Allow := True, RequiresApproval := False,
              Reason := ''Low-risk remediation is allowed'', MaxAttempts := 2\<rparr>
          else if risk = ''medium'' then
            decision\<lparr>Allow := True, RequiresApproval := True,
              Reason := ''Medium risk remediation requires approval'', MaxAttempts := 1\<rparr>
          else decision\<lparr>Reason := ''Unknown remediation risk level''\<rparr>)"

section \<open>The decision, completely\<close>

text \<open>The guards of \<open>Evaluate\<close>, as one predicate on the input.\<close>

definition admissible :: "policy_engine \<Rightarrow> policy_input \<Rightarrow> bool" where
  "admissible e i \<longleftrightarrow>
     pa_role (in_actor i) \<notin> {[], ''viewer''} \<and>
     pi_environment (in_incident i) \<in> set (pe_environments e) \<and>
     IsRegistered (pr_type (in_remediation i)) \<and>
     ph_same_action_last_10m (in_history i) < 2 \<and> ph_failed_attempts (in_history i) < 2 \<and>
     Validate (pr_type (in_remediation i)) (pr_target (in_remediation i))
       (pr_parameters (in_remediation i)) = None"

definition eff_risk :: "policy_input \<Rightarrow> string" where
  "eff_risk i = EffectiveRisk (pr_type (in_remediation i)) (pr_risk (in_remediation i))"

lemma Evaluate_Allow:
  "Allow (Evaluate e i) \<longleftrightarrow> admissible e i \<and> eff_risk i \<in> {''low'', ''medium''}"
  by (auto simp: Evaluate_def admissible_def eff_risk_def blocked_def Let_def not_le split: option.splits)

lemma Evaluate_RequiresApproval:
  "RequiresApproval (Evaluate e i) \<longleftrightarrow> \<not> (admissible e i \<and> eff_risk i = ''low'')"
  by (auto simp: Evaluate_def admissible_def eff_risk_def blocked_def Let_def not_le split: option.splits)

lemma Evaluate_MaxAttempts:
  "MaxAttempts (Evaluate e i) = (if admissible e i \<and> eff_risk i = ''low'' then 2 else 1)"
  by (auto simp: Evaluate_def admissible_def eff_risk_def blocked_def Let_def not_le split: option.splits)

lemma Evaluate_risk_allowed: "Allow (Evaluate e i) \<Longrightarrow> DecisionRisk (Evaluate e i) = eff_risk i"
  by (auto simp: Evaluate_def eff_risk_def blocked_def Let_def split: option.splits if_splits)

lemma add_environments_set:
  "set (add_environments allowed es) = set allowed \<union> (trim_space ` set es - {[]})"
  by (induction es arbitrary: allowed) (auto simp: Let_def)

lemma eff_risk_cases:
  assumes "IsRegistered (pr_type (in_remediation i))"
  shows "eff_risk i = ''low'' \<longleftrightarrow>
           pr_type (in_remediation i) = CollectDiagnostics \<and> pr_risk (in_remediation i) \<in> {[], ''low''}"
    and "eff_risk i \<in> {''low'', ''medium''} \<longleftrightarrow> pr_risk (in_remediation i) \<in> {[], ''low'', ''medium''}"
  using registered_cases [OF assms]
  by (auto simp: eff_risk_def EffectiveRisk_def Risk_def Let_def riskRank_def risk_rank_def split: if_splits)

section \<open>Properties\<close>

text \<open>
  C24: the engine allows a remediation exactly when the actor has a role other than viewer, the
  incident's environment is enabled, the action is registered, fewer than two like actions ran
  in the last ten minutes, fewer than two attempts failed, the catalog validates the target and
  parameters, and the proposal asks for no class above medium and no unknown class.
\<close>

theorem Evaluate_allows_exactly:
  "Allow (Evaluate e i) \<longleftrightarrow>
     pa_role (in_actor i) \<notin> {[], ''viewer''} \<and>
     pi_environment (in_incident i) \<in> set (pe_environments e) \<and>
     IsRegistered (pr_type (in_remediation i)) \<and>
     ph_same_action_last_10m (in_history i) < 2 \<and> ph_failed_attempts (in_history i) < 2 \<and>
     Validate (pr_type (in_remediation i)) (pr_target (in_remediation i))
       (pr_parameters (in_remediation i)) = None \<and>
     pr_risk (in_remediation i) \<in> {[], ''low'', ''medium''}"
  unfolding Evaluate_Allow admissible_def using eff_risk_cases(2) [of i] by blast

lemma Evaluate_unattended:
  "Allow (Evaluate e i) \<Longrightarrow> \<not> RequiresApproval (Evaluate e i) \<Longrightarrow> pr_type (in_remediation i) = CollectDiagnostics"
  using eff_risk_cases(1) [of i] by (auto simp: Evaluate_Allow Evaluate_RequiresApproval admissible_def)

text \<open>
  C25: the only remediation that may run without a human decision is the collection of
  diagnostics: an allowed decision waives approval exactly for that action, requested with no
  class or with class low, and whatever class a proposal asks for, no other action gets it.
\<close>

theorem Evaluate_unattended_only_diagnostics:
  "Allow (Evaluate e i) \<and> \<not> RequiresApproval (Evaluate e i) \<longleftrightarrow>
     admissible e i \<and> pr_type (in_remediation i) = CollectDiagnostics \<and>
     pr_risk (in_remediation i) \<in> {[], ''low''}"
  using eff_risk_cases(1) [of i]
  by (auto simp: Evaluate_Allow Evaluate_RequiresApproval admissible_def)

end
