(* ===== verification/Lifecycle.thy ===== *)
theory Lifecycle
  imports Prelude
begin

text \<open>
  State machines over status strings: what the remediation, incident and approval life cycles
  share. A life cycle is a transition test and a set of final statuses; the locale's law is that
  nothing leaves a final status, and its lemmas lift that law to runs of any length.
\<close>

locale lifecycle =
  fixes can :: "string \<Rightarrow> string \<Rightarrow> bool"
    and final :: "string \<Rightarrow> bool"
  assumes final_stuck: "final s \<Longrightarrow> can s t \<Longrightarrow> t = s"
begin

lemma final_forever:
  assumes "can\<^sup>*\<^sup>* s t" "final s"
  shows "t = s"
  using assms by (induction rule: rtranclp_induct) (auto dest: final_stuck)

lemma successively_final:
  "successively can (s # ss) \<Longrightarrow> final s \<Longrightarrow> t \<in> set ss \<Longrightarrow> t = s"
  by (induction ss arbitrary: s) (auto simp: successively_Cons dest: final_stuck)

end

text \<open>
  A life cycle with a rank that every proper step raises cannot run for ever: a run that
  changes status at each step is no longer than the rank of its last status.
\<close>

locale ranked_lifecycle = lifecycle +
  fixes rank :: "string \<Rightarrow> nat"
  assumes rank_step: "can s t \<Longrightarrow> s \<noteq> t \<Longrightarrow> rank s < rank t"
begin

lemma rank_mono: "can\<^sup>*\<^sup>* s t \<Longrightarrow> rank s \<le> rank t"
  by (induction rule: rtranclp_induct) (auto, metis less_imp_le order_trans rank_step)

lemma no_return: "can\<^sup>*\<^sup>* s t \<Longrightarrow> can\<^sup>*\<^sup>* t s \<Longrightarrow> can s u \<Longrightarrow> can\<^sup>*\<^sup>* u s \<Longrightarrow> u = s"
  using rank_mono [of u s] rank_step [of s u] by fastforce

end

end
