(* ===== verification/Remediation_States.thy ===== *)
theory Remediation_States
  imports Lifecycle
begin

text \<open>
  The remediation life cycle, \<^verbatim>\<open>src/internal/remediation/states.go\<close>: the eleven states, which of
  them are terminal, and the transition table.
\<close>

section \<open>States\<close>

definition StateProposed :: string where "StateProposed = ''proposed''"
definition StatePolicyBlocked :: string where "StatePolicyBlocked = ''policy_blocked''"
definition StateAwaitingApproval :: string where "StateAwaitingApproval = ''awaiting_approval''"
definition StateApproved :: string where "StateApproved = ''approved''"
definition StateRejected :: string where "StateRejected = ''rejected''"
definition StateQueued :: string where "StateQueued = ''queued''"
definition StateRunning :: string where "StateRunning = ''running''"
definition StateSucceeded :: string where "StateSucceeded = ''succeeded''"
definition StateFailed :: string where "StateFailed = ''failed''"
definition StateTimedOut :: string where "StateTimedOut = ''timed_out''"
definition StateCancelled :: string where "StateCancelled = ''cancelled''"

lemmas state_names = StateProposed_def StatePolicyBlocked_def StateAwaitingApproval_def
  StateApproved_def StateRejected_def StateQueued_def StateRunning_def StateSucceeded_def
  StateFailed_def StateTimedOut_def StateCancelled_def

lemma states_distinct:
  "distinct [StateProposed, StatePolicyBlocked, StateAwaitingApproval, StateApproved, StateRejected, StateQueued,
    StateRunning, StateSucceeded, StateFailed, StateTimedOut, StateCancelled]"
  "distinct [StateCancelled, StateTimedOut, StateFailed, StateSucceeded, StateRunning, StateQueued,
    StateRejected, StateApproved, StateAwaitingApproval, StatePolicyBlocked, StateProposed]"
  by (simp_all add: state_names)

lemmas state_neq [simp] = states_distinct [unfolded distinct.simps list.set insert_iff empty_iff de_Morgan_disj simp_thms]

section \<open>Transitions\<close>

definition IsTerminalState :: "string \<Rightarrow> bool" where
  "IsTerminalState state \<longleftrightarrow>
     state \<in> {StatePolicyBlocked, StateRejected, StateSucceeded, StateFailed, StateTimedOut, StateCancelled}"

definition transition_table :: "(string list) gomap" where
  "transition_table =
     [(StateProposed, [StatePolicyBlocked, StateAwaitingApproval, StateApproved, StateCancelled]),
      (StateAwaitingApproval, [StateApproved, StateRejected, StateTimedOut, StateCancelled]),
      (StateApproved, [StateQueued, StateCancelled]),
      (StateQueued, [StateRunning, StateSucceeded, StateFailed, StateTimedOut, StateCancelled]),
      (StateRunning, [StateSucceeded, StateFailed, StateTimedOut]),
      (StateFailed, [StateApproved])]"

definition CanTransition :: "string \<Rightarrow> string \<Rightarrow> bool" where
  "CanTransition from to \<longleftrightarrow>
     from = to \<or>
     (case map_of transition_table from of None \<Rightarrow> False | Some targets \<Rightarrow> to \<in> set targets)"

definition RequireTransition :: "string \<Rightarrow> string \<Rightarrow> string option" where
  "RequireTransition from to =
     (if CanTransition from to then None
      else Some (''invalid remediation transition '' @ from @ '' -> '' @ to))"

section \<open>The life cycle\<close>

lemma CanTransition_iff:
  "CanTransition s t \<longleftrightarrow>
     s = t \<or>
     s = StateProposed \<and> t \<in> {StatePolicyBlocked, StateAwaitingApproval, StateApproved, StateCancelled} \<or>
     s = StateAwaitingApproval \<and> t \<in> {StateApproved, StateRejected, StateTimedOut, StateCancelled} \<or>
     s = StateApproved \<and> t \<in> {StateQueued, StateCancelled} \<or>
     s = StateQueued \<and> t \<in> {StateRunning, StateSucceeded, StateFailed, StateTimedOut, StateCancelled} \<or>
     s = StateRunning \<and> t \<in> {StateSucceeded, StateFailed, StateTimedOut} \<or>
     s = StateFailed \<and> t = StateApproved"
  by (simp add: CanTransition_def transition_table_def)

lemma RequireTransition_None [simp]: "RequireTransition s t = None \<longleftrightarrow> CanTransition s t"
  by (simp add: RequireTransition_def)

text \<open>Statuses nothing leaves: the terminal ones except \<^verbatim>\<open>failed\<close>, which a retry re-approves.\<close>

definition settled :: "string \<Rightarrow> bool" where
  "settled s \<longleftrightarrow> IsTerminalState s \<and> s \<noteq> StateFailed"

interpretation remediation: lifecycle CanTransition settled
  by unfold_locales (auto simp: CanTransition_iff settled_def IsTerminalState_def)

section \<open>Properties\<close>

lemma unapproved_run:
  "successively CanTransition (StateProposed # ss) \<Longrightarrow> StateApproved \<notin> set ss \<Longrightarrow>
     set ss \<subseteq> {StateProposed, StatePolicyBlocked, StateAwaitingApproval, StateRejected, StateTimedOut, StateCancelled}"
proof (induction ss rule: rev_induct)
  case (snoc t ss)
  let ?S = "{StateProposed, StatePolicyBlocked, StateAwaitingApproval, StateRejected, StateTimedOut, StateCancelled}"
  have run: "successively CanTransition (StateProposed # ss)" "CanTransition (last (StateProposed # ss)) t"
    using snoc.prems(1) successively_append_iff [of CanTransition "StateProposed # ss" "[t]"] by simp_all
  have sub: "set ss \<subseteq> ?S" using snoc.IH [OF run(1)] snoc.prems(2) by simp
  have "last (StateProposed # ss) \<in> set (StateProposed # ss)" by (rule last_in_set) simp
  with sub have "last (StateProposed # ss) \<in> ?S" by auto
  with run(2) snoc.prems(2) have "t \<in> ?S" by (auto simp: CanTransition_iff)
  with sub show ?case by simp
qed simp

text \<open>
  C22: nothing is dispatched or executed without an approval. A run of allowed transitions that
  starts when a remediation is proposed and reaches \<^verbatim>\<open>queued\<close>, \<^verbatim>\<open>running\<close>, \<^verbatim>\<open>succeeded\<close> or
  \<^verbatim>\<open>failed\<close> has been through \<^verbatim>\<open>approved\<close> before; and once it is blocked, rejected, succeeded,
  timed out or cancelled it stays there whatever transitions follow.
\<close>

theorem run_requires_approval:
  assumes "successively CanTransition (StateProposed # ss @ t # us)"
  shows "(t \<in> {StateQueued, StateRunning, StateSucceeded, StateFailed} \<longrightarrow> StateApproved \<in> set ss) \<and>
    (IsTerminalState t \<and> t \<noteq> StateFailed \<longrightarrow> set us \<subseteq> {t})"
proof (intro conjI impI)
  have pre: "successively CanTransition (StateProposed # ss @ [t])" and post: "successively CanTransition (t # us)"
    using assms successively_append_iff [of CanTransition "StateProposed # ss" "t # us"]
      successively_append_iff [of CanTransition "StateProposed # ss" "[t]"] by simp_all
  show "set us \<subseteq> {t}" if "IsTerminalState t \<and> t \<noteq> StateFailed"
    using remediation.successively_final [OF post] that by (auto simp: settled_def)
  show "StateApproved \<in> set ss" if "t \<in> {StateQueued, StateRunning, StateSucceeded, StateFailed}"
  proof (rule ccontr)
    assume "StateApproved \<notin> set ss"
    moreover have "t \<noteq> StateApproved" using that by auto
    ultimately show False using unapproved_run [OF pre] that by auto
  qed
qed

theorem run_requires_approval_witness:
  "successively CanTransition
     (StateProposed # [StateAwaitingApproval, StateApproved, StateQueued] @ StateSucceeded # [StateSucceeded]) \<and>
   StateApproved \<in> set [StateAwaitingApproval, StateApproved, StateQueued] \<and>
   set [StateSucceeded] \<subseteq> {StateSucceeded}"
proof -
  have run: "successively CanTransition
     (StateProposed # [StateAwaitingApproval, StateApproved, StateQueued] @ StateSucceeded # [StateSucceeded])"
    by (simp add: CanTransition_iff)
  show ?thesis using run run_requires_approval [OF run] by simp
qed

end
