(* ===== verification/Graph_Types.thy ===== *)
theory Graph_Types
  imports Prelude
begin

text \<open>
  An edge of the service graph and a path in it, \<^verbatim>\<open>src/internal/topology/graph.go\<close>. The tables of the
  database and the graph share them.
\<close>

record dependency =
  DepID :: string
  DepServiceID :: string
  DepService :: string
  DependsOnID :: string
  DependsOn :: string
  DependencyType :: string
  Criticality :: string
  DepCreatedAt :: int

record topo_path =
  From :: string
  To :: string
  Services :: "string list"

end
