(* ===== verification/Topology.thy ===== *)
theory Topology
  imports Graph_Types "HOL-Library.Product_Lexorder"
begin

text \<open>
  The service dependency graph, \<^verbatim>\<open>src/internal/topology/graph.go\<close>: construction from the
  dependency edges, breadth-first search for a dependency path, and the grouping of alerted
  services under their most likely root. The map of adjacency slices is an association list;
  a \<^verbatim>\<open>map[string]struct{}\<close> used as a set is the list of its keys, whose order the code
  either sorts or does not observe.
\<close>

section \<open>Data\<close>

record group =
  Root :: string
  GroupEnvironment :: string
  Inferred :: bool
  Members :: "string list"
  Paths :: "topo_path gomap"

record graph =
  dependencies :: "(string list) gomap"
  services :: "string list"

definition zero_path :: topo_path where
  "zero_path = \<lparr>From = [], To = [], Services = []\<rparr>"

section \<open>Construction\<close>

text \<open>\<^verbatim>\<open>g.dependencies[service]\<close>: the empty slice for an unknown service.\<close>

definition deps :: "graph \<Rightarrow> string \<Rightarrow> string list" where
  "deps g s = (case map_of (dependencies g) s of None \<Rightarrow> [] | Some ns \<Rightarrow> ns)"

fun add_edges :: "graph \<Rightarrow> dependency list \<Rightarrow> graph" where
  "add_edges g [] = g"
| "add_edges g (edge # edges) =
     (if DepService edge = [] \<or> DependsOn edge = [] \<or> DepService edge = DependsOn edge
      then add_edges g edges
      else add_edges
        (g\<lparr>services := append_unique (append_unique (services g) (DepService edge)) (DependsOn edge),
           dependencies := map_set (dependencies g) (DepService edge)
             (append_unique (deps g (DepService edge)) (DependsOn edge))\<rparr>) edges)"

definition New :: "dependency list \<Rightarrow> graph" where
  "New edges =
     (let g = add_edges \<lparr>dependencies = [], services = []\<rparr> edges
      in g\<lparr>dependencies := map (\<lambda>(service, ns). (service, sort ns)) (dependencies g)\<rparr>)"

section \<open>Breadth-first search\<close>

text \<open>
  The inner loop over the successors of one candidate: \<open>Inl\<close> returns the path to the
  dependency, \<open>Inr\<close> continues with the visited set and the queue.
\<close>

fun scan_next ::
  "string \<Rightarrow> string list \<Rightarrow> string list \<Rightarrow> string list \<Rightarrow> (string \<times> string list) list
   \<Rightarrow> string list + (string list \<times> (string \<times> string list) list)" where
  "scan_next dependency path [] visited queue = Inr (visited, queue)"
| "scan_next dependency path (n # ns) visited queue =
     (if n \<in> set visited then scan_next dependency path ns visited queue
      else if n = dependency then Inl (path @ [n])
      else scan_next dependency path ns (n # visited) (queue @ [(n, path @ [n])]))"

definition nodes :: "graph \<Rightarrow> string set" where
  "nodes g = \<Union> (set ` set (map snd (dependencies g)))"

lemma finite_nodes [simp]: "finite (nodes g)"
  by (simp add: nodes_def)

lemma deps_nodes: "set (deps g s) \<subseteq> nodes g"
  by (cases "map_of (dependencies g) s") (force simp: deps_def nodes_def dest: map_of_SomeD)+

text \<open>Each newly visited node leaves the set of nodes still to visit.\<close>

lemma card_unvisited:
  assumes "set v' = set news \<union> set v" "distinct news" "set news = set (deps g c) - set v"
  shows "card (nodes g - set v') + length news = card (nodes g - set v)"
proof -
  have sub: "set news \<subseteq> nodes g - set v" using assms(3) deps_nodes by blast
  have "nodes g - set v' = (nodes g - set v) - set news" using assms(1) by auto
  moreover have "card (nodes g - set v - set news) = card (nodes g - set v) - card (set news)"
    using sub by (intro card_Diff_subset) auto
  moreover have "card (set news) = length news" using assms(2) by (rule distinct_card)
  moreover have "card (set news) \<le> card (nodes g - set v)" using sub by (intro card_mono) auto
  ultimately show ?thesis by simp
qed

lemma scan_next_Inr:
  "scan_next d p ns v q = Inr (v', q') \<Longrightarrow>
     \<exists>news. v' = rev news @ v \<and> q' = q @ map (\<lambda>n. (n, p @ [n])) news \<and>
            distinct news \<and> set news = set ns - set v"
proof (induction ns arbitrary: v q)
  case (Cons n ns)
  show ?case
  proof (cases "n \<in> set v")
    case True
    with Cons show ?thesis by force
  next
    case False
    with Cons.prems have "scan_next d p ns (n # v) (q @ [(n, p @ [n])]) = Inr (v', q')"
      by (auto split: if_splits)
    from Cons.IH [OF this] obtain news where
      "v' = rev news @ n # v" "q' = (q @ [(n, p @ [n])]) @ map (\<lambda>n. (n, p @ [n])) news"
      "distinct news" "set news = set ns - set (n # v)" by blast
    with False show ?thesis by (intro exI [of _ "n # news"]) auto
  qed
qed auto

lemma scan_next_Inl:
  "scan_next d p ns v q = Inl r \<Longrightarrow> r = p @ [d] \<and> d \<in> set ns \<and> d \<notin> set v"
  by (induction ns arbitrary: v q) (fastforce split: if_splits)+

lemma scan_next_miss:
  "scan_next d p ns v q = Inr (v', q') \<Longrightarrow> d \<notin> set v \<Longrightarrow> d \<notin> set v'"
  by (induction ns arbitrary: v q) (auto split: if_splits)

function bfs :: "graph \<Rightarrow> string \<Rightarrow> (string \<times> string list) list \<Rightarrow> string list \<Rightarrow> string list option" where
  "bfs g dependency [] visited = None"
| "bfs g dependency ((current, path) # queue) visited =
     (case scan_next dependency path (deps g current) visited queue of
        Inl found \<Rightarrow> Some found
      | Inr (visited', queue') \<Rightarrow> bfs g dependency queue' visited')"
  by pat_completeness auto
termination
proof (relation "measure (\<lambda>(g, d, q, v). card (nodes g - set v) + length q)", goal_cases)
  case (2 g d c p q v r v' q')
  then obtain news where "v' = rev news @ v" "q' = q @ map (\<lambda>n. (n, p @ [n])) news"
    "distinct news" "set news = set (deps g c) - set v" using scan_next_Inr by blast
  with card_unvisited [of v' news v g c] show ?case by simp
qed simp

definition Path :: "graph \<Rightarrow> string \<Rightarrow> string \<Rightarrow> topo_path option" where
  "Path g service dependency =
     (if service = [] \<or> dependency = [] then None
      else if service = dependency
        then Some \<lparr>From = service, To = dependency, Services = [service]\<rparr>
      else map_option (\<lambda>path. \<lparr>From = service, To = dependency, Services = path\<rparr>)
             (bfs g dependency [(service, [service])] [service]))"

section \<open>Grouping\<close>

fun reach_next :: "string list \<Rightarrow> string list \<Rightarrow> string list \<Rightarrow> string list \<times> string list" where
  "reach_next [] visited queue = (visited, queue)"
| "reach_next (n # ns) visited queue =
     (if n \<in> set visited then reach_next ns visited queue
      else reach_next ns (n # visited) (queue @ [n]))"

lemma reach_next_news:
  "reach_next ns v q = (v', q') \<Longrightarrow>
     \<exists>news. v' = rev news @ v \<and> q' = q @ news \<and> distinct news \<and> set news = set ns - set v"
proof (induction ns arbitrary: v q)
  case (Cons n ns)
  show ?case
  proof (cases "n \<in> set v")
    case True
    with Cons show ?thesis by force
  next
    case False
    with Cons.prems have "reach_next ns (n # v) (q @ [n]) = (v', q')" by auto
    from Cons.IH [OF this] obtain news where
      "v' = rev news @ n # v" "q' = (q @ [n]) @ news" "distinct news" "set news = set ns - set (n # v)"
      by blast
    with False show ?thesis by (intro exI [of _ "n # news"]) auto
  qed
qed auto

function reach_loop :: "graph \<Rightarrow> string list \<Rightarrow> string list \<Rightarrow> string list" where
  "reach_loop g [] visited = visited"
| "reach_loop g (current # queue) visited =
     (case reach_next (deps g current) visited queue of
        (visited', queue') \<Rightarrow> reach_loop g queue' visited')"
  by pat_completeness auto
termination
proof (relation "measure (\<lambda>(g, q, v). card (nodes g - set v) + length q)", goal_cases)
  case (2 g c q v v' q')
  then have "reach_next (deps g c) v q = (v', q')" by simp
  then obtain news where "v' = rev news @ v" "q' = q @ news"
    "distinct news" "set news = set (deps g c) - set v" using reach_next_news by blast
  with card_unvisited [of v' news v g c] show ?case by simp
qed simp

definition sortedKeys :: "string list \<Rightarrow> string list" where
  "sortedKeys values = sort (remdups values)"

definition uniqueSorted :: "string list \<Rightarrow> string list" where
  "uniqueSorted values = sortedKeys (filter (\<lambda>value. value \<noteq> []) values)"

definition firstKey :: "string list \<Rightarrow> string" where
  "firstKey values = (case sortedKeys values of [] \<Rightarrow> [] | k # ks \<Rightarrow> k)"

definition rootCandidates :: "graph \<Rightarrow> string list \<Rightarrow> string list" where
  "rootCandidates g ss = sortedKeys (concat (map (\<lambda>service. reach_loop g [service] [service]) ss))"

definition path_distance :: "graph \<Rightarrow> string \<Rightarrow> string \<Rightarrow> int" where
  "path_distance g root service =
     (case Path g service root of None \<Rightarrow> 0 | Some path \<Rightarrow> int (length (Services path)) - 1)"

definition covered :: "graph \<Rightarrow> string \<Rightarrow> string list \<Rightarrow> string list \<times> int" where
  "covered g root ss =
     (let found = filter (\<lambda>service. Path g service root \<noteq> None) ss
      in (sort found, sum_list (map (path_distance g root) found)))"

record best_root =
  bestRoot :: string
  bestMembers :: "string list"
  bestDistance :: int
  bestAlerted :: bool

definition betterRoot :: "string \<Rightarrow> string list \<Rightarrow> int \<Rightarrow> bool \<Rightarrow> best_root \<Rightarrow> bool" where
  "betterRoot root members distance rootAlerted best =
     (if length members \<noteq> length (bestMembers best) then length members > length (bestMembers best)
      else if distance \<noteq> bestDistance best then distance < bestDistance best
      else if rootAlerted \<noteq> bestAlerted best then rootAlerted
      else bestRoot best = [] \<or> root < bestRoot best)"

fun pick_root :: "graph \<Rightarrow> string list \<Rightarrow> string list \<Rightarrow> best_root \<Rightarrow> string list \<Rightarrow> best_root" where
  "pick_root g alerted unassigned best [] = best"
| "pick_root g alerted unassigned best (root # candidates) =
     (let (members, distance) = covered g root unassigned;
          rootAlerted = (root \<in> set alerted)
      in pick_root g alerted unassigned
           (if members \<noteq> [] \<and> betterRoot root members distance rootAlerted best
            then \<lparr>bestRoot = root, bestMembers = members, bestDistance = distance, bestAlerted = rootAlerted\<rparr>
            else best) candidates)"

definition choose_root :: "graph \<Rightarrow> string list \<Rightarrow> string list \<Rightarrow> best_root" where
  "choose_root g alerted unassigned =
     (let best = pick_root g alerted unassigned
            \<lparr>bestRoot = [], bestMembers = [], bestDistance = 0, bestAlerted = False\<rparr>
            (rootCandidates g unassigned)
      in if bestRoot best = []
         then best\<lparr>bestRoot := firstKey unassigned, bestMembers := [firstKey unassigned], bestAlerted := True\<rparr>
         else best)"

definition make_group :: "graph \<Rightarrow> best_root \<Rightarrow> group" where
  "make_group g best =
     \<lparr>Root = bestRoot best, GroupEnvironment = [], Inferred = (\<not> bestAlerted best),
      Members = bestMembers best,
      Paths = map (\<lambda>member.
        (member, case Path g member (bestRoot best) of None \<Rightarrow> zero_path | Some path \<Rightarrow> path))
        (bestMembers best)\<rparr>"

section \<open>Breadth-first search is correct\<close>

definition edge :: "graph \<Rightarrow> (string \<times> string) set" where
  "edge g = {(a, b). b \<in> set (deps g a)}"

definition walk :: "graph \<Rightarrow> string list \<Rightarrow> bool" where
  "walk g xs \<longleftrightarrow> xs \<noteq> [] \<and> successively (\<lambda>a b. (a, b) \<in> edge g) xs"

lemma walk_snoc: "walk g (xs @ [x, y]) \<longleftrightarrow> walk g (xs @ [x]) \<and> (x, y) \<in> edge g"
  by (auto simp: walk_def successively_append_iff)

lemma walk_extend: "walk g p \<Longrightarrow> (last p, y) \<in> edge g \<Longrightarrow> walk g (p @ [y])"
  by (auto simp: walk_def successively_append_iff)

lemma walk_relpow: "walk g p \<Longrightarrow> (hd p, last p) \<in> edge g ^^ (length p - 1)"
proof (induction p rule: rev_induct)
  case (snoc x p)
  show ?case
  proof (cases p rule: rev_cases)
    case (snoc q y)
    with snoc.prems snoc.IH have "(hd p, last p) \<in> edge g ^^ (length p - 1)" "(last p, x) \<in> edge g"
      by (auto simp: walk_snoc)
    then have "(hd p, x) \<in> edge g ^^ Suc (length p - 1)" by auto
    with snoc show ?thesis by (cases q) auto
  qed simp
qed (simp add: walk_def)

lemma relpow_walk: "(a, b) \<in> edge g ^^ n \<Longrightarrow> \<exists>p. walk g p \<and> hd p = a \<and> last p = b \<and> length p = Suc n"
proof (induction n arbitrary: b)
  case 0
  then show ?case by (intro exI [of _ "[a]"]) (auto simp: walk_def)
next
  case (Suc n)
  then obtain c where "(a, c) \<in> edge g ^^ n" and e: "(c, b) \<in> edge g" by auto
  with Suc.IH obtain p where p: "walk g p" "hd p = a" "last p = c" "length p = Suc n" by blast
  with e show ?case
    using walk_extend [of g p b] by (intro exI [of _ "p @ [b]"]) (auto simp: walk_def)
qed

text \<open>
  The invariant of the search from \<open>s\<close> to \<open>d\<close>. Queue entries are shortest walks to visited nodes,
  in order of length and within one level of each other; a visited node is queued or fully
  expanded; every node nearer than the head of the queue is expanded.
\<close>

definition shortest_to :: "graph \<Rightarrow> string \<Rightarrow> string \<Rightarrow> string list \<Rightarrow> bool" where
  "shortest_to g s v p \<longleftrightarrow>
     walk g p \<and> hd p = s \<and> last p = v \<and> (\<forall>n. (s, v) \<in> edge g ^^ n \<longrightarrow> length p \<le> Suc n)"

definition levels :: "nat list \<Rightarrow> bool" where
  "levels ls \<longleftrightarrow> sorted ls \<and> (\<forall>l \<in> set ls. l \<le> Suc (hd ls))"

definition bfs_inv :: "graph \<Rightarrow> string \<Rightarrow> string \<Rightarrow> (string \<times> string list) list \<Rightarrow> string list \<Rightarrow> bool" where
  "bfs_inv g s d q v \<longleftrightarrow>
     s \<in> set v \<and> d \<notin> set v \<and>
     (\<forall>(u, p) \<in> set q. u \<in> set v \<and> shortest_to g s u p) \<and>
     (\<forall>u \<in> set v. u \<in> fst ` set q \<or> set (deps g u) \<subseteq> set v) \<and>
     levels (map (length \<circ> snd) q) \<and>
     (q \<noteq> [] \<longrightarrow> (\<forall>n u. Suc n < length (snd (hd q)) \<longrightarrow> (s, u) \<in> edge g ^^ n \<longrightarrow>
        u \<in> set v \<and> u \<notin> fst ` set q))"

lemma near_successor_visited:
  assumes inv: "bfs_inv g s d ((c, p) # q) v" and w: "(s, x) \<in> edge g ^^ n" and n: "n < length p"
  shows "x \<in> set v"
proof (cases n)
  case 0
  with inv w show ?thesis by (simp add: bfs_inv_def)
next
  case (Suc m)
  with w obtain y where y: "(s, y) \<in> edge g ^^ m" "(y, x) \<in> edge g" by auto
  have "Suc m < length p" using n Suc by simp
  with inv y(1) have "y \<in> set v" "y \<notin> fst ` set ((c, p) # q)"
    by (auto simp: bfs_inv_def)
  with inv have "set (deps g y) \<subseteq> set v" unfolding bfs_inv_def by blast
  with y(2) show ?thesis by (auto simp: edge_def)
qed

lemma new_shortest:
  assumes inv: "bfs_inv g s d ((c, p) # q) v" and x: "x \<in> set (deps g c)" "x \<notin> set v"
  shows "shortest_to g s x (p @ [x])"
proof -
  have p: "shortest_to g s c p" using inv by (simp add: bfs_inv_def)
  have "walk g (p @ [x])" using p x(1) by (auto simp: shortest_to_def edge_def intro: walk_extend)
  moreover have "length p \<le> n" if "(s, x) \<in> edge g ^^ n" for n
    using near_successor_visited [OF inv that] x(2) not_le_imp_less by blast
  ultimately show ?thesis using p by (auto simp: shortest_to_def walk_def hd_append)
qed

lemma levels_step: "levels (k # ls) \<Longrightarrow> levels (ls @ replicate m (Suc k))"
  by (cases ls) (auto simp: levels_def sorted_append)

lemma bfs_inv_step:
  assumes inv: "bfs_inv g s d ((c, p) # q) v"
    and scan: "scan_next d p (deps g c) v q = Inr (v', q')"
  shows "bfs_inv g s d q' v'"
proof -
  obtain news where v': "v' = rev news @ v" and q': "q' = q @ map (\<lambda>n. (n, p @ [n])) news"
    and news: "set news = set (deps g c) - set v" using scan_next_Inr [OF scan] by blast
  have q: "\<forall>(u, r) \<in> set q. u \<in> set v \<and> shortest_to g s u r" using inv by (simp add: bfs_inv_def)
  have "map (length \<circ> snd) q' = map (length \<circ> snd) q @ replicate (length news) (Suc (length p))"
    by (simp add: q' comp_def map_replicate_const)
  moreover have lp: "levels (length p # map (length \<circ> snd) q)" using inv by (simp add: bfs_inv_def)
  ultimately have lev: "levels (map (length \<circ> snd) q')" by (simp add: levels_step)
  have len: "length (snd (hd q')) \<le> Suc (length p)" if "q' \<noteq> []"
    using lp that by (cases q; cases news) (simp_all add: q' levels_def)
  have far: "u \<in> set v \<and> u \<notin> fst ` set q'"
    if "q' \<noteq> []" "Suc n < length (snd (hd q'))" "(s, u) \<in> edge g ^^ n" for n u
  proof -
    have u: "u \<in> set v" using near_successor_visited [OF inv that(3)] len that(1,2) by simp
    have "u \<notin> fst ` set q"
    proof
      assume "u \<in> fst ` set q"
      then obtain r where r: "(u, r) \<in> set q" by auto
      then have "length r \<le> Suc n" using q that(3) by (auto simp: shortest_to_def)
      moreover have "length r \<in> set (map (length \<circ> snd) q')" using r by (force simp: q')
      then have "length (snd (hd q')) \<le> length r" using lev that(1) by (cases q') (auto simp: levels_def)
      ultimately show False using that(2) by simp
    qed
    with u news show ?thesis by (auto simp: q')
  qed
  have "d \<notin> set v'" using scan_next_miss [OF scan] inv by (simp add: bfs_inv_def)
  moreover have "\<forall>u \<in> set v'. u \<in> fst ` set q' \<or> set (deps g u) \<subseteq> set v'"
  proof -
    have old: "u = c \<or> u \<in> fst ` set q \<or> set (deps g u) \<subseteq> set v" if "u \<in> set v" for u
      using inv that by (auto simp: bfs_inv_def)
    have sets: "fst ` set q' = fst ` set q \<union> set news" "set v' = set news \<union> set v"
      by (simp_all add: q' v' image_Un image_image)
    have "set (deps g c) \<subseteq> set news \<union> set v" using news by simp
    with old show ?thesis unfolding sets by (metis UnE UnI1 UnI2 le_supI2)
  qed
  moreover have "\<forall>(u, r) \<in> set q'. u \<in> set v' \<and> shortest_to g s u r"
  proof -
    have "\<forall>n \<in> set news. shortest_to g s n (p @ [n])" using new_shortest [OF inv] news by blast
    with q show ?thesis by (fastforce simp: q' v')
  qed
  moreover have "s \<in> set v'" using inv by (simp add: bfs_inv_def v')
  ultimately show ?thesis unfolding bfs_inv_def using lev far by (simp add: v')
qed

lemma bfs_correct:
  "bfs_inv g s d q v \<Longrightarrow>
     (case bfs g d q v of None \<Rightarrow> (s, d) \<notin> (edge g)\<^sup>* | Some p \<Rightarrow> shortest_to g s d p)"
proof (induction g d q v rule: bfs.induct)
  case (1 g d v)
  then have closed: "\<forall>u \<in> set v. set (deps g u) \<subseteq> set v" and s: "s \<in> set v" and d: "d \<notin> set v"
    by (auto simp: bfs_inv_def)
  have "x \<in> set v" if "(s, x) \<in> (edge g)\<^sup>*" for x
    using that by (induction rule: rtrancl_induct) (use s closed in \<open>auto simp: edge_def\<close>)
  with d show ?case by auto
next
  case (2 g d c p q v)
  show ?case
  proof (cases "scan_next d p (deps g c) v q")
    case (Inl found)
    then have "found = p @ [d]" "d \<in> set (deps g c)" "d \<notin> set v" using scan_next_Inl by blast+
    with Inl new_shortest [OF "2.prems"] show ?thesis by simp
  next
    case (Inr vq)
    then obtain v' q' where s: "scan_next d p (deps g c) v q = Inr (v', q')" by (cases vq) auto
    with "2.IH" [OF s] bfs_inv_step [OF "2.prems" s] show ?thesis by simp
  qed
qed

lemma bfs_inv_init: "s \<noteq> d \<Longrightarrow> bfs_inv g s d [(s, [s])] [s]"
  by (auto simp: bfs_inv_def shortest_to_def walk_def levels_def)

lemma shortest_to_self: "shortest_to g a a [a]"
  by (simp add: shortest_to_def walk_def)

lemma Path_spec:
  assumes "Path g a b = Some p"
  shows "a \<noteq> []" "b \<noteq> []" "From p = a" "To p = b" "shortest_to g a b (Services p)"
proof -
  show "a \<noteq> []" "b \<noteq> []" "From p = a" "To p = b" using assms by (auto simp: Path_def split: if_splits)
  show "shortest_to g a b (Services p)"
  proof (cases "a = b")
    case False
    with assms obtain r where "bfs g b [(a, [a])] [a] = Some r" "p = \<lparr>From = a, To = b, Services = r\<rparr>"
      by (auto simp: Path_def split: if_splits)
    then show ?thesis using bfs_correct [OF bfs_inv_init [OF False], of g] by simp
  qed (use assms shortest_to_self in \<open>force simp: Path_def split: if_splits\<close>)
qed

lemma Path_None:
  "a \<noteq> [] \<Longrightarrow> b \<noteq> [] \<Longrightarrow> Path g a b = None \<longleftrightarrow> (a, b) \<notin> (edge g)\<^sup>*"
proof -
  assume ne: "a \<noteq> []" "b \<noteq> []"
  show ?thesis
  proof (cases "a = b")
    case False
    show ?thesis
    proof (cases "bfs g b [(a, [a])] [a]")
      case None
      then show ?thesis using bfs_correct [OF bfs_inv_init [OF False], of g] ne False
        by (simp add: Path_def)
    next
      case (Some p)
      then have "shortest_to g a b p" using bfs_correct [OF bfs_inv_init [OF False], of g] by simp
      then have "walk g p" "hd p = a" "last p = b" by (simp_all add: shortest_to_def)
      then have "(a, b) \<in> (edge g)\<^sup>*" using relpow_imp_rtrancl [OF walk_relpow, of g p] by simp
      with Some ne False show ?thesis by (simp add: Path_def)
    qed
  qed (simp add: Path_def ne)
qed

section \<open>The chosen root\<close>

abbreviation cov :: "graph \<Rightarrow> string list \<Rightarrow> string \<Rightarrow> string list" where
  "cov g unassigned r \<equiv> fst (covered g r unassigned)"

abbreviation covdist :: "graph \<Rightarrow> string list \<Rightarrow> string \<Rightarrow> int" where
  "covdist g unassigned r \<equiv> snd (covered g r unassigned)"

definition root_info :: "graph \<Rightarrow> string list \<Rightarrow> string list \<Rightarrow> string \<Rightarrow> best_root" where
  "root_info g alerted unassigned r =
     \<lparr>bestRoot = r, bestMembers = cov g unassigned r, bestDistance = covdist g unassigned r,
      bestAlerted = (r \<in> set alerted)\<rparr>"

text \<open>The record of the search describes its own root.\<close>

definition root_sound :: "graph \<Rightarrow> string list \<Rightarrow> string list \<Rightarrow> best_root \<Rightarrow> bool" where
  "root_sound g alerted unassigned b \<longleftrightarrow>
     root_info g alerted unassigned (bestRoot b) = b \<and> bestMembers b \<noteq> []"

text \<open>The order \<open>betterRoot\<close> compares by: more members, then nearer, then alerted, then the name.\<close>

definition root_key :: "best_root \<Rightarrow> int \<times> int \<times> bool \<times> string" where
  "root_key b = (- int (length (bestMembers b)), bestDistance b, \<not> bestAlerted b, bestRoot b)"

lemma betterRoot_key:
  "bestRoot b \<noteq> [] \<Longrightarrow>
     betterRoot r ms dist al b \<longleftrightarrow>
       root_key \<lparr>bestRoot = r, bestMembers = ms, bestDistance = dist, bestAlerted = al\<rparr> < root_key b"
  by (auto simp: betterRoot_def root_key_def)

lemma covered_members: "set (cov g u r) = {s \<in> set u. Path g s r \<noteq> None}"
  by (simp add: covered_def Let_def)

lemma covered_Nil_root [simp]: "cov g u [] = []"
  by (simp add: covered_def Let_def Path_def)

lemma pick_root_spec:
  assumes "pick_root g al u b rs = b'"
    and "bestRoot b \<noteq> [] \<Longrightarrow> root_sound g al u b"
    and "bestRoot b = [] \<Longrightarrow> bestMembers b = []"
  shows "(bestRoot b' \<noteq> [] \<longrightarrow> root_sound g al u b' \<and>
            (bestRoot b' = bestRoot b \<or> bestRoot b' \<in> set rs)) \<and>
         (bestRoot b \<noteq> [] \<longrightarrow> bestRoot b' \<noteq> [] \<and> root_key b' \<le> root_key b) \<and>
         (\<forall>r \<in> set rs. cov g u r \<noteq> [] \<longrightarrow> bestRoot b' \<noteq> [] \<and> root_key b' \<le> root_key (root_info g al u r))"
  using assms
proof (induction rs arbitrary: b)
  case (Cons r rs)
  define better where
    "better \<longleftrightarrow> cov g u r \<noteq> [] \<and> betterRoot r (cov g u r) (covdist g u r) (r \<in> set al) b"
  define b1 where "b1 = (if better then root_info g al u r else b)"
  have run: "pick_root g al u b1 rs = b'"
    using Cons.prems(1) by (auto simp: b1_def better_def root_info_def case_prod_beta Let_def split: if_splits)
  have r_ne: "r \<noteq> []" if "cov g u r \<noteq> []" using that by auto
  have yes: "b1 = root_info g al u r" "bestRoot b1 \<noteq> []" "bestMembers b1 \<noteq> []" if better
    using that r_ne by (auto simp: b1_def better_def root_info_def)
  have no: "b1 = b" if "\<not> better" using that by (simp add: b1_def)
  have inv1: "root_sound g al u b1" if "bestRoot b1 \<noteq> []"
    using that yes no Cons.prems(2) by (cases better) (auto simp: root_info_def root_sound_def)
  have inv2: "bestMembers b1 = []" if "bestRoot b1 = []"
    using that yes no Cons.prems(3) by (cases better) auto
  note IH = Cons.IH [OF run inv1 inv2]
  have key: "bestRoot b1 \<noteq> [] \<and> root_key b1 \<le> root_key (root_info g al u r)" if "cov g u r \<noteq> []"
  proof (cases better)
    case False
    with that have nb: "\<not> betterRoot r (cov g u r) (covdist g u r) (r \<in> set al) b"
      by (simp add: better_def)
    then have "bestRoot b \<noteq> []"
      using that Cons.prems(3) by (auto simp: betterRoot_def split: if_splits)
    with nb have "\<not> root_key (root_info g al u r) < root_key b"
      by (simp add: betterRoot_key root_info_def)
    with no [OF False] \<open>bestRoot b \<noteq> []\<close> show ?thesis by (simp only: not_less) simp
  next
    case True
    show ?thesis using yes [OF True] by simp
  qed
  have le: "bestRoot b1 \<noteq> [] \<and> root_key b1 \<le> root_key b" if "bestRoot b \<noteq> []"
  proof (cases better)
    case True
    then have "root_key (root_info g al u r) < root_key b"
      using that by (simp add: better_def betterRoot_key root_info_def)
    then show ?thesis using yes [OF True] by (simp only: less_imp_le) simp
  next
    case False
    show ?thesis using no [OF False] that by simp
  qed
  have 1: "bestRoot b' \<noteq> [] \<and> root_key b' \<le> root_key (root_info g al u x)"
    if x: "x \<in> set (r # rs)" "cov g u x \<noteq> []" for x
  proof (cases "x = r")
    case True
    with x key have "bestRoot b1 \<noteq> []" "root_key b1 \<le> root_key (root_info g al u x)" by simp_all
    with IH show ?thesis by (meson order_trans)
  next
    case False
    with x IH show ?thesis by auto
  qed
  have 2: "bestRoot b' \<noteq> [] \<and> root_key b' \<le> root_key b" if "bestRoot b \<noteq> []"
    using le [OF that] IH by (meson order_trans)
  have "bestRoot b1 = bestRoot b \<or> bestRoot b1 = r" by (simp add: b1_def root_info_def)
  then have 3: "root_sound g al u b' \<and>
      (bestRoot b' = bestRoot b \<or> bestRoot b' \<in> set (r # rs))" if "bestRoot b' \<noteq> []"
    using that IH by auto
  show ?case using 1 2 3 by blast
qed auto

lemma rtrancl_Image_absorb: "A \<subseteq> r\<^sup>* `` B \<Longrightarrow> r\<^sup>* `` A \<union> r\<^sup>* `` B = r\<^sup>* `` B"
proof -
  assume "A \<subseteq> r\<^sup>* `` B"
  then have "r\<^sup>* `` A \<subseteq> r\<^sup>* `` (r\<^sup>* `` B)" by (rule Image_mono [OF subset_refl])
  also have "\<dots> = r\<^sup>* `` B" by (simp flip: relcomp_Image)
  finally show ?thesis by (rule Un_absorb1)
qed

lemma reach_loop_spec:
  "\<forall>u \<in> set v. u \<in> set q \<or> set (deps g u) \<subseteq> set v \<Longrightarrow> set q \<subseteq> set v \<Longrightarrow>
     set (reach_loop g q v) = (edge g)\<^sup>* `` set v"
proof (induction g q v rule: reach_loop.induct)
  case (1 g v)
  then have closed: "edge g `` set v \<subseteq> set v" by (auto simp: edge_def)
  have "(edge g)\<^sup>* `` set v = set v" by (rule Image_closed_trancl [OF closed])
  then show ?case by simp
next
  case (2 g c q v)
  obtain v' q' where r: "reach_next (deps g c) v q = (v', q')" by (cases "reach_next (deps g c) v q")
  then obtain news where v': "v' = rev news @ v" and q': "q' = q @ news"
    and news: "set news = set (deps g c) - set v" using reach_next_news by blast
  have old: "u = c \<or> u \<in> set q \<or> set (deps g u) \<subseteq> set v" if "u \<in> set v" for u
    using "2.prems"(1) that by auto
  have c: "set (deps g c) \<subseteq> set news \<union> set v" using news by simp
  have "\<forall>u \<in> set v'. u \<in> set q' \<or> set (deps g u) \<subseteq> set v'"
    using old c unfolding v' q' by (metis UnE UnI1 UnI2 le_supI2 set_append set_rev)
  moreover have "set q' \<subseteq> set v'" using "2.prems"(2) by (auto simp: v' q')
  ultimately have "set (reach_loop g q' v') = (edge g)\<^sup>* `` set v'" using "2.IH" [OF r [symmetric]] by blast
  moreover have "set news \<subseteq> (edge g)\<^sup>* `` set v"
    using news "2.prems"(2) by (auto simp: edge_def intro!: r_into_rtrancl)
  then have "(edge g)\<^sup>* `` set v' = (edge g)\<^sup>* `` set v" by (simp add: v' Image_Un rtrancl_Image_absorb)
  ultimately show ?case by (simp add: r)
qed

lemma set_sortedKeys [simp]: "set (sortedKeys ks) = set ks"
  by (simp add: sortedKeys_def)

lemma distinct_sortedKeys [simp]: "distinct (sortedKeys ks)" "sorted (sortedKeys ks)"
  by (simp_all add: sortedKeys_def)

lemma set_rootCandidates: "set (rootCandidates g u) = (edge g)\<^sup>* `` set u"
proof -
  have "set (reach_loop g [s] [s]) = (edge g)\<^sup>* `` {s}" for s
    using reach_loop_spec [of "[s]" "[s]" g] by simp
  then show ?thesis by (auto simp: rootCandidates_def)
qed

lemma firstKey_in: "u \<noteq> [] \<Longrightarrow> firstKey u \<in> set u"
  using set_sortedKeys [of u] by (cases "sortedKeys u") (auto simp: firstKey_def simp del: set_sortedKeys)

lemma covered_candidate:
  assumes "cov g u r \<noteq> []" shows "r \<in> set (rootCandidates g u)"
proof -
  from assms obtain s where s: "s \<in> set (cov g u r)" by (meson last_in_set)
  then have "s \<in> set u" and p: "Path g s r \<noteq> None" by (simp_all add: covered_members)
  then have "(s, r) \<in> (edge g)\<^sup>*" using Path_None [of s r g] by (auto simp: Path_def split: if_splits)
  with \<open>s \<in> set u\<close> show ?thesis by (auto simp: set_rootCandidates)
qed

lemma choose_root_hits: "u \<noteq> [] \<Longrightarrow> set (bestMembers (choose_root g al u)) \<inter> set u \<noteq> {}"
proof -
  assume u: "u \<noteq> []"
  define b where "b = pick_root g al u \<lparr>bestRoot = [], bestMembers = [], bestDistance = 0, bestAlerted = False\<rparr>
    (rootCandidates g u)"
  show ?thesis
  proof (cases "bestRoot b = []")
    case True
    then have "bestMembers (choose_root g al u) = [firstKey u]" by (simp add: choose_root_def flip: b_def)
    then show ?thesis using firstKey_in [OF u] by simp
  next
    case False
    then have "root_sound g al u b" using pick_root_spec [OF b_def [symmetric]] by simp
    then have "bestMembers b = cov g u (bestRoot b)" "bestMembers b \<noteq> []"
      by (metis root_sound_def root_info_def best_root.select_convs(2), simp add: root_sound_def)
    moreover have "set (cov g u (bestRoot b)) \<subseteq> set u" by (auto simp: covered_members)
    ultimately have "set (bestMembers b) \<inter> set u \<noteq> {}" by (metis inf.absorb1 set_empty)
    then show ?thesis using False by (simp add: choose_root_def flip: b_def)
  qed
qed

text \<open>The loop of \<open>Groups\<close> ends: every round takes at least one unassigned service.\<close>

function group_loop :: "graph \<Rightarrow> string list \<Rightarrow> string list \<Rightarrow> group list" where
  "group_loop g alerted unassigned =
     (if unassigned = [] then []
      else let best = choose_root g alerted unassigned
           in make_group g best #
              group_loop g alerted (filter (\<lambda>s. s \<notin> set (bestMembers best)) unassigned))"
  by pat_completeness auto
termination
proof (relation "measure (\<lambda>(g, al, u). length u)", goal_cases)
  case (2 g al u b)
  then obtain s where "s \<in> set u" "s \<in> set (bestMembers b)" using choose_root_hits by blast
  then show ?case by (auto intro!: length_filter_less)
qed simp

declare group_loop.simps [simp del]

definition Groups :: "graph \<Rightarrow> string list \<Rightarrow> group list" where
  "Groups g ss =
     (let alerted = uniqueSorted ss
      in stable_sort (\<lambda>a b. Root a < Root b) (group_loop g alerted alerted))"

section \<open>Properties\<close>

definition declared :: "dependency list \<Rightarrow> (string \<times> string) set" where
  "declared es = {(DepService e, DependsOn e) | e. e \<in> set es \<and>
     DepService e \<noteq> [] \<and> DependsOn e \<noteq> [] \<and> DepService e \<noteq> DependsOn e}"

lemma declared_Nil [simp]: "declared [] = {}"
  by (simp add: declared_def)

lemma declared_Cons:
  "declared (e # es) =
     (if DepService e = [] \<or> DependsOn e = [] \<or> DepService e = DependsOn e then declared es
      else insert (DepService e, DependsOn e) (declared es))"
  by (auto simp: declared_def)

lemma deps_update:
  "deps (g\<lparr>services := x, dependencies := map_set (dependencies g) s ns\<rparr>) a = (if a = s then ns else deps g a)"
  by (simp add: deps_def)

lemma add_edges_deps: "set (deps (add_edges g es) a) = set (deps g a) \<union> declared es `` {a}"
  by (induction g es rule: add_edges.induct) (auto simp: declared_Cons deps_update)

lemma edge_New: "edge (New es) = declared es"
proof -
  have "deps (New es) a = sort (deps (add_edges \<lparr>dependencies = [], services = []\<rparr> es) a)" for a
    by (simp add: New_def deps_def Let_def map_of_map split: option.split)
  then show ?thesis by (auto simp: edge_def add_edges_deps) (simp_all add: deps_def)
qed

text \<open>
  C27: on the graph built from a list of dependency edges, a path query is complete and optimal.
  It fails exactly when a name is empty or the second service cannot be reached over the
  declared edges; otherwise it returns a walk along declared edges between the two services,
  and no shorter walk exists.
\<close>

theorem Path_complete_shortest:
  "if a = [] \<or> b = [] then Path (New es) a b = None
   else case Path (New es) a b of
     None \<Rightarrow> (a, b) \<notin> (declared es)\<^sup>*
   | Some p \<Rightarrow> From p = a \<and> To p = b \<and> Services p \<noteq> [] \<and>
       hd (Services p) = a \<and> last (Services p) = b \<and>
       successively (\<lambda>x y. (x, y) \<in> declared es) (Services p) \<and>
       (LEAST n. (a, b) \<in> declared es ^^ n) = length (Services p) - 1"
proof (cases "Path (New es) a b")
  case None
  then show ?thesis using Path_None [of a b "New es"] by (simp add: edge_New)
next
  case (Some p)
  note spec = Path_spec [OF Some]
  then have w: "walk (New es) (Services p)" and e: "hd (Services p) = a" "last (Services p) = b"
    and short: "(a, b) \<in> declared es ^^ n \<Longrightarrow> length (Services p) \<le> Suc n" for n
    by (simp_all add: shortest_to_def edge_New)
  have "(LEAST n. (a, b) \<in> declared es ^^ n) = length (Services p) - 1"
    using walk_relpow [OF w] short by (intro Least_equality) (fastforce simp: e edge_New)+
  with Some spec w e show ?thesis by (simp add: walk_def edge_New)
qed

lemma Path_refl: "s \<noteq> [] \<Longrightarrow> Path g s s \<noteq> None"
  by (simp add: Path_def)

lemma choose_root_spec:
  assumes u: "u \<noteq> []" "[] \<notin> set u" and b: "choose_root g al u = b"
  shows "root_sound g al u b" "bestRoot b \<noteq> []" "bestRoot b \<in> set (rootCandidates g u)"
    "cov g u r \<noteq> [] \<Longrightarrow> root_key b \<le> root_key (root_info g al u r)"
proof -
  define b' where "b' = pick_root g al u
    \<lparr>bestRoot = [], bestMembers = [], bestDistance = 0, bestAlerted = False\<rparr> (rootCandidates g u)"
  note spec = pick_root_spec [OF b'_def [symmetric]]
  have all: "bestRoot b' \<noteq> [] \<and> root_key b' \<le> root_key (root_info g al u x)" if "cov g u x \<noteq> []" for x
    using spec covered_candidate [OF that] that by simp
  have "hd u \<in> set u" "hd u \<noteq> []" using u by (cases u; force)+
  then have "hd u \<in> set (cov g u (hd u))" using Path_refl [of "hd u" g] by (simp add: covered_members)
  then have ne: "bestRoot b' \<noteq> []" using all by fastforce
  then have bb: "b' = b" using b by (simp add: choose_root_def flip: b'_def)
  show "root_sound g al u b" "bestRoot b \<noteq> []" "bestRoot b \<in> set (rootCandidates g u)"
    using spec ne by (simp_all add: bb)
  show "cov g u r \<noteq> [] \<Longrightarrow> root_key b \<le> root_key (root_info g al u r)" using all by (simp add: bb)
qed

lemma root_sound_fields:
  assumes "root_sound g al u b"
  shows "bestMembers b = cov g u (bestRoot b)" "bestDistance b = covdist g u (bestRoot b)"
    "bestAlerted b \<longleftrightarrow> bestRoot b \<in> set al" "bestMembers b \<noteq> []"
  using assms unfolding root_sound_def by (metis root_info_def best_root.select_convs)+

text \<open>
  C28: the root of a group is the best possible one. Among all service names, the chosen root
  explains the most unassigned alerts; among those it is nearest in total path length, then
  an alerted service is preferred, then the smallest name. Its members are exactly the
  unassigned services with a path to it.
\<close>

theorem choose_root_optimal:
  assumes "u \<noteq> []" "[] \<notin> set u" "best = choose_root g al u"
  shows "set (bestMembers best) = {s \<in> set u. Path g s (bestRoot best) \<noteq> None} \<and> bestMembers best \<noteq> [] \<and>
    (\<forall>r. fst (covered g r u) \<noteq> [] \<longrightarrow>
      (- int (length (bestMembers best)), bestDistance best, \<not> bestAlerted best, bestRoot best)
      \<le> (- int (length (fst (covered g r u))), snd (covered g r u), r \<notin> set al, r))"
proof -
  note spec = choose_root_spec [OF assms(1,2) assms(3) [symmetric]]
  note fields = root_sound_fields [OF spec(1)]
  have "(- int (length (bestMembers best)), bestDistance best, \<not> bestAlerted best, bestRoot best)
      \<le> (- int (length (fst (covered g r u))), snd (covered g r u), r \<notin> set al, r)"
    if "fst (covered g r u) \<noteq> []" for r
    using spec(4) [OF that] by (simp only: root_key_def root_info_def best_root.select_convs)
  with fields(1,4) show ?thesis by (simp only: covered_members) blast
qed

lemma group_loop_members:
  "[] \<notin> set u \<Longrightarrow> mset (concat (map Members (group_loop g al u))) = mset u"
proof (induction g al u rule: group_loop.induct)
  case (1 g al u)
  show ?case
  proof (cases "u = []")
    case False
    define b where "b = choose_root g al u"
    have "root_sound g al u b" using choose_root_spec(1) [OF False "1.prems"] by (simp add: b_def)
    then have m: "bestMembers b = cov g u (bestRoot b)" by (rule root_sound_fields)
    have rest: "filter (\<lambda>s. s \<notin> set (bestMembers b)) u = filter (\<lambda>s. Path g s (bestRoot b) = None) u"
      by (rule filter_cong) (auto simp: m covered_members)
    have "mset (bestMembers b) = mset (filter (\<lambda>s. Path g s (bestRoot b) \<noteq> None) u)"
      by (simp add: m covered_def Let_def)
    then have "mset (bestMembers b) + mset (filter (\<lambda>s. s \<notin> set (bestMembers b)) u) = mset u"
      using multiset_partition [of "mset u" "\<lambda>s. Path g s (bestRoot b) \<noteq> None"] by (simp add: rest)
    with "1.IH" [OF False b_def] "1.prems" show ?thesis
      by (subst group_loop.simps) (simp add: False make_group_def Let_def flip: b_def)
  qed (simp add: group_loop.simps)
qed

definition group_ok :: "graph \<Rightarrow> string list \<Rightarrow> group \<Rightarrow> bool" where
  "group_ok g al gr \<longleftrightarrow>
     Members gr \<noteq> [] \<and> (Inferred gr \<longleftrightarrow> Root gr \<notin> set al) \<and> map fst (Paths gr) = Members gr \<and>
     (\<forall>(m, p) \<in> set (Paths gr). Path g m (Root gr) = Some p)"

lemma make_group_ok:
  assumes "root_sound g al u b"
  shows "group_ok g al (make_group g b)"
proof -
  note f = root_sound_fields [OF assms]
  have "Path g m (bestRoot b) \<noteq> None" if "m \<in> set (bestMembers b)" for m
    using that f(1) covered_members by simp
  then have "\<forall>m \<in> set (bestMembers b). \<exists>p. Path g m (bestRoot b) = Some p" by blast
  then show ?thesis using f(3,4) by (auto simp: group_ok_def make_group_def comp_def)
qed

lemma group_loop_ok: "[] \<notin> set u \<Longrightarrow> gr \<in> set (group_loop g al u) \<Longrightarrow> group_ok g al gr"
proof (induction g al u rule: group_loop.induct)
  case (1 g al u)
  show ?case
  proof (cases "u = []")
    case False
    define b where "b = choose_root g al u"
    have "root_sound g al u b" using choose_root_spec(1) [OF False "1.prems"(1)] by (simp add: b_def)
    then have "group_ok g al (make_group g b)" by (rule make_group_ok)
    moreover have "gr = make_group g b \<or> gr \<in> set (group_loop g al (filter (\<lambda>s. s \<notin> set (bestMembers b)) u))"
      using "1.prems"(2) False by (subst (asm) group_loop.simps) (simp add: Let_def flip: b_def)
    ultimately show ?thesis using "1.IH" [OF False b_def] "1.prems"(1) by auto
  qed (use "1.prems" in \<open>simp add: group_loop.simps\<close>)
qed

lemma group_loop_root_covers:
  assumes "[] \<notin> set u" "gr \<in> set (group_loop g al u)"
  shows "\<exists>m \<in> set u. Path g m (Root gr) \<noteq> None"
proof -
  have "group_ok g al gr" using assms by (rule group_loop_ok)
  then obtain m p ps where "Paths gr = (m, p) # ps" unfolding group_ok_def by (cases "Paths gr") auto
  with \<open>group_ok g al gr\<close> have mp: "m \<in> set (Members gr)" "Path g m (Root gr) = Some p"
    unfolding group_ok_def by (auto dest: sym)
  have "set (concat (map Members (group_loop g al u))) = set u"
    using group_loop_members [OF assms(1)] by (metis set_mset_mset)
  then have "m \<in> set u" using mp(1) assms(2) by auto
  with mp(2) show ?thesis by auto
qed

lemma group_loop_distinct: "[] \<notin> set u \<Longrightarrow> distinct (map Root (group_loop g al u))"
proof (induction g al u rule: group_loop.induct)
  case (1 g al u)
  show ?case
  proof (cases "u = []")
    case False
    define b where "b = choose_root g al u"
    define u' where "u' = filter (\<lambda>s. s \<notin> set (bestMembers b)) u"
    have u': "[] \<notin> set u'" using "1.prems" by (simp add: u'_def)
    have "root_sound g al u b" using choose_root_spec(1) [OF False "1.prems"] by (simp add: b_def)
    then have "\<forall>m \<in> set u'. Path g m (bestRoot b) = None"
      using root_sound_fields(1) covered_members by (auto simp: u'_def)
    then have "bestRoot b \<notin> Root ` set (group_loop g al u')" using group_loop_root_covers [OF u'] by fastforce
    moreover have "distinct (map Root (group_loop g al u'))"
      using "1.IH" [OF False b_def] u' by (simp add: u'_def)
    ultimately show ?thesis
      by (subst group_loop.simps) (simp add: False make_group_def Let_def flip: b_def u'_def)
  qed (simp add: group_loop.simps)
qed

lemma Groups_members: "mset (concat (map Members (Groups g ss))) = mset_set (set ss - {[]})"
proof -
  have u: "[] \<notin> set (uniqueSorted ss)" "set (uniqueSorted ss) = set ss - {[]}" "distinct (uniqueSorted ss)"
    by (auto simp: uniqueSorted_def)
  have "mset (concat (map Members (Groups g ss))) = mset (concat (map Members (group_loop g (uniqueSorted ss) (uniqueSorted ss))))"
    unfolding Groups_def Let_def by (rule mset_concat_map_cong) simp
  also have "\<dots> = mset_set (set ss - {[]})"
    using group_loop_members [OF u(1)] u(2,3) by (metis mset_set_set)
  finally show ?thesis .
qed

text \<open>
  C29: grouping the alerted services partitions them. Every non-empty alerted name is a member
  of exactly one group and nothing else is; no two groups share a root and the groups come in
  the order of their roots; a group is marked inferred exactly when its root did not alert
  itself, and it records, for each member, the path that a query from the member to the root
  returns.
\<close>

theorem Groups_partition:
  "mset (concat (map Members (Groups g ss))) = mset_set (set ss - {[]}) \<and>
   sorted_wrt (<) (map Root (Groups g ss)) \<and>
   list_all (\<lambda>gr. Members gr \<noteq> [] \<and> Inferred gr = (Root gr \<notin> set ss) \<and>
      map fst (Paths gr) = Members gr \<and>
      list_all (\<lambda>(m, p). Path g m (Root gr) = Some p) (Paths gr)) (Groups g ss)"
proof -
  have u: "[] \<notin> set (uniqueSorted ss)" "set (uniqueSorted ss) = set ss - {[]}" "distinct (uniqueSorted ss)"
    by (auto simp: uniqueSorted_def)
  let ?l = "group_loop g (uniqueSorted ss) (uniqueSorted ss)"
  have gs: "Groups g ss = stable_sort (\<lambda>a b. Root a < Root b) ?l" by (simp add: Groups_def Let_def)
  have 1: "mset (concat (map Members (Groups g ss))) = mset_set (set ss - {[]})" by (rule Groups_members)
  have "strict_weak (\<lambda>a b. Root a < Root b)" by (auto simp: strict_weak_def)
  then have "sorted (map Root (Groups g ss))"
    using stable_sort_sorted [of "\<lambda>a b. Root a < Root b" ?l] by (simp add: gs sorted_wrt_map not_less)
  moreover have "distinct (map Root (Groups g ss))"
    using group_loop_distinct [OF u(1)] by (simp add: gs distinct_map_stable_sort)
  ultimately have 2: "sorted_wrt (<) (map Root (Groups g ss))" by (simp add: strict_sorted_iff)
  have root: "Root gr \<noteq> []" if "gr \<in> set ?l" for gr
    using group_loop_root_covers [OF u(1) that] by (auto simp: Path_def)
  have "Members gr \<noteq> [] \<and> Inferred gr = (Root gr \<notin> set ss) \<and> map fst (Paths gr) = Members gr \<and>
      list_all (\<lambda>(m, p). Path g m (Root gr) = Some p) (Paths gr)" if "gr \<in> set (Groups g ss)" for gr
    using that group_loop_ok [OF u(1), of gr] root [of gr] u(2) by (simp add: gs group_ok_def list_all_iff)
  then have 3: "list_all (\<lambda>gr. Members gr \<noteq> [] \<and> Inferred gr = (Root gr \<notin> set ss) \<and> map fst (Paths gr) = Members gr \<and>
      list_all (\<lambda>(m, p). Path g m (Root gr) = Some p) (Paths gr)) (Groups g ss)"
    unfolding list_all_iff [of _ "Groups g ss"] by blast
  from 1 2 3 show ?thesis by (intro conjI)
qed

definition sample_edge :: "string \<Rightarrow> string \<Rightarrow> dependency" where
  "sample_edge a b =
     \<lparr>DepID = [], DepServiceID = [], DepService = a, DependsOnID = [], DependsOn = b,
      DependencyType = [], Criticality = [], DepCreatedAt = 0\<rparr>"

theorem choose_root_optimal_witness:
  "bestRoot (choose_root (New [sample_edge ''api'' ''db'', sample_edge ''web'' ''api'', sample_edge ''job'' ''db'']) 
      [''web'', ''job''] [''web'', ''job'']) = ''db'' \<and>
   set (bestMembers (choose_root (New [sample_edge ''api'' ''db'', sample_edge ''web'' ''api'', sample_edge ''job'' ''db''])
      [''web'', ''job''] [''web'', ''job''])) = {''web'', ''job''}"
proof -
  let ?g = "New [sample_edge ''api'' ''db'', sample_edge ''web'' ''api'', sample_edge ''job'' ''db'']"
  have r: "bestRoot (choose_root ?g [''web'', ''job''] [''web'', ''job'']) = ''db''" by code_simp
  have p: "Path ?g ''web'' ''db'' \<noteq> None" "Path ?g ''job'' ''db'' \<noteq> None" by code_simp+
  show ?thesis
    using choose_root_optimal [of "[''web'', ''job'']" "choose_root ?g [''web'', ''job''] [''web'', ''job'']" ?g "[''web'', ''job'']"] p
    unfolding r by auto
qed

end
