(* ===== verification/Types.thy ===== *)
theory Types
  imports Values Go_Time Graph_Types
begin

text \<open>
  The records of the control plane: \<^verbatim>\<open>src/internal/incidents/types.go\<close>,
  \<^verbatim>\<open>src/internal/approvals/types.go\<close>, \<^verbatim>\<open>src/internal/audit/service.go\<close> (\<^verbatim>\<open>Entry\<close>) and the job event of
  \<^verbatim>\<open>src/internal/queue/nats.go\<close>. Each field has the source's name after a prefix that tells the
  records apart. A JSON column is the value its decoder returns.
\<close>

section \<open>Incidents\<close>

record service =
  svc_ID :: string
  svc_Name :: string
  svc_Owner :: string
  svc_Tier :: string
  svc_Environment :: string
  svc_SLOAvailability :: "rat option"
  svc_SLOLatencyP95MS :: "int option"
  svc_RunbookID :: "string option"
  svc_CreatedAt :: int

record incident =
  inc_ID :: string
  inc_Title :: string
  inc_ServiceID :: string
  inc_Service :: string
  inc_Severity :: string
  inc_Status :: string
  inc_DedupeKey :: string
  inc_Fingerprint :: string
  inc_StartedAt :: int
  inc_DetectedAt :: int
  inc_ResolvedAt :: "int option"
  inc_Summary :: string
  inc_CreatedAt :: int
  inc_UpdatedAt :: int
  inc_Environment :: string
  inc_LastSeenAt :: int
  inc_AlertsClearedAt :: "int option"

record alert_observation =
  ao_DedupeKey :: string
  ao_AlertName :: string
  ao_Service :: string
  ao_At :: int

record incident_alert =
  ia_IncidentID :: string
  ia_DedupeKey :: string
  ia_AlertName :: string
  ia_Service :: string
  ia_Status :: string
  ia_FirstSeenAt :: int
  ia_LastSeenAt :: int
  ia_ResolvedAt :: "int option"

record grouping =
  Window :: int
  AlertStaleAfter :: int

record signal =
  sig_ID :: string
  sig_IncidentID :: string
  sig_ServiceID :: string
  sig_Source :: string
  sig_SignalType :: string
  sig_Severity :: string
  sig_Name :: string
  sig_Body :: "gval gomap"
  sig_ObservedAt :: int
  sig_CreatedAt :: int

record timeline_event =
  tl_ID :: string
  tl_IncidentID :: string
  tl_EventType :: string
  tl_Source :: string
  tl_Summary :: string
  tl_Evidence :: "gval gomap"
  tl_Confidence :: rat
  tl_OccurredAt :: int
  tl_CreatedAt :: int

section \<open>Remediations\<close>

record remediation_action =
  rem_ID :: string
  rem_IncidentID :: string
  rem_ActionType :: string
  rem_Target :: string
  rem_Parameters :: "gval gomap"
  rem_Status :: string
  rem_Risk :: string
  rem_IdempotencyKey :: string
  rem_ProposedBy :: string
  rem_ApprovedBy :: string
  rem_PolicyDecision :: "gval gomap"
  rem_DryRun :: bool
  rem_Attempt :: int
  rem_MaxAttempts :: int
  rem_QueuedAt :: "int option"
  rem_StartedAt :: "int option"
  rem_CompletedAt :: "int option"
  rem_Result :: "gval gomap option"
  rem_Error :: string
  rem_CreatedAt :: int

text \<open>A row of the outbox table \<^verbatim>\<open>remediation_dispatches\<close>, and the event it carries.\<close>

record event =
  EventID :: string
  EventType :: string
  OccurredAt :: int
  Producer :: string
  TraceID :: string
  EvIdempotencyKey :: string
  Payload :: "gval gomap"

record dispatch =
  dsp_ID :: string
  dsp_RemediationID :: string
  dsp_Reason :: string
  dsp_Subject :: string
  dsp_Event :: event
  dsp_State :: string
  dsp_Attempts :: int
  dsp_LastError :: "string option"
  dsp_NextAttemptAt :: int
  dsp_PublishedAt :: "int option"
  dsp_CreatedAt :: int

record target_state =
  ts_ResourceType :: string
  ts_Target :: string
  ts_State :: "gval gomap"
  ts_UpdatedAt :: int

record receipt =
  rcp_IdempotencyKey :: string
  rcp_ActionType :: string
  rcp_Target :: string
  rcp_Result :: "gval gomap"
  rcp_CreatedAt :: int

record heartbeat =
  hb_WorkerID :: string
  hb_Hostname :: string
  hb_SupportedActions :: "string list"
  hb_LastHeartbeatAt :: int

text \<open>
  A JetStream message as a worker receives it. Its delivery metadata may be missing.
\<close>

record js_meta =
  mt_Stream :: string
  mt_Sequence :: int
  mt_NumDelivered :: int

record js_msg =
  msg_Subject :: string
  msg_Data :: string
  msg_Meta :: "js_meta option"

text \<open>A message of the dead-letter stream.\<close>

record dead_msg =
  dm_Sequence :: int
  dm_Time :: int
  dm_Subject :: string
  dm_Header :: "string gomap"
  dm_Data :: string

section \<open>Root cause analysis\<close>

text \<open>A candidate remediation of an RCA report.\<close>

record rca_candidate =
  cand_ActionType :: string
  cand_Target :: string
  cand_Parameters :: "gval gomap option"
  cand_Risk :: string
  cand_RequiresApproval :: bool

text \<open>One observation behind a report: a matched alert, or a probe sent to a backend.\<close>

record rca_evidence =
  ev_RuleID :: string
  ev_Kind :: string
  ev_Source :: string
  ev_Reference :: string
  ev_Service :: string
  ev_Query :: string
  ev_Status :: string
  ev_Value :: "rat option"
  ev_Comparator :: string
  ev_Threshold :: "rat option"
  ev_Weight :: rat
  ev_Claim :: string
  ev_Symptom :: bool
  ev_Error :: string
  ev_ObservedAt :: int

record rca_score =
  sc_RuleID :: string
  sc_Baseline :: rat
  sc_AlertMatch :: rat
  sc_Corroborated :: rat
  sc_Refuted :: rat
  sc_RefutationPenalty :: rat
  sc_Raw :: rat
  sc_Sources :: "string list"
  sc_SourceCap :: rat
  sc_TopologyAdjustment :: rat
  sc_Contradicted :: bool
  sc_Final :: rat

record incident_topology =
  it_IncidentID :: string
  it_RootService :: string
  it_RootInferred :: bool
  it_AffectedServices :: "string list"
  it_AlertCount :: int
  it_SuppressedAlertCount :: int
  it_Paths :: "topo_path list"

record rca_report =
  rep_ID :: string
  rep_IncidentID :: string
  rep_DeterministicSummary :: string
  rep_LLMSummary :: string
  rep_PrimaryHypothesis :: string
  rep_ContributingFactors :: "string list"
  rep_Evidence :: "string list"
  rep_Confidence :: rat
  rep_ModelBackend :: string
  rep_ModelName :: string
  rep_Topology :: incident_topology
  rep_EvidenceItems :: "rca_evidence list"
  rep_Score :: rca_score
  rep_Candidates :: "rca_candidate list"
  rep_LLMStatus :: string
  rep_CreatedAt :: int

section \<open>HTTP\<close>

record http_request =
  hr_Method :: string
  hr_URL :: string
  hr_Headers :: "(string \<times> string) list"
  hr_Body :: string

record http_response =
  hs_StatusCode :: int
  hs_Status :: string
  hs_Body :: string

section \<open>Approvals\<close>

record request =
  req_ID :: string
  req_RemediationID :: string
  req_IncidentID :: string
  req_ActionType :: string
  req_Target :: string
  req_Parameters :: "gval gomap"
  req_Risk :: string
  req_Status :: string
  req_RequestedBy :: string
  req_RequestedAt :: int
  req_EscalatesAt :: int
  req_ExpiresAt :: int
  req_EscalatedAt :: "int option"
  req_DecidedAt :: "int option"
  req_DecidedBy :: string
  req_DecisionReason :: string
  req_DecisionSource :: string
  req_NotificationStatus :: string
  req_NotificationAttempts :: int
  req_LastNotificationError :: string
  req_CreatedAt :: int
  req_UpdatedAt :: int

section \<open>Runbooks\<close>

text \<open>The columns of a \<^verbatim>\<open>runbooks\<close> row that the code reads; no code under \<^verbatim>\<open>src/\<close> writes one.\<close>

record runbook =
  rb_ID :: string
  rb_ServiceID :: "string option"
  rb_Title :: string
  rb_Path :: string
  rb_Version :: int
  rb_CreatedAt :: int

section \<open>Audit entries\<close>

text \<open>A \<^verbatim>\<open>map[string]any\<close> that may be \<^verbatim>\<open>nil\<close> is an option; the empty \<^verbatim>\<open>ID\<close> and the zero time ask for defaults.\<close>

record entry =
  ent_ID :: string
  ent_ActorID :: string
  ent_ActorType :: string
  ent_Action :: string
  ent_ResourceType :: string
  ent_ResourceID :: string
  ent_RequestID :: string
  ent_IPAddress :: string
  ent_BeforeState :: "gval gomap option"
  ent_AfterState :: "gval gomap option"
  ent_Metadata :: "gval gomap option"
  ent_CreatedAt :: int

text \<open>The zero value, from which the code's keyed literals set some fields.\<close>

definition entry0 :: entry where
  "entry0 =
     \<lparr>ent_ID = [], ent_ActorID = [], ent_ActorType = [], ent_Action = [], ent_ResourceType = [],
      ent_ResourceID = [], ent_RequestID = [], ent_IPAddress = [], ent_BeforeState = None,
      ent_AfterState = None, ent_Metadata = None, ent_CreatedAt = zero_time\<rparr>"

text \<open>A stored row: the entry's columns with its JSON texts, and its link in the chain.\<close>

record audit_row =
  aud_Entry :: entry
  aud_Before :: string
  aud_After :: string
  aud_Metadata :: string
  aud_ChainPosition :: int
  aud_PreviousHash :: string
  aud_EntryHash :: string
  aud_HashVersion :: int

end
