(* ===== verification/World.thy ===== *)
theory World
  imports Types
begin

text \<open>
  Effects. A procedure of the control plane is a function of its environment and of the world
  that returns a Go result, an error or a value, and the world after it.

  The world holds the tables of PostgreSQL, the clock, what was published to JetStream (when,
  on which subject), the dead letters with their number so far and the identifiers they
  arrived under, and the
  counters of the external choices made so far. The environment holds what code outside the
  repository decides: for each interaction with a backend, whether it fails, how long it takes
  and what other processes committed to the database before it; the identifiers the UUID
  library draws; what HTTP services answer; and the SHA-256 function. Inside a transaction the environment carries the
  transaction's time, which is what SQL's \<^verbatim>\<open>now()\<close> returns there.

  A statement outside a transaction and a transaction are atomic: other processes act before
  them, not in the middle. Every transaction of the code locks the rows it goes on to write
  (\<^verbatim>\<open>FOR UPDATE\<close> or a guarded \<^verbatim>\<open>UPDATE\<close>) before it depends on them.
\<close>

section \<open>Errors\<close>

datatype sentinel =
    ErrNoRows | ErrNotFound | ErrAlreadyDecided | ErrExpired | ErrIncidentClosed | ErrStateChanged
  | ErrNotDispatchable | ErrIncidentNotFound | ErrUnique | ErrDeadLetterGone | ErrAIDisabled

text \<open>An error has a text; \<^verbatim>\<open>errors.Is\<close> finds the sentinel it wraps.\<close>

datatype goerr = GoErr (err_text: string) (err_is: "sentinel option")

definition errorf :: "string \<Rightarrow> goerr" where
  "errorf s = GoErr s None"

definition wrap :: "string \<Rightarrow> goerr \<Rightarrow> goerr" where
  "wrap s e = GoErr (s @ '': '' @ err_text e) (err_is e)"

lemma err_is_wrap [simp]: "err_is (wrap s e) = err_is e"
  by (simp add: wrap_def)

lemma err_is_errorf [simp]: "err_is (errorf s) = None"
  by (simp add: errorf_def)

definition sql_no_rows :: goerr where
  "sql_no_rows = GoErr ''sql: no rows in result set'' (Some ErrNoRows)"

definition null_violation :: "string \<Rightarrow> goerr" where
  "null_violation column =
     errorf (''ERROR: null value in column '' @ quote column @ '' violates not-null constraint (SQLSTATE 23502)'')"

definition check_violation :: "string \<Rightarrow> goerr" where
  "check_violation constraint =
     errorf (''ERROR: new row violates check constraint '' @ quote constraint @ '' (SQLSTATE 23514)'')"

definition foreign_key_violation :: "string \<Rightarrow> goerr" where
  "foreign_key_violation constraint =
     errorf (''ERROR: insert or update violates foreign key constraint '' @ quote constraint @ '' (SQLSTATE 23503)'')"

definition unique_violation :: "string \<Rightarrow> goerr" where
  "unique_violation constraint =
     GoErr (''ERROR: duplicate key value violates unique constraint '' @ quote constraint @ '' (SQLSTATE 23505)'')
       (Some ErrUnique)"

section \<open>The database\<close>

record database =
  audit_logs :: "audit_row list"
  audit_chain_state :: "(int \<times> string) option"
  remediation_actions :: "remediation_action list"
  remediation_dispatches :: "dispatch list"
  approval_requests :: "request list"
  incidents :: "incident list"
  incident_alerts :: "incident_alert list"
  signals :: "signal list"
  timeline :: "timeline_event list"
  services_tbl :: "service list"
  service_dependencies :: "dependency list"
  rca_reports :: "rca_report list"
  target_states :: "target_state list"
  receipts :: "receipt list"
  heartbeats :: "heartbeat list"
  runbooks_tbl :: "runbook list"

section \<open>Environment and world\<close>

text \<open>
  \<open>Fine\<close>: the backend answers. \<open>Broken\<close>: it fails and nothing happened. \<open>Lost\<close>: the work was
  done, but the answer was lost and the caller sees an error.
\<close>

datatype fault = Fine | Broken string | Lost string

record ext_step =
  ext_fault :: fault
  ext_delay :: nat
  ext_others :: "database \<Rightarrow> database"

record env =
  tx_time :: "int option"
  ext :: "nat \<Rightarrow> ext_step"
  uuid :: "nat \<Rightarrow> string"
  http :: "nat \<Rightarrow> http_request \<Rightarrow> goerr + http_response"
  sha256 :: "string \<Rightarrow> string"

record world =
  db :: database
  clock :: int
  steps :: nat
  ids :: nat
  stream :: "(int \<times> string \<times> event) list"
  dead_letters :: "dead_msg list"
  dead_count :: int
  dead_ids :: "(int \<times> string) list"

type_synonym 'a prog = "env \<Rightarrow> world \<Rightarrow> (goerr + 'a) \<times> world"

section \<open>Programs\<close>

definition ret :: "'a \<Rightarrow> 'a prog" where
  "ret x = (\<lambda>e w. (Inr x, w))"

definition fail :: "goerr \<Rightarrow> 'a prog" where
  "fail err = (\<lambda>e w. (Inl err, w))"

text \<open>\<^verbatim>\<open>x, err := m(); if err != nil { return err }\<close>, then the rest.\<close>

definition bind :: "'a prog \<Rightarrow> ('a \<Rightarrow> 'b prog) \<Rightarrow> 'b prog" where
  "bind m f = (\<lambda>e w. case m e w of (Inl err, w') \<Rightarrow> (Inl err, w') | (Inr x, w') \<Rightarrow> f x e w')"

text \<open>\<^verbatim>\<open>x, err := m()\<close> where the code goes on to look at \<^verbatim>\<open>err\<close>.\<close>

definition attempt :: "'a prog \<Rightarrow> (goerr + 'a) prog" where
  "attempt m = (\<lambda>e w. case m e w of (r, w') \<Rightarrow> (Inr r, w'))"

definition wrap_err :: "string \<Rightarrow> 'a prog \<Rightarrow> 'a prog" where
  "wrap_err s m = (\<lambda>e w. case m e w of (Inl err, w') \<Rightarrow> (Inl (wrap s err), w') | (Inr x, w') \<Rightarrow> (Inr x, w'))"

definition map_err :: "(goerr \<Rightarrow> goerr) \<Rightarrow> 'a prog \<Rightarrow> 'a prog" where
  "map_err f m = (\<lambda>e w. case m e w of (Inl err, w') \<Rightarrow> (Inl (f err), w') | (Inr x, w') \<Rightarrow> (Inr x, w'))"

fun for_each :: "'a list \<Rightarrow> ('a \<Rightarrow> 'b prog) \<Rightarrow> ('b list) prog" where
  "for_each [] f = ret []"
| "for_each (x # xs) f = bind (f x) (\<lambda>y. bind (for_each xs f) (\<lambda>ys. ret (y # ys)))"

text \<open>A computation that needs nothing but the environment, such as hashing.\<close>

definition asks :: "(env \<Rightarrow> goerr + 'a) \<Rightarrow> 'a prog" where
  "asks f = (\<lambda>e w. (f e, w))"

definition time_now :: "int prog" where
  "time_now = (\<lambda>e w. (Inr (clock w), w))"

text \<open>\<^verbatim>\<open>common.NewID\<close>: a prefix and a UUID without its dashes.\<close>

definition NewID :: "string \<Rightarrow> string prog" where
  "NewID p = (\<lambda>e w. (Inr (p @ ''_'' @ replace_all (uuid e (ids w)) ''-'' []), w\<lparr>ids := Suc (ids w)\<rparr>))"

section \<open>Statements, calls and transactions\<close>

text \<open>Each interaction with a backend takes the next external step and its time.\<close>

definition tick :: "env \<Rightarrow> world \<Rightarrow> ext_step \<times> world" where
  "tick e w =
     (let s = ext e (steps w) in (s, w\<lparr>steps := Suc (steps w), clock := clock w + int (ext_delay s)\<rparr>))"

text \<open>A call to a service outside the database, such as a webhook.\<close>

definition remote :: "unit prog" where
  "remote = (\<lambda>e w. case tick e w of (s, w1) \<Rightarrow>
     (case ext_fault s of Fine \<Rightarrow> (Inr (), w1) | Broken msg \<Rightarrow> (Inl (errorf msg), w1) | Lost msg \<Rightarrow> (Inl (errorf msg), w1)))"

text \<open>One HTTP exchange: a transport error, or a response.\<close>

definition http_do :: "http_request \<Rightarrow> http_response prog" where
  "http_do req = (\<lambda>e w. case tick e w of (s, w1) \<Rightarrow>
     (case ext_fault s of
        Fine \<Rightarrow> (http e (steps w) req, w1)
      | Broken msg \<Rightarrow> (Inl (errorf msg), w1)
      | Lost msg \<Rightarrow> (Inl (errorf msg), w1)))"

text \<open>
  One SQL statement: a function of the database time and of the tables. Its rows or its error
  come back unless the connection fails.
\<close>

definition sql :: "(int \<Rightarrow> database \<Rightarrow> goerr + 'a \<times> database) \<Rightarrow> 'a prog" where
  "sql f = (\<lambda>e w. case tick e w of (s, w1) \<Rightarrow>
     (case tx_time e of
        Some t \<Rightarrow>
          (case ext_fault s of
             Fine \<Rightarrow> (case f t (db w1) of Inl err \<Rightarrow> (Inl err, w1) | Inr (x, d) \<Rightarrow> (Inr x, w1\<lparr>db := d\<rparr>))
           | Broken msg \<Rightarrow> (Inl (errorf msg), w1)
           | Lost msg \<Rightarrow> (Inl (errorf msg), w1))
      | None \<Rightarrow>
          (let d0 = ext_others s (db w1); t = trunc_micro (clock w1)
           in case ext_fault s of
                Broken msg \<Rightarrow> (Inl (errorf msg), w1\<lparr>db := d0\<rparr>)
              | Fine \<Rightarrow>
                  (case f t d0 of Inl err \<Rightarrow> (Inl err, w1\<lparr>db := d0\<rparr>) | Inr (x, d) \<Rightarrow> (Inr x, w1\<lparr>db := d\<rparr>))
              | Lost msg \<Rightarrow>
                  (case f t d0 of Inl err \<Rightarrow> (Inl err, w1\<lparr>db := d0\<rparr>)
                   | Inr (x, d) \<Rightarrow> (Inl (errorf msg), w1\<lparr>db := d\<rparr>)))))"

definition query :: "(int \<Rightarrow> database \<Rightarrow> goerr + 'a) \<Rightarrow> 'a prog" where
  "query f = sql (\<lambda>t d. case f t d of Inl err \<Rightarrow> Inl err | Inr x \<Rightarrow> Inr (x, d))"

definition exec :: "(int \<Rightarrow> database \<Rightarrow> 'a \<times> database) \<Rightarrow> 'a prog" where
  "exec f = sql (\<lambda>t d. Inr (f t d))"

text \<open>
  \<^verbatim>\<open>BeginTx\<close>, a body, and \<^verbatim>\<open>Commit\<close> if the body succeeds or \<^verbatim>\<open>Rollback\<close> if it fails. A lost answer to
  \<^verbatim>\<open>Commit\<close> leaves the effects in place. Where the code returns a value without committing, the
  deferred \<^verbatim>\<open>Rollback\<close> undoes the body: \<open>P\<close> tells for which values it commits. The error of a failed
  commit may be wrapped differently for different values.
\<close>

definition transaction_if ::
  "('a \<Rightarrow> bool) \<Rightarrow> (goerr \<Rightarrow> goerr) \<Rightarrow> ('a \<Rightarrow> goerr \<Rightarrow> goerr) \<Rightarrow> 'a prog \<Rightarrow> 'a prog" where
  "transaction_if P on_begin on_commit body = (\<lambda>e w. case tick e w of (s, w1) \<Rightarrow>
     (let d0 = ext_others s (db w1); w2 = w1\<lparr>db := d0\<rparr>
      in case ext_fault s of
           Broken msg \<Rightarrow> (Inl (on_begin (errorf msg)), w2)
         | Lost msg \<Rightarrow> (Inl (on_begin (errorf msg)), w2)
         | Fine \<Rightarrow>
             (case body (e\<lparr>tx_time := Some (trunc_micro (clock w2))\<rparr>) w2 of
                (Inl err, w3) \<Rightarrow> (Inl err, w3\<lparr>db := d0\<rparr>)
              | (Inr x, w3) \<Rightarrow>
                  if \<not> P x then (Inr x, w3\<lparr>db := d0\<rparr>)
                  else case tick e w3 of (s', w4) \<Rightarrow>
                     (case ext_fault s' of
                        Fine \<Rightarrow> (Inr x, w4)
                      | Broken msg \<Rightarrow> (Inl (on_commit x (errorf msg)), w4\<lparr>db := d0\<rparr>)
                      | Lost msg \<Rightarrow> (Inl (on_commit x (errorf msg)), w4)))))"

definition transaction :: "(goerr \<Rightarrow> goerr) \<Rightarrow> (goerr \<Rightarrow> goerr) \<Rightarrow> 'a prog \<Rightarrow> 'a prog" where
  "transaction on_begin on_commit body = transaction_if (\<lambda>_. True) on_begin (\<lambda>_. on_commit) body"

text \<open>
  \<^verbatim>\<open>Store.InTx\<close>, \<^verbatim>\<open>src/internal/incidents/store.go\<close>: a store already bound to a transaction reuses it.
\<close>

definition InTx :: "'a prog \<Rightarrow> 'a prog" where
  "InTx body = (\<lambda>e w.
     case tx_time e of
       Some t \<Rightarrow> body e w
     | None \<Rightarrow> transaction (wrap ''begin transaction'') (wrap ''commit transaction'') body e w)"

section \<open>Tables\<close>

text \<open>\<^verbatim>\<open>UPDATE ... SET ... WHERE\<close> and the number of rows it affected.\<close>

definition update_rows :: "('r \<Rightarrow> bool) \<Rightarrow> ('r \<Rightarrow> 'r) \<Rightarrow> 'r list \<Rightarrow> 'r list" where
  "update_rows P f rows = map (\<lambda>r. if P r then f r else r) rows"

definition affected :: "('r \<Rightarrow> bool) \<Rightarrow> 'r list \<Rightarrow> nat" where
  "affected P rows = length (filter P rows)"

lemma update_rows_none: "affected P rows = 0 \<Longrightarrow> update_rows P f rows = rows"
  by (induction rows) (auto simp: update_rows_def affected_def split: if_splits)

lemma map_update_rows: "(\<And>r. g (f r) = g r) \<Longrightarrow> map g (update_rows P f rows) = map g rows"
  by (simp add: update_rows_def)

lemma length_update_rows [simp]: "length (update_rows P f rows) = length rows"
  by (simp add: update_rows_def)

end
