(* ===== verification/Evolution.thy ===== *)
theory Evolution
  imports World
begin

text \<open>
  How programs change the database. A program \<open>evolves\<close> along a relation when, whatever the
  backends answer, the database it leaves is related to the one it found, provided that what
  other processes do in between is related too. The relation may mention the hash function.
  The locale \<open>evolution\<close> is the interface of such a relation, a preorder, and carries the rules
  for the program combinators; a component that shows its statements and transactions related
  gets its procedures for free.
\<close>

named_theorems evo \<open>programs that evolve along a relation\<close>

type_synonym change = "(string \<Rightarrow> string) \<Rightarrow> database \<Rightarrow> database \<Rightarrow> bool"

definition rely :: "change \<Rightarrow> env \<Rightarrow> bool" where
  "rely R e \<longleftrightarrow> (\<forall>n d. R (sha256 e) d (ext_others (ext e n) d))"

definition evolves :: "change \<Rightarrow> 'a prog \<Rightarrow> bool" where
  "evolves R m \<longleftrightarrow> (\<forall>e w. tx_time e = None \<longrightarrow> rely R e \<longrightarrow> R (sha256 e) (db w) (db (snd (m e w))))"

lemma evolvesD: "evolves R m \<Longrightarrow> tx_time e = None \<Longrightarrow> rely R e \<Longrightarrow> R (sha256 e) (db w) (db (snd (m e w)))"
  by (simp add: evolves_def)

lemma relyD: "rely R e \<Longrightarrow> R (sha256 e) d (ext_others (ext e n) d)"
  by (simp add: rely_def)

section \<open>Successful runs inside a transaction\<close>

text \<open>
  \<open>commits m h t d x d'\<close>: inside a transaction that started at \<open>t\<close>, the program can take the
  tables from \<open>d\<close> to \<open>d'\<close> and return \<open>x\<close>. No one interferes there, so the run is determined by
  its statements; the rules of \<open>tx\<close> take it apart.
\<close>

definition commits :: "'a prog \<Rightarrow> (string \<Rightarrow> string) \<Rightarrow> int \<Rightarrow> database \<Rightarrow> 'a \<Rightarrow> database \<Rightarrow> bool" where
  "commits m h t d x d' \<longleftrightarrow>
     (\<exists>e w w'. tx_time e = Some t \<and> sha256 e = h \<and> db w = d \<and> m e w = (Inr x, w') \<and> db w' = d')"

text \<open>Programs that leave the tables alone, such as calls to other services.\<close>

definition keeps :: "'a prog \<Rightarrow> bool" where
  "keeps m \<longleftrightarrow> (\<forall>e w. db (snd (m e w)) = db w)"

named_theorems keep \<open>programs that leave the tables alone\<close>

named_theorems tx \<open>what a successful run inside a transaction did\<close>

lemma tick_db: "tick e w = (s, w') \<Longrightarrow> db w' = db w \<and> s = ext e (steps w)"
  by (auto simp: tick_def Let_def)

lemma commits_ret [tx]: "commits (ret x) h t d y d' \<Longrightarrow> y = x \<and> d' = d"
  by (auto simp: commits_def ret_def)

lemma commits_fail [tx]: "commits (fail err) h t d y d' \<Longrightarrow> False"
  by (auto simp: commits_def fail_def)

lemma commits_asks [tx]: "commits (asks f) h t d y d' \<Longrightarrow> d' = d \<and> (\<exists>e. sha256 e = h \<and> f e = Inr y)"
  by (auto simp: commits_def asks_def)

lemma commits_time_now [tx]: "commits time_now h t d y d' \<Longrightarrow> d' = d"
  by (auto simp: commits_def time_now_def)

lemma commits_NewID [tx]: "commits (NewID p) h t d y d' \<Longrightarrow> d' = d"
  by (auto simp: commits_def NewID_def)

lemma commitsI: "tx_time e = Some t \<Longrightarrow> m e w = (Inr x, w') \<Longrightarrow> commits m (sha256 e) t (db w) x (db w')"
  unfolding commits_def by blast

lemma commits_bind [tx]:
  assumes "commits (bind m f) h t d y d'"
  shows "\<exists>x d1. commits m h t d x d1 \<and> commits (f x) h t d1 y d'"
proof -
  obtain e w w' where e: "tx_time e = Some t" "sha256 e = h" "db w = d" "bind m f e w = (Inr y, w')" "db w' = d'"
    using assms by (auto simp: commits_def)
  then obtain x w1 where "m e w = (Inr x, w1)" "f x e w1 = (Inr y, w')"
    by (auto simp: bind_def split: prod.splits sum.splits)
  with e show ?thesis using commitsI [of e t m w x w1] commitsI [of e t "f x" w1 y w'] by auto
qed

lemma commits_wrap_err [tx]: "commits (wrap_err s m) h t d y d' \<Longrightarrow> commits m h t d y d'"
  unfolding commits_def wrap_err_def by (fastforce split: prod.splits sum.splits)

lemma commits_map_err [tx]: "commits (map_err f m) h t d y d' \<Longrightarrow> commits m h t d y d'"
  unfolding commits_def map_err_def by (fastforce split: prod.splits sum.splits)

lemma commits_sql [tx]:
  assumes "commits (sql f) h t d x d'" shows "f t d = Inr (x, d')"
proof -
  obtain e w w' where e: "tx_time e = Some t" "db w = d" "sql f e w = (Inr x, w')" "db w' = d'"
    using assms by (auto simp: commits_def)
  obtain s w1 where t: "tick e w = (s, w1)" by fastforce
  show ?thesis using e tick_db [OF t] by (auto simp: sql_def t split: fault.splits sum.splits)
qed

lemma commits_query [tx]: "commits (query f) h t d x d' \<Longrightarrow> f t d = Inr x \<and> d' = d"
  unfolding query_def by (drule commits_sql) (auto split: sum.splits)

lemma commits_exec [tx]: "commits (exec f) h t d x d' \<Longrightarrow> f t d = (x, d')"
  unfolding exec_def by (drule commits_sql) simp

lemma commits_attempt_sql [tx]:
  assumes "commits (attempt (sql f)) h t d r d'"
  shows "(\<exists>x. r = Inr x \<and> f t d = Inr (x, d')) \<or> (\<exists>err. r = Inl err \<and> d' = d)"
proof -
  obtain e w w' where e: "tx_time e = Some t" "db w = d" "attempt (sql f) e w = (Inr r, w')" "db w' = d'"
    using assms by (auto simp: commits_def)
  obtain s w1 where t: "tick e w = (s, w1)" by fastforce
  show ?thesis using e tick_db [OF t] by (auto simp: attempt_def sql_def t split: fault.splits sum.splits)
qed

lemma commits_attempt_query [tx]:
  "commits (attempt (query f)) h t d r d' \<Longrightarrow> d' = d \<and> (\<forall>x. r = Inr x \<longrightarrow> f t d = Inr x)"
  unfolding query_def by (drule commits_attempt_sql) (auto split: sum.splits)

lemma attempt_map_err: "attempt (map_err g m) = bind (attempt m) (\<lambda>r. ret (case r of Inl err \<Rightarrow> Inl (g err) | Inr x \<Rightarrow> Inr x))"
  by (auto simp: attempt_def map_err_def bind_def ret_def fun_eq_iff split: prod.splits sum.splits)

lemma wrap_err_map_err: "wrap_err s = map_err (wrap s)"
  by (simp add: wrap_err_def map_err_def fun_eq_iff)

lemma commits_attempt_map_err [tx]:
  "commits (attempt (map_err g m)) h t d r d' \<Longrightarrow>
     \<exists>r0. commits (attempt m) h t d r0 d' \<and> r = (case r0 of Inl err \<Rightarrow> Inl (g err) | Inr x \<Rightarrow> Inr x)"
  unfolding attempt_map_err by (auto dest!: commits_bind commits_ret)

lemma commits_attempt_wrap_err [tx]:
  "commits (attempt (wrap_err g m)) h t d r d' \<Longrightarrow>
     \<exists>r0. commits (attempt m) h t d r0 d' \<and> r = (case r0 of Inl err \<Rightarrow> Inl (wrap g err) | Inr x \<Rightarrow> Inr x)"
  unfolding wrap_err_map_err by (rule commits_attempt_map_err)

lemma tick_keeps [simp]: "db (snd (tick e w)) = db w"
  by (simp add: tick_def Let_def)

lemma keeps_ret [keep]: "keeps (ret x)" and keeps_fail [keep]: "keeps (fail err)" and keeps_asks [keep]: "keeps (asks f)"
  and keeps_time_now [keep]: "keeps time_now" and keeps_NewID [keep]: "keeps (NewID p)"
  by (simp_all add: keeps_def ret_def fail_def asks_def time_now_def NewID_def)

lemma keeps_remote [keep]: "keeps remote"
  by (simp add: keeps_def remote_def case_prod_beta split: fault.split)

lemma keeps_http_do [keep]: "keeps (http_do req)"
  by (simp add: keeps_def http_do_def case_prod_beta split: fault.split)

lemma keeps_bind [keep]: "keeps m \<Longrightarrow> (\<And>x. keeps (f x)) \<Longrightarrow> keeps (bind m f)"
  unfolding keeps_def bind_def by (auto split: prod.splits sum.splits) (metis snd_conv)+

lemma keeps_attempt [keep]: "keeps m \<Longrightarrow> keeps (attempt m)"
  by (simp add: keeps_def attempt_def case_prod_beta)

lemma keeps_wrap_err [keep]: "keeps m \<Longrightarrow> keeps (wrap_err s m)"
  by (simp add: keeps_def wrap_err_def case_prod_beta split: sum.split)

lemma keeps_if [keep]: "keeps m \<Longrightarrow> keeps n \<Longrightarrow> keeps (if b then m else n)"
  by simp

lemma keeps_case_sum [keep]: "(\<And>y. keeps (f y)) \<Longrightarrow> (\<And>y. keeps (g y)) \<Longrightarrow> keeps (case x of Inl y \<Rightarrow> f y | Inr y \<Rightarrow> g y)"
  by (cases x) auto

lemma keeps_case_option [keep]: "keeps m \<Longrightarrow> (\<And>y. keeps (g y)) \<Longrightarrow> keeps (case x of None \<Rightarrow> m | Some y \<Rightarrow> g y)"
  by (cases x) auto

lemma commits_keeps: "commits m h t d y d' \<Longrightarrow> keeps m \<Longrightarrow> d' = d"
  unfolding commits_def keeps_def by (metis snd_conv)

lemmas commits_kept [tx] =
  commits_keeps [OF _ keeps_remote] commits_keeps [OF _ keeps_http_do]
  commits_keeps [OF _ keeps_attempt [OF keeps_remote]] commits_keeps [OF _ keeps_attempt [OF keeps_http_do]]

lemma commits_InTx [tx]: "commits (InTx m) h t d x d' \<Longrightarrow> commits m h t d x d'"
  by (force simp: commits_def InTx_def)

lemma commits_if: "commits (if b then m else n) h t d x d' \<longleftrightarrow> (if b then commits m h t d x d' else commits n h t d x d')"
  by simp

text \<open>A transaction body all of whose commits follow the relation.\<close>

definition tx_evolves :: "change \<Rightarrow> 'a prog \<Rightarrow> bool" where
  "tx_evolves R m \<longleftrightarrow> (\<forall>h t d x d'. commits m h t d x d' \<longrightarrow> R h d d')"

lemma tx_evolvesI: "(\<And>h t d x d'. commits m h t d x d' \<Longrightarrow> R h d d') \<Longrightarrow> tx_evolves R m"
  by (simp add: tx_evolves_def)

lemma tx_evolvesD: "tx_evolves R m \<Longrightarrow> commits m h t d x d' \<Longrightarrow> R h d d'"
  by (simp add: tx_evolves_def)

lemma tx_evolves_run: "tx_evolves R m \<Longrightarrow> tx_time e = Some t \<Longrightarrow> m e w = (Inr x, w') \<Longrightarrow> R (sha256 e) (db w) (db w')"
  unfolding tx_evolves_def commits_def by blast

section \<open>Relations on databases\<close>

definition stable :: "change \<Rightarrow> (database \<Rightarrow> bool) \<Rightarrow> bool" where
  "stable R P \<longleftrightarrow> (\<forall>h d d'. R h d d' \<longrightarrow> P d \<longrightarrow> P d')"

definition guar :: "change \<Rightarrow> (database \<Rightarrow> bool) \<Rightarrow> 'a prog \<Rightarrow> ('a \<Rightarrow> database \<Rightarrow> bool) \<Rightarrow> bool" where
  "guar R P m Q \<longleftrightarrow>
     (\<forall>e w r w'. tx_time e = None \<longrightarrow> rely R e \<longrightarrow> P (db w) \<longrightarrow> m e w = (r, w') \<longrightarrow>
        R (sha256 e) (db w) (db w') \<and> (\<forall>x. r = Inr x \<longrightarrow> Q x (db w')))"

locale evolution =
  fixes R :: change
  assumes refl: "R h d d"
    and trans: "R h d d' \<Longrightarrow> R h d' d'' \<Longrightarrow> R h d d''"
begin

lemma evolves_sql:
  assumes "\<And>h t d x d'. f t d = Inr (x, d') \<Longrightarrow> R h d d'"
  shows "evolves R (sql f)"
  unfolding evolves_def
proof (intro allI impI)
  fix e w assume t: "tx_time e = None" and "rely R e"
  obtain s w1 where tk: "tick e w = (s, w1)" by fastforce
  define d0 where "d0 = ext_others s (db w1)"
  have d0: "R (sha256 e) (db w) d0" using relyD [OF \<open>rely R e\<close>] tick_db [OF tk] by (simp add: d0_def)
  have "R (sha256 e) d0 (db (snd (sql f e w)))"
    using assms refl by (auto simp: sql_def t tk Let_def d0_def split: fault.splits sum.splits)
  with d0 show "R (sha256 e) (db w) (db (snd (sql f e w)))" by (rule trans)
qed

lemma evolves_query [evo]: "evolves R (query f)"
  unfolding query_def by (rule evolves_sql) (auto simp: refl split: sum.splits)

lemma evolves_exec: "(\<And>h t d. R h d (snd (f t d))) \<Longrightarrow> evolves R (exec f)"
  unfolding exec_def by (rule evolves_sql) (metis Inr_inject snd_conv)

lemma evolves_transaction_if:
  assumes "tx_evolves R body" shows "evolves R (transaction_if P b c body)"
  unfolding evolves_def
proof (intro allI impI)
  fix e w assume t: "tx_time e = None" and "rely R e"
  obtain s w1 where tk: "tick e w = (s, w1)" by fastforce
  define d0 where "d0 = ext_others s (db w1)"
  define e1 where "e1 = e\<lparr>tx_time := Some (trunc_micro (clock w1))\<rparr>"
  have d0: "R (sha256 e) (db w) d0" using relyD [OF \<open>rely R e\<close>] tick_db [OF tk] by (simp add: d0_def)
  have body: "R (sha256 e) d0 (db w3)" if "body e1 (w1\<lparr>db := d0\<rparr>) = (Inr x, w3)" for x w3
    using tx_evolves_run [OF assms, of e1 _ "w1\<lparr>db := d0\<rparr>" x w3] that by (simp add: e1_def)
  have "R (sha256 e) d0 (db (snd (transaction_if P b c body e w)))"
    using body refl
    by (auto simp: transaction_if_def tk Let_def split: fault.splits prod.splits sum.splits if_splits
        simp flip: d0_def e1_def dest!: tick_db)
  with d0 show "R (sha256 e) (db w) (db (snd (transaction_if P b c body e w)))" by (rule trans)
qed

lemma evolves_transaction: "tx_evolves R body \<Longrightarrow> evolves R (transaction b c body)"
  unfolding transaction_def by (rule evolves_transaction_if)

lemma evolves_InTx: "tx_evolves R body \<Longrightarrow> evolves R (InTx body)"
  using evolves_transaction by (simp add: evolves_def InTx_def)

lemma evolves_ret [evo]: "evolves R (ret x)"
  by (simp add: evolves_def ret_def refl)

lemma evolves_fail [evo]: "evolves R (fail err)"
  by (simp add: evolves_def fail_def refl)

lemma evolves_asks [evo]: "evolves R (asks f)"
  by (simp add: evolves_def asks_def refl)

lemma evolves_time_now [evo]: "evolves R time_now"
  by (simp add: evolves_def time_now_def refl)

lemma evolves_NewID [evo]: "evolves R (NewID p)"
  by (simp add: evolves_def refl NewID_def)

lemma evolves_keeps: "keeps m \<Longrightarrow> evolves R m"
  by (simp add: evolves_def keeps_def refl)

lemmas evolves_kept [evo] = evolves_keeps [OF keeps_remote] evolves_keeps [OF keeps_http_do]

lemma evolves_bind [evo]:
  assumes "evolves R m" "\<And>x. evolves R (f x)" shows "evolves R (bind m f)"
  unfolding evolves_def
proof (intro allI impI)
  fix e w assume e: "tx_time e = None" "rely R e"
  obtain r w1 where m: "m e w = (r, w1)" by fastforce
  have 1: "R (sha256 e) (db w) (db w1)" using evolvesD [OF assms(1) e, of w] by (simp add: m)
  show "R (sha256 e) (db w) (db (snd (bind m f e w)))"
  proof (cases r)
    case (Inr x)
    have "R (sha256 e) (db w) (db (snd (f x e w1)))" by (rule trans [OF 1 evolvesD [OF assms(2) e]])
    then show ?thesis by (simp add: bind_def m Inr)
  qed (use 1 in \<open>simp add: bind_def m\<close>)
qed

lemma evolves_attempt [evo]: "evolves R m \<Longrightarrow> evolves R (attempt m)"
  by (simp add: evolves_def attempt_def case_prod_beta)

lemma evolves_wrap_err [evo]: "evolves R m \<Longrightarrow> evolves R (wrap_err s m)"
  by (simp add: evolves_def wrap_err_def split: prod.split sum.split) (metis snd_conv)

lemma evolves_map_err [evo]: "evolves R m \<Longrightarrow> evolves R (map_err s m)"
  by (simp add: evolves_def map_err_def split: prod.split sum.split) (metis snd_conv)

lemma evolves_if [evo]: "(b \<Longrightarrow> evolves R m) \<Longrightarrow> (\<not> b \<Longrightarrow> evolves R n) \<Longrightarrow> evolves R (if b then m else n)"
  by simp

lemma evolves_case_option [evo]:
  "(x = None \<Longrightarrow> evolves R m) \<Longrightarrow> (\<And>y. x = Some y \<Longrightarrow> evolves R (f y)) \<Longrightarrow>
     evolves R (case x of None \<Rightarrow> m | Some y \<Rightarrow> f y)"
  by (cases x) auto

lemma evolves_case_sum [evo]:
  "(\<And>y. x = Inl y \<Longrightarrow> evolves R (f y)) \<Longrightarrow> (\<And>y. x = Inr y \<Longrightarrow> evolves R (g y)) \<Longrightarrow>
     evolves R (case x of Inl y \<Rightarrow> f y | Inr y \<Rightarrow> g y)"
  by (cases x) auto

lemma evolves_case_prod [evo]: "(\<And>a b. x = (a, b) \<Longrightarrow> evolves R (f a b)) \<Longrightarrow> evolves R (case x of (a, b) \<Rightarrow> f a b)"
  by (cases x) auto

lemma evolves_Let [evo]: "(\<And>x. x = v \<Longrightarrow> evolves R (f x)) \<Longrightarrow> evolves R (let x = v in f x)"
  by simp

lemma evolves_for_each [evo]: "(\<And>x. x \<in> set xs \<Longrightarrow> evolves R (f x)) \<Longrightarrow> evolves R (for_each xs f)"
  by (induction xs) (auto intro!: evolves_ret evolves_bind)

text \<open>
  Facts that survive interference. \<open>guar P m Q\<close>: started where \<open>P\<close> holds, the program follows the
  relation, and when it returns \<open>x\<close> the tables satisfy \<open>Q x\<close>.
\<close>

lemma guar_evolves: "evolves R m \<Longrightarrow> guar R P m (\<lambda>_ _. True)"
  unfolding evolves_def guar_def by (metis snd_conv)

lemma guar_frame: "evolves R m \<Longrightarrow> stable R P \<Longrightarrow> guar R P m (\<lambda>_. P)"
  unfolding evolves_def guar_def stable_def by (metis snd_conv)

lemma evolves_guar: "guar R (\<lambda>_. True) m Q \<Longrightarrow> evolves R m"
  unfolding evolves_def guar_def by (metis surjective_pairing)

lemma guar_weaken: "guar R P m Q \<Longrightarrow> (\<And>d. P' d \<Longrightarrow> P d) \<Longrightarrow> (\<And>x d. Q x d \<Longrightarrow> Q' x d) \<Longrightarrow> guar R P' m Q'"
  unfolding guar_def by metis

lemma guar_ret: "(\<And>d. P d \<Longrightarrow> Q x d) \<Longrightarrow> guar R P (ret x) Q"
  by (auto simp: guar_def ret_def refl)

lemma guar_fail: "guar R P (fail err) Q"
  by (auto simp: guar_def fail_def refl)

lemma guar_asks: "(\<And>e x d. P d \<Longrightarrow> f e = Inr x \<Longrightarrow> Q x d) \<Longrightarrow> guar R P (asks f) Q"
  by (auto simp: guar_def asks_def refl)

lemma guar_time_now: "(\<And>t d. P d \<Longrightarrow> Q t d) \<Longrightarrow> guar R P time_now Q"
  by (auto simp: guar_def time_now_def refl)

lemma guar_NewID: "(\<And>s d. P d \<Longrightarrow> s \<noteq> [] \<Longrightarrow> Q s d) \<Longrightarrow> guar R P (NewID p) Q"
  by (auto simp: guar_def NewID_def refl)

lemma guar_bind:
  assumes "guar R P m Q" "\<And>x. guar R (Q x) (f x) S" shows "guar R P (bind m f) S"
  unfolding guar_def
proof (intro allI impI)
  fix e w r w' assume e: "tx_time e = None" "rely R e" and p: "P (db w)" and run: "bind m f e w = (r, w')"
  obtain r1 w1 where m: "m e w = (r1, w1)" by fastforce
  have 1: "R (sha256 e) (db w) (db w1)" "\<And>x. r1 = Inr x \<Longrightarrow> Q x (db w1)"
    using assms(1) e p m unfolding guar_def by blast+
  show "R (sha256 e) (db w) (db w') \<and> (\<forall>x. r = Inr x \<longrightarrow> S x (db w'))"
  proof (cases r1)
    case (Inl err)
    then show ?thesis using run 1(1) by (simp add: bind_def m) blast
  next
    case (Inr x)
    then have "f x e w1 = (r, w')" using run by (simp add: bind_def m)
    then have "R (sha256 e) (db w1) (db w')" "\<forall>x. r = Inr x \<longrightarrow> S x (db w')"
      using assms(2) [of x] e 1(2) [OF Inr] unfolding guar_def by blast+
    then show ?thesis using trans [OF 1(1)] by blast
  qed
qed

lemma guar_wrap_err: "guar R P m Q \<Longrightarrow> guar R P (wrap_err s m) Q"
  unfolding guar_def wrap_err_def by (simp split: prod.splits sum.splits)

lemma guar_map_err: "guar R P m Q \<Longrightarrow> guar R P (map_err s m) Q"
  unfolding guar_def map_err_def by (simp split: prod.splits sum.splits)

lemma guar_if: "(b \<Longrightarrow> guar R P m Q) \<Longrightarrow> (\<not> b \<Longrightarrow> guar R P n Q) \<Longrightarrow> guar R P (if b then m else n) Q"
  by simp

lemma guar_attempt: "guar R P m Q \<Longrightarrow> guar R P (attempt m) (\<lambda>r d. case r of Inl err \<Rightarrow> True | Inr x \<Rightarrow> Q x d)"
  unfolding guar_def attempt_def by (auto split: prod.splits sum.splits)

lemma guar_case_option:
  "(x = None \<Longrightarrow> guar R P m Q) \<Longrightarrow> (\<And>y. x = Some y \<Longrightarrow> guar R P (f y) Q) \<Longrightarrow>
     guar R P (case x of None \<Rightarrow> m | Some y \<Rightarrow> f y) Q"
  by (cases x) auto

lemma guar_case_sum:
  "(\<And>y. x = Inl y \<Longrightarrow> guar R P (f y) Q) \<Longrightarrow> (\<And>y. x = Inr y \<Longrightarrow> guar R P (g y) Q) \<Longrightarrow>
     guar R P (case x of Inl y \<Rightarrow> f y | Inr y \<Rightarrow> g y) Q"
  by (cases x) auto

lemma guar_assume: "(\<And>d. P d \<Longrightarrow> C) \<Longrightarrow> (C \<Longrightarrow> guar R P m Q) \<Longrightarrow> guar R P m Q"
  unfolding guar_def by blast

lemma guar_for_each:
  "(\<And>x. x \<in> set xs \<Longrightarrow> guar R P (f x) (\<lambda>_. P)) \<Longrightarrow> guar R P (for_each xs f) (\<lambda>_. P)"
proof (induction xs)
  case (Cons x xs)
  have "guar R P (bind (for_each xs f) (\<lambda>ys. ret (y # ys))) (\<lambda>_. P)" for y
    by (rule guar_bind [where Q = "\<lambda>_. P"]) (use Cons in \<open>auto intro: guar_ret\<close>)
  then show ?case unfolding for_each.simps by (rule guar_bind [OF Cons.prems [OF list.set_intros(1)]])
qed (auto intro: guar_ret)

lemma guar_query:
  assumes "stable R P" "\<And>t d x. P d \<Longrightarrow> f t d = Inr x \<Longrightarrow> Q x d"
  shows "guar R P (query f) Q"
  unfolding guar_def
proof (intro allI impI)
  fix e w r w' assume e: "tx_time e = None" "rely R e" and p: "P (db w)" and run: "query f e w = (r, w')"
  obtain s w1 where tk: "tick e w = (s, w1)" by fastforce
  define d0 where "d0 = ext_others s (db w1)"
  have d0: "R (sha256 e) (db w) d0" using relyD [OF e(2)] tick_db [OF tk] by (simp add: d0_def)
  then have "P d0" using assms(1) p unfolding stable_def by blast
  then show "R (sha256 e) (db w) (db w') \<and> (\<forall>x. r = Inr x \<longrightarrow> Q x (db w'))"
    using run d0 assms(2) [of d0] unfolding query_def
    by (auto simp: sql_def e(1) tk Let_def split: fault.splits sum.splits simp flip: d0_def)
qed

lemma guar_transaction_if:
  assumes "stable R P" "\<And>h t d x d'. P d \<Longrightarrow> commits body h t d x d' \<Longrightarrow> R h d d' \<and> Q x d' \<and> (\<not> C x \<longrightarrow> Q x d)"
  shows "guar R P (transaction_if C b c body) Q"
  unfolding guar_def
proof (intro allI impI)
  fix e w r w' assume e: "tx_time e = None" "rely R e" and p: "P (db w)" and run: "transaction_if C b c body e w = (r, w')"
  obtain s w1 where tk: "tick e w = (s, w1)" by fastforce
  define d0 where "d0 = ext_others s (db w1)"
  define e1 where "e1 = e\<lparr>tx_time := Some (trunc_micro (clock w1))\<rparr>"
  have d0: "R (sha256 e) (db w) d0" using relyD [OF e(2)] tick_db [OF tk] by (simp add: d0_def)
  then have "P d0" using assms(1) p unfolding stable_def by blast
  then have body: "R (sha256 e) d0 (db w3) \<and> Q x (db w3) \<and> (\<not> C x \<longrightarrow> Q x d0)" if "body e1 (w1\<lparr>db := d0\<rparr>) = (Inr x, w3)" for x w3
    using assms(2) [of d0 "sha256 e" _ x "db w3"] commitsI [of e1 _ body "w1\<lparr>db := d0\<rparr>" x w3] that by (simp add: e1_def)
  have "R (sha256 e) d0 (db w') \<and> (\<forall>x. r = Inr x \<longrightarrow> Q x (db w'))"
    using run body refl [of "sha256 e"]
    by (auto simp: transaction_if_def tk Let_def split: fault.splits prod.splits sum.splits if_splits
        simp flip: d0_def e1_def dest!: tick_db)
  then show "R (sha256 e) (db w) (db w') \<and> (\<forall>x. r = Inr x \<longrightarrow> Q x (db w'))" using trans [OF d0] by blast
qed

lemma guar_transaction:
  assumes "stable R P" "\<And>h t d x d'. P d \<Longrightarrow> commits body h t d x d' \<Longrightarrow> R h d d' \<and> Q x d'"
  shows "guar R P (transaction b c body) Q"
  unfolding transaction_def by (rule guar_transaction_if) (use assms in auto)

lemma guar_InTx:
  assumes "stable R P" "\<And>h t d x d'. P d \<Longrightarrow> commits body h t d x d' \<Longrightarrow> R h d d' \<and> Q x d'"
  shows "guar R P (InTx body) Q"
proof -
  have "guar R P (transaction (wrap ''begin transaction'') (wrap ''commit transaction'') body) Q"
    by (rule guar_transaction) (fact assms)+
  then show ?thesis by (simp add: guar_def InTx_def)
qed

lemma guar_exec:
  assumes "stable R P" "\<And>h t d. P d \<Longrightarrow> R h d (snd (f t d)) \<and> Q (fst (f t d)) (snd (f t d))"
  shows "guar R P (exec f) Q"
  unfolding guar_def
proof (intro allI impI)
  fix e w r w' assume e: "tx_time e = None" "rely R e" and p: "P (db w)" and run: "exec f e w = (r, w')"
  obtain s w1 where tk: "tick e w = (s, w1)" by fastforce
  define d0 where "d0 = ext_others s (db w1)"
  have d0: "R (sha256 e) (db w) d0" using relyD [OF e(2)] tick_db [OF tk] by (simp add: d0_def)
  then have "P d0" using assms(1) p unfolding stable_def by blast
  then show "R (sha256 e) (db w) (db w') \<and> (\<forall>x. r = Inr x \<longrightarrow> Q x (db w'))"
    using run d0 assms(2) [of d0] trans [OF d0] unfolding exec_def
    by (auto simp: sql_def e(1) tk Let_def case_prod_beta d0_def [symmetric] simp del: tick_keeps split: fault.splits sum.splits)
qed

text \<open>Transaction bodies, put together from parts that each follow the relation.\<close>

lemma tx_ret [evo]: "tx_evolves R (ret x)" and tx_fail [evo]: "tx_evolves R (fail err)"
  by (auto simp: tx_evolves_def refl dest!: tx)

lemma tx_keeps: "keeps m \<Longrightarrow> tx_evolves R m"
  unfolding tx_evolves_def using commits_keeps refl by metis

lemma tx_query [evo]: "tx_evolves R (query f)"
  by (auto simp: tx_evolves_def refl dest!: tx)

lemma tx_attempt_query [evo]: "tx_evolves R (attempt (query f))"
  by (auto simp: tx_evolves_def refl dest!: commits_attempt_query)

lemma tx_time_now [evo]: "tx_evolves R time_now" and tx_NewID [evo]: "tx_evolves R (NewID p)"
  by (rule tx_keeps, rule keep)+

lemma tx_sql: "(\<And>h t d x d'. f t d = Inr (x, d') \<Longrightarrow> R h d d') \<Longrightarrow> tx_evolves R (sql f)"
  unfolding tx_evolves_def by (blast dest!: commits_sql)

lemma tx_exec: "(\<And>h t d. R h d (snd (f t d))) \<Longrightarrow> tx_evolves R (exec f)"
  unfolding tx_evolves_def by (metis commits_exec snd_conv)

lemma tx_bind [evo]: "tx_evolves R m \<Longrightarrow> (\<And>x. tx_evolves R (f x)) \<Longrightarrow> tx_evolves R (bind m f)"
  unfolding tx_evolves_def by (blast dest!: commits_bind intro: trans)

lemma tx_wrap_err [evo]: "tx_evolves R m \<Longrightarrow> tx_evolves R (wrap_err s m)" and tx_map_err [evo]: "tx_evolves R m \<Longrightarrow> tx_evolves R (map_err g m)"
  and tx_InTx [evo]: "tx_evolves R m \<Longrightarrow> tx_evolves R (InTx m)"
  unfolding tx_evolves_def by (blast dest!: commits_wrap_err commits_map_err commits_InTx)+

lemma tx_if [evo]: "(b \<Longrightarrow> tx_evolves R m) \<Longrightarrow> (\<not> b \<Longrightarrow> tx_evolves R n) \<Longrightarrow> tx_evolves R (if b then m else n)"
  by simp

lemma tx_case_option [evo]:
  "tx_evolves R m \<Longrightarrow> (\<And>y. tx_evolves R (f y)) \<Longrightarrow> tx_evolves R (case x of None \<Rightarrow> m | Some y \<Rightarrow> f y)"
  by (cases x) auto

lemma tx_case_sum [evo]:
  "(\<And>y. tx_evolves R (f y)) \<Longrightarrow> (\<And>y. tx_evolves R (g y)) \<Longrightarrow> tx_evolves R (case x of Inl y \<Rightarrow> f y | Inr y \<Rightarrow> g y)"
  by (cases x) auto

lemma tx_case_prod [evo]: "(\<And>a b. tx_evolves R (f a b)) \<Longrightarrow> tx_evolves R (case x of (a, b) \<Rightarrow> f a b)"
  by (cases x) auto

lemma tx_Let [evo]: "(\<And>x. x = v \<Longrightarrow> tx_evolves R (f x)) \<Longrightarrow> tx_evolves R (let x = v in f x)"
  by simp

end

end
