(* ===== verification/Ledger.thy ===== *)
theory Ledger
  imports Evolution Json_Canonical
begin

text \<open>
  The tamper-evident audit ledger, \<^verbatim>\<open>src/internal/audit/chain.go\<close> and \<^verbatim>\<open>src/internal/audit/service.go\<close>:
  canonical JSON, the hash of an entry, the append inside a transaction, the migration of an
  unchained table and the verification of the whole chain. SHA-256 is the environment's
  \<open>sha256\<close>, from bytes to 32 bytes; every statement holds for any such function.
\<close>

section \<open>Canonical JSON\<close>

definition HashVersion :: int where "HashVersion = 1"

definition GenesisHash :: string where
  "GenesisHash = ''0000000000000000000000000000000000000000000000000000000000000000''"

definition canonicalizeRawJSON :: "string \<Rightarrow> goerr + string" where
  "canonicalizeRawJSON raw =
     (if trim_space raw = [] then Inr ''null''
      else case json_decode raw of
        None \<Rightarrow> Inl (errorf ''invalid JSON'')
      | Some v \<Rightarrow>
          (case json_enc v of None \<Rightarrow> Inl (errorf ''json: unsupported value'') | Some s \<Rightarrow> Inr s))"

definition canonicalJSON :: "gval \<Rightarrow> goerr + string" where
  "canonicalJSON v =
     (if v = VNil then Inr ''null''
      else case json_enc v of
        None \<Rightarrow> Inl (errorf ''json: unsupported value'')
      | Some raw \<Rightarrow> canonicalizeRawJSON raw)"

text \<open>A \<^verbatim>\<open>nil\<close> map marshals as \<^verbatim>\<open>null\<close>.\<close>

definition state_value :: "gval gomap option \<Rightarrow> gval" where
  "state_value m = (case m of None \<Rightarrow> VNil | Some kvs \<Rightarrow> VMap kvs)"

definition on_err :: "string \<Rightarrow> goerr + 'a \<Rightarrow> goerr + 'a" where
  "on_err s r = (case r of Inl err \<Rightarrow> Inl (wrap s err) | Inr x \<Rightarrow> Inr x)"

definition then_ok :: "goerr + 'a \<Rightarrow> ('a \<Rightarrow> goerr + 'b) \<Rightarrow> goerr + 'b" where
  "then_ok r f = (case r of Inl err \<Rightarrow> Inl err | Inr x \<Rightarrow> f x)"

definition prepareEntry :: "entry \<Rightarrow> goerr + string \<times> string \<times> string" where
  "prepareEntry ent =
     then_ok (on_err ''canonicalize before state'' (canonicalJSON (state_value (ent_BeforeState ent)))) (\<lambda>b.
     then_ok (on_err ''canonicalize after state'' (canonicalJSON (state_value (ent_AfterState ent)))) (\<lambda>a.
     then_ok (on_err ''canonicalize metadata'' (canonicalJSON (state_value (ent_Metadata ent)))) (\<lambda>m.
     Inr (b, a, m))))"

section \<open>Hashes\<close>

definition hex_encode :: "string \<Rightarrow> string" where
  "hex_encode bs = concat (map (\<lambda>c. [hex_digit (of_char c div 16), hex_digit (of_char c mod 16)]) bs)"

text \<open>The fields of \<^verbatim>\<open>chainPayload\<close> in order, each with its JSON text.\<close>

definition chainPayload :: "entry \<Rightarrow> int \<Rightarrow> string \<Rightarrow> string \<Rightarrow> string \<Rightarrow> string \<Rightarrow> (string \<times> string) list" where
  "chainPayload ent position prev b a m =
     [(''hash_version'', show_int HashVersion),
      (''chain_position'', show_int position),
      (''previous_hash'', json_string prev),
      (''id'', json_string (ent_ID ent)),
      (''actor_id'', json_string (ent_ActorID ent)),
      (''actor_type'', json_string (ent_ActorType ent)),
      (''action'', json_string (ent_Action ent)),
      (''resource_type'', json_string (ent_ResourceType ent)),
      (''resource_id'', json_string (ent_ResourceID ent)),
      (''request_id'', json_string (ent_RequestID ent)),
      (''ip_address'', json_string (ent_IPAddress ent)),
      (''before_state'', b),
      (''after_state'', a),
      (''metadata'', m),
      (''created_at'', json_string (rfc3339nano (ent_CreatedAt ent)))]"

definition calculateHash ::
  "(string \<Rightarrow> string) \<Rightarrow> entry \<Rightarrow> int \<Rightarrow> string \<Rightarrow> string \<Rightarrow> string \<Rightarrow> string \<Rightarrow> goerr + string" where
  "calculateHash h ent position prev before_json after_json metadata_json =
     then_ok (on_err ''canonicalize stored before state'' (canonicalizeRawJSON before_json)) (\<lambda>b.
     then_ok (on_err ''canonicalize stored after state'' (canonicalizeRawJSON after_json)) (\<lambda>a.
     then_ok (on_err ''canonicalize stored metadata'' (canonicalizeRawJSON metadata_json)) (\<lambda>m.
     Inr (hex_encode (h (json_object (chainPayload ent position prev b a m)))))))"

definition validHash :: "string \<Rightarrow> bool" where
  "validHash v \<longleftrightarrow> length v = 64 \<and> list_all (\<lambda>c. hex_val c \<noteq> None) v \<and> v = to_lower v"

section \<open>Appending\<close>

definition insert_audit :: "audit_row \<Rightarrow> database \<Rightarrow> goerr + unit \<times> database" where
  "insert_audit row d =
     (if list_ex (\<lambda>r. ent_ID (aud_Entry r) = ent_ID (aud_Entry row)) (audit_logs d)
      then Inl (unique_violation ''audit_logs_pkey'')
      else if list_ex (\<lambda>r. aud_ChainPosition r = aud_ChainPosition row) (audit_logs d)
      then Inl (unique_violation ''idx_audit_chain_position'')
      else if list_ex (\<lambda>r. aud_EntryHash r = aud_EntryHash row) (audit_logs d)
      then Inl (unique_violation ''idx_audit_entry_hash'')
      else Inr ((), d\<lparr>audit_logs := audit_logs d @ [row]\<rparr>))"

definition advance_head :: "int \<Rightarrow> string \<Rightarrow> int \<Rightarrow> string \<Rightarrow> database \<Rightarrow> int \<times> database" where
  "advance_head position hash prev_position prev_hash d =
     (if audit_chain_state d = Some (prev_position, prev_hash)
      then (1, d\<lparr>audit_chain_state := Some (position, hash)\<rparr>) else (0, d))"

definition WriteTx :: "entry \<Rightarrow> unit prog" where
  "WriteTx ent =
     bind (if ent_ID ent = [] then NewID ''aud'' else ret (ent_ID ent)) (\<lambda>id.
     bind (if ent_CreatedAt ent = zero_time then time_now else ret (ent_CreatedAt ent)) (\<lambda>created.
     let ent = ent\<lparr>ent_ID := id, ent_CreatedAt := trunc_micro created\<rparr> in
     bind (asks (\<lambda>_. on_err ''prepare audit log'' (prepareEntry ent))) (\<lambda>(b, a, m).
     bind (wrap_err ''lock audit chain head''
            (query (\<lambda>t d. case audit_chain_state d of None \<Rightarrow> Inl sql_no_rows | Some s \<Rightarrow> Inr s)))
       (\<lambda>(previousPosition, previousHash).
     let position = previousPosition + 1 in
     bind (asks (\<lambda>e. on_err ''hash audit log'' (calculateHash (sha256 e) ent position previousHash b a m))) (\<lambda>entryHash.
     bind (wrap_err ''write audit log''
            (sql (\<lambda>t. insert_audit
               \<lparr>aud_Entry = ent, aud_Before = b, aud_After = a, aud_Metadata = m, aud_ChainPosition = position,
                aud_PreviousHash = previousHash, aud_EntryHash = entryHash, aud_HashVersion = HashVersion\<rparr>))) (\<lambda>_.
     bind (wrap_err ''advance audit chain head''
            (exec (\<lambda>t. advance_head position entryHash previousPosition previousHash))) (\<lambda>n.
     if n \<noteq> 1 then fail (errorf ''advance audit chain head: concurrent or missing chain state'')
     else ret ())))))))"

definition Write :: "entry \<Rightarrow> unit prog" where
  "Write ent =
     bind (if ent_ID ent = [] then NewID ''aud'' else ret (ent_ID ent)) (\<lambda>id.
     bind (if ent_CreatedAt ent = zero_time then time_now else ret (ent_CreatedAt ent)) (\<lambda>created.
     transaction (wrap ''begin audit write'') (wrap ''commit audit write'')
       (WriteTx (ent\<lparr>ent_ID := id, ent_CreatedAt := created\<rparr>))))"

text \<open>\<^verbatim>\<open>Record\<close> reports a failed append (to a callback or the log) and goes on.\<close>

definition Record :: "entry \<Rightarrow> unit prog" where
  "Record ent = bind (attempt (Write ent)) (\<lambda>_. ret ())"

section \<open>Verifying\<close>

record verification =
  Valid :: bool
  EntriesVerified :: int
  HeadPosition :: int
  HeadHash :: string
  InvalidPosition :: int
  ExpectedHash :: string
  ActualHash :: string
  VReason :: string
  VerifiedAt :: int

definition invalidReport :: "verification \<Rightarrow> int \<Rightarrow> string \<Rightarrow> string \<Rightarrow> string \<Rightarrow> verification" where
  "invalidReport report position reason expected actual =
     report\<lparr>Valid := False, InvalidPosition := position, VReason := reason,
       ExpectedHash := expected, ActualHash := actual\<rparr>"

text \<open>
  The loop over the rows. \<open>jsonb\<close> is the text the database prints for a stored JSON document.
  \<open>Inl\<close> is an error, \<open>Inr (Inl r)\<close> the report of a broken link, \<open>Inr (Inr (n, hash))\<close> the end of the
  rows with the number verified and the last hash.
\<close>

fun verify_rows ::
  "(string \<Rightarrow> string) \<Rightarrow> (string \<Rightarrow> string) \<Rightarrow> verification \<Rightarrow> int \<Rightarrow> string \<Rightarrow> audit_row list
   \<Rightarrow> goerr + (verification + verification \<times> string)" where
  "verify_rows h jsonb report expectedPosition previousHash [] = Inr (Inr (report, previousHash))"
| "verify_rows h jsonb report expectedPosition previousHash (r # rs) =
     (let report = report\<lparr>EntriesVerified := EntriesVerified report + 1\<rparr>; pos = aud_ChainPosition r in
      if pos \<noteq> expectedPosition then
        Inr (Inl (invalidReport report pos (''chain position gap: expected '' @ show_int expectedPosition) [] []))
      else if aud_HashVersion r \<noteq> HashVersion then
        Inr (Inl (invalidReport report pos (''unsupported hash version '' @ show_int (aud_HashVersion r)) [] []))
      else if \<not> validHash (aud_PreviousHash r) \<or> \<not> validHash (aud_EntryHash r) then
        Inr (Inl (invalidReport report pos ''malformed chain hash'' [] (aud_EntryHash r)))
      else if aud_PreviousHash r \<noteq> previousHash then
        Inr (Inl (invalidReport report pos ''previous hash does not match prior entry'' previousHash (aud_PreviousHash r)))
      else case calculateHash h (aud_Entry r) pos (aud_PreviousHash r)
                  (jsonb (aud_Before r)) (jsonb (aud_After r)) (jsonb (aud_Metadata r)) of
        Inl err \<Rightarrow> Inl (wrap (''recompute audit hash at position '' @ show_int pos) err)
      | Inr expectedHash \<Rightarrow>
          if aud_EntryHash r \<noteq> expectedHash then
            Inr (Inl (invalidReport report pos ''entry hash mismatch'' expectedHash (aud_EntryHash r)))
          else verify_rows h jsonb report (expectedPosition + 1) (aud_EntryHash r) rs)"

definition by_position :: "audit_row list \<Rightarrow> audit_row list" where
  "by_position rows = stable_sort (\<lambda>a b. aud_ChainPosition a < aud_ChainPosition b) rows"

definition verify_ledger ::
  "(string \<Rightarrow> string) \<Rightarrow> (string \<Rightarrow> string) \<Rightarrow> int \<Rightarrow> int \<times> string \<Rightarrow> audit_row list \<Rightarrow> goerr + verification" where
  "verify_ledger h jsonb now state rows =
     (case state of (statePosition, stateHash) \<Rightarrow>
        (let report = \<lparr>Valid = True, EntriesVerified = 0, HeadPosition = statePosition, HeadHash = stateHash,
                       InvalidPosition = 0, ExpectedHash = [], ActualHash = [], VReason = [], VerifiedAt = now\<rparr>
         in case verify_rows h jsonb report 1 GenesisHash (by_position rows) of
              Inl err \<Rightarrow> Inl err
            | Inr (Inl broken) \<Rightarrow> Inr broken
            | Inr (Inr (report, previousHash)) \<Rightarrow>
                if EntriesVerified report \<noteq> statePosition then
                  Inr (invalidReport report (EntriesVerified report)
                    ''persisted head position does not match ledger length''
                    (show_int (EntriesVerified report)) (show_int statePosition))
                else if previousHash \<noteq> stateHash then
                  Inr (invalidReport report statePosition
                    ''persisted head hash does not match ledger head'' previousHash stateHash)
                else Inr report))"

text \<open>One read-only transaction at a repeatable-read snapshot; only a valid report reaches the \<^verbatim>\<open>Commit\<close>.\<close>

definition Verify :: "(string \<Rightarrow> string) \<Rightarrow> verification prog" where
  "Verify jsonb =
     transaction_if Valid (wrap ''begin audit verification'') (\<lambda>_. wrap ''complete audit verification'')
       (bind (wrap_err ''read audit chain head''
                (query (\<lambda>t d. case audit_chain_state d of None \<Rightarrow> Inl sql_no_rows | Some s \<Rightarrow> Inr s))) (\<lambda>state.
        bind time_now (\<lambda>now.
        bind (wrap_err ''read audit chain'' (query (\<lambda>t d. Inr (audit_logs d)))) (\<lambda>rows.
        asks (\<lambda>e. verify_ledger (sha256 e) jsonb now state rows)))))"

section \<open>Canonical texts\<close>

lemma then_ok_Inr [simp]: "then_ok r f = Inr y \<longleftrightarrow> (\<exists>x. r = Inr x \<and> f x = Inr y)"
  by (auto simp: then_ok_def split: sum.splits)

lemma on_err_Inr [simp]: "on_err s r = Inr y \<longleftrightarrow> r = Inr y"
  by (auto simp: on_err_def split: sum.splits)

lemma space_prefix_pos: "space_prefix s = 0 \<longleftrightarrow> (\<forall>w \<in> set go_spaces. \<not> has_prefix s w)"
  by (auto simp: space_prefix_def find_None_iff find_Some_iff in_set_conv_nth go_spaces_def nth_Cons split: option.splits nat.splits)

lemma find_SomeD: "find P xs = Some x \<Longrightarrow> x \<in> set xs \<and> P x"
  by (auto simp: find_Some_iff)

lemma trim_right_step: "space_suffix s \<noteq> 0 \<Longrightarrow> s \<noteq> [] \<Longrightarrow> trim_right s = trim_right (take (length s - space_suffix s) s)"
  by (subst trim_right.simps) simp

lemma trim_right_blank: "trim_right s = [] \<Longrightarrow> s \<noteq> [] \<Longrightarrow> space_prefix s \<noteq> 0"
proof (induction s rule: trim_right.induct)
  case (1 s)
  have k: "space_suffix s \<noteq> 0"
  proof
    assume "space_suffix s = 0"
    then have "trim_right s = s" by (subst trim_right.simps) simp
    then show False using "1.prems" by simp
  qed
  then obtain w where "find (has_suffix s) go_spaces = Some w" by (auto simp: space_suffix_def split: option.splits)
  then have w: "w \<in> set go_spaces" "has_suffix s w" "space_suffix s = length w"
    using find_SomeD [of "has_suffix s" go_spaces w] by (simp_all add: space_suffix_def)
  then obtain a where a: "s = a @ w" by (auto simp: has_suffix_iff)
  then have t: "take (length s - space_suffix s) s = a" using w(3) by simp
  show ?case
  proof (cases "a = []")
    case True
    then have "has_prefix s w" using a by (simp add: has_prefix_def)
    then show ?thesis using w(1) space_prefix_pos [of s] by blast
  next
    case False
    have "trim_right a = []" using "1.prems" trim_right_step [OF k] t by simp
    then have "space_prefix a \<noteq> 0" using "1.IH" "1.prems" k t False by simp
    then obtain v where "v \<in> set go_spaces" "has_prefix a v" by (auto simp: space_prefix_pos)
    then have "has_prefix s v" using a by (auto simp: has_prefix_iff)
    then show ?thesis using space_prefix_pos [of s] \<open>v \<in> set go_spaces\<close> by blast
  qed
qed

definition json_first :: "char \<Rightarrow> bool" where
  "json_first c \<longleftrightarrow> c \<in> set [CHR 0x22, CHR ''['', CHR ''{'', CHR ''n'', CHR ''t'', CHR ''f'', CHR ''-''] \<or> is_digit c"

lemma reads_as_head:
  assumes "reads_as s v" shows "s \<noteq> [] \<and> json_first (hd s)"
proof -
  have cs: "clean_start s" using assms by (simp add: reads_as_def)
  then obtain c r where s: "s = c # r" by (cases s) (auto simp: clean_start_def)
  have "parse_value VNumber (Suc (2 * length s)) s = Some (v, [])"
    using reads_asD [OF assms, of "Suc (2 * length s)" "[]"] by simp
  moreover have "skip_ws s = c # r" using skip_ws_clean [OF cs, of "[]"] by (simp add: s)
  ultimately show ?thesis
    by (auto simp: s json_first_def has_prefix_iff dest!: scan_number_head split: if_splits)
qed

lemma json_first_not_space: "json_first c \<Longrightarrow> space_prefix (c # r) = 0"
  by (auto simp: space_prefix_pos json_first_def go_spaces_def has_prefix_def is_digit_def)

lemma reads_as_not_blank: "reads_as s v \<Longrightarrow> trim_space s \<noteq> []"
proof -
  assume "reads_as s v"
  then have "s \<noteq> []" "space_prefix s = 0" using reads_as_head [of s v] json_first_not_space by (cases s; auto)+
  then show ?thesis using trim_right_blank [of s] by (auto simp: trim_space_def trim_left.simps [of s])
qed

lemma canonical_null: "canonical ''null'' VNil"
  by (simp add: canonical_def reads_as_word)

lemma canonicalizeRawJSON_canonical: "canonicalizeRawJSON raw = Inr b \<Longrightarrow> \<exists>v. canonical b v"
  using json_enc_canonical [OF json_decode_decoded] canonical_null
  by (fastforce simp: canonicalizeRawJSON_def split: if_splits option.splits)

lemma canonicalizeRawJSON_id: "canonical b v \<Longrightarrow> canonicalizeRawJSON b = Inr b"
  using canonical_decode [of b v] reads_as_not_blank [of b v] by (simp add: canonicalizeRawJSON_def canonical_def)

lemma canonicalJSON_canonical: "canonicalJSON x = Inr b \<Longrightarrow> \<exists>v. canonical b v"
  using canonicalizeRawJSON_canonical canonical_null by (auto simp: canonicalJSON_def split: if_splits option.splits)

lemma json_norm_idem: "json_norm (json_norm x) = json_norm x"
proof (induction x)
  case (VMap m)
  define n where "n = map (\<lambda>(k, v). (k, json_norm v)) m"
  have "map (\<lambda>(k, v). (k, json_norm v)) n = n" using VMap by (auto simp: n_def)
  then have "sort_key fst (map (\<lambda>(k, v). (k, json_norm v)) (sort_key fst n)) = sort_key fst n"
    by (simp flip: sort_key_fst_map)
  then show ?case by (simp only: json_norm.simps n_def)
next
  case (VStrMap m)
  define n where "n = map (\<lambda>(k, v). (k, VStr v)) m"
  have "map (\<lambda>(k, v). (k, json_norm v)) n = n" by (auto simp: n_def)
  then have "sort_key fst (map (\<lambda>(k, v). (k, json_norm v)) (sort_key fst n)) = sort_key fst n"
    by (simp flip: sort_key_fst_map)
  then show ?case by (simp only: json_norm.simps n_def)
next
  case (VFloat f)
  then show ?case by (cases f) auto
qed simp_all

lemma canonicalJSON_total:
  assumes "json_wf x" shows "\<exists>s. canonicalJSON x = Inr s \<and> json_decode s = Some (json_norm x)"
proof (cases "x = VNil")
  case True
  then show ?thesis using canonical_decode [OF canonical_null] by (simp add: canonicalJSON_def)
next
  case False
  obtain s where s: "json_enc x = Some s" "json_decode s = Some (json_norm x)" "reads_as s (json_norm x)"
    using json_decode_enc [OF assms] json_enc_reads [OF assms] by (auto simp: enc_reads_def)
  obtain b where "json_enc (json_norm x) = Some b" "canonical b (json_norm x)"
    using json_enc_canonical [OF json_decode_decoded [OF s(2)]] by (auto simp: json_norm_idem)
  then show ?thesis using s False reads_as_not_blank [OF s(3)] canonical_decode
    by (simp add: canonicalJSON_def canonicalizeRawJSON_def)
qed

section \<open>Hashes\<close>

lemma hex_digit_inj: "0 \<le> a \<Longrightarrow> a < 16 \<Longrightarrow> 0 \<le> b \<Longrightarrow> b < 16 \<Longrightarrow> hex_digit a = hex_digit b \<longleftrightarrow> a = b"
  by (metis hex_val_digit option.inject)

lemma nibble_bounds: "0 \<le> (of_char c :: int) div 16" "(of_char c :: int) div 16 < 16"
  using of_char_bounds [of c] by auto

lemma hex_encode_Cons: "hex_encode (c # s) = hex_digit (of_char c div 16) # hex_digit (of_char c mod 16) # hex_encode s"
  by (simp add: hex_encode_def)

lemma hex_encode_inj: "hex_encode a = hex_encode b \<Longrightarrow> a = b"
proof (induction a arbitrary: b)
  case Nil
  then show ?case by (cases b) (auto simp: hex_encode_def)
next
  case (Cons c a)
  obtain d b' where b: "b = d # b'" using Cons.prems by (cases b) (auto simp: hex_encode_def)
  have "(of_char c :: int) div 16 = of_char d div 16" "(of_char c :: int) mod 16 = of_char d mod 16" "hex_encode a = hex_encode b'"
    using Cons.prems nibble_bounds [of c] nibble_bounds [of d] by (simp_all add: b hex_encode_Cons hex_digit_inj)
  then show ?case using Cons.IH by (metis b div_mult_mod_eq of_char_eq_iff)
qed

lemma hex_encode_chars: "list_all (\<lambda>c. hex_val c \<noteq> None \<and> lower_char c = c \<and> byte_in 0 127 c) (hex_encode s)"
proof -
  have "hex_val (hex_digit d) \<noteq> None \<and> lower_char (hex_digit d) = hex_digit d \<and> byte_in 0 127 (hex_digit d)"
    if d: "0 \<le> d" "d < 16" for d
  proof -
    have "list_all (\<lambda>d. hex_val (hex_digit d) \<noteq> None \<and> lower_char (hex_digit d) = hex_digit d \<and> byte_in 0 127 (hex_digit d)) [0..15]"
      by code_simp
    then show ?thesis using d by (simp add: list_all_iff)
  qed
  then show ?thesis using nibble_bounds by (induction s) (auto simp: hex_encode_Cons hex_encode_def)
qed

lemma length_hex_encode [simp]: "length (hex_encode s) = 2 * length s"
  by (induction s) (auto simp: hex_encode_Cons hex_encode_def)

lemma ascii_valid: "list_all (byte_in 0 127) s \<Longrightarrow> valid_utf8 s"
  by (induction s) (auto simp: valid_utf8_Cons rune_len_ascii)

lemma hex_encode_valid [simp]: "valid_utf8 (hex_encode s)"
  using hex_encode_chars [of s] by (auto intro!: ascii_valid simp: list_all_iff)

lemma validHash_hex_encode: "length s = 32 \<Longrightarrow> validHash (hex_encode s)"
  using hex_encode_chars [of s] by (auto simp: validHash_def list_all_iff to_lower_def intro: map_idI [symmetric])

lemma GenesisHash_valid [simp]: "validHash GenesisHash" "valid_utf8 GenesisHash"
  by code_simp+

lemma show_pos_ascii: "0 \<le> n \<Longrightarrow> list_all (byte_in 0 127) (show_pos n)"
  using show_pos_digits [of n] by (auto simp: list_all_iff is_digit_def byte_in_def)

lemma show_int_ascii: "list_all (byte_in 0 127) (show_int n)"
  using show_pos_ascii by (simp add: show_int_def byte_in_def)

lemma rfc3339nano_valid [simp]: "valid_utf8 (rfc3339nano t)"
proof (rule ascii_valid)
  have z: "list_all (byte_in 0 127) (zero_pad n (show_int k))" for n k
    using show_int_ascii by (auto simp: list_all_iff byte_in_def)
  have "list_all (byte_in 0 127) (trim_zeros s)" if "list_all (byte_in 0 127) s" for s
    using that by (auto simp: trim_zeros_def list_all_iff dest: set_dropWhileD)
  then have "list_all (byte_in 0 127) (fraction n)" for n using z by (simp add: fraction_def byte_in_def del: zero_pad.simps)
  then show "list_all (byte_in 0 127) (rfc3339nano t)" using z
    by (simp add: rfc3339nano_def Let_def case_prod_beta byte_in_def del: zero_pad.simps)
qed

section \<open>The chain\<close>

definition row_hash :: "(string \<Rightarrow> string) \<Rightarrow> int \<Rightarrow> string \<Rightarrow> audit_row \<Rightarrow> goerr + string" where
  "row_hash h pos prev r = calculateHash h (aud_Entry r) pos prev (aud_Before r) (aud_After r) (aud_Metadata r)"

definition links :: "(string \<Rightarrow> string) \<Rightarrow> int \<Rightarrow> string \<Rightarrow> audit_row \<Rightarrow> bool" where
  "links h pos prev r \<longleftrightarrow>
     aud_ChainPosition r = pos \<and> aud_PreviousHash r = prev \<and> aud_HashVersion r = HashVersion \<and>
     row_hash h pos prev r = Inr (aud_EntryHash r)"

fun chain_from :: "(string \<Rightarrow> string) \<Rightarrow> int \<Rightarrow> string \<Rightarrow> audit_row list \<Rightarrow> bool" where
  "chain_from h pos prev [] = True"
| "chain_from h pos prev (r # rs) = (links h pos prev r \<and> chain_from h (pos + 1) (aud_EntryHash r) rs)"

fun tip :: "string \<Rightarrow> audit_row list \<Rightarrow> string" where
  "tip prev [] = prev"
| "tip prev (r # rs) = tip (aud_EntryHash r) rs"

definition ledger_head :: "audit_row list \<Rightarrow> int \<times> string" where
  "ledger_head rows = (int (length rows), tip GenesisHash rows)"

definition chain_ok :: "(string \<Rightarrow> string) \<Rightarrow> database \<Rightarrow> bool" where
  "chain_ok h d \<longleftrightarrow>
     chain_from h 1 GenesisHash (audit_logs d) \<and> audit_chain_state d = Some (ledger_head (audit_logs d))"

lemma chain_from_append:
  "chain_from h p prev (rs @ qs) \<longleftrightarrow> chain_from h p prev rs \<and> chain_from h (p + int (length rs)) (tip prev rs) qs"
  by (induction rs arbitrary: p prev) (auto simp: algebra_simps)

lemma tip_append [simp]: "tip prev (rs @ qs) = tip (tip prev rs) qs"
  by (induction rs arbitrary: prev) auto

subsection \<open>Appending\<close>

text \<open>The row of an entry, whose identifier and time may have been filled in, and the append.\<close>

definition row_of :: "entry \<Rightarrow> audit_row \<Rightarrow> bool" where
  "row_of ent r \<longleftrightarrow>
     (\<exists>id t. aud_Entry r = ent\<lparr>ent_ID := id, ent_CreatedAt := t\<rparr>) \<and>
     prepareEntry (aud_Entry r) = Inr (aud_Before r, aud_After r, aud_Metadata r)"

definition appended :: "(string \<Rightarrow> string) \<Rightarrow> entry \<Rightarrow> database \<Rightarrow> database \<Rightarrow> bool" where
  "appended h ent d d' \<longleftrightarrow>
     (\<exists>p prev r. audit_chain_state d = Some (p, prev) \<and> links h (p + 1) prev r \<and> row_of ent r \<and>
        d' = d\<lparr>audit_logs := audit_logs d @ [r], audit_chain_state := Some (p + 1, aud_EntryHash r)\<rparr>)"

lemma insert_audit_Inr: "insert_audit row d = Inr (u, d') \<Longrightarrow> d' = d\<lparr>audit_logs := audit_logs d @ [row]\<rparr>"
  by (auto simp: insert_audit_def split: if_splits)

lemma advance_head_one: "advance_head pos h p q d = (1, d') \<Longrightarrow> d' = d\<lparr>audit_chain_state := Some (pos, h)\<rparr>"
  by (auto simp: advance_head_def split: if_splits)

lemma commits_or_ret [tx]: "commits (if b then m else ret x) h t d y d' \<Longrightarrow> (b \<and> commits m h t d y d') \<or> (\<not> b \<and> y = x \<and> d' = d)"
  by (auto split: if_splits dest!: tx)

lemma appended_row:
  assumes "audit_chain_state d = Some (p, prev)" "prepareEntry (ent\<lparr>ent_ID := i, ent_CreatedAt := c\<rparr>) = Inr (b, a, m)"
    and "calculateHash h (ent\<lparr>ent_ID := i, ent_CreatedAt := c\<rparr>) (p + 1) prev b a m = Inr hash"
  shows "appended h ent d (d\<lparr>audit_logs := audit_logs d @
    [\<lparr>aud_Entry = ent\<lparr>ent_ID := i, ent_CreatedAt := c\<rparr>, aud_Before = b, aud_After = a, aud_Metadata = m,
      aud_ChainPosition = p + 1, aud_PreviousHash = prev, aud_EntryHash = hash, aud_HashVersion = HashVersion\<rparr>],
    audit_chain_state := Some (p + 1, hash)\<rparr>)"
    (is "appended h ent d (d\<lparr>audit_logs := audit_logs d @ [?r], audit_chain_state := _\<rparr>)")
proof -
  have "links h (p + 1) prev ?r" using assms(3) by (simp add: links_def row_hash_def)
  moreover have "row_of ent ?r" unfolding row_of_def using assms(2) by (intro conjI exI) simp_all
  ultimately show ?thesis using assms(1) unfolding appended_def by (intro exI [of _ p] exI [of _ prev] exI [of _ ?r]) simp
qed

lemma WriteTx_commits [tx]: "commits (WriteTx ent) h t d u d' \<Longrightarrow> appended h ent d d'"
  unfolding WriteTx_def Let_def
  by (auto split: option.splits if_splits dest!: tx insert_audit_Inr advance_head_one intro!: appended_row)

subsection \<open>The ledger only grows\<close>

text \<open>The relation every program of the control plane keeps on the ledger.\<close>

definition ledger_grows :: change where
  "ledger_grows h d d' \<longleftrightarrow> (\<exists>rs. audit_logs d' = audit_logs d @ rs) \<and> (chain_ok h d \<longrightarrow> chain_ok h d')"

interpretation ledger: evolution ledger_grows
  by unfold_locales (auto simp: ledger_grows_def)

lemma appended_grows: "appended h ent d d' \<Longrightarrow> ledger_grows h d d'"
  by (auto simp: appended_def ledger_grows_def chain_ok_def chain_from_append ledger_head_def algebra_simps)

lemma Write_grows: "evolves ledger_grows (Write ent)"
  unfolding Write_def by (intro evo ledger.evolves_transaction tx_evolvesI) (auto dest!: tx intro: appended_grows)

section \<open>Verification decides the chain\<close>

definition documents :: "audit_row \<Rightarrow> string list" where
  "documents r = [aud_Before r, aud_After r, aud_Metadata r]"

text \<open>The database returns a stored document with its value unchanged, whatever its spacing.\<close>

definition reads_back :: "(string \<Rightarrow> string) \<Rightarrow> audit_row \<Rightarrow> bool" where
  "reads_back jsonb r \<longleftrightarrow> list_all (\<lambda>doc. canonicalizeRawJSON (jsonb doc) = canonicalizeRawJSON doc) (documents r)"

definition read_row :: "(string \<Rightarrow> string) \<Rightarrow> audit_row \<Rightarrow> audit_row" where
  "read_row jsonb r =
     r\<lparr>aud_Before := jsonb (aud_Before r), aud_After := jsonb (aud_After r), aud_Metadata := jsonb (aud_Metadata r)\<rparr>"

lemma read_row_simps [simp]:
  "aud_EntryHash (read_row jsonb r) = aud_EntryHash r" "aud_ChainPosition (read_row jsonb r) = aud_ChainPosition r"
  by (simp_all add: read_row_def)

lemma tip_read [simp]: "tip prev (map (read_row jsonb) rows) = tip prev rows"
  by (induction rows arbitrary: prev) auto

lemma chain_from_read:
  "list_all (reads_back jsonb) rows \<Longrightarrow> chain_from h pos prev (map (read_row jsonb) rows) = chain_from h pos prev rows"
proof (induction rows arbitrary: pos prev)
  case (Cons r rows)
  then have "row_hash h pos prev (read_row jsonb r) = row_hash h pos prev r"
    by (simp add: reads_back_def documents_def row_hash_def calculateHash_def read_row_def)
  with Cons show ?case by (simp add: links_def) (simp add: read_row_def)
qed simp

lemma row_hash_valid: "\<forall>x. length (h x) = 32 \<Longrightarrow> row_hash h pos prev r = Inr hash \<Longrightarrow> validHash hash"
  by (auto simp: row_hash_def calculateHash_def intro!: validHash_hex_encode)

lemma row_hash_read:
  "calculateHash h (aud_Entry r) pos prev (jsonb (aud_Before r)) (jsonb (aud_After r)) (jsonb (aud_Metadata r)) =
     row_hash h pos prev (read_row jsonb r)"
  by (simp add: row_hash_def read_row_def)

lemma links_read:
  "links h pos prev (read_row jsonb r) \<longleftrightarrow>
     aud_ChainPosition r = pos \<and> aud_PreviousHash r = prev \<and> aud_HashVersion r = HashVersion \<and>
     row_hash h pos prev (read_row jsonb r) = Inr (aud_EntryHash r)"
  by (simp add: links_def) (simp add: read_row_def)

lemma verify_rows_complete:
  assumes "\<forall>x. length (h x) = 32" "validHash prev" "chain_from h pos prev (map (read_row jsonb) rows)"
  shows "verify_rows h jsonb rep pos prev rows =
    Inr (Inr (rep\<lparr>EntriesVerified := EntriesVerified rep + int (length rows)\<rparr>, tip prev rows))"
  using assms(2-)
proof (induction rows arbitrary: pos prev rep)
  case (Cons r rows)
  then have l: "links h pos prev (read_row jsonb r)" by simp
  then have "validHash (aud_EntryHash r)" using row_hash_valid [OF assms(1)] by (auto simp: links_read)
  with l show ?case using Cons by (simp add: links_read Let_def algebra_simps row_hash_read)
qed simp

lemma verify_rows_sound:
  "verify_rows h jsonb rep pos prev rows = Inr (Inr (rep', l)) \<Longrightarrow> chain_from h pos prev (map (read_row jsonb) rows)"
  by (induction rows arbitrary: pos prev rep)
     (auto simp: Let_def links_read row_hash_read split: if_splits sum.splits)

lemma verify_rows_broken: "verify_rows h jsonb rep pos prev rows = Inr (Inl broken) \<Longrightarrow> \<not> Valid broken"
  by (induction rows arbitrary: pos prev rep) (auto simp: Let_def invalidReport_def split: if_splits sum.splits)

definition verifies :: "goerr + verification \<Rightarrow> bool" where
  "verifies r = (case r of Inr report \<Rightarrow> Valid report | Inl err \<Rightarrow> False)"

lemma verify_ledger_read:
  assumes "\<forall>x. length (h x) = 32"
  shows "verifies (verify_ledger h jsonb now st rows) \<longleftrightarrow>
    chain_from h 1 GenesisHash (map (read_row jsonb) (by_position rows)) \<and> st = ledger_head (by_position rows)"
proof -
  obtain p s where st: "st = (p, s)" by (cases st)
  define rep where "rep = \<lparr>Valid = True, EntriesVerified = 0, HeadPosition = p, HeadHash = s, InvalidPosition = 0,
    ExpectedHash = [], ActualHash = [], VReason = [], VerifiedAt = now\<rparr>"
  show ?thesis
  proof (cases "chain_from h 1 GenesisHash (map (read_row jsonb) (by_position rows))")
    case True
    from verify_rows_complete [OF assms GenesisHash_valid(1) True, of rep] show ?thesis
      using True by (auto simp: verify_ledger_def st Let_def verifies_def ledger_head_def invalidReport_def rep_def)
  next
    case False
    then have "\<nexists>r l. verify_rows h jsonb rep 1 GenesisHash (by_position rows) = Inr (Inr (r, l))"
      using verify_rows_sound by blast
    then show ?thesis using False verify_rows_broken
      by (auto simp: verify_ledger_def st Let_def verifies_def simp flip: rep_def split: sum.splits)
  qed
qed

lemma verify_ledger_iff:
  assumes "\<forall>x. length (h x) = 32" "list_all (reads_back jsonb) rows"
  shows "verifies (verify_ledger h jsonb now st rows) \<longleftrightarrow>
    chain_from h 1 GenesisHash (by_position rows) \<and> st = ledger_head (by_position rows)"
proof -
  have "list_all (reads_back jsonb) (by_position rows)" using assms(2) by (simp add: list_all_iff by_position_def)
  then show ?thesis by (simp add: verify_ledger_read [OF assms(1)] chain_from_read)
qed

lemma by_position_sorted:
  "sorted_wrt (\<lambda>a b. aud_ChainPosition a < aud_ChainPosition b) rows \<Longrightarrow> by_position rows = rows"
proof (induction rows)
  case (Cons r rows)
  have "stable_insert (\<lambda>a b. aud_ChainPosition a < aud_ChainPosition b) r rows = r # rows"
    using Cons.prems by (cases rows) auto
  moreover have "by_position rows = rows" using Cons by auto
  ultimately show ?case by (simp add: by_position_def stable_sort_def)
qed (simp add: by_position_def stable_sort_def)

lemma chain_from_sorted:
  "chain_from h pos prev rows \<Longrightarrow>
     sorted_wrt (\<lambda>a b. aud_ChainPosition a < aud_ChainPosition b) rows \<and> (\<forall>r \<in> set rows. pos \<le> aud_ChainPosition r)"
proof (induction rows arbitrary: pos prev)
  case (Cons r rows)
  then have "sorted_wrt (\<lambda>a b. aud_ChainPosition a < aud_ChainPosition b) rows \<and> (\<forall>r \<in> set rows. pos + 1 \<le> aud_ChainPosition r)"
    by auto
  then show ?case using Cons.prems by (fastforce simp: links_def)
qed simp

lemma by_position_chain:
  "chain_from h pos prev (map (read_row jsonb) rows) \<Longrightarrow> by_position rows = rows"
  using chain_from_sorted [of h pos prev "map (read_row jsonb) rows"] by (simp add: sorted_wrt_map by_position_sorted)

section \<open>Tampering shows\<close>

definition columns :: "audit_row \<Rightarrow> string list" where
  "columns r =
     (let ent = aud_Entry r in
      [ent_ID ent, ent_ActorID ent, ent_ActorType ent, ent_Action ent, ent_ResourceType ent,
       ent_ResourceID ent, ent_RequestID ent, ent_IPAddress ent])"

text \<open>All that the hash of a row covers: its text columns, its time and its documents up to spacing.\<close>

definition sealed :: "audit_row \<Rightarrow> string list \<times> string \<times> (goerr + string) list" where
  "sealed r = (columns r, rfc3339nano (ent_CreatedAt (aud_Entry r)), map canonicalizeRawJSON (documents r))"

definition utf8_row :: "audit_row \<Rightarrow> bool" where
  "utf8_row r \<longleftrightarrow> list_all valid_utf8 (columns r)"

definition payload_text :: "audit_row \<Rightarrow> string" where
  "payload_text r =
     (case map canonicalizeRawJSON (documents r) of
        [Inr b, Inr a, Inr m] \<Rightarrow>
          json_object (chainPayload (aud_Entry r) (aud_ChainPosition r) (aud_PreviousHash r) b a m)
      | _ \<Rightarrow> [])"

text \<open>Two ledgers exhibit a collision of the digest on the texts they hash at some position.\<close>

definition collides :: "(string \<Rightarrow> string) \<Rightarrow> audit_row \<Rightarrow> audit_row \<Rightarrow> bool" where
  "collides h r q \<longleftrightarrow> payload_text r \<noteq> payload_text q \<and> h (payload_text r) = h (payload_text q)"

definition payload_value :: "entry \<Rightarrow> int \<Rightarrow> string \<Rightarrow> gval \<Rightarrow> gval \<Rightarrow> gval \<Rightarrow> gval" where
  "payload_value ent position prev b a m =
     VMap [(''hash_version'', VNumber (show_int HashVersion)),
      (''chain_position'', VNumber (show_int position)),
      (''previous_hash'', VStr prev),
      (''id'', VStr (ent_ID ent)),
      (''actor_id'', VStr (ent_ActorID ent)),
      (''actor_type'', VStr (ent_ActorType ent)),
      (''action'', VStr (ent_Action ent)),
      (''resource_type'', VStr (ent_ResourceType ent)),
      (''resource_id'', VStr (ent_ResourceID ent)),
      (''request_id'', VStr (ent_RequestID ent)),
      (''ip_address'', VStr (ent_IPAddress ent)),
      (''before_state'', b),
      (''after_state'', a),
      (''metadata'', m),
      (''created_at'', VStr (rfc3339nano (ent_CreatedAt ent)))]"

lemma payload_reads:
  assumes "utf8_row r" "valid_utf8 prev" "canonical b vb" "canonical a va" "canonical m vm"
  shows "reads_as (json_object (chainPayload (aud_Entry r) pos prev b a m)) (payload_value (aud_Entry r) pos prev vb va vm)"
proof -
  have keys: "list_all valid_utf8 (map fst (chainPayload (aud_Entry r) pos prev b a m))"
    by (simp add: chainPayload_def) (intro conjI ascii_valid; simp add: byte_in_def)
  show ?thesis unfolding payload_value_def
    by (rule reads_as_object)
       (use assms keys in \<open>simp_all add: chainPayload_def member_reads_def canonical_def utf8_row_def columns_def Let_def
          reads_as_string reads_as_number number_ok_show_int\<close>)
qed

lemma links_sealed:
  assumes "links h pos prev r"
  obtains b a m vb va vm where "canonical b vb" "canonical a va" "canonical m vm"
    "map canonicalizeRawJSON (documents r) = [Inr b, Inr a, Inr m]"
    "payload_text r = json_object (chainPayload (aud_Entry r) pos prev b a m)"
    "aud_EntryHash r = hex_encode (h (payload_text r))"
proof -
  obtain b a m where 1: "canonicalizeRawJSON (aud_Before r) = Inr b" "canonicalizeRawJSON (aud_After r) = Inr a"
    "canonicalizeRawJSON (aud_Metadata r) = Inr m"
    "aud_EntryHash r = hex_encode (h (json_object (chainPayload (aud_Entry r) pos prev b a m)))"
    using assms by (auto simp: links_def row_hash_def calculateHash_def)
  obtain vb where "canonical b vb" using canonicalizeRawJSON_canonical [OF 1(1)] by blast
  moreover obtain va where "canonical a va" using canonicalizeRawJSON_canonical [OF 1(2)] by blast
  moreover obtain vm where "canonical m vm" using canonicalizeRawJSON_canonical [OF 1(3)] by blast
  moreover have "map canonicalizeRawJSON (documents r) = [Inr b, Inr a, Inr m]" by (simp add: documents_def 1)
  moreover have "payload_text r = json_object (chainPayload (aud_Entry r) pos prev b a m)"
    using assms by (simp add: payload_text_def documents_def links_def 1)
  ultimately show thesis using that 1(4) by simp
qed

lemma same_hash_same_row:
  assumes r: "links h pos prev r" "utf8_row r" "valid_utf8 prev"
    and q: "links h pos prev' q" "utf8_row q" "valid_utf8 prev'"
    and "aud_EntryHash r = aud_EntryHash q" "\<not> collides h r q"
  shows "prev = prev' \<and> sealed r = sealed q"
proof -
  obtain b a m vb va vm where 1: "canonical b vb" "canonical a va" "canonical m vm"
    "map canonicalizeRawJSON (documents r) = [Inr b, Inr a, Inr m]"
    "payload_text r = json_object (chainPayload (aud_Entry r) pos prev b a m)"
    "aud_EntryHash r = hex_encode (h (payload_text r))" using r(1) by (rule links_sealed)
  obtain b' a' m' vb' va' vm' where 2: "canonical b' vb'" "canonical a' va'" "canonical m' vm'"
    "map canonicalizeRawJSON (documents q) = [Inr b', Inr a', Inr m']"
    "payload_text q = json_object (chainPayload (aud_Entry q) pos prev' b' a' m')"
    "aud_EntryHash q = hex_encode (h (payload_text q))" using q(1) by (rule links_sealed)
  have "payload_text r = payload_text q"
    using 1(6) 2(6) assms(7,8) hex_encode_inj unfolding collides_def by metis
  then have "payload_value (aud_Entry r) pos prev vb va vm = payload_value (aud_Entry q) pos prev' vb' va' vm'"
    using payload_reads [OF r(2,3) 1(1-3), of pos] payload_reads [OF q(2,3) 2(1-3), of pos] reads_as_unique 1(5) 2(5) by metis
  then have eqs: "prev = prev'" "columns r = columns q" "vb = vb'" "va = va'" "vm = vm'"
    "rfc3339nano (ent_CreatedAt (aud_Entry r)) = rfc3339nano (ent_CreatedAt (aud_Entry q))"
    by (simp_all add: payload_value_def columns_def Let_def)
  then have "b = b'" "a = a'" "m = m'" using 1(1-3) 2(1-3) canonical_unique by blast+
  then show ?thesis using eqs 1(4) 2(4) by (simp add: sealed_def)
qed

lemma same_tip_same_chain:
  "chain_from h pos prev rs \<Longrightarrow> chain_from h pos prev' qs \<Longrightarrow> length rs = length qs \<Longrightarrow> tip prev rs = tip prev' qs \<Longrightarrow>
    list_all utf8_row rs \<Longrightarrow> list_all utf8_row qs \<Longrightarrow> valid_utf8 prev \<Longrightarrow> valid_utf8 prev' \<Longrightarrow>
    \<not> list_ex (\<lambda>(r, q). collides h r q) (zip rs qs) \<Longrightarrow>
    prev = prev' \<and> map sealed rs = map sealed qs"
proof (induction rs arbitrary: qs pos prev prev')
  case (Cons r rs)
  obtain q qs' where qs: "qs = q # qs'" using Cons.prems(3) by (cases qs) auto
  have l: "links h pos prev r" "links h pos prev' q" using Cons.prems by (simp_all add: qs)
  then have "valid_utf8 (aud_EntryHash r)" "valid_utf8 (aud_EntryHash q)" by (auto elim!: links_sealed)
  then have "aud_EntryHash r = aud_EntryHash q \<and> map sealed rs = map sealed qs'"
    using Cons.prems by (intro Cons.IH [of "pos + 1"]) (simp_all add: qs)
  then show ?case using same_hash_same_row [OF l(1) _ _ l(2)] Cons.prems by (simp add: qs)
qed simp

section \<open>Properties\<close>

text \<open>A one-row ledger, with the document of the row spelled in a given way.\<close>

definition sample_digest :: "string \<Rightarrow> string" where
  "sample_digest x = take 32 (x @ replicate 32 (CHR ''0''))"

definition sample_entry :: entry where
  "sample_entry = entry0\<lparr>ent_ID := ''aud_1'', ent_ActorType := ''system'', ent_Action := ''remediation.queued'',
     ent_ResourceType := ''remediation'', ent_ResourceID := ''rem_1'', ent_CreatedAt := 1000\<rparr>"

definition sample_row :: "string \<Rightarrow> audit_row" where
  "sample_row doc =
     \<lparr>aud_Entry = sample_entry, aud_Before = doc, aud_After = ''null'', aud_Metadata = ''null'', aud_ChainPosition = 1,
      aud_PreviousHash = GenesisHash,
      aud_EntryHash = hex_encode (sample_digest (json_object (chainPayload sample_entry 1 GenesisHash ''null'' ''null'' ''null''))),
      aud_HashVersion = HashVersion\<rparr>"

lemma sample_digest_length: "\<forall>x. length (sample_digest x) = 32"
  by (auto simp: sample_digest_def)

lemma canonicalize_null [simp]: "canonicalizeRawJSON ''null'' = Inr ''null''"
  by (rule canonicalizeRawJSON_id [OF canonical_null])

lemma sample_chain:
  "canonicalizeRawJSON doc = Inr ''null'' \<Longrightarrow> chain_from sample_digest 1 GenesisHash [sample_row doc]"
  by (simp add: links_def row_hash_def calculateHash_def sample_row_def)

lemma by_position_single [simp]: "by_position [r] = [r]"
  by (simp add: by_position_def stable_sort_def)

lemma sample_verifies:
  "canonicalizeRawJSON doc = Inr ''null'' \<Longrightarrow>
     verifies (verify_ledger sample_digest id 0 (1, aud_EntryHash (sample_row ''null'')) [sample_row doc])"
  using verify_ledger_iff [OF sample_digest_length, of id "[sample_row doc]"] sample_chain [of doc]
  by (simp add: reads_back_def documents_def ledger_head_def sample_row_def)

text \<open>
  C30: Two ledgers that \<^verbatim>\<open>Verify\<close> accepts against the same persisted head hold the same entries, in
  every text column, creation time and (up to spacing) document, unless they exhibit two
  different payloads on which the digest collides: no edit, insertion, removal or reordering
  of audited entries goes unnoticed.
\<close>

theorem Verify_tamper_evident:
  assumes "\<forall>x. length (h x) = 32"
    and "list_all (reads_back jsonb) rows" "list_all utf8_row rows"
    and "list_all (reads_back jsonb) rows'" "list_all utf8_row rows'"
    and "verifies (verify_ledger h jsonb now head rows)" "verifies (verify_ledger h jsonb now' head rows')"
  shows "map sealed (by_position rows) = map sealed (by_position rows') \<or>
    list_ex (\<lambda>(r, q). collides h r q) (zip (by_position rows) (by_position rows'))"
proof -
  note iff = verify_ledger_iff [OF assms(1,2)] verify_ledger_iff [OF assms(1,4)]
  have "chain_from h 1 GenesisHash (by_position rows)" "chain_from h 1 GenesisHash (by_position rows')"
    "ledger_head (by_position rows) = ledger_head (by_position rows')" using assms(6,7) iff by auto
  moreover have "list_all utf8_row (by_position rows)" "list_all utf8_row (by_position rows')"
    using assms(3,5) by (simp_all add: list_all_iff by_position_def)
  ultimately show ?thesis using same_tip_same_chain [of h 1 GenesisHash "by_position rows" GenesisHash "by_position rows'"]
    by (auto simp: ledger_head_def)
qed

theorem Verify_tamper_evident_witness:
  "map sealed [sample_row '' null''] = map sealed [sample_row ''null''] \<or>
   list_ex (\<lambda>(r, q). collides sample_digest r q) (zip [sample_row '' null''] [sample_row ''null''])"
proof -
  have "canonicalizeRawJSON '' null'' = Inr ''null''" by code_simp
  moreover have "utf8_row (sample_row doc)" for doc
    by (simp add: utf8_row_def columns_def sample_row_def sample_entry_def entry0_def) (intro conjI ascii_valid; simp add: byte_in_def)
  ultimately show ?thesis
    using Verify_tamper_evident [of sample_digest id "[sample_row '' null'']" "[sample_row ''null'']" 0
        "(1, aud_EntryHash (sample_row ''null''))" 0]
    by (simp add: sample_digest_length sample_verifies reads_back_def documents_def)
qed

text \<open>
  C31: \<^verbatim>\<open>Verify\<close> reports a ledger valid exactly when the rows in position order form one hash chain
  from the genesis hash and the persisted head names its length and last hash; every gap,
  version, hash or head defect is reported.
\<close>

theorem Verify_decides_chain:
  assumes "\<forall>x. length (h x) = 32" "list_all (reads_back jsonb) rows"
  shows "verifies (verify_ledger h jsonb now head rows) \<longleftrightarrow>
    chain_from h 1 GenesisHash (by_position rows) \<and> head = ledger_head (by_position rows)"
  by (rule verify_ledger_iff [OF assms])

theorem Verify_decides_chain_witness:
  "verifies (verify_ledger sample_digest id 0 (2, []) [sample_row ''null'']) \<longleftrightarrow>
    chain_from sample_digest 1 GenesisHash [sample_row ''null''] \<and> (2, []) = ledger_head [sample_row ''null'']"
  using Verify_decides_chain [of sample_digest id "[sample_row ''null'']" 0 "(2, [])"]
  by (simp add: sample_digest_length reads_back_def documents_def)

text \<open>
  C32: Appending inside a transaction adds exactly one row for the entry, linked to the head it
  found, and moves the head to it; whatever the database and other processes do, a write leaves
  every earlier row in place and keeps the chain intact.
\<close>

theorem Write_extends_chain:
  "evolves ledger_grows (Write ent) \<and> tx_evolves (\<lambda>h. appended h ent) (WriteTx ent)"
  using Write_grows by (auto intro: tx_evolvesI dest!: tx)

text \<open>
  C33: Canonical JSON is total on well-formed values, decodes to the value up to key order and
  number spelling, and is a fixed point: canonicalizing the stored text again changes nothing.
\<close>

theorem canonicalJSON_round_trip:
  assumes "json_wf v"
  shows "\<exists>s. canonicalJSON v = Inr s \<and> json_decode s = Some (json_norm v) \<and> canonicalizeRawJSON s = Inr s"
  using canonicalJSON_total [OF assms] canonicalJSON_canonical canonicalizeRawJSON_id by metis

theorem canonicalJSON_round_trip_witness:
  "\<exists>s. canonicalJSON (VMap [(''b'', VInt 2), (''a'', VNil)]) = Inr s \<and>
     json_decode s = Some (json_norm (VMap [(''b'', VInt 2), (''a'', VNil)])) \<and> canonicalizeRawJSON s = Inr s"
proof (rule canonicalJSON_round_trip)
  show "json_wf (VMap [(''b'', VInt 2), (''a'', VNil)])" by code_simp
qed

end
