(* ===== verification/Ledger_Migration.thy ===== *)
theory Ledger_Migration
  imports Ledger
begin

text \<open>
  \<^verbatim>\<open>MigrateLedger\<close> and \<^verbatim>\<open>backfillLegacyRows\<close> of \<^verbatim>\<open>src/internal/audit/chain.go\<close>: an \<^verbatim>\<open>audit_logs\<close> table
  written before the chain existed is chained in one serializable transaction, or the start-up
  fails. The model is the function of the table and of the persisted head that the transaction
  computes; the schema statements only make room for the chain columns.
\<close>

section \<open>The table before the migration\<close>

text \<open>The chain columns and the documents may be \<^verbatim>\<open>NULL\<close>.\<close>

record ledger_row =
  lr_Entry :: entry
  lr_Before :: "string option"
  lr_After :: "string option"
  lr_Metadata :: "string option"
  lr_Position :: "int option"
  lr_Previous :: "string option"
  lr_Hash :: "string option"
  lr_Version :: "int option"

definition coalesce :: "string option \<Rightarrow> string" where
  "coalesce doc = (case doc of None \<Rightarrow> ''null'' | Some s \<Rightarrow> s)"

definition is_unchained :: "ledger_row \<Rightarrow> bool" where
  "is_unchained r \<longleftrightarrow> lr_Position r = None \<or> lr_Previous r = None \<or> lr_Hash r = None \<or> lr_Version r = None"

text \<open>
  \<^verbatim>\<open>ORDER BY created_at ASC, id ASC\<close>. How the database compares identifiers depends on its
  collation, so the comparison is a parameter.
\<close>

definition legacy_before :: "(string \<Rightarrow> string \<Rightarrow> bool) \<Rightarrow> ledger_row \<Rightarrow> ledger_row \<Rightarrow> bool" where
  "legacy_before collate a b \<longleftrightarrow>
     ent_CreatedAt (lr_Entry a) < ent_CreatedAt (lr_Entry b) \<or>
     ent_CreatedAt (lr_Entry a) = ent_CreatedAt (lr_Entry b) \<and> collate (ent_ID (lr_Entry a)) (ent_ID (lr_Entry b))"

section \<open>Backfill\<close>

fun backfill_rows ::
  "(string \<Rightarrow> string) \<Rightarrow> (string \<Rightarrow> string) \<Rightarrow> int \<Rightarrow> string \<Rightarrow> ledger_row list
   \<Rightarrow> goerr + (ledger_row list \<times> int \<times> string)" where
  "backfill_rows h jsonb position previousHash [] = Inr ([], position, previousHash)"
| "backfill_rows h jsonb position previousHash (r # rs) =
     (case calculateHash h (lr_Entry r) (position + 1) previousHash (jsonb (coalesce (lr_Before r)))
             (jsonb (coalesce (lr_After r))) (jsonb (coalesce (lr_Metadata r))) of
        Inl err \<Rightarrow> Inl (wrap (''hash legacy audit row '' @ quote (ent_ID (lr_Entry r))) err)
      | Inr entryHash \<Rightarrow>
          (case backfill_rows h jsonb (position + 1) entryHash rs of
             Inl err \<Rightarrow> Inl err
           | Inr (rs', p, hash) \<Rightarrow>
               Inr (r\<lparr>lr_Position := Some (position + 1), lr_Previous := Some previousHash,
                      lr_Hash := Some entryHash, lr_Version := Some HashVersion\<rparr> # rs', p, hash)))"

text \<open>Rows are updated by their primary key, so the table is the updated rows in any order.\<close>

definition backfillLegacyRows ::
  "(string \<Rightarrow> string) \<Rightarrow> (string \<Rightarrow> string) \<Rightarrow> (string \<Rightarrow> string \<Rightarrow> bool) \<Rightarrow> ledger_row list
   \<Rightarrow> goerr + (ledger_row list \<times> int \<times> string)" where
  "backfillLegacyRows h jsonb collate rows =
     backfill_rows h jsonb 0 GenesisHash (stable_sort (legacy_before collate) rows)"

section \<open>Migration\<close>

definition unique_indexes :: "ledger_row list \<Rightarrow> bool" where
  "unique_indexes rows \<longleftrightarrow> distinct (map lr_Position rows) \<and> distinct (map lr_Hash rows)"

definition MigrateLedger ::
  "(string \<Rightarrow> string) \<Rightarrow> (string \<Rightarrow> string) \<Rightarrow> (string \<Rightarrow> string \<Rightarrow> bool) \<Rightarrow> ledger_row list \<times> (int \<times> string) option
   \<Rightarrow> goerr + (ledger_row list \<times> (int \<times> string) option)" where
  "MigrateLedger h jsonb collate table =
     (case table of (rows, state) \<Rightarrow>
        (let total = length rows; unchained = length (filter is_unchained rows) in
         then_ok
           (if total = 0 then Inr (rows, Some (case state of None \<Rightarrow> (0, GenesisHash) | Some s \<Rightarrow> s))
            else if unchained = total then
              (if state \<noteq> None then
                 Inl (errorf ''legacy audit rows found with an existing chain head; refusing ambiguous backfill'')
               else case backfillLegacyRows h jsonb collate rows of
                 Inl err \<Rightarrow> Inl err
               | Inr (rows', position, hash) \<Rightarrow> Inr (rows', Some (position, hash)))
            else if unchained > 0 then
              Inl (errorf ''partially chained audit ledger detected; manual recovery is required'')
            else if state = None then Inl (errorf ''chained audit ledger is missing its persisted head'')
            else Inr (rows, state))
           (\<lambda>(rows', state').
              if unique_indexes rows' then Inr (rows', state')
              else Inl (wrap ''finalize audit ledger schema'' (unique_violation ''idx_audit_entry_hash'')))))"

section \<open>What the migration leaves\<close>

text \<open>A row once its chain columns are \<^verbatim>\<open>NOT NULL\<close>.\<close>

definition chained_row :: "ledger_row \<Rightarrow> audit_row" where
  "chained_row r =
     \<lparr>aud_Entry = lr_Entry r, aud_Before = coalesce (lr_Before r), aud_After = coalesce (lr_After r),
      aud_Metadata = coalesce (lr_Metadata r), aud_ChainPosition = the (lr_Position r),
      aud_PreviousHash = the (lr_Previous r), aud_EntryHash = the (lr_Hash r), aud_HashVersion = the (lr_Version r)\<rparr>"

definition legacy_content :: "ledger_row \<Rightarrow> entry \<times> string option \<times> string option \<times> string option" where
  "legacy_content r = (lr_Entry r, lr_Before r, lr_After r, lr_Metadata r)"

lemma backfill_chain:
  "backfill_rows h jsonb pos prev rows = Inr (rows', p, hash) \<Longrightarrow>
     chain_from h (pos + 1) prev (map (read_row jsonb) (map chained_row rows')) \<and>
     p = pos + int (length rows) \<and> hash = tip prev (map chained_row rows') \<and>
     map legacy_content rows' = map legacy_content rows \<and> list_all (\<lambda>r. \<not> is_unchained r) rows'"
proof (induction rows arbitrary: pos prev rows' p hash)
  case (Cons r rows)
  obtain entryHash rs' where
    1: "calculateHash h (lr_Entry r) (pos + 1) prev (jsonb (coalesce (lr_Before r)))
          (jsonb (coalesce (lr_After r))) (jsonb (coalesce (lr_Metadata r))) = Inr entryHash"
    and 2: "backfill_rows h jsonb (pos + 1) entryHash rows = Inr (rs', p, hash)"
    and 3: "rows' = r\<lparr>lr_Position := Some (pos + 1), lr_Previous := Some prev, lr_Hash := Some entryHash,
      lr_Version := Some HashVersion\<rparr> # rs'"
    using Cons.prems by (auto split: sum.splits prod.splits)
  have "links h (pos + 1) prev (read_row jsonb (chained_row (hd rows')))"
    using 1 by (simp add: links_def row_hash_def read_row_def chained_row_def 3)
  moreover have "aud_EntryHash (chained_row (hd rows')) = entryHash" by (simp add: 3 chained_row_def)
  ultimately show ?case using Cons.IH [OF 2] by (simp add: 3 is_unchained_def legacy_content_def)
qed simp

lemma MigrateLedger_legacy:
  assumes "list_all is_unchained rows" "MigrateLedger h jsonb collate (rows, None) = Inr (rows', Some head)"
  shows "chain_from h 1 GenesisHash (map (read_row jsonb) (map chained_row rows')) \<and>
    head = ledger_head (map chained_row rows') \<and> mset (map legacy_content rows') = mset (map legacy_content rows)"
proof (cases "rows = []")
  case True
  then show ?thesis using assms(2) by (auto simp: MigrateLedger_def ledger_head_def split: if_splits)
next
  case False
  have "filter is_unchained rows = rows" using assms(1) by (simp add: list_all_iff)
  then obtain p hash where b: "backfillLegacyRows h jsonb collate rows = Inr (rows', p, hash)" "head = (p, hash)"
    using assms(2) False by (auto simp: MigrateLedger_def split: if_splits sum.splits prod.splits)
  from backfill_chain [OF b(1) [unfolded backfillLegacyRows_def]]
  have c: "chain_from h 1 GenesisHash (map (read_row jsonb) (map chained_row rows'))" "p = int (length rows)"
    "hash = tip GenesisHash (map chained_row rows')"
    "map legacy_content rows' = map legacy_content (stable_sort (legacy_before collate) rows)" by simp_all
  then have "mset (map legacy_content rows') = mset (map legacy_content rows)" by simp
  moreover have "length rows' = length rows" using arg_cong [OF c(4), of length] by simp
  ultimately show ?thesis using c b(2) by (simp add: ledger_head_def)
qed

text \<open>
  C34: Migrating a table without chain columns keeps every entry and its documents, and what it
  leaves is a complete chain: verification of the migrated ledger succeeds.
\<close>

theorem MigrateLedger_verifies:
  assumes "\<forall>x. length (h x) = 32" "list_all is_unchained rows"
    and "MigrateLedger h jsonb collate (rows, None) = Inr (rows', Some head)"
  shows "verifies (verify_ledger h jsonb now head (map chained_row rows')) \<and>
    mset (map legacy_content rows') = mset (map legacy_content rows)"
  using MigrateLedger_legacy [OF assms(2,3)] by_position_chain [of h 1 GenesisHash jsonb "map chained_row rows'"]
  by (simp add: verify_ledger_read [OF assms(1)])

definition sample_legacy :: ledger_row where
  "sample_legacy = \<lparr>lr_Entry = sample_entry, lr_Before = None, lr_After = Some ''null'', lr_Metadata = None,
     lr_Position = None, lr_Previous = None, lr_Hash = None, lr_Version = None\<rparr>"

definition sample_legacy_hash :: string where
  "sample_legacy_hash = hex_encode (sample_digest (json_object (chainPayload sample_entry 1 GenesisHash ''null'' ''null'' ''null'')))"

definition sample_migrated :: ledger_row where
  "sample_migrated = sample_legacy\<lparr>lr_Position := Some 1, lr_Previous := Some GenesisHash,
     lr_Hash := Some sample_legacy_hash, lr_Version := Some HashVersion\<rparr>"

theorem MigrateLedger_verifies_witness:
  "verifies (verify_ledger sample_digest id 0 (1, sample_legacy_hash) (map chained_row [sample_migrated])) \<and>
   mset (map legacy_content [sample_migrated]) = mset (map legacy_content [sample_legacy])"
proof (rule MigrateLedger_verifies [OF sample_digest_length])
  show "list_all is_unchained [sample_legacy]" by (simp add: is_unchained_def sample_legacy_def)
  show "MigrateLedger sample_digest id (\<lambda>a b. False) ([sample_legacy], None) =
    Inr ([sample_migrated], Some (1, sample_legacy_hash))"
    by (simp add: MigrateLedger_def backfillLegacyRows_def stable_sort_def is_unchained_def sample_legacy_def coalesce_def
        calculateHash_def sample_migrated_def sample_legacy_hash_def unique_indexes_def then_ok_def on_err_def)
qed

end
