(* ===== verification/Documents.thy ===== *)
theory Documents
  imports Json
begin

text \<open>
  JSON columns. A \<^verbatim>\<open>JSONB\<close> column holds the document the database parsed from the text the code
  marshalled: object keys sorted, numbers as literals. Reading it back into a \<^verbatim>\<open>map[string]any\<close>
  turns the numbers into \<^verbatim>\<open>float64\<close>. Documents compare by value, numbers numerically.
\<close>

section \<open>Number literals\<close>

definition split_exp :: "string \<Rightarrow> string \<times> string" where
  "split_exp s =
     (takeWhile (\<lambda>c. c \<noteq> CHR ''e'' \<and> c \<noteq> CHR ''E'') s, drop 1 (dropWhile (\<lambda>c. c \<noteq> CHR ''e'' \<and> c \<noteq> CHR ''E'') s))"

definition signed_val :: "string \<Rightarrow> int" where
  "signed_val s =
     (case s of [] \<Rightarrow> 0
      | c # r \<Rightarrow> if c = CHR ''-'' then - digits_val r else if c = CHR ''+'' then digits_val r else digits_val s)"

text \<open>The value of a literal of the JSON grammar.\<close>

definition number_rat :: "string \<Rightarrow> rat" where
  "number_rat s =
     (let neg = has_prefix s ''-''; (m, e) = split_exp (trim_prefix s ''-'');
          ip = takeWhile (\<lambda>c. c \<noteq> CHR ''.'') m; fp = drop 1 (dropWhile (\<lambda>c. c \<noteq> CHR ''.'') m);
          q = of_int (digits_val (ip @ fp)) * pow10 (signed_val e - int (length fp))
      in if neg then - q else q)"

section \<open>Columns\<close>

text \<open>What a column holds after \<^verbatim>\<open>Marshal\<close>; nothing when the value cannot be marshalled.\<close>

definition to_jsonb :: "gval \<Rightarrow> gval option" where
  "to_jsonb v = Option.bind (json_enc v) json_decode"

fun any_value :: "gval \<Rightarrow> gval" where
  "any_value (VNumber s) = VFloat (Fin (fl (number_rat s)))"
| "any_value (VList vs) = VList (map any_value vs)"
| "any_value (VMap m) = VMap (map (\<lambda>(k, v). (k, any_value v)) m)"
| "any_value v = v"

text \<open>\<^verbatim>\<open>json.Unmarshal\<close> into a \<^verbatim>\<open>map[string]any\<close>, its error ignored: anything but an object leaves \<^verbatim>\<open>nil\<close>.\<close>

definition map_value :: "gval \<Rightarrow> gval gomap option" where
  "map_value doc = (case any_value doc of VMap m \<Rightarrow> Some m | _ \<Rightarrow> None)"

definition read_map :: "gval gomap \<Rightarrow> gval gomap" where
  "read_map doc = (case map_value (VMap doc) of Some m \<Rightarrow> m | None \<Rightarrow> [])"

fun doc_eq :: "gval \<Rightarrow> gval \<Rightarrow> bool" where
  "doc_eq (VNumber s) w = (case w of VNumber t \<Rightarrow> number_rat s = number_rat t | _ \<Rightarrow> False)"
| "doc_eq (VList vs) w =
     (case w of VList ws \<Rightarrow> length vs = length ws \<and> list_all (\<lambda>(f, x). f x) (zip (map doc_eq vs) ws) | _ \<Rightarrow> False)"
| "doc_eq (VMap m) w =
     (case w of
        VMap n \<Rightarrow> map fst m = map fst n \<and> list_all (\<lambda>(f, x). f x) (zip (map (\<lambda>(k, v). doc_eq v) m) (map snd n))
      | _ \<Rightarrow> False)"
| "doc_eq v w = (v = w)"

section \<open>Decoding into structs\<close>

text \<open>\<^verbatim>\<open>json.Unmarshal\<close> wants the whole text to be one value.\<close>

definition json_unmarshal :: "string \<Rightarrow> gval option" where
  "json_unmarshal s =
     (case parse_value VNumber (2 * length s + 2) s of
        Some (v, r) \<Rightarrow> if skip_ws r = [] then Some v else None
      | None \<Rightarrow> None)"

text \<open>
  A member goes to the field whose name it matches, letter case apart; a later member overwrites an
  earlier one. An absent or \<^verbatim>\<open>null\<close> field keeps its zero value, a value of another type is an error.
\<close>

definition member :: "gval gomap \<Rightarrow> string \<Rightarrow> gval" where
  "member m k = (case find (\<lambda>(k', v). equal_fold k' k) (rev m) of None \<Rightarrow> VNil | Some (k', v) \<Rightarrow> v)"

definition string_field :: "gval gomap \<Rightarrow> string \<Rightarrow> string option" where
  "string_field m k = (case member m k of VNil \<Rightarrow> Some [] | VStr s \<Rightarrow> Some s | _ \<Rightarrow> None)"

fun string_members :: "gval gomap \<Rightarrow> (string gomap) option" where
  "string_members [] = Some []"
| "string_members ((k, v) # m) =
     (case (v, string_members m) of
        (VStr s, Some r) \<Rightarrow> Some ((k, s) # r) | (VNil, Some r) \<Rightarrow> Some ((k, []) # r) | _ \<Rightarrow> None)"

definition strings_field :: "gval gomap \<Rightarrow> string \<Rightarrow> (string gomap) option option" where
  "strings_field m k =
     (case member m k of VNil \<Rightarrow> Some None | VMap n \<Rightarrow> map_option Some (string_members n) | _ \<Rightarrow> None)"

definition map_field :: "gval gomap \<Rightarrow> string \<Rightarrow> (gval gomap) option option" where
  "map_field m k = (case member m k of VNil \<Rightarrow> Some None | VMap n \<Rightarrow> Some (map_value (VMap n)) | _ \<Rightarrow> None)"

definition time_field :: "gval gomap \<Rightarrow> string \<Rightarrow> int option" where
  "time_field m k = (case member m k of VNil \<Rightarrow> Some zero_time | VStr s \<Rightarrow> parse_rfc3339 s | _ \<Rightarrow> None)"

lemma number_rat_samples: "number_rat ''-12.50e1'' = -125" "number_rat ''0.25'' = 1 / 4" "number_rat ''7'' = 7"
  by code_simp+

end
