(* ===== verification/Incident_States.thy ===== *)
theory Incident_States
  imports Lifecycle
begin

text \<open>
  The incident life cycle of \<^verbatim>\<open>src/internal/incidents/types.go\<close> (the statuses) and
  \<^verbatim>\<open>src/internal/incidents/service.go\<close> (\<^verbatim>\<open>transitions\<close>, \<^verbatim>\<open>CanTransition\<close>, \<^verbatim>\<open>IsClosed\<close>, \<^verbatim>\<open>AllowedFrom\<close>).
\<close>

section \<open>Statuses\<close>

definition IncDetected :: string where "IncDetected = ''detected''"
definition IncTriaged :: string where "IncTriaged = ''triaged''"
definition IncInvestigating :: string where "IncInvestigating = ''investigating''"
definition IncRCAGenerated :: string where "IncRCAGenerated = ''rca_generated''"
definition IncRemediationProposed :: string where "IncRemediationProposed = ''remediation_proposed''"
definition IncAwaitingApproval :: string where "IncAwaitingApproval = ''awaiting_approval''"
definition IncRemediating :: string where "IncRemediating = ''remediating''"
definition IncMitigated :: string where "IncMitigated = ''mitigated''"
definition IncResolved :: string where "IncResolved = ''resolved''"
definition IncFailed :: string where "IncFailed = ''failed''"
definition IncCancelled :: string where "IncCancelled = ''cancelled''"

definition incident_transitions :: "(string \<times> string list) list" where
  "incident_transitions =
     [(IncDetected, [IncTriaged, IncInvestigating, IncRCAGenerated, IncResolved, IncCancelled]),
      (IncTriaged, [IncInvestigating, IncRCAGenerated, IncResolved, IncCancelled]),
      (IncInvestigating, [IncRCAGenerated, IncResolved, IncFailed]),
      (IncRCAGenerated, [IncRemediationProposed, IncAwaitingApproval, IncResolved]),
      (IncRemediationProposed, [IncAwaitingApproval, IncRemediating, IncResolved]),
      (IncAwaitingApproval, [IncRemediating, IncResolved, IncCancelled]),
      (IncRemediating, [IncMitigated, IncResolved, IncFailed]),
      (IncMitigated, [IncResolved]),
      (IncFailed, [IncInvestigating, IncResolved])]"

definition CanTransitionIncident :: "string \<Rightarrow> string \<Rightarrow> bool" where
  "CanTransitionIncident from to =
     (case map_of incident_transitions from of None \<Rightarrow> False | Some targets \<Rightarrow> to \<in> set targets)"

definition IsClosed :: "string \<Rightarrow> bool" where
  "IsClosed status \<longleftrightarrow> status = IncResolved \<or> status = IncCancelled"

text \<open>The iteration order of the map does not matter: the result is sorted.\<close>

definition AllowedFrom :: "string \<Rightarrow> string list" where
  "AllowedFrom to = sort (map fst (filter (\<lambda>(state, targets). to \<in> set targets) incident_transitions))"

section \<open>The life cycle\<close>

lemmas incident_status_defs =
  IncDetected_def IncTriaged_def IncInvestigating_def IncRCAGenerated_def IncRemediationProposed_def
  IncAwaitingApproval_def IncRemediating_def IncMitigated_def IncResolved_def IncFailed_def IncCancelled_def

lemma incident_states_distinct: "distinct (map fst incident_transitions)"
  by code_simp

lemma set_AllowedFrom: "s \<in> set (AllowedFrom t) \<longleftrightarrow> CanTransitionIncident s t"
proof -
  have "s \<in> set (AllowedFrom t) \<longleftrightarrow> (\<exists>ts. (s, ts) \<in> set incident_transitions \<and> t \<in> set ts)"
    unfolding AllowedFrom_def by force
  also have "\<dots> \<longleftrightarrow> (\<exists>ts. map_of incident_transitions s = Some ts \<and> t \<in> set ts)"
    by (simp add: map_of_eq_Some_iff [OF incident_states_distinct])
  finally show ?thesis by (auto simp: CanTransitionIncident_def split: option.splits)
qed

lemma closed_no_exit: "IsClosed s \<Longrightarrow> \<not> CanTransitionIncident s t"
proof -
  have "map_of incident_transitions IncResolved = None" "map_of incident_transitions IncCancelled = None" by code_simp+
  then show "IsClosed s \<Longrightarrow> \<not> CanTransitionIncident s t" by (auto simp: IsClosed_def CanTransitionIncident_def)
qed

interpretation incident: lifecycle CanTransitionIncident IsClosed
  by unfold_locales (simp add: closed_no_exit)

definition incident_statuses :: "string list" where
  "incident_statuses = map fst incident_transitions @ [IncResolved, IncCancelled]"

text \<open>
  C23: The incident life cycle: an operator can resolve an incident from exactly the statuses that
  are not closed, a closed incident never changes status again whatever transitions are applied,
  and \<^verbatim>\<open>AllowedFrom\<close> lists exactly the statuses the life cycle allows.
\<close>

theorem incident_lifecycle:
  "list_all (\<lambda>s. CanTransitionIncident s IncResolved \<longleftrightarrow> \<not> IsClosed s) incident_statuses \<and>
   (if IsClosed s \<and> CanTransitionIncident\<^sup>*\<^sup>* s t then t = s else True) \<and>
   set (AllowedFrom t) = {s. CanTransitionIncident s t}"
proof -
  have "list_all (\<lambda>s. CanTransitionIncident s IncResolved \<longleftrightarrow> \<not> IsClosed s) incident_statuses" by code_simp
  then show ?thesis using incident.final_forever [of s t] set_AllowedFrom by auto
qed

end
