(* ===== verification/Remediation_Store.thy ===== *)
theory Remediation_Store
  imports Ledger Documents Remediation_States Incident_States
begin

text \<open>
  The part of \<^verbatim>\<open>src/internal/incidents/store.go\<close> that reads and writes remediations and moves
  incidents through their life cycle. Every status change is one guarded \<^verbatim>\<open>UPDATE\<close>; the number of
  rows it affected tells the caller whether the guard held.
\<close>

section \<open>Rows\<close>

text \<open>The document of a map, if it can be marshalled.\<close>

definition stored_map :: "gval gomap \<Rightarrow> gval gomap option" where
  "stored_map m = (case to_jsonb (VMap m) of Some (VMap doc) \<Rightarrow> Some doc | _ \<Rightarrow> None)"

text \<open>A nullable column: a \<^verbatim>\<open>nil\<close> map is the document \<^verbatim>\<open>null\<close>, which reads back as \<^verbatim>\<open>nil\<close>.\<close>

definition stored_result :: "gval gomap option \<Rightarrow> gval gomap option" where
  "stored_result r = Option.bind r stored_map"

definition scanRemediation :: "remediation_action \<Rightarrow> remediation_action" where
  "scanRemediation r =
     r\<lparr>rem_Parameters := read_map (rem_Parameters r), rem_PolicyDecision := read_map (rem_PolicyDecision r),
       rem_Result := map_option read_map (rem_Result r)\<rparr>"

definition risk_values :: "string list" where
  "risk_values = [''low'', ''medium'', ''high'']"

definition insert_remediation :: "remediation_action \<Rightarrow> database \<Rightarrow> goerr + unit \<times> database" where
  "insert_remediation a d =
     (case (stored_map (rem_Parameters a), stored_map (rem_PolicyDecision a)) of
        (None, _) \<Rightarrow> Inl (null_violation ''parameters'')
      | (_, None) \<Rightarrow> Inl (null_violation ''policy_decision'')
      | (Some parameters, Some policy) \<Rightarrow>
          if rem_Risk a \<notin> set risk_values then Inl (check_violation ''remediation_actions_risk_check'')
          else if list_ex (\<lambda>r. rem_ID r = rem_ID a) (remediation_actions d)
          then Inl (unique_violation ''remediation_actions_pkey'')
          else if list_ex (\<lambda>r. rem_IdempotencyKey r = rem_IdempotencyKey a) (remediation_actions d)
          then Inl (unique_violation ''remediation_actions_idempotency_key_key'')
          else if \<not> list_ex (\<lambda>i. inc_ID i = rem_IncidentID a) (incidents d)
          then Inl (foreign_key_violation ''remediation_actions_incident_id_fkey'')
          else Inr ((), d\<lparr>remediation_actions := remediation_actions d @
            [a\<lparr>rem_Parameters := parameters, rem_PolicyDecision := policy, rem_Result := stored_result (rem_Result a),
               rem_QueuedAt := map_option trunc_micro (rem_QueuedAt a),
               rem_StartedAt := map_option trunc_micro (rem_StartedAt a),
               rem_CompletedAt := map_option trunc_micro (rem_CompletedAt a),
               rem_CreatedAt := trunc_micro (rem_CreatedAt a)\<rparr>]\<rparr>))"

definition CreateRemediation :: "remediation_action \<Rightarrow> unit prog" where
  "CreateRemediation action =
     bind (if rem_ID action = [] then NewID ''rem'' else ret (rem_ID action)) (\<lambda>id.
     bind (if rem_CreatedAt action = zero_time then time_now else ret (rem_CreatedAt action)) (\<lambda>created.
     wrap_err ''create remediation''
       (sql (\<lambda>t. insert_remediation (action\<lparr>rem_ID := id, rem_CreatedAt := created\<rparr>)))))"

section \<open>Reading\<close>

definition find_remediation :: "string \<Rightarrow> database \<Rightarrow> goerr + remediation_action" where
  "find_remediation rid d =
     (case find (\<lambda>r. rem_ID r = rid) (remediation_actions d) of
        None \<Rightarrow> Inl sql_no_rows | Some r \<Rightarrow> Inr (scanRemediation r))"

definition GetRemediation :: "string \<Rightarrow> remediation_action prog" where
  "GetRemediation remediationID = wrap_err ''get remediation'' (query (\<lambda>t. find_remediation remediationID))"

definition ListRemediations :: "string \<Rightarrow> (remediation_action list) prog" where
  "ListRemediations incidentID =
     wrap_err ''list remediations'' (query (\<lambda>t d.
       Inr (map scanRemediation (stable_sort (\<lambda>a b. rem_CreatedAt a < rem_CreatedAt b)
              (filter (\<lambda>r. rem_IncidentID r = incidentID) (remediation_actions d))))))"

text \<open>The rows of one action of an incident: same type and target, equal parameters.\<close>

definition same_request :: "string \<Rightarrow> string \<Rightarrow> string \<Rightarrow> gval gomap \<Rightarrow> remediation_action \<Rightarrow> bool" where
  "same_request incidentID actionType target parameters r \<longleftrightarrow>
     rem_IncidentID r = incidentID \<and> rem_ActionType r = actionType \<and> rem_Target r = target \<and>
     (case stored_map parameters of None \<Rightarrow> False | Some doc \<Rightarrow> doc_eq (VMap (rem_Parameters r)) (VMap doc))"

definition CountRecentSimilarRemediations :: "string \<Rightarrow> string \<Rightarrow> string \<Rightarrow> gval gomap \<Rightarrow> int prog" where
  "CountRecentSimilarRemediations incidentID actionType target parameters =
     wrap_err ''count recent remediations'' (query (\<lambda>t d.
       Inr (int (affected (\<lambda>r. same_request incidentID actionType target parameters r \<and>
                   rem_CreatedAt r \<ge> t - 10 * Minute) (remediation_actions d)))))"

definition inactive_states :: "string list" where
  "inactive_states = [StatePolicyBlocked, StateRejected, StateSucceeded, StateFailed, StateTimedOut, StateCancelled]"

definition FindActiveRemediationByAction ::
  "string \<Rightarrow> string \<Rightarrow> string \<Rightarrow> gval gomap \<Rightarrow> (remediation_action option) prog" where
  "FindActiveRemediationByAction incidentID actionType target parameters =
     wrap_err ''find active remediation'' (query (\<lambda>t d.
       (case stable_sort (\<lambda>a b. rem_CreatedAt a > rem_CreatedAt b)
               (filter (\<lambda>r. same_request incidentID actionType target parameters r \<and> rem_Status r \<notin> set inactive_states)
                  (remediation_actions d)) of
          [] \<Rightarrow> Inr None
        | r # _ \<Rightarrow> Inr (Some (scanRemediation r)))))"

definition CountFailedRemediations :: "string \<Rightarrow> string \<Rightarrow> string \<Rightarrow> gval gomap \<Rightarrow> int prog" where
  "CountFailedRemediations incidentID actionType target parameters =
     wrap_err ''count failed remediations'' (query (\<lambda>t d.
       Inr (int (affected (\<lambda>r. same_request incidentID actionType target parameters r \<and>
                   rem_Status r \<in> set [StateFailed, StateTimedOut]) (remediation_actions d)))))"

section \<open>Guarded updates\<close>

definition in_states :: "string \<Rightarrow> string list \<Rightarrow> remediation_action \<Rightarrow> bool" where
  "in_states rid states r \<longleftrightarrow> rem_ID r = rid \<and> rem_Status r \<in> set states"

definition update_remediation ::
  "string \<Rightarrow> string list \<Rightarrow> (remediation_action \<Rightarrow> remediation_action) \<Rightarrow> database \<Rightarrow> nat \<times> database" where
  "update_remediation rid states f d =
     (affected (in_states rid states) (remediation_actions d),
      d\<lparr>remediation_actions := update_rows (in_states rid states) f (remediation_actions d)\<rparr>)"

definition affectedOne :: "nat prog \<Rightarrow> bool prog" where
  "affectedOne m = bind m (\<lambda>n. ret (n = 1))"

definition CancelRemediation :: "string \<Rightarrow> string \<Rightarrow> bool prog" where
  "CancelRemediation remediationID expectedStatus =
     affectedOne (wrap_err ''cancel remediation'' (exec (\<lambda>t. update_remediation remediationID [expectedStatus]
       (\<lambda>r. r\<lparr>rem_Status := StateCancelled, rem_CompletedAt := Some t\<rparr>))))"

definition MarkRemediationQueued :: "string \<Rightarrow> bool \<Rightarrow> int prog" where
  "MarkRemediationQueued remediationID dryRun =
     map_err (\<lambda>err. if err_is err = Some ErrNoRows then errorf ''remediation queue reservation is no longer available''
                    else wrap ''mark remediation queued'' err)
       (sql (\<lambda>t d. case update_remediation remediationID [StateApproved]
                        (\<lambda>r. r\<lparr>rem_Status := StateQueued, rem_QueuedAt := Some t, rem_DryRun := dryRun\<rparr>) d of
                     (n, d') \<Rightarrow> if n = 0 then Inl sql_no_rows else Inr (t, d')))"

definition ReleaseRemediationQueueReservation :: "string \<Rightarrow> unit prog" where
  "ReleaseRemediationQueueReservation remediationID =
     bind (wrap_err ''release remediation queue reservation'' (exec (\<lambda>t. update_remediation remediationID [StateQueued]
       (\<lambda>r. r\<lparr>rem_Status := StateApproved, rem_QueuedAt := None\<rparr>)))) (\<lambda>_. ret ())"

definition started :: "int \<Rightarrow> remediation_action \<Rightarrow> remediation_action" where
  "started t r =
     r\<lparr>rem_Status := StateRunning, rem_StartedAt := (case rem_StartedAt r of None \<Rightarrow> Some t | Some s \<Rightarrow> Some s)\<rparr>"

definition ClaimRemediation :: "string \<Rightarrow> bool prog" where
  "ClaimRemediation remediationID =
     affectedOne (wrap_err ''claim remediation''
       (exec (\<lambda>t. update_remediation remediationID [StateQueued, StateRunning] (started t))))"

definition MarkRemediationRunning :: "string \<Rightarrow> gval gomap option \<Rightarrow> bool prog" where
  "MarkRemediationRunning remediationID result =
     affectedOne (wrap_err ''mark remediation running''
       (exec (\<lambda>t. update_remediation remediationID [StateQueued, StateRunning]
          (\<lambda>r. (started t r)\<lparr>rem_Result := stored_result result\<rparr>))))"

definition CompleteRemediation :: "string \<Rightarrow> string \<Rightarrow> gval gomap option \<Rightarrow> string \<Rightarrow> bool prog" where
  "CompleteRemediation remediationID status result execErr =
     affectedOne (wrap_err ''complete remediation''
       (exec (\<lambda>t. update_remediation remediationID [StateQueued, StateRunning]
          (\<lambda>r. r\<lparr>rem_Status := status, rem_CompletedAt := Some t, rem_Result := stored_result result,
                  rem_Error := execErr\<rparr>))))"

section \<open>Incidents\<close>

text \<open>The shared projection of an incident: its service's name comes from a left join.\<close>

definition incident_row :: "database \<Rightarrow> incident \<Rightarrow> incident" where
  "incident_row d i =
     i\<lparr>inc_Service := (case find (\<lambda>s. svc_ID s = inc_ServiceID i) (services_tbl d) of None \<Rightarrow> [] | Some s \<Rightarrow> svc_Name s)\<rparr>"

definition GetIncident :: "string \<Rightarrow> incident prog" where
  "GetIncident incidentID =
     wrap_err ''get incident'' (query (\<lambda>t d.
       (case find (\<lambda>i. inc_ID i = incidentID) (incidents d) of None \<Rightarrow> Inl sql_no_rows | Some i \<Rightarrow> Inr (incident_row d i))))"

definition incident_not_found :: goerr where
  "incident_not_found = GoErr ''incident not found'' (Some ErrIncidentNotFound)"

definition move_incident :: "string \<Rightarrow> string \<Rightarrow> int \<Rightarrow> database \<Rightarrow> goerr + string \<times> database" where
  "move_incident incidentID status t d =
     (case find (\<lambda>i. inc_ID i = incidentID) (incidents d) of
        None \<Rightarrow> Inl sql_no_rows
      | Some i \<Rightarrow>
          if inc_Status i \<in> set (AllowedFrom status) then
            Inr (inc_Status i, d\<lparr>incidents := update_rows (\<lambda>i. inc_ID i = incidentID)
              (\<lambda>i. i\<lparr>inc_Status := status, inc_UpdatedAt := t,
                     inc_ResolvedAt := (if status = IncResolved then Some t else inc_ResolvedAt i)\<rparr>) (incidents d)\<rparr>)
          else Inl sql_no_rows)"

definition TransitionIncident :: "string \<Rightarrow> string \<Rightarrow> (string \<times> bool) prog" where
  "TransitionIncident incidentID status =
     bind (attempt (sql (move_incident incidentID status))) (\<lambda>r.
     case r of
       Inr previous \<Rightarrow> ret (previous, True)
     | Inl err \<Rightarrow>
         if err_is err \<noteq> Some ErrNoRows then fail (wrap ''transition incident'' err)
         else bind (map_err (\<lambda>err. if err_is err = Some ErrNoRows then incident_not_found
                                   else wrap ''read incident status'' err)
                (query (\<lambda>t d. case find (\<lambda>i. inc_ID i = incidentID) (incidents d) of
                                 None \<Rightarrow> Inl sql_no_rows | Some i \<Rightarrow> Inr (inc_Status i)))) (\<lambda>previous.
              ret (previous, False)))"

section \<open>Workers\<close>

definition UpsertWorkerHeartbeat :: "string \<Rightarrow> string \<Rightarrow> int \<Rightarrow> string list \<Rightarrow> unit prog" where
  "UpsertWorkerHeartbeat workerID hostname seenAt supportedActions =
     wrap_err ''upsert worker heartbeat'' (exec (\<lambda>t d.
       ((), d\<lparr>heartbeats := filter (\<lambda>b. hb_WorkerID b \<noteq> workerID) (heartbeats d) @
         [\<lparr>hb_WorkerID = workerID, hb_Hostname = hostname, hb_SupportedActions = supportedActions,
           hb_LastHeartbeatAt = trunc_micro seenAt\<rparr>]\<rparr>)))"

end
