(* ===== verification/Notifier.thy ===== *)
theory Notifier
  imports Evolution Documents
begin

text \<open>
  Notifications of approvers, \<^verbatim>\<open>src/internal/approvals/notifier.go\<close>: a webhook gets a description of the
  request, as plain JSON or as a Slack message, signed with a shared secret. HMAC is built over the
  SHA-256 function of the environment, which yields the digest in hexadecimal.
\<close>

section \<open>Signatures\<close>

definition unhex :: "string \<Rightarrow> string" where
  "unhex s = map (\<lambda>i. char_of (16 * the (hex_val (s ! (2 * i))) + the (hex_val (s ! (2 * i + 1))))) [0 ..< length s div 2]"

definition xor_char :: "int \<Rightarrow> char \<Rightarrow> char" where
  "xor_char n c = char_of (Bit_Operations.xor (of_char c) n :: int)"

text \<open>\<^verbatim>\<open>crypto/hmac\<close> over SHA-256, whose blocks have 64 bytes, as hexadecimal text.\<close>

definition hmac_sha256 :: "(string \<Rightarrow> string) \<Rightarrow> string \<Rightarrow> string \<Rightarrow> string" where
  "hmac_sha256 h key msg =
     (let k = (if length key > 64 then unhex (h key) else key);
          block = k @ replicate (64 - length k) (CHR 0x00)
      in h (map (xor_char 0x5C) block @ unhex (h (map (xor_char 0x36) block @ msg))))"

section \<open>Messages\<close>

definition DecisionApprove :: string where "DecisionApprove = ''approve''"
definition DecisionDeny :: string where "DecisionDeny = ''deny''"

record slack_action_value =
  sv_ApprovalID :: string
  sv_Decision :: string

definition action_value_json :: "slack_action_value \<Rightarrow> string" where
  "action_value_json v = json_object [(''approval_id'', json_string (sv_ApprovalID v)), (''decision'', json_string (sv_Decision v))]"

record notifier =
  nt_webhookURL :: string
  nt_secret :: string
  nt_baseURL :: string
  nt_mode :: string

definition NotifierName :: "notifier \<Rightarrow> string" where
  "NotifierName n = (if nt_webhookURL n = [] then ''disabled'' else nt_mode n)"

text \<open>The construction after the checks on the URLs: trimming and defaults.\<close>

definition NewWebhookNotifier :: "string \<Rightarrow> string \<Rightarrow> string \<Rightarrow> string \<Rightarrow> string + notifier" where
  "NewWebhookNotifier webhookURL secret baseURL mode =
     (let webhookURL = trim_space webhookURL; mode = to_lower (trim_space mode); mode = (if mode = [] then ''generic'' else mode) in
      if mode \<noteq> ''generic'' \<and> mode \<noteq> ''slack'' then Inl ''approval webhook mode must be generic or slack''
      else if webhookURL \<noteq> [] \<and> mode = ''generic'' \<and> trim_space secret = []
      then Inl ''generic approval webhook requires ARGUS_APPROVAL_WEBHOOK_SECRET''
      else Inr \<lparr>nt_webhookURL = webhookURL, nt_secret = secret, nt_baseURL = trim_right_char (CHR ''/'') (trim_space baseURL),
                nt_mode = mode\<rparr>)"

definition omit_empty :: "string \<Rightarrow> string \<Rightarrow> (string \<times> string) list" where
  "omit_empty k s = (if s = [] then [] else [(k, json_string s)])"

definition json_time :: "int \<Rightarrow> string" where
  "json_time t = json_string (rfc3339nano t)"

text \<open>The request as JSON, \<open>None\<close> when its parameters cannot be encoded.\<close>

definition request_json :: "request \<Rightarrow> string option" where
  "request_json r =
     map_option (\<lambda>parameters. json_object
       ([(''id'', json_string (req_ID r)), (''remediation_id'', json_string (req_RemediationID r)),
         (''incident_id'', json_string (req_IncidentID r)), (''action_type'', json_string (req_ActionType r)),
         (''target'', json_string (req_Target r)), (''parameters'', parameters), (''risk'', json_string (req_Risk r)),
         (''status'', json_string (req_Status r)), (''requested_by'', json_string (req_RequestedBy r)),
         (''requested_at'', json_time (req_RequestedAt r)), (''escalates_at'', json_time (req_EscalatesAt r)),
         (''expires_at'', json_time (req_ExpiresAt r))] @
        (case req_EscalatedAt r of None \<Rightarrow> [] | Some t \<Rightarrow> [(''escalated_at'', json_time t)]) @
        (case req_DecidedAt r of None \<Rightarrow> [] | Some t \<Rightarrow> [(''decided_at'', json_time t)]) @
        omit_empty ''decided_by'' (req_DecidedBy r) @ omit_empty ''decision_reason'' (req_DecisionReason r) @
        omit_empty ''decision_source'' (req_DecisionSource r) @
        [(''notification_status'', json_string (req_NotificationStatus r)),
         (''notification_attempts'', show_int (req_NotificationAttempts r))] @
        omit_empty ''last_notification_error'' (req_LastNotificationError r) @
        [(''created_at'', json_time (req_CreatedAt r)), (''updated_at'', json_time (req_UpdatedAt r))]))
       (json_enc (VMap (req_Parameters r)))"

definition decision_url :: "notifier \<Rightarrow> request \<Rightarrow> string" where
  "decision_url n r = nt_baseURL n @ ''/v1/approval-requests/'' @ req_ID r @ ''/decision''"

definition genericPayload :: "notifier \<Rightarrow> request \<Rightarrow> bool \<Rightarrow> string option" where
  "genericPayload n r escalation =
     map_option (\<lambda>body. json_object
       [(''approval_request'', body),
        (''decision_contract'', json_object
          [(''auth'', json_string ''Argus operator/admin bearer token''),
           (''body'', json_string (''{'' @ quote ''decision'' @ '':'' @ quote ''approve|deny'' @ '','' @ quote ''reason'' @ '':'' @ quote ''required'' @ ''}'')),
           (''method'', json_string ''POST'')]),
        (''decision_url'', json_string (decision_url n r)),
        (''event'', json_string (if escalation then ''approval.escalated'' else ''approval.requested''))]) (request_json r)"

definition slackEscape :: "string \<Rightarrow> string" where
  "slackEscape value =
     concat (map (\<lambda>c. if c = CHR ''&'' then ''&amp;'' else if c = CHR ''<'' then ''&lt;'' else if c = CHR ''>'' then ''&gt;'' else [c])
       (filter (\<lambda>c. \<not> ((of_char c :: int) < 32 \<or> c = CHR 0x60)) value))"

definition code_span :: "string \<Rightarrow> string" where
  "code_span s = CHR 0x60 # s @ [CHR 0x60]"

definition newline :: string where "newline = [CHR 0x0A]"

definition slack_text :: "notifier \<Rightarrow> request \<Rightarrow> string \<Rightarrow> string" where
  "slack_text n r title =
     ''*'' @ slackEscape title @ ''*: '' @ code_span (slackEscape (req_ActionType r)) @ '' on '' @ code_span (slackEscape (req_Target r)) @ newline @
     ''Parameters: '' @ code_span (slackEscape (case json_enc (VMap (req_Parameters r)) of None \<Rightarrow> [] | Some s \<Rightarrow> s)) @ newline @
     ''Risk: *'' @ slackEscape (req_Risk r) @ ''* | Incident: '' @ code_span (slackEscape (req_IncidentID r)) @ newline @
     ''Deadline: '' @ rfc3339nano (req_ExpiresAt r - req_ExpiresAt r mod Second) @ newline @
     ''Request: '' @ code_span (slackEscape (req_ID r)) @ newline @
     ''Decision endpoint: '' @ code_span (slackEscape (decision_url n r)) @ newline @
     ''A reason and an authenticated operator/admin identity are required.''"

definition slack_button :: "string \<Rightarrow> string \<Rightarrow> string \<Rightarrow> string \<Rightarrow> gval" where
  "slack_button action label style value =
     VMap [(''type'', VStr ''button''), (''action_id'', VStr action),
       (''text'', VStrMap [(''type'', ''plain_text''), (''text'', label)]), (''style'', VStr style), (''value'', VStr value)]"

definition slackPayload :: "notifier \<Rightarrow> request \<Rightarrow> bool \<Rightarrow> gval" where
  "slackPayload n r escalation =
     (let title = (if escalation then ''Approval escalation'' else ''Approval required'') in
      VMap
        [(''text'', VStr (title @ '' for '' @ req_ActionType r @ '' on '' @ req_Target r)),
         (''blocks'', VList
           [VMap [(''type'', VStr ''section''), (''text'', VStrMap [(''type'', ''mrkdwn''), (''text'', slack_text n r title)])],
            VMap [(''type'', VStr ''actions''), (''elements'', VList
              [slack_button ''argus_approval_approve'' ''Approve'' ''primary''
                 (action_value_json \<lparr>sv_ApprovalID = req_ID r, sv_Decision = DecisionApprove\<rparr>),
               slack_button ''argus_approval_deny'' ''Deny'' ''danger''
                 (action_value_json \<lparr>sv_ApprovalID = req_ID r, sv_Decision = DecisionDeny\<rparr>)])]])])"

section \<open>Delivery\<close>

definition Notify :: "notifier \<Rightarrow> request \<Rightarrow> bool \<Rightarrow> unit prog" where
  "Notify n r escalation =
     (if nt_webhookURL n = [] then ret ()
      else case (if nt_mode n = ''slack'' then json_enc (slackPayload n r escalation) else genericPayload n r escalation) of
        None \<Rightarrow> fail (wrap ''encode approval notification'' (errorf ''json: unsupported value''))
      | Some body \<Rightarrow>
          bind (asks (\<lambda>e. Inr (hmac_sha256 (sha256 e) (nt_secret n) body))) (\<lambda>mac.
          bind (wrap_err ''deliver approval notification'' (http_do
            \<lparr>hr_Method = ''POST'', hr_URL = nt_webhookURL n,
             hr_Headers = [(''Content-Type'', ''application/json''), (''X-Argus-Approval-ID'', req_ID r)] @
               (if nt_secret n \<noteq> [] then [(''X-Argus-Signature-256'', ''sha256='' @ mac)] else []),
             hr_Body = body\<rparr>)) (\<lambda>response.
          if hs_StatusCode response < 200 \<or> hs_StatusCode response \<ge> 300
          then fail (errorf (''approval webhook returned '' @ hs_Status response @ '': '' @ trim_space (take 512 (hs_Body response))))
          else ret ())))"

lemma keeps_Notify [keep]: "keeps (Notify n r escalation)"
  unfolding Notify_def by (auto intro!: keep split: option.splits)

end
