(* ===== verification/Approvals.thy ===== *)
theory Approvals
  imports Remediation_Store Notifier
begin

text \<open>
  The approval workflow: \<^verbatim>\<open>src/internal/approvals/types.go\<close> (statuses), \<^verbatim>\<open>store.go\<close> (the table and
  the transactions that decide, cancel, escalate and expire a request together with its
  remediation and the audit entries) and \<^verbatim>\<open>service.go\<close> (validation, separation of duties,
  notification and the periodic sweep).
\<close>

section \<open>Statuses and errors\<close>

definition StatusPending :: string where "StatusPending = ''pending''"
definition StatusApproved :: string where "StatusApproved = ''approved''"
definition StatusDenied :: string where "StatusDenied = ''denied''"
definition StatusExpired :: string where "StatusExpired = ''expired''"
definition StatusCancelled :: string where "StatusCancelled = ''cancelled''"

definition approval_statuses :: "string list" where
  "approval_statuses = [StatusPending, StatusApproved, StatusDenied, StatusExpired, StatusCancelled]"

definition approval_not_found :: goerr where
  "approval_not_found = GoErr ''approval request not found'' (Some ErrNotFound)"

definition already_decided :: goerr where
  "already_decided = GoErr ''approval request is no longer pending'' (Some ErrAlreadyDecided)"

definition approval_expired :: goerr where
  "approval_expired = GoErr ''approval request has expired'' (Some ErrExpired)"

section \<open>Rows\<close>

definition scan_row :: "request \<Rightarrow> request" where
  "scan_row q = q\<lparr>req_Parameters := read_map (req_Parameters q)\<rparr>"

definition scanRequest :: "(request \<Rightarrow> bool) \<Rightarrow> request prog" where
  "scanRequest P =
     map_err (\<lambda>err. if err_is err = Some ErrNoRows then approval_not_found else wrap ''scan approval request'' err)
       (query (\<lambda>t d. case find P (approval_requests d) of None \<Rightarrow> Inl sql_no_rows | Some q \<Rightarrow> Inr (scan_row q)))"

definition getByRemediation :: "string \<Rightarrow> request prog" where
  "getByRemediation remediationID = scanRequest (\<lambda>q. req_RemediationID q = remediationID)"

definition StoreGet :: "string \<Rightarrow> request prog" where
  "StoreGet rid = scanRequest (\<lambda>q. req_ID q = rid)"

definition StoreList :: "string \<Rightarrow> int \<Rightarrow> (request list) prog" where
  "StoreList status limit =
     (let limit = (if limit \<le> 0 \<or> 500 < limit then 100 else limit) in
      wrap_err ''list approval requests'' (query (\<lambda>t d.
        Inr (map scan_row (take (nat limit) (stable_sort (\<lambda>a b. req_CreatedAt a > req_CreatedAt b)
          (filter (\<lambda>q. trim_space status = [] \<or> req_Status q = status) (approval_requests d))))))))"

definition insert_request :: "request \<Rightarrow> database \<Rightarrow> goerr + unit \<times> database" where
  "insert_request q d =
     (case stored_map (req_Parameters q) of
        None \<Rightarrow> Inl (null_violation ''parameters'')
      | Some parameters \<Rightarrow>
          if req_Risk q \<notin> set risk_values then Inl (check_violation ''approval_requests_risk_check'')
          else if req_Status q \<notin> set approval_statuses then Inl (check_violation ''approval_requests_status_check'')
          else if list_ex (\<lambda>r. req_ID r = req_ID q) (approval_requests d)
          then Inl (unique_violation ''approval_requests_pkey'')
          else if list_ex (\<lambda>r. req_RemediationID r = req_RemediationID q) (approval_requests d)
          then Inl (unique_violation ''idx_approval_request_remediation'')
          else if \<not> list_ex (\<lambda>r. rem_ID r = req_RemediationID q) (remediation_actions d)
          then Inl (foreign_key_violation ''approval_requests_remediation_id_fkey'')
          else if \<not> list_ex (\<lambda>i. inc_ID i = req_IncidentID q) (incidents d)
          then Inl (foreign_key_violation ''approval_requests_incident_id_fkey'')
          else Inr ((), d\<lparr>approval_requests := approval_requests d @
            [q\<lparr>req_Parameters := parameters, req_RequestedAt := trunc_micro (req_RequestedAt q),
               req_EscalatesAt := trunc_micro (req_EscalatesAt q), req_ExpiresAt := trunc_micro (req_ExpiresAt q),
               req_EscalatedAt := None, req_DecidedAt := None, req_DecidedBy := [], req_DecisionReason := [],
               req_DecisionSource := [], req_NotificationAttempts := 0, req_LastNotificationError := [],
               req_CreatedAt := trunc_micro (req_CreatedAt q), req_UpdatedAt := trunc_micro (req_UpdatedAt q)\<rparr>]\<rparr>))"

definition update_request :: "(request \<Rightarrow> bool) \<Rightarrow> (request \<Rightarrow> request) \<Rightarrow> database \<Rightarrow> nat \<times> database" where
  "update_request P f d =
     (affected P (approval_requests d), d\<lparr>approval_requests := update_rows P f (approval_requests d)\<rparr>)"

definition writeAuditTx :: "entry \<Rightarrow> unit prog" where
  "writeAuditTx ent = wrap_err ''write approval audit log'' (WriteTx ent)"

section \<open>Creating a request\<close>

definition requested_entry :: "request \<Rightarrow> entry" where
  "requested_entry request =
     entry0\<lparr>ent_ActorID := req_RequestedBy request, ent_ActorType := ''user'', ent_Action := ''approval.requested'',
       ent_ResourceType := ''approval_request'', ent_ResourceID := req_ID request,
       ent_AfterState := Some
         [(''status'', VStr (req_Status request)), (''remediation_id'', VStr (req_RemediationID request)),
          (''action_type'', VStr (req_ActionType request)), (''target'', VStr (req_Target request)),
          (''parameters'', VMap (req_Parameters request)), (''risk'', VStr (req_Risk request)),
          (''expires_at'', VTime (req_ExpiresAt request))]\<rparr>"

text \<open>\<open>Inl\<close>: the insert failed and the transaction is rolled back; \<open>Inr\<close>: the request to return.\<close>

definition create_body :: "request \<Rightarrow> (goerr + bool \<times> request) prog" where
  "create_body request =
     bind (attempt (getByRemediation (req_RemediationID request))) (\<lambda>found.
     case found of
       Inr existing \<Rightarrow> ret (Inr (True, existing))
     | Inl err \<Rightarrow>
         if err_is err \<noteq> Some ErrNotFound then fail err
         else bind (attempt (sql (\<lambda>t. insert_request request))) (\<lambda>inserted.
           case inserted of
             Inl err \<Rightarrow> ret (Inl err)
           | Inr _ \<Rightarrow> bind (writeAuditTx (requested_entry request)) (\<lambda>_. ret (Inr (False, request)))))"

definition StoreCreate :: "request \<Rightarrow> request prog" where
  "StoreCreate request =
     bind (transaction_if (\<lambda>r. case r of Inl _ \<Rightarrow> False | Inr _ \<Rightarrow> True) (wrap ''begin approval request'')
            (\<lambda>r. case r of Inr (True, _) \<Rightarrow> (\<lambda>err. err) | _ \<Rightarrow> wrap ''commit approval request'') (create_body request)) (\<lambda>r.
     case r of
       Inr (_, stored) \<Rightarrow> ret stored
     | Inl err \<Rightarrow>
         bind (attempt (getByRemediation (req_RemediationID request))) (\<lambda>found.
         case found of Inr existing \<Rightarrow> ret existing | Inl _ \<Rightarrow> fail (wrap ''insert approval request'' err)))"

section \<open>Expiry\<close>

definition status_map :: "string \<Rightarrow> gval gomap option" where
  "status_map status = Some [(''status'', VStr status)]"

definition expired_entry :: "request \<Rightarrow> int \<Rightarrow> entry" where
  "expired_entry request now =
     entry0\<lparr>ent_ActorID := ''approval-controller'', ent_ActorType := ''system'', ent_Action := ''approval.expired'',
       ent_ResourceType := ''approval_request'', ent_ResourceID := req_ID request,
       ent_BeforeState := status_map StatusPending,
       ent_AfterState := Some [(''status'', VStr StatusExpired), (''expired_at'', VTime now)],
       ent_Metadata := Some [(''remediation_id'', VStr (req_RemediationID request))]\<rparr>"

definition timed_out_entry :: "request \<Rightarrow> entry" where
  "timed_out_entry request =
     entry0\<lparr>ent_ActorID := ''approval-controller'', ent_ActorType := ''system'',
       ent_Action := ''remediation.approval_timed_out'', ent_ResourceType := ''remediation'',
       ent_ResourceID := req_RemediationID request, ent_BeforeState := status_map StateAwaitingApproval,
       ent_AfterState := Some [(''status'', VStr StateTimedOut), (''approval_request_id'', VStr (req_ID request))]\<rparr>"

definition expireRemediationAndAudit :: "request \<Rightarrow> int \<Rightarrow> unit prog" where
  "expireRemediationAndAudit request now =
     bind (wrap_err ''time out remediation approval'' (exec (\<lambda>t. update_remediation (req_RemediationID request)
            [StateAwaitingApproval] (\<lambda>r. r\<lparr>rem_Status := StateTimedOut\<rparr>)))) (\<lambda>_.
     bind (writeAuditTx (expired_entry request now)) (\<lambda>_.
     writeAuditTx (timed_out_entry request)))"

definition expire_request :: "request \<Rightarrow> int \<Rightarrow> database \<Rightarrow> nat \<times> database" where
  "expire_request request now =
     update_request (\<lambda>q. req_ID q = req_ID request \<and> req_Status q = StatusPending)
       (\<lambda>q. q\<lparr>req_Status := StatusExpired, req_UpdatedAt := trunc_micro now\<rparr>)"

definition expireTx :: "request \<Rightarrow> int \<Rightarrow> unit prog" where
  "expireTx request now =
     bind (wrap_err ''expire approval request'' (exec (\<lambda>t. expire_request request now))) (\<lambda>_.
     expireRemediationAndAudit request now)"

definition expire :: "request \<Rightarrow> int \<Rightarrow> bool prog" where
  "expire request now =
     transaction_if (\<lambda>ok. ok) (\<lambda>err. err) (\<lambda>_ err. err)
       (bind (wrap_err ''expire approval request'' (exec (\<lambda>t. expire_request request now))) (\<lambda>n.
        if n = 0 then ret False
        else bind (expireRemediationAndAudit request now) (\<lambda>_. ret True)))"

definition due_requests :: "(request \<Rightarrow> bool) \<Rightarrow> (request \<Rightarrow> int) \<Rightarrow> int \<Rightarrow> database \<Rightarrow> request list" where
  "due_requests P key limit d =
     map scan_row (take (nat limit) (stable_sort (\<lambda>a b. key a < key b) (filter P (approval_requests d))))"

definition ExpireDue :: "int \<Rightarrow> int \<Rightarrow> (request list) prog" where
  "ExpireDue now limit =
     bind (wrap_err ''list expired approvals'' (query (\<lambda>t d.
            Inr (due_requests (\<lambda>q. req_Status q = StatusPending \<and> req_ExpiresAt q \<le> trunc_micro now) req_ExpiresAt limit d)))) (\<lambda>due.
     bind (for_each due (\<lambda>request. bind (expire request now) (\<lambda>ok. ret (ok, request)))) (\<lambda>results.
     ret (map (\<lambda>(ok, request). request\<lparr>req_Status := StatusExpired, req_UpdatedAt := now\<rparr>) (filter fst results))))"

section \<open>Deciding\<close>

definition approval_entry :: "string \<Rightarrow> string \<Rightarrow> string \<Rightarrow> request \<Rightarrow> entry" where
  "approval_entry actor actorType action request =
     entry0\<lparr>ent_ActorID := actor, ent_ActorType := actorType, ent_Action := action,
       ent_ResourceType := ''approval_request'', ent_ResourceID := req_ID request,
       ent_BeforeState := status_map StatusPending\<rparr>"

definition remediation_entry :: "string \<Rightarrow> string \<Rightarrow> string \<Rightarrow> string \<Rightarrow> string \<Rightarrow> entry" where
  "remediation_entry actor actorType action remediationID before =
     entry0\<lparr>ent_ActorID := actor, ent_ActorType := actorType, ent_Action := action,
       ent_ResourceType := ''remediation'', ent_ResourceID := remediationID, ent_BeforeState := status_map before\<rparr>"

definition decided :: "string \<Rightarrow> string \<Rightarrow> string \<Rightarrow> string \<Rightarrow> int \<Rightarrow> request \<Rightarrow> request" where
  "decided status actor reason source now q =
     q\<lparr>req_Status := status, req_DecidedAt := Some now, req_DecidedBy := actor, req_DecisionReason := reason,
       req_DecisionSource := source, req_UpdatedAt := now\<rparr>"

definition record_decision ::
  "request \<Rightarrow> string \<Rightarrow> string \<Rightarrow> string \<Rightarrow> string \<Rightarrow> string \<Rightarrow> int \<Rightarrow> request prog" where
  "record_decision request actor actorType decision reason source now =
     (let approve = (decision = DecisionApprove);
          status = (if approve then StatusApproved else StatusDenied);
          remediationStatus = (if approve then StateApproved else StateRejected);
          auditAction = (if approve then ''approval.approved'' else ''approval.denied'');
          approvedBy = (if approve then actor else []) in
      bind (wrap_err ''record approval decision'' (exec (\<lambda>t. update_request (\<lambda>q. req_ID q = req_ID request)
             (decided status actor reason source (trunc_micro now))))) (\<lambda>_.
      bind (wrap_err ''transition approved remediation'' (exec (\<lambda>t. update_remediation (req_RemediationID request)
             [StateAwaitingApproval] (\<lambda>r. r\<lparr>rem_Status := remediationStatus, rem_ApprovedBy := approvedBy\<rparr>)))) (\<lambda>n.
      if n \<noteq> 1 then fail (errorf ''remediation is no longer awaiting approval'')
      else
        bind (writeAuditTx ((approval_entry actor actorType auditAction request)\<lparr>ent_AfterState := Some
               [(''status'', VStr status), (''remediation_id'', VStr (req_RemediationID request)),
                (''remediation_status'', VStr remediationStatus), (''decided_by'', VStr actor),
                (''reason'', VStr reason), (''source'', VStr source)]\<rparr>)) (\<lambda>_.
        bind (writeAuditTx ((remediation_entry actor actorType (''remediation.'' @ remediationStatus)
               (req_RemediationID request) StateAwaitingApproval)\<lparr>ent_AfterState := Some
               [(''status'', VStr remediationStatus), (''approval_request_id'', VStr (req_ID request)),
                (''decision_reason'', VStr reason), (''decision_source'', VStr source)]\<rparr>)) (\<lambda>_.
        ret (decided status actor reason source now request))))))"

text \<open>\<open>None\<close>: the request had expired, which is recorded and committed before the error is returned.\<close>

definition decide_body ::
  "string \<Rightarrow> string \<Rightarrow> string \<Rightarrow> string \<Rightarrow> string \<Rightarrow> string \<Rightarrow> int \<Rightarrow> (request option) prog" where
  "decide_body rid actor actorType decision reason source now =
     bind (scanRequest (\<lambda>q. req_ID q = rid)) (\<lambda>request.
     if req_Status request \<noteq> StatusPending then fail already_decided
     else if \<not> now < req_ExpiresAt request then bind (expireTx request now) (\<lambda>_. ret None)
     else bind (record_decision request actor actorType decision reason source now) (\<lambda>r. ret (Some r)))"

definition StoreDecide ::
  "string \<Rightarrow> string \<Rightarrow> string \<Rightarrow> string \<Rightarrow> string \<Rightarrow> string \<Rightarrow> int \<Rightarrow> request prog" where
  "StoreDecide rid actor actorType decision reason source now =
     bind (transaction_if (\<lambda>_. True) (wrap ''begin approval decision'')
            (\<lambda>r. case r of None \<Rightarrow> wrap ''commit expired approval'' | Some _ \<Rightarrow> wrap ''commit approval decision'')
            (decide_body rid actor actorType decision reason source now)) (\<lambda>r.
     case r of None \<Rightarrow> fail approval_expired | Some request \<Rightarrow> ret request)"

section \<open>Cancelling\<close>

definition cancel_body :: "string \<Rightarrow> string \<Rightarrow> string \<Rightarrow> int \<Rightarrow> request prog" where
  "cancel_body remediationID actor reason now =
     bind (getByRemediation remediationID) (\<lambda>request.
     if req_Status request \<noteq> StatusPending then fail already_decided
     else
       bind (wrap_err ''cancel approval request'' (exec (\<lambda>t. update_request (\<lambda>q. req_ID q = req_ID request)
              (decided StatusCancelled actor reason ''api'' (trunc_micro now))))) (\<lambda>_.
       bind (wrap_err ''cancel remediation awaiting approval'' (exec (\<lambda>t. update_remediation remediationID
              [StateAwaitingApproval] (\<lambda>r. r\<lparr>rem_Status := StateCancelled\<rparr>)))) (\<lambda>n.
       if n \<noteq> 1 then fail (errorf ''remediation is no longer awaiting approval'')
       else
         bind (writeAuditTx ((approval_entry actor ''user'' ''approval.cancelled'' request)\<lparr>
                ent_AfterState := Some [(''status'', VStr StatusCancelled), (''reason'', VStr reason)],
                ent_Metadata := Some [(''remediation_id'', VStr remediationID)]\<rparr>)) (\<lambda>_.
         bind (writeAuditTx ((remediation_entry actor ''user'' ''remediation.cancelled'' remediationID
                StateAwaitingApproval)\<lparr>ent_AfterState := Some
                [(''status'', VStr StateCancelled), (''approval_request_id'', VStr (req_ID request))]\<rparr>)) (\<lambda>_.
         ret (decided StatusCancelled actor reason ''api'' now request))))))"

definition StoreCancelByRemediation :: "string \<Rightarrow> string \<Rightarrow> string \<Rightarrow> int \<Rightarrow> request prog" where
  "StoreCancelByRemediation remediationID actor reason now =
     transaction (wrap ''begin approval cancellation'') (wrap ''commit approval cancellation'')
       (cancel_body remediationID actor reason now)"

section \<open>Notification and escalation\<close>

definition CountPending :: "int prog" where
  "CountPending = wrap_err ''count pending approvals'' (query (\<lambda>t d.
     Inr (int (affected (\<lambda>q. req_Status q = StatusPending) (approval_requests d)))))"

definition MarkNotification :: "string \<Rightarrow> string \<Rightarrow> string \<Rightarrow> unit prog" where
  "MarkNotification rid status message =
     bind (wrap_err ''update approval notification'' (exec (\<lambda>t. update_request (\<lambda>q. req_ID q = rid)
       (\<lambda>q. q\<lparr>req_NotificationStatus := status, req_NotificationAttempts := req_NotificationAttempts q + 1,
               req_LastNotificationError := message, req_UpdatedAt := t\<rparr>)))) (\<lambda>_. ret ())"

definition DueEscalations :: "int \<Rightarrow> int \<Rightarrow> (request list) prog" where
  "DueEscalations now limit =
     wrap_err ''list due approval escalations'' (query (\<lambda>t d.
       Inr (due_requests (\<lambda>q. req_Status q = StatusPending \<and> req_EscalatedAt q = None \<and>
              req_EscalatesAt q \<le> trunc_micro now) req_EscalatesAt limit d)))"

definition MarkEscalated :: "request \<Rightarrow> int \<Rightarrow> bool prog" where
  "MarkEscalated request now =
     transaction_if (\<lambda>ok. ok) (\<lambda>err. err) (\<lambda>_ err. err)
       (bind (wrap_err ''mark approval escalated'' (exec (\<lambda>t. update_request
               (\<lambda>q. req_ID q = req_ID request \<and> req_Status q = StatusPending \<and> req_EscalatedAt q = None)
               (\<lambda>q. q\<lparr>req_EscalatedAt := Some (trunc_micro now), req_UpdatedAt := trunc_micro now\<rparr>)))) (\<lambda>n.
        if n = 0 then ret False
        else
          bind (writeAuditTx (entry0\<lparr>ent_ActorID := ''approval-controller'', ent_ActorType := ''system'',
                 ent_Action := ''approval.escalated'', ent_ResourceType := ''approval_request'',
                 ent_ResourceID := req_ID request,
                 ent_BeforeState := Some [(''status'', VStr StatusPending), (''escalated_at'', VNil)],
                 ent_AfterState := Some [(''status'', VStr StatusPending), (''escalated_at'', VTime now)],
                 ent_Metadata := Some [(''remediation_id'', VStr (req_RemediationID request))]\<rparr>)) (\<lambda>_.
          ret True)))"

section \<open>The service\<close>

record approval_service =
  apTimeout :: int
  apEscalateAfter :: int
  apSweepInterval :: int
  apAllowSelf :: bool
  apNotifier :: notifier

definition NewApprovalService :: "notifier \<Rightarrow> int \<Rightarrow> int \<Rightarrow> int \<Rightarrow> bool \<Rightarrow> approval_service" where
  "NewApprovalService nt timeout escalateAfter sweepInterval allowSelf =
     (let timeout = (if timeout \<le> 0 then 15 * Minute else timeout);
          escalateAfter = (if escalateAfter \<le> 0 \<or> timeout \<le> escalateAfter then timeout div 2 else escalateAfter);
          sweepInterval = (if sweepInterval \<le> 0 then 15 * Second else sweepInterval)
      in \<lparr>apTimeout = timeout, apEscalateAfter = escalateAfter, apSweepInterval = sweepInterval,
          apAllowSelf = allowSelf, apNotifier = nt\<rparr>)"

definition RequestApproval :: "approval_service \<Rightarrow> incident \<Rightarrow> remediation_action \<Rightarrow> request prog" where
  "RequestApproval svc incident remediation =
     bind time_now (\<lambda>now.
     bind (NewID ''apr'') (\<lambda>rid.
     let request =
       \<lparr>req_ID = rid, req_RemediationID = rem_ID remediation, req_IncidentID = inc_ID incident,
        req_ActionType = rem_ActionType remediation, req_Target = rem_Target remediation,
        req_Parameters = rem_Parameters remediation, req_Risk = rem_Risk remediation, req_Status = StatusPending,
        req_RequestedBy = rem_ProposedBy remediation, req_RequestedAt = now,
        req_EscalatesAt = now + apEscalateAfter svc, req_ExpiresAt = now + apTimeout svc,
        req_EscalatedAt = None, req_DecidedAt = None, req_DecidedBy = [], req_DecisionReason = [],
        req_DecisionSource = [], req_NotificationStatus = ''pending'', req_NotificationAttempts = 0,
        req_LastNotificationError = [], req_CreatedAt = now, req_UpdatedAt = now\<rparr> in
     bind (StoreCreate request) (\<lambda>stored.
     if req_ID stored \<noteq> req_ID request then ret stored
     else
       bind (attempt (Notify (apNotifier svc) stored False)) (\<lambda>notified.
       case notified of
         Inl err \<Rightarrow>
           bind (attempt (MarkNotification (req_ID stored) ''failed'' (err_text err))) (\<lambda>_. ret stored)
       | Inr _ \<Rightarrow>
           let status = (if NotifierName (apNotifier svc) = ''disabled'' then ''disabled'' else ''delivered'') in
           bind (attempt (MarkNotification (req_ID stored) status [])) (\<lambda>_.
           ret (stored\<lparr>req_NotificationStatus := status,
                       req_NotificationAttempts := req_NotificationAttempts stored + 1\<rparr>))))))"

definition validateDecision :: "string \<Rightarrow> string \<Rightarrow> string \<Rightarrow> goerr option" where
  "validateDecision decision reason actor =
     (if decision \<noteq> DecisionApprove \<and> decision \<noteq> DecisionDeny then Some (errorf ''decision must be approve or deny'')
      else if trim_space actor = [] \<or> actor = ''system'' then
        Some (errorf ''authenticated approver identity is required'')
      else if trim_space reason = [] then Some (errorf ''decision reason is required'')
      else None)"

definition validateSeparation :: "string \<Rightarrow> string \<Rightarrow> bool \<Rightarrow> goerr option" where
  "validateSeparation requestedBy actor allowSelf =
     (if \<not> allowSelf \<and> equal_fold (trim_space requestedBy) (trim_space actor) then
        Some (errorf ''proposer cannot approve or deny their own remediation'')
      else None)"

definition require :: "goerr option \<Rightarrow> unit prog" where
  "require e = (case e of None \<Rightarrow> ret () | Some err \<Rightarrow> fail err)"

definition Decide ::
  "approval_service \<Rightarrow> string \<Rightarrow> string \<Rightarrow> string \<Rightarrow> string \<Rightarrow> string \<Rightarrow> string \<Rightarrow> request prog" where
  "Decide svc rid actor actorType decision reason source =
     (let decision = to_lower (trim_space decision); reason = trim_space reason in
      bind (require (validateDecision decision reason actor)) (\<lambda>_.
      bind time_now (\<lambda>started.
      bind (StoreGet rid) (\<lambda>pending.
      bind (require (validateSeparation (req_RequestedBy pending) actor (apAllowSelf svc))) (\<lambda>_.
      StoreDecide rid actor actorType decision reason source started)))))"

definition DecideByRemediation ::
  "approval_service \<Rightarrow> string \<Rightarrow> string \<Rightarrow> string \<Rightarrow> string \<Rightarrow> string \<Rightarrow> request prog" where
  "DecideByRemediation svc remediationID actor actorType decision reason =
     bind (getByRemediation remediationID) (\<lambda>request.
     Decide svc (req_ID request) actor actorType decision reason ''api'')"

definition CancelByRemediation :: "string \<Rightarrow> string \<Rightarrow> string \<Rightarrow> request prog" where
  "CancelByRemediation remediationID actor reason =
     (if trim_space actor = [] then fail (errorf ''authenticated actor identity is required'')
      else bind time_now (\<lambda>now. StoreCancelByRemediation remediationID actor (trim_space reason) now))"

definition processDue :: "approval_service \<Rightarrow> unit prog" where
  "processDue svc =
     bind time_now (\<lambda>now.
     bind (attempt (ExpireDue now 100)) (\<lambda>_.
     bind (attempt (DueEscalations now 100)) (\<lambda>r.
     case r of
       Inl _ \<Rightarrow> ret ()
     | Inr due \<Rightarrow>
         bind (for_each due (\<lambda>request.
           bind (attempt (Notify (apNotifier svc) request True)) (\<lambda>notified.
           case notified of
             Inl err \<Rightarrow>
               bind (attempt (MarkNotification (req_ID request) ''escalation_failed'' (err_text err))) (\<lambda>_. ret ())
           | Inr _ \<Rightarrow> bind (attempt (MarkEscalated request now)) (\<lambda>_. ret ())))) (\<lambda>_. ret ()))))"

end
