(* ===== verification/Dispatch.thy ===== *)
theory Dispatch
  imports Approvals
begin

text \<open>
  The transactional outbox: \<^verbatim>\<open>src/internal/remediation/dispatch.go\<close>, the reservation identifier of
  \<^verbatim>\<open>executor.go\<close> and \<^verbatim>\<open>Publish\<close> of \<^verbatim>\<open>src/internal/queue/nats.go\<close>. A dispatch row is written in the
  transaction that queues a remediation; the dispatcher publishes pending rows until JetStream
  accepts them and re-sends jobs that stay queued or running too long.

  JetStream keeps a message it accepted, and drops one whose identifier it has seen within the
  duplicate window. A published message is not undone when the transaction around it fails.
\<close>

section \<open>Publishing to JetStream\<close>

definition RemediationStream :: string where "RemediationStream = ''ARGUS_REMEDIATION''"
definition RemediationSubject :: string where "RemediationSubject = ''remediation.execute''"
definition DeadLetterStream :: string where "DeadLetterStream = ''ARGUS_DEAD_LETTER''"
definition DeadLetterSubject :: string where "DeadLetterSubject = ''argus.dlq.remediation''"
definition RemediationRetention :: int where "RemediationRetention = 7 * 24 * Hour"
definition DuplicateWindow :: int where "DuplicateWindow = 10 * Minute"
definition DeadLetterRetention :: int where "DeadLetterRetention = 30 * 24 * Hour"

definition is_duplicate :: "int \<Rightarrow> event \<Rightarrow> (int \<times> string \<times> event) list \<Rightarrow> bool" where
  "is_duplicate now event msgs \<longleftrightarrow>
     EventID event \<noteq> [] \<and> list_ex (\<lambda>(at', _, ev). EventID ev = EventID event \<and> now - at' < DuplicateWindow) msgs"

definition store_message :: "string \<Rightarrow> event \<Rightarrow> world \<Rightarrow> bool \<times> world" where
  "store_message subject event w =
     (if is_duplicate (clock w) event (stream w) then (True, w)
      else (False, w\<lparr>stream := stream w @ [(clock w, subject, event)]\<rparr>))"

definition Publish :: "string \<Rightarrow> event \<Rightarrow> bool prog" where
  "Publish subject event = (\<lambda>e w.
     if json_enc (VMap (Payload event)) = None then (Inl (wrap ''encode event'' (errorf ''json: unsupported value'')), w)
     else case tick e w of (s, w1) \<Rightarrow>
       (case ext_fault s of
          Fine \<Rightarrow> (case store_message subject event w1 of (dup, w2) \<Rightarrow> (Inr dup, w2))
        | Broken msg \<Rightarrow> (Inl (wrap ''publish event'' (errorf msg)), w1)
        | Lost msg \<Rightarrow> (Inl (wrap ''publish event'' (errorf msg)), snd (store_message subject event w1))))"

lemma keeps_Publish [keep]: "keeps (Publish subject event)"
  by (simp add: keeps_def Publish_def store_message_def case_prod_beta split: fault.split)

lemmas commits_Publish [tx] = commits_keeps [OF _ keeps_attempt [OF keeps_Publish]]

section \<open>Jobs\<close>

definition DispatchExecute :: string where "DispatchExecute = ''execute''"
definition DispatchRedispatch :: string where "DispatchRedispatch = ''redispatch''"
definition DispatchReplay :: string where "DispatchReplay = ''replay''"

record dispatcher_config =
  PollInterval :: int
  BatchSize :: int
  PublishTimeout :: int
  RedispatchAfter :: int
  MaxRedispatches :: int
  ReconcileInterval :: int
  RunningStaleAfter :: int
  WorkerLiveWindow :: int

definition DefaultDispatcherConfig :: dispatcher_config where
  "DefaultDispatcherConfig =
     \<lparr>PollInterval = Second, BatchSize = 50, PublishTimeout = 5 * Second, RedispatchAfter = 10 * Minute,
      MaxRedispatches = 3, ReconcileInterval = 30 * Second, RunningStaleAfter = 15 * Minute, WorkerLiveWindow = Minute\<rparr>"

definition or_default :: "int \<Rightarrow> int \<Rightarrow> int" where
  "or_default v def = (if v \<le> 0 then def else v)"

definition NewDispatcher :: "dispatcher_config \<Rightarrow> dispatcher_config" where
  "NewDispatcher cfg =
     (let def = DefaultDispatcherConfig in
      \<lparr>PollInterval = or_default (PollInterval cfg) (PollInterval def),
       BatchSize = or_default (BatchSize cfg) (BatchSize def),
       PublishTimeout = or_default (PublishTimeout cfg) (PublishTimeout def),
       RedispatchAfter = or_default (RedispatchAfter cfg) (RedispatchAfter def),
       MaxRedispatches = or_default (MaxRedispatches cfg) (MaxRedispatches def),
       ReconcileInterval = or_default (ReconcileInterval cfg) (ReconcileInterval def),
       RunningStaleAfter = or_default (RunningStaleAfter cfg) (RunningStaleAfter def),
       WorkerLiveWindow = or_default (WorkerLiveWindow cfg) (WorkerLiveWindow def)\<rparr>)"

definition reservationEventID :: "remediation_action \<Rightarrow> string prog" where
  "reservationEventID remediation =
     (case rem_QueuedAt remediation of
        None \<Rightarrow> NewID ''evt''
      | Some queued \<Rightarrow> ret (rem_IdempotencyKey remediation @ ''@'' @ show_int queued))"

definition Job :: "remediation_action \<Rightarrow> string \<Rightarrow> int \<Rightarrow> event" where
  "Job remediation dispatchID now =
     \<lparr>EventID = dispatchID, EventType = RemediationSubject, OccurredAt = now, Producer = ''argus-api'', TraceID = [],
      EvIdempotencyKey = rem_IdempotencyKey remediation,
      Payload = [(''remediation_id'', VStr (rem_ID remediation)), (''incident_id'', VStr (rem_IncidentID remediation)),
                 (''dry_run'', VBool (rem_DryRun remediation)), (''executor'', VStr ''local'')]\<rparr>"

definition dispatch_reasons :: "string list" where
  "dispatch_reasons = [DispatchExecute, DispatchRedispatch, DispatchReplay]"

definition insert_dispatch ::
  "string \<Rightarrow> string \<Rightarrow> string \<Rightarrow> event \<Rightarrow> int \<Rightarrow> database \<Rightarrow> goerr + unit \<times> database" where
  "insert_dispatch dispatchID remediationID reason event t d =
     (if reason \<notin> set dispatch_reasons then Inl (check_violation ''remediation_dispatches_reason_check'')
      else if list_ex (\<lambda>x. dsp_ID x = dispatchID) (remediation_dispatches d)
      then Inl (unique_violation ''remediation_dispatches_pkey'')
      else if \<not> list_ex (\<lambda>r. rem_ID r = remediationID) (remediation_actions d)
      then Inl (foreign_key_violation ''remediation_dispatches_remediation_id_fkey'')
      else Inr ((), d\<lparr>remediation_dispatches := remediation_dispatches d @
        [\<lparr>dsp_ID = dispatchID, dsp_RemediationID = remediationID, dsp_Reason = reason, dsp_Subject = RemediationSubject,
          dsp_Event = event, dsp_State = ''pending'', dsp_Attempts = 0, dsp_LastError = None, dsp_NextAttemptAt = t,
          dsp_PublishedAt = None, dsp_CreatedAt = t\<rparr>]\<rparr>))"

definition Enqueue :: "remediation_action \<Rightarrow> string \<Rightarrow> string \<Rightarrow> unit prog" where
  "Enqueue remediation dispatchID reason =
     bind time_now (\<lambda>now.
     let event = Job remediation dispatchID now in
     case stored_map (Payload event) of
       None \<Rightarrow> fail (wrap ''encode remediation job'' (errorf ''json: unsupported value''))
     | Some doc \<Rightarrow>
         wrap_err ''enqueue remediation dispatch''
           (sql (insert_dispatch dispatchID (rem_ID remediation) reason (event\<lparr>Payload := doc\<rparr>))))"

section \<open>The dispatcher\<close>

text \<open>\<^verbatim>\<open>dispatchBackoff\<close>: 1s, 2s, 4s ... capped at 30s.\<close>

definition dispatchBackoff :: "int \<Rightarrow> int" where
  "dispatchBackoff attempts =
     (let attempts = (if attempts < 1 then 1 else attempts)
      in min (Second * 2 ^ nat (min (attempts - 1) 5)) (30 * Second))"

definition update_dispatch :: "string \<Rightarrow> (dispatch \<Rightarrow> dispatch) \<Rightarrow> database \<Rightarrow> nat \<times> database" where
  "update_dispatch did f d =
     (affected (\<lambda>x. dsp_ID x = did) (remediation_dispatches d),
      d\<lparr>remediation_dispatches := update_rows (\<lambda>x. dsp_ID x = did) f (remediation_dispatches d)\<rparr>)"

definition Dispatchable :: "string \<Rightarrow> bool" where
  "Dispatchable status \<longleftrightarrow> status = StateQueued \<or> status = StateRunning"

text \<open>The pending, due rows with the status of their remediation, oldest first.\<close>

definition pending_batch :: "string \<Rightarrow> int \<Rightarrow> int \<Rightarrow> database \<Rightarrow> (dispatch \<times> string) list" where
  "pending_batch onlyID batch t d =
     take (nat batch) (stable_sort (\<lambda>a b. dsp_CreatedAt (fst a) < dsp_CreatedAt (fst b))
       (concat (map (\<lambda>x.
          if dsp_State x = ''pending'' \<and> dsp_NextAttemptAt x \<le> t \<and> (onlyID = [] \<or> dsp_ID x = onlyID) then
            (case find (\<lambda>r. rem_ID r = dsp_RemediationID x) (remediation_actions d) of
               None \<Rightarrow> [] | Some r \<Rightarrow> [(x, rem_Status r)])
          else []) (remediation_dispatches d))))"

definition read_event :: "event \<Rightarrow> event" where
  "read_event ev = ev\<lparr>Payload := read_map (Payload ev)\<rparr>"

fun publish_batch :: "(dispatch \<times> string) list \<Rightarrow> int \<Rightarrow> int prog" where
  "publish_batch [] published = ret published"
| "publish_batch ((p, status) # batch) published =
     (if \<not> Dispatchable status then
        bind (exec (\<lambda>t. update_dispatch (dsp_ID p)
               (\<lambda>x. x\<lparr>dsp_State := ''skipped'', dsp_LastError := Some (''remediation is '' @ status)\<rparr>))) (\<lambda>_.
        publish_batch batch published)
      else
        bind (attempt (Publish (dsp_Subject p) (read_event (dsp_Event p)))) (\<lambda>r.
        case r of
          Inl pubErr \<Rightarrow>
            let attempts = dsp_Attempts p + 1 in
            bind (exec (\<lambda>t. update_dispatch (dsp_ID p)
                   (\<lambda>x. x\<lparr>dsp_Attempts := attempts, dsp_LastError := Some (err_text pubErr),
                           dsp_NextAttemptAt := t + dispatchBackoff attempts\<rparr>))) (\<lambda>_.
            ret published)
        | Inr _ \<Rightarrow>
            bind (exec (\<lambda>t. update_dispatch (dsp_ID p)
                   (\<lambda>x. x\<lparr>dsp_State := ''published'', dsp_PublishedAt := Some t, dsp_Attempts := dsp_Attempts x + 1,
                           dsp_LastError := None\<rparr>))) (\<lambda>_.
            publish_batch batch (published + 1))))"

definition publish :: "dispatcher_config \<Rightarrow> string \<Rightarrow> int prog" where
  "publish cfg onlyID =
     InTx (bind (wrap_err ''select pending dispatches'' (query (\<lambda>t d. Inr (pending_batch onlyID (BatchSize cfg) t d)))) (\<lambda>batch.
           publish_batch batch 0))"

definition PublishOne :: "dispatcher_config \<Rightarrow> string \<Rightarrow> unit prog" where
  "PublishOne cfg dispatchID = bind (publish cfg dispatchID) (\<lambda>_. ret ())"

definition PublishPending :: "dispatcher_config \<Rightarrow> int prog" where
  "PublishPending cfg = publish cfg []"

section \<open>Re-sending\<close>

definition not_dispatchable :: "string \<Rightarrow> goerr" where
  "not_dispatchable status = GoErr (''remediation is not queued or running: it is '' @ status) (Some ErrNotDispatchable)"

definition dispatches_of :: "string \<Rightarrow> database \<Rightarrow> dispatch list" where
  "dispatches_of remediationID d = filter (\<lambda>x. dsp_RemediationID x = remediationID) (remediation_dispatches d)"

definition redispatchTx ::
  "string \<Rightarrow> string \<Rightarrow> string \<Rightarrow> string \<Rightarrow> gval gomap option \<Rightarrow> string prog" where
  "redispatchTx remediationID reason actorID actorType metadata =
     bind (query (\<lambda>t d. case find (\<lambda>r. rem_ID r = remediationID) (remediation_actions d) of
                          None \<Rightarrow> Inl sql_no_rows
                        | Some r \<Rightarrow> Inr (rem_Status r, int (length (dispatches_of remediationID d))))) (\<lambda>(status, count).
     if \<not> Dispatchable status then fail (not_dispatchable status)
     else
       bind (GetRemediation remediationID) (\<lambda>rem.
       bind (reservationEventID rem) (\<lambda>base.
       let dispatchID = base @ ''#'' @ reason @ ''-'' @ show_int (count + 1) in
       bind (Enqueue rem dispatchID reason) (\<lambda>_.
       let metadata = (case metadata of None \<Rightarrow> [] | Some m \<Rightarrow> m);
           metadata = map_set (map_set metadata ''dispatch_id'' (VStr dispatchID)) ''reason'' (VStr reason) in
       bind (WriteTx ((remediation_entry actorID actorType ''remediation.redispatched'' remediationID status)\<lparr>
              ent_AfterState := status_map status, ent_Metadata := Some metadata\<rparr>)) (\<lambda>_.
       ret dispatchID)))))"

definition Redispatch ::
  "dispatcher_config \<Rightarrow> string \<Rightarrow> string \<Rightarrow> string \<Rightarrow> string \<Rightarrow> gval gomap option \<Rightarrow> string prog" where
  "Redispatch cfg remediationID reason actorID actorType metadata =
     bind (InTx (redispatchTx remediationID reason actorID actorType metadata)) (\<lambda>dispatchID.
     bind (attempt (PublishOne cfg dispatchID)) (\<lambda>_. ret dispatchID))"

section \<open>Reconciling\<close>

record reconcile_result =
  Redispatched :: "string list"
  Exhausted :: "string list"
  WaitingForWorker :: "string list"

record stuck =
  st_id :: string
  st_status :: string
  st_redispatches :: int
  st_hasWorker :: bool

definition requireApplied :: "bool prog \<Rightarrow> unit prog" where
  "requireApplied m = bind m (\<lambda>applied.
     if applied then ret () else fail (GoErr ''remediation state changed'' (Some ErrStateChanged)))"

text \<open>Re-sends since the last execute or replay.\<close>

definition redispatch_count :: "string \<Rightarrow> database \<Rightarrow> int" where
  "redispatch_count remediationID d =
     (let own = dispatches_of remediationID d;
          starts = map dsp_CreatedAt (filter (\<lambda>x. dsp_Reason x \<noteq> DispatchRedispatch) own)
      in int (length (filter (\<lambda>x. dsp_Reason x = DispatchRedispatch \<and> list_all (\<lambda>s. s < dsp_CreatedAt x) starts) own)))"

definition has_live_worker :: "dispatcher_config \<Rightarrow> int \<Rightarrow> string \<Rightarrow> database \<Rightarrow> bool" where
  "has_live_worker cfg t action d =
     list_ex (\<lambda>b. hb_LastHeartbeatAt b > t - WorkerLiveWindow cfg \<and> action \<in> set (hb_SupportedActions b)) (heartbeats d)"

definition before_time :: "int option \<Rightarrow> int \<Rightarrow> bool" where
  "before_time x t = (case x of None \<Rightarrow> False | Some s \<Rightarrow> s < t)"

definition is_stuck :: "dispatcher_config \<Rightarrow> int \<Rightarrow> database \<Rightarrow> remediation_action \<Rightarrow> bool" where
  "is_stuck cfg t d r \<longleftrightarrow>
     (rem_Status r = StateQueued \<and> before_time (rem_QueuedAt r) (t - RedispatchAfter cfg) \<or>
      rem_Status r = StateRunning \<and> before_time (rem_StartedAt r) (t - RunningStaleAfter cfg) \<and>
        dispatches_of (rem_ID r) d \<noteq> []) \<and>
     list_all (\<lambda>x. dsp_State x \<noteq> ''pending'' \<and> dsp_CreatedAt x \<le> t - RedispatchAfter cfg \<and>
                    (case dsp_PublishedAt x of None \<Rightarrow> True | Some p \<Rightarrow> p \<le> t - RedispatchAfter cfg))
       (dispatches_of (rem_ID r) d)"

text \<open>\<^verbatim>\<open>ORDER BY queued_at\<close>: \<^verbatim>\<open>NULL\<close> comes last.\<close>

definition queued_before :: "remediation_action \<Rightarrow> remediation_action \<Rightarrow> bool" where
  "queued_before a b =
     (case (rem_QueuedAt a, rem_QueuedAt b) of
        (Some s, Some t) \<Rightarrow> s < t | (Some _, None) \<Rightarrow> True | (None, _) \<Rightarrow> False)"

definition find_stuck :: "dispatcher_config \<Rightarrow> int \<Rightarrow> database \<Rightarrow> stuck list" where
  "find_stuck cfg t d =
     map (\<lambda>r. \<lparr>st_id = rem_ID r, st_status = rem_Status r, st_redispatches = redispatch_count (rem_ID r) d,
               st_hasWorker = has_live_worker cfg t (rem_ActionType r) d\<rparr>)
       (take 100 (stable_sort queued_before (filter (is_stuck cfg t d) (remediation_actions d))))"

definition exhausted_reason :: "int \<Rightarrow> string" where
  "exhausted_reason n = ''no worker completed the job after '' @ show_int n @ '' redispatches''"

definition reconcile_one :: "dispatcher_config \<Rightarrow> stuck \<Rightarrow> reconcile_result \<Rightarrow> reconcile_result prog" where
  "reconcile_one cfg s result =
     (if \<not> st_hasWorker s then ret (result\<lparr>WaitingForWorker := WaitingForWorker result @ [st_id s]\<rparr>)
      else if st_redispatches s \<ge> MaxRedispatches cfg then
        let reason = exhausted_reason (st_redispatches s) in
        bind (requireApplied (CompleteRemediation (st_id s) StateTimedOut (Some [(''reason'', VStr reason)]) reason)) (\<lambda>_.
        bind (WriteTx ((remediation_entry [] ''system'' ''remediation.dispatch_exhausted'' (st_id s) (st_status s))\<lparr>
               ent_AfterState := Some [(''status'', VStr StateTimedOut), (''error'', VStr reason)]\<rparr>)) (\<lambda>_.
        ret (result\<lparr>Exhausted := Exhausted result @ [st_id s]\<rparr>)))
      else
        bind (redispatchTx (st_id s) DispatchRedispatch [] ''system''
               (Some [(''redispatch'', VInt (st_redispatches s + 1)), (''max_redispatches'', VInt (MaxRedispatches cfg)),
                      (''stuck_in'', VStr (st_status s))])) (\<lambda>_.
        ret (result\<lparr>Redispatched := Redispatched result @ [st_id s]\<rparr>)))"

fun reconcile_all :: "dispatcher_config \<Rightarrow> stuck list \<Rightarrow> reconcile_result \<Rightarrow> reconcile_result prog" where
  "reconcile_all cfg [] result = ret result"
| "reconcile_all cfg (s # found) result = bind (reconcile_one cfg s result) (reconcile_all cfg found)"

definition no_reconcile :: reconcile_result where
  "no_reconcile = \<lparr>Redispatched = [], Exhausted = [], WaitingForWorker = []\<rparr>"

text \<open>\<open>locked\<close> is the answer of \<^verbatim>\<open>pg_try_advisory_xact_lock\<close>: whether no other replica reconciles.\<close>

definition Reconcile :: "dispatcher_config \<Rightarrow> bool \<Rightarrow> reconcile_result prog" where
  "Reconcile cfg locked =
     bind (InTx (bind (query (\<lambda>t d. Inr locked)) (\<lambda>locked.
       if \<not> locked then ret no_reconcile
       else
         bind (query (\<lambda>t d. Inr ())) (\<lambda>_.
         bind (wrap_err ''find stuck remediations'' (query (\<lambda>t d. Inr (find_stuck cfg t d)))) (\<lambda>found.
         reconcile_all cfg found no_reconcile))))) (\<lambda>result.
     if Redispatched result \<noteq> [] then bind (attempt (PublishPending cfg)) (\<lambda>_. ret result) else ret result)"

end
