(* ===== verification/Executor.thy ===== *)
theory Executor
  imports Dispatch
begin

text \<open>
  The executors of \<^verbatim>\<open>src/internal/remediation/executor.go\<close>: the local one, whose work goes through
  the outbox, and the bridge to the Helios workflow service, which is reached over HTTP.
\<close>

record execution_outcome =
  out_Status :: string
  out_Result :: "gval gomap option"

record helios_executor =
  he_baseURL :: string
  he_adminToken :: string
  he_pollTimeout :: int

datatype executor = LocalExecutor | HeliosExecutor helios_executor

definition executor_name :: "executor \<Rightarrow> string" where
  "executor_name x = (case x of LocalExecutor \<Rightarrow> ''local'' | HeliosExecutor _ \<Rightarrow> ''helios'')"

definition isQueued :: "executor \<Rightarrow> bool" where
  "isQueued x = (case x of LocalExecutor \<Rightarrow> True | HeliosExecutor _ \<Rightarrow> False)"

definition NewHeliosExecutor :: "string \<Rightarrow> string \<Rightarrow> int \<Rightarrow> helios_executor" where
  "NewHeliosExecutor baseURL adminToken pollTimeout =
     \<lparr>he_baseURL = trim_right_char (CHR ''/'') baseURL, he_adminToken = adminToken, he_pollTimeout = pollTimeout\<rparr>"

section \<open>Requests and responses\<close>

definition heliosTaskType :: string where "heliosTaskType = ''write_artifact''"

record helios_summary =
  hw_WorkflowID :: string
  hw_Name :: string
  hw_State :: string
  hw_Metadata :: "(string gomap) option"

definition decode_summary :: "gval \<Rightarrow> helios_summary option" where
  "decode_summary v =
     (case v of
        VMap m \<Rightarrow>
          (case (string_field m ''workflow_id'', string_field m ''name'', string_field m ''state'', strings_field m ''metadata'') of
             (Some i, Some n, Some s, Some md) \<Rightarrow>
               Some \<lparr>hw_WorkflowID = i, hw_Name = n, hw_State = s, hw_Metadata = md\<rparr>
           | _ \<Rightarrow> None)
      | VNil \<Rightarrow> Some \<lparr>hw_WorkflowID = [], hw_Name = [], hw_State = [], hw_Metadata = None\<rparr>
      | _ \<Rightarrow> None)"

definition helios_request :: "helios_executor \<Rightarrow> string \<Rightarrow> string \<Rightarrow> (string \<times> string) list \<Rightarrow> string \<Rightarrow> http_request" where
  "helios_request x mtd path headers body =
     \<lparr>hr_Method = mtd, hr_URL = he_baseURL x @ path,
      hr_Headers = headers @ [(''Authorization'', ''Bearer '' @ he_adminToken x)], hr_Body = body\<rparr>"

text \<open>Send, check the status code and decode the body.\<close>

definition helios_call :: "string \<Rightarrow> string \<Rightarrow> http_request \<Rightarrow> (gval \<Rightarrow> 'a option) \<Rightarrow> 'a prog" where
  "helios_call what decode req f =
     bind (wrap_err what (http_do req)) (\<lambda>resp.
     if hs_StatusCode resp \<ge> 400 then fail (errorf (what @ '' returned status '' @ hs_Status resp))
     else case Option.bind (json_decode (hs_Body resp)) f of
       None \<Rightarrow> fail (wrap decode (errorf ''invalid JSON''))
     | Some x \<Rightarrow> ret x)"

definition getWorkflow :: "helios_executor \<Rightarrow> string \<Rightarrow> helios_summary prog" where
  "getWorkflow x workflowID =
     helios_call ''get helios workflow'' ''decode helios workflow summary''
       (helios_request x ''GET'' (''/api/v1/workflows/'' @ workflowID) [] []) decode_summary"

section \<open>Polling\<close>

lemma tick_clock: "clock w \<le> clock (snd (tick e w))"
  by (simp add: tick_def Let_def)

lemma getWorkflow_clock: "clock w \<le> clock (snd (getWorkflow x i e w))"
  using tick_clock [of w e]
  by (auto simp: getWorkflow_def helios_call_def bind_def wrap_err_def http_do_def fail_def ret_def
      split: prod.splits sum.splits fault.splits option.splits)

lemma getWorkflow_later: "(r, w1) = getWorkflow x i e w \<Longrightarrow> clock w \<le> clock w1"
  using getWorkflow_clock [of w x i e] by (metis snd_conv)

definition finished_state :: "string \<Rightarrow> bool" where
  "finished_state s \<longleftrightarrow> s \<in> set [''succeeded'', ''failed'', ''cancelled'']"

definition sleep :: "int \<Rightarrow> world \<Rightarrow> world" where
  "sleep dur w = w\<lparr>clock := clock w + dur\<rparr>"

text \<open>The loop ends because every round waits 750ms and the deadline is fixed.\<close>

function poll_until :: "helios_executor \<Rightarrow> string \<Rightarrow> int \<Rightarrow> env \<Rightarrow> world \<Rightarrow> (goerr + helios_summary) \<times> world" where
  "poll_until x workflowID deadline e w =
     (case getWorkflow x workflowID e w of
        (Inl err, w1) \<Rightarrow> (Inl err, w1)
      | (Inr summary, w1) \<Rightarrow>
          if finished_state (hw_State summary) then (Inr summary, w1)
          else if clock w1 > deadline then (Inr summary, w1)
          else poll_until x workflowID deadline e (sleep (750 * Millisecond) w1))"
  by pat_completeness auto
termination
  by (relation "measure (\<lambda>(x, i, deadline, e, w). nat (deadline - clock w + 1))")
     (auto simp: sleep_def Millisecond_def dest!: getWorkflow_later)

declare poll_until.simps [simp del]

definition pollWorkflow :: "helios_executor \<Rightarrow> string \<Rightarrow> helios_summary prog" where
  "pollWorkflow x workflowID =
     bind time_now (\<lambda>now. poll_until x workflowID (now + he_pollTimeout x))"

section \<open>Executing through Helios\<close>

definition json_text :: "gval gomap \<Rightarrow> string" where
  "json_text m = (case json_enc (VMap m) of None \<Rightarrow> [] | Some s \<Rightarrow> s)"

definition show_bool :: "bool \<Rightarrow> string" where
  "show_bool b = (if b then ''true'' else ''false'')"

definition workflowSpec :: "remediation_action \<Rightarrow> incident \<Rightarrow> bool \<Rightarrow> gval gomap" where
  "workflowSpec remediation incident dryRun =
     [(''name'', VStr (''argus-remediation-'' @ rem_ID remediation)),
      (''labels'', VStrMap
        [(''source'', ''argus''), (''incident_id'', inc_ID incident), (''remediation_id'', rem_ID remediation),
         (''action_type'', rem_ActionType remediation)]),
      (''metadata'', VStrMap
        [(''owner'', ''argus''), (''incident_id'', inc_ID incident), (''incident_service'', inc_Service incident),
         (''remediation_id'', rem_ID remediation), (''action_type'', rem_ActionType remediation),
         (''target'', rem_Target remediation), (''risk'', rem_Risk remediation),
         (''parameters'', json_text (rem_Parameters remediation)), (''dry_run'', show_bool dryRun)]),
      (''tasks'', VList [VMap
        [(''task_id'', VStr ''record-remediation-execution''), (''task_type'', VStr heliosTaskType),
         (''timeout_seconds'', VInt 15), (''priority'', VInt 90), (''cpu_units'', VInt 200), (''memory_mb'', VInt 128),
         (''expected_duration_seconds'', VInt 2), (''idempotency_key'', VStr (rem_IdempotencyKey remediation)),
         (''retry_policy'', VMap
           [(''max_attempts'', VInt (rem_MaxAttempts remediation)), (''initial_backoff_seconds'', VInt 1),
            (''max_backoff_seconds'', VInt 5), (''multiplier'', VInt 2)]),
         (''input_payload'', VMap
           [(''sink'', VStr ''manifest''), (''dataset'', VStr ''argus_remediation_actions''),
            (''artifact'', VMap
              [(''incident_id'', VStr (inc_ID incident)), (''incident_title'', VStr (inc_Title incident)),
               (''service'', VStr (inc_Service incident)), (''severity'', VStr (inc_Severity incident)),
               (''remediation_id'', VStr (rem_ID remediation)), (''action_type'', VStr (rem_ActionType remediation)),
               (''target'', VStr (rem_Target remediation)), (''risk'', VStr (rem_Risk remediation)),
               (''parameters'', VMap (rem_Parameters remediation)),
               (''idempotency_key'', VStr (rem_IdempotencyKey remediation)), (''attempt'', VInt (rem_Attempt remediation)),
               (''dry_run'', VBool dryRun), (''submitted_by'', VStr (rem_ProposedBy remediation)),
               (''executor_backend'', VStr ''helios'')])])]])]"

definition helios_result :: "helios_summary \<Rightarrow> bool \<Rightarrow> gval gomap" where
  "helios_result summary dryRun =
     [(''executor'', VStr ''helios''), (''helios_workflow_id'', VStr (hw_WorkflowID summary)),
      (''helios_workflow_name'', VStr (hw_Name summary)), (''helios_workflow_state'', VStr (hw_State summary)),
      (''dry_run'', VBool dryRun), (''delegated_task_type'', VStr heliosTaskType)] @
     (case hw_Metadata summary of None \<Rightarrow> [] | Some m \<Rightarrow> [(''helios_metadata'', VStrMap m)])"

definition helios_execute :: "helios_executor \<Rightarrow> remediation_action \<Rightarrow> incident \<Rightarrow> bool \<Rightarrow> execution_outcome prog" where
  "helios_execute x remediation incident dryRun =
     (if he_baseURL x = [] then fail (errorf ''helios base URL is not configured'')
      else if he_adminToken x = [] then fail (errorf ''helios admin token is not configured'')
      else
        bind (helios_call ''submit helios workflow'' ''decode helios workflow response''
               (helios_request x ''POST'' ''/api/v1/workflows'' [(''Content-Type'', ''application/json'')]
                  (json_text (workflowSpec remediation incident dryRun))) decode_summary) (\<lambda>created.
        bind (pollWorkflow x (hw_WorkflowID created)) (\<lambda>summary.
        if hw_State summary = ''succeeded'' then
          ret \<lparr>out_Status = ''succeeded'', out_Result = Some (helios_result summary dryRun)\<rparr>
        else if hw_State summary \<in> set [''failed'', ''cancelled''] then
          fail (errorf (''helios workflow '' @ hw_WorkflowID summary @ '' finished in state '' @ hw_State summary))
        else ret \<lparr>out_Status = ''running'', out_Result = Some (helios_result summary dryRun)\<rparr>)))"

definition executor_execute :: "executor \<Rightarrow> remediation_action \<Rightarrow> incident \<Rightarrow> bool \<Rightarrow> execution_outcome prog" where
  "executor_execute x remediation incident dryRun =
     (case x of
        LocalExecutor \<Rightarrow> fail (errorf ''the local executor dispatches through the remediation outbox'')
      | HeliosExecutor he \<Rightarrow> helios_execute he remediation incident dryRun)"

text \<open>The newest workflow labelled with the remediation among those Helios lists, newest first.\<close>

definition decode_workflow :: "gval \<Rightarrow> (helios_summary \<times> string gomap option) option" where
  "decode_workflow v =
     (case v of
        VMap m \<Rightarrow> (case (decode_summary v, strings_field m ''labels'') of (Some s, Some l) \<Rightarrow> Some (s, l) | _ \<Rightarrow> None)
      | _ \<Rightarrow> map_option (\<lambda>s. (s, None)) (decode_summary v))"

definition decode_workflows :: "gval \<Rightarrow> ((helios_summary \<times> string gomap option) list) option" where
  "decode_workflows v =
     (case v of
        VMap m \<Rightarrow>
          (case member m ''workflows'' of
             VNil \<Rightarrow> Some [] | VList vs \<Rightarrow> all_some (map decode_workflow vs) | _ \<Rightarrow> None)
      | VNil \<Rightarrow> Some []
      | _ \<Rightarrow> None)"

definition label :: "string gomap option \<Rightarrow> string \<Rightarrow> string" where
  "label l k = (case l of None \<Rightarrow> [] | Some m \<Rightarrow> map_str m k)"

definition findWorkflow :: "helios_executor \<Rightarrow> string \<Rightarrow> (helios_summary option) prog" where
  "findWorkflow x remediationID =
     bind (helios_call ''list helios workflows'' ''decode helios workflow list''
            (helios_request x ''GET'' ''/api/v1/workflows?limit=500'' [] []) decode_workflows) (\<lambda>ws.
     ret (map_option fst (find (\<lambda>(s, l). label l ''remediation_id'' = remediationID \<and> label l ''source'' = ''argus'') ws)))"

definition cancelWorkflow :: "helios_executor \<Rightarrow> string \<Rightarrow> unit prog" where
  "cancelWorkflow x workflowID =
     bind (wrap_err ''cancel helios workflow''
            (http_do (helios_request x ''POST'' (''/api/v1/workflows/'' @ workflowID @ ''/cancel'') [] []))) (\<lambda>resp.
     if hs_StatusCode resp \<ge> 400 then fail (errorf (''cancel helios workflow returned status '' @ hs_Status resp))
     else ret ())"

section \<open>Helios leaves the tables alone\<close>

lemma keeps_helios_call [keep]: "keeps (helios_call a b req f)"
  unfolding helios_call_def by (intro keep)

lemma keeps_poll_until [keep]: "keeps (poll_until x i deadline)"
proof -
  have "db (snd (poll_until x i deadline e w)) = db w" for e w
  proof (induction x i deadline e w rule: poll_until.induct)
    case (1 x i deadline e w)
    have "keeps (getWorkflow x i)" unfolding getWorkflow_def by (intro keep)
    then have "db (snd (getWorkflow x i e w)) = db w" by (simp add: keeps_def)
    then show ?case using 1 by (subst poll_until.simps) (auto split: prod.split sum.split simp: sleep_def)
  qed
  then show ?thesis by (simp add: keeps_def)
qed

lemma keeps_executor_execute [keep]: "keeps (executor_execute x rem inc dry)"
  unfolding executor_execute_def helios_execute_def pollWorkflow_def
  by (cases x) (auto intro!: keep)

lemma keeps_findWorkflow [keep]: "keeps (findWorkflow x i)"
  unfolding findWorkflow_def by (intro keep)

lemma keeps_cancelWorkflow [keep]: "keeps (cancelWorkflow x i)"
  unfolding cancelWorkflow_def by (intro keep)

lemma keeps_getWorkflow [keep]: "keeps (getWorkflow x i)"
  unfolding getWorkflow_def by (intro keep)

lemma keeps_helios_execute [keep]: "keeps (helios_execute x rem inc dry)"
  using keeps_executor_execute [of "HeliosExecutor x"] by (simp add: executor_execute_def)

end
