(* ===== verification/Remediation_Service.thy ===== *)
theory Remediation_Service
  imports Executor Policy
begin

text \<open>
  \<^verbatim>\<open>src/internal/remediation/service.go\<close>: proposing the candidates of an RCA report through the
  policy engine, approving, rejecting and cancelling, and executing an approved remediation:
  reserve it with its audit entry and its outbox job in one transaction, then publish, or call
  the synchronous executor and record what it reported.
\<close>

record remediation_service =
  rs_policy :: policy_engine
  rs_exec :: executor
  rs_approvals :: "approval_service option"
  rs_dispatcher :: "dispatcher_config option"

section \<open>Proposing\<close>

fun firstNonEmptyRisk :: "string list \<Rightarrow> string" where
  "firstNonEmptyRisk [] = ''medium''"
| "firstNonEmptyRisk (v # vs) = (if v \<noteq> [] then v else firstNonEmptyRisk vs)"

definition BuildIdempotencyKey ::
  "(string \<Rightarrow> string) \<Rightarrow> string \<Rightarrow> string \<Rightarrow> string \<Rightarrow> int \<Rightarrow> gval gomap \<Rightarrow> string" where
  "BuildIdempotencyKey h incidentID actionType target att parameters =
     (let base = incidentID @ ''_'' @ actionType @ ''_'' @ target @ ''_'' @ show_int att
      in if parameters = [] then base
         else base @ ''_'' @ hex_encode (take 6 (h (json_text parameters))))"

definition proposal_input ::
  "incident \<Rightarrow> rca_candidate \<Rightarrow> gval gomap \<Rightarrow> string \<Rightarrow> string \<Rightarrow> int \<Rightarrow> int \<Rightarrow> policy_input" where
  "proposal_input incident candidate parameters actor actorRole recentCount failedCount =
     \<lparr>in_actor = \<lparr>pa_id = actor, pa_role = actorRole\<rparr>,
      in_incident = \<lparr>pi_id = inc_ID incident, pi_severity = inc_Severity incident, pi_service = inc_Service incident,
                     pi_environment = inc_Environment incident\<rparr>,
      in_remediation = \<lparr>pr_type = cand_ActionType candidate, pr_target = cand_Target candidate,
                        pr_risk = cand_Risk candidate, pr_dry_run = True, pr_parameters = parameters\<rparr>,
      in_history = \<lparr>ph_same_action_last_10m = recentCount, ph_failed_attempts = failedCount\<rparr>\<rparr>"

definition proposed_status :: "policy_decision \<Rightarrow> string" where
  "proposed_status decision =
     (if Allow decision \<and> RequiresApproval decision then StateAwaitingApproval
      else if Allow decision \<and> \<not> RequiresApproval decision then StateApproved
      else StatePolicyBlocked)"

definition decision_map :: "policy_decision \<Rightarrow> int \<Rightarrow> int \<Rightarrow> gval gomap" where
  "decision_map decision failedCount recentCount =
     [(''allow'', VBool (Allow decision)), (''requires_approval'', VBool (RequiresApproval decision)),
      (''reason'', VStr (Reason decision)), (''max_attempts'', VInt (MaxAttempts decision)),
      (''failed_attempts'', VInt failedCount), (''same_action_10m'', VInt recentCount)]"

definition proposed_action ::
  "(string \<Rightarrow> string) \<Rightarrow> incident \<Rightarrow> rca_candidate \<Rightarrow> gval gomap \<Rightarrow> string \<Rightarrow> policy_decision \<Rightarrow> int \<Rightarrow> int \<Rightarrow> string \<Rightarrow> int
   \<Rightarrow> remediation_action" where
  "proposed_action h incident candidate parameters actor decision recentCount failedCount rid now =
     (let attempt = recentCount + 1 in
      \<lparr>rem_ID = rid, rem_IncidentID = inc_ID incident, rem_ActionType = cand_ActionType candidate,
       rem_Target = cand_Target candidate, rem_Parameters = parameters, rem_Status = proposed_status decision,
       rem_Risk = firstNonEmptyRisk [DecisionRisk decision, cand_Risk candidate],
       rem_IdempotencyKey = BuildIdempotencyKey h (inc_ID incident) (cand_ActionType candidate) (cand_Target candidate)
         attempt parameters,
       rem_ProposedBy = actor, rem_ApprovedBy = [], rem_PolicyDecision = decision_map decision failedCount recentCount,
       rem_DryRun = True, rem_Attempt = attempt, rem_MaxAttempts = MaxAttempts decision, rem_QueuedAt = None,
       rem_StartedAt = None, rem_CompletedAt = None, rem_Result = None, rem_Error = [], rem_CreatedAt = now\<rparr>)"

definition user_entry :: "string \<Rightarrow> string \<Rightarrow> string \<Rightarrow> entry" where
  "user_entry actor action remediationID =
     entry0\<lparr>ent_ActorID := actor, ent_ActorType := ''user'', ent_Action := action,
       ent_ResourceType := ''remediation'', ent_ResourceID := remediationID\<rparr>"

definition reused_entry :: "string \<Rightarrow> string \<Rightarrow> remediation_action \<Rightarrow> entry" where
  "reused_entry actor action rem =
     (user_entry actor action (rem_ID rem))\<lparr>ent_AfterState := Some
       [(''status'', VStr (rem_Status rem)), (''idempotency_key'', VStr (rem_IdempotencyKey rem))]\<rparr>"

definition proposed_entry :: "string \<Rightarrow> remediation_action \<Rightarrow> entry" where
  "proposed_entry actor action =
     (user_entry actor ''remediation.proposed'' (rem_ID action))\<lparr>
       ent_AfterState := Some [(''status'', VStr (rem_Status action)), (''risk'', VStr (rem_Risk action)),
         (''idempotency_key'', VStr (rem_IdempotencyKey action))],
       ent_Metadata := Some (rem_PolicyDecision action)\<rparr>"

definition approvals_unavailable :: goerr where
  "approvals_unavailable = errorf ''approval workflow is unavailable''"

definition propose_new ::
  "remediation_service \<Rightarrow> incident \<Rightarrow> rca_candidate \<Rightarrow> gval gomap \<Rightarrow> string \<Rightarrow> string \<Rightarrow> remediation_action prog" where
  "propose_new svc incident candidate parameters actor actorRole =
     bind (CountRecentSimilarRemediations (inc_ID incident) (cand_ActionType candidate) (cand_Target candidate) parameters) (\<lambda>recentCount.
     bind (CountFailedRemediations (inc_ID incident) (cand_ActionType candidate) (cand_Target candidate) parameters) (\<lambda>failedCount.
     let decision = Evaluate (rs_policy svc)
           (proposal_input incident candidate parameters actor actorRole recentCount failedCount) in
     bind (NewID ''rem'') (\<lambda>rid.
     bind time_now (\<lambda>now.
     bind (asks (\<lambda>e. Inr (proposed_action (sha256 e) incident candidate parameters actor decision recentCount failedCount rid now))) (\<lambda>action.
     bind (InTx (bind (CreateRemediation action) (\<lambda>_. WriteTx (proposed_entry actor action)))) (\<lambda>_.
     if rem_Status action = StateAwaitingApproval then
       (case rs_approvals svc of
          None \<Rightarrow> fail approvals_unavailable
        | Some approvals \<Rightarrow> bind (RequestApproval approvals incident action) (\<lambda>_. ret action))
     else ret action))))))"

definition propose_one ::
  "remediation_service \<Rightarrow> incident \<Rightarrow> string \<Rightarrow> string \<Rightarrow> rca_candidate \<Rightarrow> remediation_action prog" where
  "propose_one svc incident actor actorRole candidate =
     (let parameters = (case cand_Parameters candidate of None \<Rightarrow> [] | Some m \<Rightarrow> m) in
      bind (FindActiveRemediationByAction (inc_ID incident) (cand_ActionType candidate) (cand_Target candidate) parameters) (\<lambda>found.
      case found of
        Some existing \<Rightarrow>
          bind (case rs_approvals svc of
                  Some approvals \<Rightarrow>
                    if rem_Status existing = StateAwaitingApproval
                    then bind (RequestApproval approvals incident existing) (\<lambda>_. ret ()) else ret ()
                | None \<Rightarrow> ret ()) (\<lambda>_.
          bind (Record (reused_entry actor ''remediation.proposal_reused'' existing)) (\<lambda>_.
          ret existing))
      | None \<Rightarrow> propose_new svc incident candidate parameters actor actorRole))"

definition Propose ::
  "remediation_service \<Rightarrow> incident \<Rightarrow> rca_candidate list \<Rightarrow> string \<Rightarrow> string \<Rightarrow> (remediation_action list) prog" where
  "Propose svc incident candidates actor actorRole =
     bind (for_each candidates (propose_one svc incident actor actorRole)) (\<lambda>actions.
     if actions \<noteq> [] then
       let status = (if list_ex (\<lambda>a. rem_Status a = StateAwaitingApproval) actions
                     then IncAwaitingApproval else IncRemediationProposed) in
       bind (attempt (TransitionIncident (inc_ID incident) status)) (\<lambda>_. ret actions)
     else ret actions)"

section \<open>Deciding and cancelling\<close>

definition Approve :: "remediation_service \<Rightarrow> string \<Rightarrow> string \<Rightarrow> string \<Rightarrow> unit prog" where
  "Approve svc remediationID approvedBy reason =
     (case rs_approvals svc of
        None \<Rightarrow> fail approvals_unavailable
      | Some approvals \<Rightarrow>
          bind (DecideByRemediation approvals remediationID approvedBy ''user'' DecisionApprove reason) (\<lambda>_. ret ()))"

definition Reject :: "remediation_service \<Rightarrow> string \<Rightarrow> string \<Rightarrow> string \<Rightarrow> unit prog" where
  "Reject svc remediationID rejectedBy reason =
     (case rs_approvals svc of
        None \<Rightarrow> fail approvals_unavailable
      | Some approvals \<Rightarrow>
          bind (DecideByRemediation approvals remediationID rejectedBy ''user'' DecisionDeny reason) (\<lambda>_. ret ()))"

definition require_transition :: "string \<Rightarrow> string \<Rightarrow> unit prog" where
  "require_transition from to = require (map_option errorf (RequireTransition from to))"

definition state_changed :: "string \<Rightarrow> string \<Rightarrow> goerr" where
  "state_changed from to =
     GoErr (''remediation state changed: remediation moved from '' @ from @ '' to '' @ to @ '' before it could be cancelled'')
       (Some ErrStateChanged)"

definition Cancel :: "remediation_service \<Rightarrow> string \<Rightarrow> string \<Rightarrow> unit prog" where
  "Cancel svc remediationID actor =
     bind (GetRemediation remediationID) (\<lambda>rem.
     if rem_Status rem = StateAwaitingApproval then
       (case rs_approvals svc of
          None \<Rightarrow> fail approvals_unavailable
        | Some _ \<Rightarrow> bind (CancelByRemediation remediationID actor ''remediation cancelled by operator'') (\<lambda>_. ret ()))
     else
       bind (require_transition (rem_Status rem) StateCancelled) (\<lambda>_.
       bind (InTx (bind (CancelRemediation remediationID (rem_Status rem)) (\<lambda>ok.
               if \<not> ok then ret False
               else bind (WriteTx ((user_entry actor ''remediation.cancelled'' remediationID)\<lparr>
                           ent_BeforeState := status_map (rem_Status rem), ent_AfterState := status_map StateCancelled\<rparr>)) (\<lambda>_.
                    ret True)))) (\<lambda>cancelled.
       if cancelled then ret ()
       else bind (GetRemediation remediationID) (\<lambda>latest. fail (state_changed (rem_Status rem) (rem_Status latest))))))"

section \<open>Executing\<close>

definition incident_closed :: "incident \<Rightarrow> goerr" where
  "incident_closed incident =
     GoErr (''incident is closed: incident '' @ inc_ID incident @ '' is '' @ inc_Status incident) (Some ErrIncidentClosed)"

definition outcome_entry :: "remediation_service \<Rightarrow> string \<Rightarrow> string \<Rightarrow> remediation_action \<Rightarrow> execution_outcome \<Rightarrow> entry" where
  "outcome_entry svc actor action remediation outcome =
     (user_entry actor action (rem_ID remediation))\<lparr>ent_BeforeState := status_map StateQueued,
       ent_AfterState := Some [(''status'', VStr (out_Status outcome)), (''executor'', VStr (executor_name (rs_exec svc))),
         (''result'', state_value (out_Result outcome))]\<rparr>"

definition applyQueuedOutcome ::
  "remediation_service \<Rightarrow> remediation_action \<Rightarrow> execution_outcome \<Rightarrow> string \<Rightarrow> unit prog" where
  "applyQueuedOutcome svc remediation outcome actor =
     (if out_Status outcome = StateQueued then ret ()
      else if out_Status outcome = StateRunning then
        InTx (bind (requireApplied (MarkRemediationRunning (rem_ID remediation) (out_Result outcome))) (\<lambda>_.
              WriteTx (outcome_entry svc actor ''remediation.running'' remediation outcome)))
      else if out_Status outcome = StateSucceeded then
        InTx (bind (requireApplied (ClaimRemediation (rem_ID remediation))) (\<lambda>_.
              bind (requireApplied (CompleteRemediation (rem_ID remediation) StateSucceeded (out_Result outcome) [])) (\<lambda>_.
              WriteTx (outcome_entry svc actor ''remediation.completed'' remediation outcome))))
      else if out_Status outcome = StateFailed then
        InTx (bind (requireApplied (CompleteRemediation (rem_ID remediation) StateFailed (out_Result outcome)
                     ''executor reported failure'')) (\<lambda>_.
              WriteTx (outcome_entry svc actor ''remediation.failed'' remediation outcome)))
      else fail (errorf (''unknown execution outcome status '' @ quote (out_Status outcome))))"

text \<open>The reservation: status, outbox job and audit entry in one transaction.\<close>

definition reserve_execution ::
  "remediation_service \<Rightarrow> remediation_action \<Rightarrow> bool \<Rightarrow> string \<Rightarrow> (int \<times> string) prog" where
  "reserve_execution svc remediation dryRun actor =
     InTx (bind (MarkRemediationQueued (rem_ID remediation) dryRun) (\<lambda>queuedAt.
       let after = [(''status'', VStr StateQueued), (''dry_run'', VBool dryRun),
                    (''executor'', VStr (executor_name (rs_exec svc)))];
           write = (\<lambda>after. WriteTx ((user_entry actor ''remediation.execute_requested'' (rem_ID remediation))\<lparr>
             ent_BeforeState := status_map (rem_Status remediation), ent_AfterState := Some after\<rparr>)) in
       if isQueued (rs_exec svc) then
         let reserved = remediation\<lparr>rem_QueuedAt := Some queuedAt, rem_DryRun := dryRun\<rparr> in
         bind (reservationEventID reserved) (\<lambda>dispatchID.
         bind (Enqueue reserved dispatchID DispatchExecute) (\<lambda>_.
         bind (write (after @ [(''dispatch_id'', VStr dispatchID)])) (\<lambda>_. ret (queuedAt, dispatchID))))
       else bind (write after) (\<lambda>_. ret (queuedAt, []))))"

definition release_reservation :: "string \<Rightarrow> string \<Rightarrow> goerr \<Rightarrow> unit prog" where
  "release_reservation remediationID actor err =
     InTx (bind (ReleaseRemediationQueueReservation remediationID) (\<lambda>_.
           WriteTx ((user_entry actor ''remediation.dispatch_failed'' remediationID)\<lparr>
             ent_BeforeState := status_map StateQueued,
             ent_AfterState := Some [(''status'', VStr StateApproved), (''error'', VStr (err_text err))]\<rparr>)))"

definition execute_sync ::
  "remediation_service \<Rightarrow> remediation_action \<Rightarrow> incident \<Rightarrow> bool \<Rightarrow> string \<Rightarrow> bool prog" where
  "execute_sync svc remediation incident dryRun actor =
     bind (attempt (executor_execute (rs_exec svc) remediation incident dryRun)) (\<lambda>r.
     case r of
       Inl err \<Rightarrow>
         bind (attempt (release_reservation (rem_ID remediation) actor err)) (\<lambda>released.
         case released of
           Inl releaseErr \<Rightarrow>
             fail (GoErr (err_text err @ '' (releasing the reservation also failed: '' @ err_text releaseErr @ '')'') (err_is err))
         | Inr _ \<Rightarrow> fail err)
     | Inr outcome \<Rightarrow> bind (applyQueuedOutcome svc remediation outcome actor) (\<lambda>_. ret False))"

definition Execute :: "remediation_service \<Rightarrow> string \<Rightarrow> bool \<Rightarrow> string \<Rightarrow> bool prog" where
  "Execute svc remediationID dryRun actor =
     bind (GetRemediation remediationID) (\<lambda>remediation.
     if rem_Status remediation \<in> set [StateSucceeded, StateQueued, StateRunning] then
       bind (Record (reused_entry actor ''remediation.execution_reused'' (remediation\<lparr>rem_ID := remediationID\<rparr>))) (\<lambda>_. ret True)
     else if rem_Status remediation = StateAwaitingApproval then fail (errorf ''remediation requires approval'')
     else if IsTerminalState (rem_Status remediation) then
       fail (errorf (''remediation cannot be executed from state '' @ rem_Status remediation))
     else
       bind (require_transition (rem_Status remediation) StateQueued) (\<lambda>_.
       bind (GetIncident (rem_IncidentID remediation)) (\<lambda>incident.
       if IsClosed (inc_Status incident) then fail (incident_closed incident)
       else
         bind (attempt (reserve_execution svc remediation dryRun actor)) (\<lambda>r.
         case r of
           Inl err \<Rightarrow>
             bind (attempt (GetRemediation (rem_ID remediation))) (\<lambda>g.
             case g of
               Inr latest \<Rightarrow>
                 if rem_Status latest \<in> set [StateQueued, StateRunning, StateSucceeded] then
                   bind (Record (reused_entry actor ''remediation.execution_reused'' (latest\<lparr>rem_ID := remediationID\<rparr>))) (\<lambda>_. ret True)
                 else fail err
             | Inl _ \<Rightarrow> fail err)
         | Inr (queuedAt, dispatchID) \<Rightarrow>
             if isQueued (rs_exec svc) then
               bind (case rs_dispatcher svc of
                       Some cfg \<Rightarrow> bind (attempt (PublishOne cfg dispatchID)) (\<lambda>_. ret ())
                     | None \<Rightarrow> ret ()) (\<lambda>_. ret False)
             else execute_sync svc (remediation\<lparr>rem_QueuedAt := Some queuedAt, rem_DryRun := dryRun\<rparr>) incident dryRun actor))))"

end
