(* ===== verification/Helios_Reconcile.thy ===== *)
theory Helios_Reconcile
  imports Remediation_Service
begin

text \<open>
  \<^verbatim>\<open>src/internal/remediation/helios_reconcile.go\<close>: settling remediations whose Helios workflow outlived
  the submitting call, and recovering submissions whose process died before it recorded the workflow.
  One pass runs in one transaction; what it asked of Helios is not undone if that fails.
\<close>

record helios_reconcile_config =
  hrInterval :: int
  MaxRuntime :: int
  SubmitLostAfter :: int

definition DefaultHeliosReconcileConfig :: helios_reconcile_config where
  "DefaultHeliosReconcileConfig =
     \<lparr>hrInterval = 30 * Second, MaxRuntime = 30 * Minute, SubmitLostAfter = 2 * Minute\<rparr>"

definition withDefaults :: "helios_reconcile_config \<Rightarrow> helios_reconcile_config" where
  "withDefaults c =
     (let def = DefaultHeliosReconcileConfig in
      \<lparr>hrInterval = or_default (hrInterval c) (hrInterval def), MaxRuntime = or_default (MaxRuntime c) (MaxRuntime def),
       SubmitLostAfter = or_default (SubmitLostAfter c) (SubmitLostAfter def)\<rparr>)"

record helios_reconcile_result =
  hrSucceeded :: "string list"
  hrFailed :: "string list"
  hrTimedOut :: "string list"
  hrAdopted :: "string list"
  hrResubmitted :: "string list"
  hrErrors :: "string list"

definition no_helios_reconcile :: helios_reconcile_result where
  "no_helios_reconcile =
     \<lparr>hrSucceeded = [], hrFailed = [], hrTimedOut = [], hrAdopted = [], hrResubmitted = [], hrErrors = []\<rparr>"

record running_helios =
  rh_id :: string
  rh_workflowID :: string
  rh_result :: "gval gomap"
  rh_overdue :: bool

section \<open>Settling a workflow\<close>

definition doc_string :: "gval gomap option \<Rightarrow> string \<Rightarrow> string" where
  "doc_string doc k =
     (case doc of None \<Rightarrow> []
      | Some m \<Rightarrow> (case map_any m k of VStr s \<Rightarrow> s | VNumber s \<Rightarrow> s | VBool b \<Rightarrow> show_bool b | _ \<Rightarrow> []))"

definition is_running_helios :: "remediation_action \<Rightarrow> bool" where
  "is_running_helios r \<longleftrightarrow>
     rem_Status r = StateRunning \<and> doc_string (rem_Result r) ''executor'' = ''helios'' \<and>
     doc_string (rem_Result r) ''helios_workflow_id'' \<noteq> []"

definition started_before :: "remediation_action \<Rightarrow> remediation_action \<Rightarrow> bool" where
  "started_before a b =
     (case (rem_StartedAt a, rem_StartedAt b) of
        (Some s, Some t) \<Rightarrow> s < t | (Some _, None) \<Rightarrow> True | (None, _) \<Rightarrow> False)"

definition scan_running :: "int \<Rightarrow> remediation_action \<Rightarrow> running_helios option" where
  "scan_running limit r =
     (case rem_StartedAt r of
        None \<Rightarrow> None
      | Some s \<Rightarrow>
          Some \<lparr>rh_id = rem_ID r, rh_workflowID = doc_string (rem_Result r) ''helios_workflow_id'',
                rh_result = (case rem_Result r of None \<Rightarrow> [] | Some m \<Rightarrow> read_map m), rh_overdue = s < limit\<rparr>)"

definition running_batch :: "helios_reconcile_config \<Rightarrow> int \<Rightarrow> database \<Rightarrow> goerr + running_helios list" where
  "running_batch cfg t d =
     (case all_some (map (scan_running (t - MaxRuntime cfg))
              (take 50 (stable_sort started_before (filter is_running_helios (remediation_actions d))))) of
        None \<Rightarrow> Inl (errorf ''sql: Scan error: converting NULL to bool is unsupported'')
      | Some rs \<Rightarrow> Inr rs)"

definition record_settled :: "running_helios \<Rightarrow> gval gomap \<Rightarrow> string \<Rightarrow> string \<Rightarrow> string \<Rightarrow> unit prog" where
  "record_settled r final status action errText =
     bind (requireApplied (CompleteRemediation (rh_id r) status (Some final) errText)) (\<lambda>_.
     bind (if status = StateFailed \<or> status = StateTimedOut
           then bind (attempt (GetRemediation (rh_id r))) (\<lambda>_. ret ()) else ret ()) (\<lambda>_.
     WriteTx ((remediation_entry [] ''system'' action (rh_id r) StateRunning)\<lparr>
       ent_AfterState := Some [(''status'', VStr status), (''executor'', VStr ''helios''), (''result'', VMap final), (''error'', VStr errText)],
       ent_Metadata := Some [(''reconciled_by'', VStr ''helios_reconciler''), (''helios_workflow_id'', VStr (rh_workflowID r))]\<rparr>)))"

definition settleHelios ::
  "helios_executor \<Rightarrow> running_helios \<Rightarrow> helios_summary \<Rightarrow> helios_reconcile_result \<Rightarrow> helios_reconcile_result prog" where
  "settleHelios x r summary result =
     (let final = map_set (map_set (rh_result r) ''helios_workflow_state'' (VStr (hw_State summary))) ''reconciled'' (VBool True) in
      if hw_State summary = ''succeeded'' then
        bind (record_settled r final StateSucceeded ''remediation.completed'' []) (\<lambda>_.
        ret (result\<lparr>hrSucceeded := hrSucceeded result @ [rh_id r]\<rparr>))
      else if hw_State summary = ''failed'' \<or> hw_State summary = ''cancelled'' then
        bind (record_settled r final StateFailed ''remediation.failed''
               (''helios workflow '' @ rh_workflowID r @ '' finished in state '' @ hw_State summary)) (\<lambda>_.
        ret (result\<lparr>hrFailed := hrFailed result @ [rh_id r]\<rparr>))
      else if \<not> rh_overdue r then ret result
      else
        bind (attempt (cancelWorkflow x (rh_workflowID r))) (\<lambda>cancelled.
        let final = map_set final ''helios_cancel_requested'' (VBool (case cancelled of Inl _ \<Rightarrow> False | Inr _ \<Rightarrow> True));
            errText = ''helios workflow '' @ rh_workflowID r @ '' still '' @ hw_State summary @ '' after the maximum runtime'' @
              (case cancelled of Inl err \<Rightarrow> ''; cancelling it failed: '' @ err_text err | Inr _ \<Rightarrow> []) in
        bind (record_settled r final StateTimedOut ''remediation.timed_out'' errText) (\<lambda>_.
        ret (result\<lparr>hrTimedOut := hrTimedOut result @ [rh_id r]\<rparr>))))"

fun settle_all ::
  "helios_executor \<Rightarrow> running_helios list \<Rightarrow> helios_reconcile_result \<Rightarrow> helios_reconcile_result prog" where
  "settle_all x [] result = ret result"
| "settle_all x (r # rs) result =
     bind (attempt (getWorkflow x (rh_workflowID r))) (\<lambda>got.
     case got of
       Inl _ \<Rightarrow> settle_all x rs (result\<lparr>hrErrors := hrErrors result @ [rh_id r]\<rparr>)
     | Inr summary \<Rightarrow> bind (settleHelios x r summary result) (settle_all x rs))"

definition settleRunningHelios ::
  "helios_executor \<Rightarrow> helios_reconcile_config \<Rightarrow> helios_reconcile_result \<Rightarrow> helios_reconcile_result prog" where
  "settleRunningHelios x cfg result =
     bind (map_err (\<lambda>err. if has_prefix (err_text err) ''sql: Scan error'' then err
                          else wrap ''find running Helios remediations'' err) (query (running_batch cfg))) (\<lambda>running.
     settle_all x running result)"

section \<open>Recovering a lost submission\<close>

definition lost_submission :: "int \<Rightarrow> database \<Rightarrow> remediation_action \<Rightarrow> bool" where
  "lost_submission limit d r \<longleftrightarrow>
     rem_Status r = StateQueued \<and> before_time (rem_QueuedAt r) limit \<and> dispatches_of (rem_ID r) d = []"

definition lost_batch :: "helios_reconcile_config \<Rightarrow> int \<Rightarrow> database \<Rightarrow> string list" where
  "lost_batch cfg t d =
     map rem_ID (take 20 (stable_sort queued_before
       (filter (lost_submission (t - SubmitLostAfter cfg) d) (remediation_actions d))))"

definition adopted_result :: "helios_summary \<Rightarrow> gval gomap" where
  "adopted_result found =
     [(''executor'', VStr ''helios''), (''helios_workflow_id'', VStr (hw_WorkflowID found)),
      (''helios_workflow_name'', VStr (hw_Name found)), (''helios_workflow_state'', VStr (hw_State found)),
      (''adopted'', VBool True)]"

definition adopt :: "helios_executor \<Rightarrow> string \<Rightarrow> helios_summary \<Rightarrow> helios_reconcile_result \<Rightarrow> helios_reconcile_result prog" where
  "adopt x rid found result =
     (let adopted = adopted_result found in
      bind (requireApplied (MarkRemediationRunning rid (Some adopted))) (\<lambda>_.
      bind (WriteTx ((remediation_entry [] ''system'' ''remediation.running'' rid StateQueued)\<lparr>
              ent_AfterState := Some [(''status'', VStr StateRunning), (''executor'', VStr ''helios''), (''result'', VMap adopted)],
              ent_Metadata := Some [(''reconciled_by'', VStr ''helios_reconciler''),
                (''reason'', VStr ''adopted the workflow a crashed submission created'')]\<rparr>)) (\<lambda>_.
      settleHelios x \<lparr>rh_id = rid, rh_workflowID = hw_WorkflowID found, rh_result = adopted, rh_overdue = False\<rparr> found
        (result\<lparr>hrAdopted := hrAdopted result @ [rid]\<rparr>))))"

definition lost_reason :: string where
  "lost_reason = ''incident closed before the lost Helios submission was recovered''"

definition resubmit ::
  "remediation_service \<Rightarrow> helios_executor \<Rightarrow> string \<Rightarrow> helios_reconcile_result \<Rightarrow> helios_reconcile_result prog" where
  "resubmit svc x rid result =
     bind (GetRemediation rid) (\<lambda>rem.
     bind (GetIncident (rem_IncidentID rem)) (\<lambda>incident.
     if IsClosed (inc_Status incident) then
       bind (requireApplied (CompleteRemediation rid StateCancelled None lost_reason)) (\<lambda>_.
       bind (WriteTx ((remediation_entry [] ''system'' ''remediation.cancelled'' rid StateQueued)\<lparr>
               ent_AfterState := Some [(''status'', VStr StateCancelled), (''error'', VStr lost_reason)],
               ent_Metadata := Some [(''reconciled_by'', VStr ''helios_reconciler'')]\<rparr>)) (\<lambda>_.
       ret result))
     else
       bind (attempt (helios_execute x rem incident (rem_DryRun rem))) (\<lambda>r.
       case r of
         Inl _ \<Rightarrow> ret (result\<lparr>hrErrors := hrErrors result @ [rid]\<rparr>)
       | Inr outcome \<Rightarrow>
           bind (applyQueuedOutcome svc rem outcome ''system'') (\<lambda>_.
           ret (result\<lparr>hrResubmitted := hrResubmitted result @ [rid]\<rparr>)))))"

fun recover_all ::
  "remediation_service \<Rightarrow> helios_executor \<Rightarrow> string list \<Rightarrow> helios_reconcile_result \<Rightarrow> helios_reconcile_result prog" where
  "recover_all svc x [] result = ret result"
| "recover_all svc x (rid # rids) result =
     bind (attempt (findWorkflow x rid)) (\<lambda>got.
     case got of
       Inl _ \<Rightarrow> recover_all svc x rids (result\<lparr>hrErrors := hrErrors result @ [rid]\<rparr>)
     | Inr (Some found) \<Rightarrow> bind (adopt x rid found result) (recover_all svc x rids)
     | Inr None \<Rightarrow> bind (resubmit svc x rid result) (recover_all svc x rids))"

definition recoverLostHeliosSubmissions ::
  "remediation_service \<Rightarrow> helios_executor \<Rightarrow> helios_reconcile_config \<Rightarrow> helios_reconcile_result \<Rightarrow> helios_reconcile_result prog" where
  "recoverLostHeliosSubmissions svc x cfg result =
     bind (wrap_err ''find lost Helios submissions'' (query (\<lambda>t d. Inr (lost_batch cfg t d)))) (\<lambda>rids.
     recover_all svc x rids result)"

text \<open>\<open>locked\<close> is the answer of \<^verbatim>\<open>pg_try_advisory_xact_lock\<close>.\<close>

definition ReconcileHelios :: "remediation_service \<Rightarrow> helios_reconcile_config \<Rightarrow> bool \<Rightarrow> helios_reconcile_result prog" where
  "ReconcileHelios svc cfg locked =
     (case rs_exec svc of
        LocalExecutor \<Rightarrow> ret no_helios_reconcile
      | HeliosExecutor x \<Rightarrow>
          let cfg = withDefaults cfg in
          InTx (bind (query (\<lambda>t d. Inr locked)) (\<lambda>locked.
                if \<not> locked then ret no_helios_reconcile
                else bind (settleRunningHelios x cfg no_helios_reconcile) (recoverLostHeliosSubmissions svc x cfg))))"

end
