(* ===== verification/Control_State.thy ===== *)
theory Control_State
  imports Remediation_Store Actions
begin

text \<open>
  The control state the typed handlers act on, \<^verbatim>\<open>src/internal/workers/control_state.go\<close>, and the
  handlers themselves, \<^verbatim>\<open>typed_handlers.go\<close> and the static ones of \<^verbatim>\<open>runner.go\<close>. An execution writes
  the target's state together with a receipt under the remediation's idempotency key; a second
  execution under that key returns the receipt and changes nothing.
\<close>

section \<open>The store\<close>

definition mergeState :: "gval gomap \<Rightarrow> gval gomap \<Rightarrow> gval gomap" where
  "mergeState current desired = foldl (\<lambda>m (k, v). map_set m k v) current desired"

definition stateResult :: "string \<Rightarrow> string \<Rightarrow> string \<Rightarrow> gval gomap \<Rightarrow> gval gomap \<Rightarrow> bool \<Rightarrow> gval gomap" where
  "stateResult mode resourceType target before after reused =
     [(''mode'', VStr mode), (''backend'', VStr ''durable-local-control-state''), (''resource_type'', VStr resourceType),
      (''target'', VStr target), (''before'', VMap before), (''after'', VMap after), (''reused'', VBool reused)]"

definition is_target :: "string \<Rightarrow> string \<Rightarrow> target_state \<Rightarrow> bool" where
  "is_target resourceType target x \<longleftrightarrow> ts_ResourceType x = resourceType \<and> ts_Target x = target"

definition read_state :: "string \<Rightarrow> string \<Rightarrow> database \<Rightarrow> goerr + gval gomap" where
  "read_state resourceType target d =
     (case find (is_target resourceType target) (target_states d) of
        None \<Rightarrow> Inl sql_no_rows | Some x \<Rightarrow> Inr (read_map (ts_State x)))"

definition decodeState :: "gval gomap prog \<Rightarrow> gval gomap prog" where
  "decodeState m =
     bind (attempt m) (\<lambda>r.
     case r of
       Inr state \<Rightarrow> ret state
     | Inl err \<Rightarrow> if err = sql_no_rows then ret [] else fail (wrap ''read remediation target state'' err))"

definition currentState :: "string \<Rightarrow> string \<Rightarrow> gval gomap prog" where
  "currentState resourceType target = decodeState (query (\<lambda>t. read_state resourceType target))"

definition Preview :: "string \<Rightarrow> string \<Rightarrow> gval gomap \<Rightarrow> gval gomap prog" where
  "Preview resourceType target desired =
     bind (currentState resourceType target) (\<lambda>current.
     ret (stateResult ''dry-run'' resourceType target current (mergeState current desired) False))"

definition upsert_state :: "string \<Rightarrow> string \<Rightarrow> gval gomap \<Rightarrow> int \<Rightarrow> database \<Rightarrow> goerr + unit \<times> database" where
  "upsert_state resourceType target state t d =
     (case stored_map state of
        None \<Rightarrow> Inl (null_violation ''state'')
      | Some doc \<Rightarrow>
          if list_ex (is_target resourceType target) (target_states d)
          then Inr ((), d\<lparr>target_states := update_rows (is_target resourceType target)
                 (\<lambda>x. x\<lparr>ts_State := doc, ts_UpdatedAt := t\<rparr>) (target_states d)\<rparr>)
          else Inr ((), d\<lparr>target_states := target_states d @
                 [\<lparr>ts_ResourceType = resourceType, ts_Target = target, ts_State = doc, ts_UpdatedAt = t\<rparr>]\<rparr>))"

definition insert_receipt ::
  "string \<Rightarrow> string \<Rightarrow> string \<Rightarrow> gval gomap \<Rightarrow> int \<Rightarrow> database \<Rightarrow> goerr + unit \<times> database" where
  "insert_receipt idempotencyKey actionType target result t d =
     (case stored_map result of
        None \<Rightarrow> Inl (null_violation ''result'')
      | Some doc \<Rightarrow>
          if list_ex (\<lambda>x. rcp_IdempotencyKey x = idempotencyKey) (receipts d)
          then Inl (unique_violation ''remediation_execution_receipts_pkey'')
          else Inr ((), d\<lparr>receipts := receipts d @
                 [\<lparr>rcp_IdempotencyKey = idempotencyKey, rcp_ActionType = actionType, rcp_Target = target,
                   rcp_Result = doc, rcp_CreatedAt = t\<rparr>]\<rparr>))"

definition read_receipt :: "string \<Rightarrow> database \<Rightarrow> goerr + gval gomap" where
  "read_receipt idempotencyKey d =
     (case find (\<lambda>x. rcp_IdempotencyKey x = idempotencyKey) (receipts d) of
        None \<Rightarrow> Inl sql_no_rows | Some x \<Rightarrow> Inr (read_map (rcp_Result x)))"

text \<open>The two advisory locks are statements that can fail; what they exclude is other transactions.\<close>

definition apply_body :: "string \<Rightarrow> string \<Rightarrow> string \<Rightarrow> string \<Rightarrow> gval gomap \<Rightarrow> (bool \<times> gval gomap) prog" where
  "apply_body idempotencyKey actionType resourceType target desired =
     bind (wrap_err ''lock remediation receipt'' (query (\<lambda>t d. Inr ()))) (\<lambda>_.
     bind (wrap_err ''lock remediation target'' (query (\<lambda>t d. Inr ()))) (\<lambda>_.
     bind (attempt (query (\<lambda>t. read_receipt idempotencyKey))) (\<lambda>receipt.
     case receipt of
       Inr result \<Rightarrow> ret (True, map_set result ''reused'' (VBool True))
     | Inl err \<Rightarrow>
         if err \<noteq> sql_no_rows then fail (wrap ''read remediation receipt'' err)
         else
           bind (currentState resourceType target) (\<lambda>current.
           let after = mergeState current desired in
           bind (wrap_err ''apply remediation target state'' (sql (upsert_state resourceType target after))) (\<lambda>_.
           let result = map_set (stateResult ''execute'' resourceType target current after False)
                 ''idempotency_key'' (VStr idempotencyKey) in
           bind (wrap_err ''write remediation receipt'' (sql (insert_receipt idempotencyKey actionType target result))) (\<lambda>_.
           ret (False, result)))))))"

definition ApplyOnce :: "string \<Rightarrow> string \<Rightarrow> string \<Rightarrow> string \<Rightarrow> gval gomap \<Rightarrow> gval gomap prog" where
  "ApplyOnce idempotencyKey actionType resourceType target desired =
     bind (transaction_if (\<lambda>_. True) (wrap ''begin control-state transaction'')
            (\<lambda>(reused, _). if reused then wrap ''commit reused remediation receipt'' else wrap ''commit control-state remediation'')
            (apply_body idempotencyKey actionType resourceType target desired)) (\<lambda>(_, result). ret result)"

section \<open>Handlers\<close>

text \<open>A typed handler carries whether it was given a control-state backend.\<close>

datatype handler =
    StaticHandler string string
  | PodRestartHandler bool
  | ConnectionPoolResizeHandler bool
  | FeatureFlagToggleHandler bool
  | CachePurgeHandler bool

definition handler_name :: "handler \<Rightarrow> string" where
  "handler_name h =
     (case h of
        StaticHandler name _ \<Rightarrow> name
      | PodRestartHandler _ \<Rightarrow> RestartPod
      | ConnectionPoolResizeHandler _ \<Rightarrow> ResizeConnectionPool
      | FeatureFlagToggleHandler _ \<Rightarrow> ToggleFeatureFlag
      | CachePurgeHandler _ \<Rightarrow> PurgeCache)"

definition cannot_execute :: "string \<Rightarrow> string \<Rightarrow> goerr" where
  "cannot_execute name actionType = errorf (''handler '' @ name @ '' cannot execute action '' @ actionType)"

definition validateTypedRequest :: "bool \<Rightarrow> string \<Rightarrow> remediation_action \<Rightarrow> goerr option" where
  "validateTypedRequest state action req =
     (if \<not> state then Some (errorf ''control-state backend is unavailable'')
      else if rem_IdempotencyKey req = [] then Some (errorf ''idempotency key is required'')
      else if rem_ActionType req \<noteq> action then Some (cannot_execute action (rem_ActionType req))
      else map_option errorf (Validate action (rem_Target req) (rem_Parameters req)))"

definition handler_validate :: "handler \<Rightarrow> remediation_action \<Rightarrow> goerr option" where
  "handler_validate h req =
     (case h of
        StaticHandler name _ \<Rightarrow>
          if rem_ActionType req \<noteq> name then Some (cannot_execute name (rem_ActionType req))
          else map_option errorf (Validate (rem_ActionType req) (rem_Target req) (rem_Parameters req))
      | PodRestartHandler state \<Rightarrow> validateTypedRequest state (handler_name h) req
      | ConnectionPoolResizeHandler state \<Rightarrow> validateTypedRequest state (handler_name h) req
      | FeatureFlagToggleHandler state \<Rightarrow> validateTypedRequest state (handler_name h) req
      | CachePurgeHandler state \<Rightarrow> validateTypedRequest state (handler_name h) req)"

definition cut_slash :: "string \<Rightarrow> string \<times> string" where
  "cut_slash s = (takeWhile (\<lambda>c. c \<noteq> CHR ''/'') s, drop 1 (dropWhile (\<lambda>c. c \<noteq> CHR ''/'') s))"

definition int_param :: "remediation_action \<Rightarrow> string \<Rightarrow> gval" where
  "int_param req k = VInt (case Integer (map_any (rem_Parameters req) k) of None \<Rightarrow> 0 | Some n \<Rightarrow> n)"

text \<open>The resource and the state a typed handler asks for.\<close>

definition desired_state :: "handler \<Rightarrow> remediation_action \<Rightarrow> string \<times> gval gomap" where
  "desired_state h req =
     (case h of
        StaticHandler _ _ \<Rightarrow> ([], [])
      | PodRestartHandler _ \<Rightarrow>
          (case cut_slash (rem_Target req) of (namespace, pod) \<Rightarrow>
             (''pod'', [(''namespace'', VStr namespace), (''pod'', VStr pod),
                        (''restart_token'', VStr (rem_IdempotencyKey req))]))
      | ConnectionPoolResizeHandler _ \<Rightarrow> (''connection_pool'', [(''max_connections'', int_param req ''size'')])
      | FeatureFlagToggleHandler _ \<Rightarrow> (''feature_flag'', [(''enabled'', map_any (rem_Parameters req) ''enabled'')])
      | CachePurgeHandler _ \<Rightarrow>
          (''cache_prefix'', [(''max_keys'', int_param req ''max_keys''), (''purge_token'', VStr (rem_IdempotencyKey req))]))"

definition static_result :: "string \<Rightarrow> string \<Rightarrow> remediation_action \<Rightarrow> gval gomap" where
  "static_result mode msg req = [(''mode'', VStr mode), (''message'', VStr msg), (''target'', VStr (rem_Target req))]"

definition handler_dry_run :: "handler \<Rightarrow> remediation_action \<Rightarrow> gval gomap prog" where
  "handler_dry_run h req =
     (case h of
        StaticHandler _ msg \<Rightarrow> ret (static_result ''dry-run'' msg req)
      | _ \<Rightarrow>
          (case handler_validate h req of
             Some err \<Rightarrow> fail err
           | None \<Rightarrow> (case desired_state h req of (resource, desired) \<Rightarrow> Preview resource (rem_Target req) desired)))"

definition handler_execute :: "handler \<Rightarrow> remediation_action \<Rightarrow> gval gomap prog" where
  "handler_execute h req =
     (case h of
        StaticHandler _ msg \<Rightarrow> ret (static_result ''execute'' msg req)
      | _ \<Rightarrow>
          (case handler_validate h req of
             Some err \<Rightarrow> fail err
           | None \<Rightarrow>
               (case desired_state h req of (resource, desired) \<Rightarrow>
                  ApplyOnce (rem_IdempotencyKey req) (handler_name h) resource (rem_Target req) desired)))"

definition DefaultHandlers :: "bool \<Rightarrow> handler list" where
  "DefaultHandlers state =
     [StaticHandler ''restart_service'' ''Typed handler validated restart_service; local demo execution remains bounded and auditable'',
      StaticHandler ''rollback_config'' ''Typed handler validated rollback_config against known-good demo configuration'',
      StaticHandler ''reload_nginx'' ''Typed handler validated nginx reload for the demo environment'',
      StaticHandler ''clear_redis_keyspace'' ''Typed handler validated deletion scope for demo:pressure:* redis keys'',
      StaticHandler ''drain_postgres_connections'' ''Typed handler validated demo-only postgres connection drain'',
      StaticHandler ''revert_feature_flag'' ''Typed handler validated optional notification feature flag revert'',
      StaticHandler ''disable_bad_route'' ''Typed handler validated disabling only the affected bad demo route'',
      PodRestartHandler state, ConnectionPoolResizeHandler state, FeatureFlagToggleHandler state, CachePurgeHandler state]"

end
