(* ===== verification/Workers.thy ===== *)
theory Workers
  imports Control_State Dispatch
begin

text \<open>
  The worker, \<^verbatim>\<open>src/internal/workers/runner.go\<close>, and the dead-letter side of
  \<^verbatim>\<open>src/internal/queue/nats.go\<close>. Handling a message ends with what the worker tells JetStream about it:
  acknowledge, redeliver after a delay, or never redeliver; the error it returns beside that is only
  logged. Whether JetStream hears the answer is the broker's affair: it redelivers what it did not
  hear about.
\<close>

section \<open>Configuration\<close>

record runner_config =
  Concurrency :: int
  JobTimeout :: int
  MaxDeliver :: int
  FetchWait :: int

definition DefaultRunnerConfig :: runner_config where
  "DefaultRunnerConfig = \<lparr>Concurrency = 4, JobTimeout = 2 * Minute, MaxDeliver = 5, FetchWait = 2 * Second\<rparr>"

record runner =
  run_handlers :: "handler gomap"
  run_cfg :: runner_config

definition NewRunner :: "handler list \<Rightarrow> runner" where
  "NewRunner handlers =
     \<lparr>run_handlers = foldl (\<lambda>m h. map_set m (handler_name h) h) [] handlers, run_cfg = DefaultRunnerConfig\<rparr>"

definition Configure :: "runner_config \<Rightarrow> runner \<Rightarrow> runner" where
  "Configure cfg r =
     (let def = DefaultRunnerConfig in
      r\<lparr>run_cfg := \<lparr>Concurrency = or_default (Concurrency cfg) (Concurrency def),
                    JobTimeout = or_default (JobTimeout cfg) (JobTimeout def),
                    MaxDeliver = or_default (MaxDeliver cfg) (MaxDeliver def),
                    FetchWait = or_default (FetchWait cfg) (FetchWait def)\<rparr>\<rparr>)"

record consumer_config =
  Durable :: string
  FilterSubject :: string
  AckWait :: int
  ConsumerMaxDeliver :: int
  MaxAckPending :: int

definition WorkerConsumer :: string where "WorkerConsumer = ''argus-remediation-workers''"

definition ConsumerConfig :: "runner \<Rightarrow> consumer_config" where
  "ConsumerConfig r =
     \<lparr>Durable = WorkerConsumer, FilterSubject = RemediationSubject, AckWait = JobTimeout (run_cfg r) + 30 * Second,
      ConsumerMaxDeliver = MaxDeliver (run_cfg r), MaxAckPending = 256\<rparr>"

section \<open>Delivery\<close>

definition deliveries :: "js_msg \<Rightarrow> int" where
  "deliveries msg = (case msg_Meta msg of Some meta \<Rightarrow> mt_NumDelivered meta | None \<Rightarrow> 1)"

definition RetryDelay :: "int \<Rightarrow> int" where
  "RetryDelay delivery =
     (let ceiling = 60 * Second; delivery = (if delivery < 1 then 1 else delivery)
      in if delivery > 7 then ceiling else min (2 ^ nat (delivery - 1) * Second) ceiling)"

datatype disposition = Ack | NakWithDelay int | Term

type_synonym handled = "disposition \<times> goerr option"

text \<open>
  \<^verbatim>\<open>Client.DeadLetter\<close>: the job goes to the dead-letter stream with the reason and its coordinates,
  which also identify it, so that the stream keeps it once.
\<close>

definition dead_header :: "js_msg \<Rightarrow> string \<Rightarrow> string gomap" where
  "dead_header msg reason =
     [(''Content-Type'', ''application/json''), (''Argus-Dead-Letter-Reason'', reason),
      (''Argus-Original-Subject'', msg_Subject msg)] @
     (case msg_Meta msg of
        None \<Rightarrow> []
      | Some meta \<Rightarrow>
          [(''Argus-Original-Stream'', mt_Stream meta), (''Argus-Stream-Sequence'', show_int (mt_Sequence meta)),
           (''Argus-Deliveries'', show_int (mt_NumDelivered meta))])"

definition dead_id :: "js_msg \<Rightarrow> string" where
  "dead_id msg =
     (case msg_Meta msg of None \<Rightarrow> [] | Some meta \<Rightarrow> ''dlq-'' @ mt_Stream meta @ ''-'' @ show_int (mt_Sequence meta))"

definition store_dead :: "js_msg \<Rightarrow> string \<Rightarrow> world \<Rightarrow> world" where
  "store_dead msg reason w =
     (if dead_id msg \<noteq> [] \<and> list_ex (\<lambda>(t, i). i = dead_id msg \<and> clock w - t < DuplicateWindow) (dead_ids w) then w
      else w\<lparr>dead_letters := dead_letters w @
               [\<lparr>dm_Sequence = dead_count w + 1, dm_Time = clock w, dm_Subject = DeadLetterSubject,
                 dm_Header = dead_header msg reason, dm_Data = msg_Data msg\<rparr>],
             dead_count := dead_count w + 1, dead_ids := dead_ids w @ [(clock w, dead_id msg)]\<rparr>)"

definition DeadLetter :: "js_msg \<Rightarrow> string \<Rightarrow> unit prog" where
  "DeadLetter msg reason = (\<lambda>e w. case tick e w of (s, w1) \<Rightarrow>
     (case ext_fault s of
        Fine \<Rightarrow> (Inr (), store_dead msg reason w1)
      | Broken err \<Rightarrow> (Inl (wrap ''publish dead letter'' (errorf err)), w1)
      | Lost err \<Rightarrow> (Inl (wrap ''publish dead letter'' (errorf err)), store_dead msg reason w1)))"

lemma keeps_DeadLetter [keep]: "keeps (DeadLetter msg reason)"
  by (simp add: keeps_def DeadLetter_def store_dead_def case_prod_beta split: fault.split)

definition deadLetter :: "js_msg \<Rightarrow> string \<Rightarrow> disposition prog" where
  "deadLetter msg reason = bind (attempt (DeadLetter msg reason)) (\<lambda>_. ret Term)"

definition retryLater :: "runner \<Rightarrow> js_msg \<Rightarrow> goerr \<Rightarrow> handled prog" where
  "retryLater r msg cause =
     (let n = deliveries msg in
      if n \<ge> MaxDeliver (run_cfg r) then
        bind (deadLetter msg ''retries_exhausted'') (\<lambda>disp.
        ret (disp, Some (wrap (''dead-lettered after '' @ show_int n @ '' deliveries'') cause)))
      else ret (NakWithDelay (RetryDelay n), Some cause))"

section \<open>Jobs\<close>

definition decode_event :: "string \<Rightarrow> event option" where
  "decode_event data =
     (case json_unmarshal data of
        Some (VMap m) \<Rightarrow>
          (case (string_field m ''event_id'', string_field m ''event_type'', time_field m ''occurred_at'',
                 string_field m ''producer'', string_field m ''trace_id'', string_field m ''idempotency_key'',
                 map_field m ''payload'') of
             (Some i, Some ty, Some at', Some p, Some tr, Some k, Some pl) \<Rightarrow>
               Some \<lparr>EventID = i, EventType = ty, OccurredAt = at', Producer = p, TraceID = tr, EvIdempotencyKey = k,
                     Payload = (case pl of None \<Rightarrow> [] | Some m \<Rightarrow> m)\<rparr>
           | _ \<Rightarrow> None)
      | Some VNil \<Rightarrow>
          Some \<lparr>EventID = [], EventType = [], OccurredAt = zero_time, Producer = [], TraceID = [], EvIdempotencyKey = [],
                Payload = []\<rparr>
      | _ \<Rightarrow> None)"

definition payload_id :: "event \<Rightarrow> string" where
  "payload_id event = (case map_any (Payload event) ''remediation_id'' of VStr s \<Rightarrow> s | _ \<Rightarrow> [])"

definition worker_entry :: "string \<Rightarrow> string \<Rightarrow> gval gomap \<Rightarrow> entry" where
  "worker_entry action remediationID after =
     entry0\<lparr>ent_ActorType := ''system'', ent_Action := action, ent_ResourceType := ''remediation'',
       ent_ResourceID := remediationID, ent_AfterState := Some after\<rparr>"

definition auditSkip :: "string \<Rightarrow> string \<Rightarrow> unit prog" where
  "auditSkip remediationID status =
     (if status = StateSucceeded then ret ()
      else Record ((worker_entry ''remediation.execution_skipped'' remediationID [(''status'', VStr status)])\<lparr>
             ent_Metadata := Some [(''reason'', VStr ''remediation is not queued or running'')]\<rparr>))"

definition finish :: "string \<Rightarrow> string \<Rightarrow> gval gomap option \<Rightarrow> string \<Rightarrow> entry \<Rightarrow> bool prog" where
  "finish remediationID status result errText ent =
     InTx (bind (CompleteRemediation remediationID status result errText) (\<lambda>ok.
           if \<not> ok then ret False else bind (WriteTx ent) (\<lambda>_. ret True)))"

text \<open>
  The handler runs under the job timeout. One that is not done by the deadline is reported as timed
  out; what it still did to the tables by the time it ended stays.
\<close>

datatype job_result = JobDone "gval gomap" | JobFailed goerr | JobTimedOut

definition runHandler :: "runner \<Rightarrow> handler \<Rightarrow> remediation_action \<Rightarrow> job_result prog" where
  "runHandler r handler remediation =
     bind time_now (\<lambda>begun.
     bind (attempt (if rem_DryRun remediation then handler_dry_run handler remediation
                    else handler_execute handler remediation)) (\<lambda>outcome.
     bind time_now (\<lambda>ended.
     if begun + JobTimeout (run_cfg r) \<le> ended then ret JobTimedOut
     else ret (case outcome of Inl err \<Rightarrow> JobFailed err | Inr result \<Rightarrow> JobDone result))))"

text \<open>Record a failure and acknowledge; if that cannot be recorded, retry the message.\<close>

definition finish_or_retry ::
  "runner \<Rightarrow> js_msg \<Rightarrow> string \<Rightarrow> string \<Rightarrow> string \<Rightarrow> entry \<Rightarrow> goerr \<Rightarrow> handled prog" where
  "finish_or_retry r msg remediationID status errText ent err =
     bind (attempt (finish remediationID status None errText ent)) (\<lambda>f.
     case f of Inl finishErr \<Rightarrow> retryLater r msg finishErr | Inr _ \<Rightarrow> ret (Ack, Some err))"

definition to_uint64 :: "int \<Rightarrow> int" where
  "to_uint64 n = n mod 2 ^ 64"

definition timeout_reason :: "runner \<Rightarrow> string" where
  "timeout_reason r =
     ''handler exceeded the '' @ duration_string (JobTimeout (run_cfg r)) @ '' job timeout; outcome unknown, not retried''"

definition retry_entry :: "string \<Rightarrow> goerr \<Rightarrow> int \<Rightarrow> entry" where
  "retry_entry remediationID err n =
     worker_entry ''remediation.retry_scheduled'' remediationID
       [(''status'', VStr StateRunning), (''error'', VStr (err_text err)), (''delivery_attempt'', VInt n),
        (''retry_after'', VStr (duration_string (RetryDelay n)))]"

definition after_run :: "runner \<Rightarrow> js_msg \<Rightarrow> remediation_action \<Rightarrow> job_result \<Rightarrow> handled prog" where
  "after_run r msg remediation outcome =
     (let rid = rem_ID remediation in
      case outcome of
        JobTimedOut \<Rightarrow>
          let reason = timeout_reason r in
          finish_or_retry r msg rid StateTimedOut reason
            (worker_entry ''remediation.timed_out'' rid [(''status'', VStr StateTimedOut), (''error'', VStr reason)]) (errorf reason)
      | JobFailed err \<Rightarrow>
          let n = deliveries msg in
          if n < to_uint64 (rem_MaxAttempts remediation) \<and> n < MaxDeliver (run_cfg r) then
            bind (Record (retry_entry rid err n)) (\<lambda>_. ret (NakWithDelay (RetryDelay n), Some err))
          else
            finish_or_retry r msg rid StateFailed (err_text err)
              (worker_entry ''remediation.failed'' rid
                 [(''status'', VStr StateFailed), (''error'', VStr (err_text err)), (''delivery_attempt'', VInt n)]) err
      | JobDone result \<Rightarrow>
          bind (attempt (finish rid StateSucceeded (Some result) []
                  (worker_entry ''remediation.completed'' rid [(''status'', VStr StateSucceeded), (''result'', VMap result)]))) (\<lambda>f.
          case f of
            Inl err \<Rightarrow> retryLater r msg err
          | Inr completed \<Rightarrow>
              if completed then ret (Ack, None)
              else bind (Record ((worker_entry ''remediation.completion_conflict'' rid [(''result'', VMap result)])\<lparr>
                          ent_Metadata := Some [(''reason'', VStr ''remediation left running before the result was recorded'')]\<rparr>)) (\<lambda>_.
                   ret (Ack, None))))"

definition run_job :: "runner \<Rightarrow> js_msg \<Rightarrow> handler \<Rightarrow> remediation_action \<Rightarrow> handled prog" where
  "run_job r msg handler remediation =
     (let rid = rem_ID remediation in
      case handler_validate handler remediation of
        Some err \<Rightarrow>
          finish_or_retry r msg rid StateFailed (err_text err)
            (worker_entry ''remediation.validation_failed'' rid [(''status'', VStr StateFailed), (''error'', VStr (err_text err))]) err
      | None \<Rightarrow>
          bind (attempt (ClaimRemediation rid)) (\<lambda>c.
          case c of
            Inl err \<Rightarrow> retryLater r msg err
          | Inr claimed \<Rightarrow>
              if \<not> claimed then
                bind (attempt (GetRemediation rid)) (\<lambda>latest.
                bind (auditSkip rid (case latest of Inr l \<Rightarrow> rem_Status l | Inl _ \<Rightarrow> ''unknown'')) (\<lambda>_.
                ret (Ack, None)))
              else bind (runHandler r handler remediation) (after_run r msg remediation)))"

definition handleMessage :: "runner \<Rightarrow> js_msg \<Rightarrow> handled prog" where
  "handleMessage r msg =
     (case decode_event (msg_Data msg) of
        None \<Rightarrow> bind (deadLetter msg ''undecodable_payload'') (\<lambda>disp. ret (disp, Some (errorf ''invalid job'')))
      | Some event \<Rightarrow>
          let remediationID = payload_id event in
          if remediationID = [] then
            bind (deadLetter msg ''missing_remediation_id'') (\<lambda>disp. ret (disp, Some (errorf ''job has no remediation_id'')))
          else
            bind (attempt (GetRemediation remediationID)) (\<lambda>got.
            case got of
              Inl err \<Rightarrow>
                if err_is err = Some ErrNoRows
                then bind (deadLetter msg ''remediation_not_found'') (\<lambda>disp. ret (disp, Some err))
                else retryLater r msg err
            | Inr remediation \<Rightarrow>
                if rem_Status remediation \<noteq> StateQueued \<and> rem_Status remediation \<noteq> StateRunning then
                  bind (auditSkip (rem_ID remediation) (rem_Status remediation)) (\<lambda>_. ret (Ack, None))
                else
                  (case map_of (run_handlers r) (rem_ActionType remediation) of
                     None \<Rightarrow>
                       let reason = ''no handler registered for '' @ rem_ActionType remediation in
                       finish_or_retry r msg (rem_ID remediation) StateFailed reason
                         (worker_entry ''remediation.failed'' (rem_ID remediation)
                            [(''status'', VStr StateFailed), (''error'', VStr reason)]) (errorf reason)
                   | Some handler \<Rightarrow> run_job r msg handler remediation)))"

text \<open>One beat: the actions the worker supports, in order.\<close>

definition beat :: "runner \<Rightarrow> string \<Rightarrow> string \<Rightarrow> unit prog" where
  "beat r workerID hostname =
     bind time_now (\<lambda>now.
     bind (attempt (UpsertWorkerHeartbeat workerID hostname now (stable_sort (<) (map fst (run_handlers r))))) (\<lambda>_. ret ()))"

end
