(* ===== verification/Go_Strconv.thy ===== *)
theory Go_Strconv
  imports Documents
begin

text \<open>
  What the evidence and API code uses of \<^verbatim>\<open>strconv\<close> and \<^verbatim>\<open>net/url\<close>: \<^verbatim>\<open>ParseFloat\<close>, for decimal and
  hexadecimal literals, underscores and the special values, and \<^verbatim>\<open>QueryEscape\<close>.
\<close>

section \<open>Reading floating-point numbers\<close>

definition is_hex :: "char \<Rightarrow> bool" where
  "is_hex c \<longleftrightarrow> hex_val c \<noteq> None"

definition base_val :: "int \<Rightarrow> string \<Rightarrow> int" where
  "base_val b ds = foldl (\<lambda>n c. b * n + (case hex_val c of None \<Rightarrow> 0 | Some d \<Rightarrow> d)) 0 ds"

text \<open>
  \<^verbatim>\<open>underscoreOK\<close> after the sign: an underscore stands between digits, or between the base prefix and a
  digit. The state is the class of the previous character: a digit, an underscore, or neither.
\<close>

datatype char_class = Digit | Underscore | Other

fun underscores_ok :: "bool \<Rightarrow> char_class \<Rightarrow> string \<Rightarrow> bool" where
  "underscores_ok hex c [] = (c \<noteq> Underscore)"
| "underscores_ok hex c (x # xs) =
     (if is_digit x \<or> hex \<and> is_hex x then underscores_ok hex Digit xs
      else if x = CHR ''_'' then c = Digit \<and> underscores_ok hex Underscore xs
      else c \<noteq> Underscore \<and> underscores_ok hex Other xs)"

definition no_underscores :: "string \<Rightarrow> string" where
  "no_underscores s = filter (\<lambda>c. c \<noteq> CHR ''_'') s"

definition exponent_val :: "string \<Rightarrow> int option" where
  "exponent_val s =
     (case split_sign ''+-'' s of (sg, ds) \<Rightarrow>
        if ds = [] \<or> \<not> is_digit (hd ds) \<or> \<not> list_all (\<lambda>c. is_digit c \<or> c = CHR ''_'') ds then None
        else Some ((if sg = ''-'' then -1 else 1) * digits_val (no_underscores ds)))"

definition mantissa_char :: "bool \<Rightarrow> char \<Rightarrow> bool" where
  "mantissa_char hex c \<longleftrightarrow> is_digit c \<or> c = CHR ''.'' \<or> c = CHR ''_'' \<or> hex \<and> is_hex c"

text \<open>The exact value of a literal without its sign and base prefix.\<close>

definition unsigned_float :: "bool \<Rightarrow> string \<Rightarrow> rat option" where
  "unsigned_float hex s =
     (let m = no_underscores (takeWhile (mantissa_char hex) s); r = dropWhile (mantissa_char hex) s;
          ip = takeWhile (\<lambda>c. c \<noteq> CHR ''.'') m; fp = drop 1 (dropWhile (\<lambda>c. c \<noteq> CHR ''.'') m);
          ex = (case r of
                  [] \<Rightarrow> if hex then None else Some 0
                | c # r' \<Rightarrow> if lower_char c = (if hex then CHR ''p'' else CHR ''e'') then exponent_val r' else None)
      in if CHR ''.'' \<in> set fp \<or> ip @ fp = [] then None
         else map_option (\<lambda>e.
           if hex then of_int (base_val 16 (ip @ fp)) * 2 powi (e - 4 * int (length fp))
           else of_int (base_val 10 (ip @ fp)) * pow10 (e - int (length fp))) ex)"

definition special_float :: "string \<Rightarrow> f64 option" where
  "special_float s =
     (case split_sign ''+-'' s of (sg, r) \<Rightarrow>
        if to_lower r = ''inf'' \<or> to_lower r = ''infinity'' then Some (if sg = ''-'' then NegInf else PosInf)
        else if to_lower s = ''nan'' then Some NaN
        else None)"

definition ParseFloat :: "string \<Rightarrow> string + f64" where
  "ParseFloat s =
     (case special_float s of
        Some v \<Rightarrow> Inr v
      | None \<Rightarrow>
          (case split_sign ''+-'' s of (sg, r) \<Rightarrow>
             let hex = 2 < length r \<and> to_lower (take 2 r) = ''0x'';
                 body = (if hex then drop 2 r else r)
             in case unsigned_float hex body of
                  None \<Rightarrow> Inl (''strconv.ParseFloat: parsing '' @ quote s @ '': invalid syntax'')
                | Some q \<Rightarrow>
                    if CHR ''_'' \<in> set s \<and> \<not> underscores_ok hex (if hex then Digit else Other) body
                    then Inl (''strconv.ParseFloat: parsing '' @ quote s @ '': invalid syntax'')
                    else if 2 ^ 1024 \<le> fl q then Inl (''strconv.ParseFloat: parsing '' @ quote s @ '': value out of range'')
                    else Inr (Fin (if sg = ''-'' then - fl q else fl q))))"

lemma ParseFloat_samples:
  "ParseFloat ''0.25'' = Inr (Fin (1 / 4))" "ParseFloat ''-1e3'' = Inr (Fin (-1000))" "ParseFloat ''0x1p-2'' = Inr (Fin (1 / 4))"
  "ParseFloat ''NaN'' = Inr NaN" "ParseFloat ''-Inf'' = Inr NegInf" "ParseFloat ''1_000.5'' = Inr (Fin (2001 / 2))"
  "ParseFloat ''.'' = Inl (''strconv.ParseFloat: parsing '' @ quote ''.'' @ '': invalid syntax'')"
  by code_simp+

text \<open>The order of \<^verbatim>\<open>float64\<close> values other than \<^verbatim>\<open>NaN\<close>.\<close>

fun f64_less :: "f64 \<Rightarrow> f64 \<Rightarrow> bool" where
  "f64_less (Fin a) (Fin b) = (a < b)"
| "f64_less NegInf b = (b = PosInf \<or> (case b of Fin _ \<Rightarrow> True | _ \<Rightarrow> False))"
| "f64_less a PosInf = (a \<noteq> PosInf \<and> a \<noteq> NaN)"
| "f64_less _ _ = False"

section \<open>Query strings\<close>

definition url_unreserved :: "char \<Rightarrow> bool" where
  "url_unreserved c \<longleftrightarrow>
     byte_in 48 57 c \<or> byte_in 65 90 c \<or> byte_in 97 122 c \<or> c \<in> set ''-_.~''"

definition query_escape_char :: "char \<Rightarrow> string" where
  "query_escape_char c =
     (if url_unreserved c then [c] else if c = CHR '' '' then ''+''
      else [CHR ''%'', upper_char (hex_digit (of_char c div 16)), upper_char (hex_digit (of_char c mod 16))])"

definition query_escape :: "string \<Rightarrow> string" where
  "query_escape s = concat (map query_escape_char s)"

lemma query_escape_sample: "query_escape ''a b{x=\"1\"}'' = ''a+b%7Bx%3D%221%22%7D''"
  by code_simp

end
