(* ===== verification/Evidence.thy ===== *)
theory Evidence
  imports Go_Strconv Actions World
begin

text \<open>
  Corroboration probes, \<^verbatim>\<open>src/internal/evidence/evidence.go\<close>, and the client that sends them to
  Prometheus and Loki, \<^verbatim>\<open>src/internal/evidence/http.go\<close>. A probe counts only when a configured backend
  answered it. Probes run concurrently in the code and write to separate slots; here they run in
  probe order, which is the order of the slots.
\<close>

section \<open>Probes and results\<close>

definition Prometheus :: string where "Prometheus = ''prometheus''"
definition Loki :: string where "Loki = ''loki''"

definition AtLeast :: string where "AtLeast = ''>=''"
definition Above :: string where "Above = ''>''"
definition AtMost :: string where "AtMost = ''<=''"
definition Below :: string where "Below = ''<''"
definition Variable :: string where "Variable = ''{{service}}''"

record probe =
  pb_ID :: string
  pb_Backend :: string
  pb_Query :: string
  pb_Comparator :: string
  pb_Threshold :: rat
  pb_Weight :: rat
  pb_Claim :: string
  pb_Symptom :: bool

definition StatusCorroborated :: string where "StatusCorroborated = ''corroborated''"
definition StatusRefuted :: string where "StatusRefuted = ''refuted''"
definition StatusNoData :: string where "StatusNoData = ''no_data''"
definition StatusUnavailable :: string where "StatusUnavailable = ''unavailable''"

lemmas evidence_statuses = StatusCorroborated_def StatusRefuted_def StatusNoData_def StatusUnavailable_def

record probe_result =
  er_ProbeID :: string
  er_Backend :: string
  er_Query :: string
  er_Comparator :: string
  er_Threshold :: rat
  er_Weight :: rat
  er_Claim :: string
  er_Symptom :: bool
  er_Status :: string
  er_Value :: "rat option"
  er_Error :: string
  er_EvaluatedAt :: int

section \<open>Rendering\<close>

text \<open>The pattern \<^verbatim>\<open>^[a-z0-9](?:[a-z0-9._-]{0,61}[a-z0-9])?$\<close>.\<close>

definition safe_char :: "char \<Rightarrow> bool" where
  "safe_char c \<longleftrightarrow> label_alnum c \<or> c \<in> set ''._-''"

fun safeLabelValue :: "string \<Rightarrow> bool" where
  "safeLabelValue [] = False"
| "safeLabelValue (c # r) =
     (label_alnum c \<and>
      (r = [] \<or> length r \<le> 62 \<and> list_all safe_char (butlast r) \<and> label_alnum (last r)))"

definition RenderProbe :: "string \<Rightarrow> string \<Rightarrow> string + string" where
  "RenderProbe template service =
     (if \<not> safeLabelValue service
      then Inl (''service '' @ quote service @ '' is not a safe label value; probe not executed'')
      else let rendered = replace_all template Variable service in
        if contains_str rendered ''{{'' then Inl ''probe template has an unknown placeholder''
        else Inr rendered)"

definition ValidateProbe :: "probe \<Rightarrow> string option" where
  "ValidateProbe p =
     (if trim_space (pb_ID p) = [] then Some ''probe id is required''
      else if pb_Backend p \<noteq> Prometheus \<and> pb_Backend p \<noteq> Loki
        then Some (''probe '' @ pb_ID p @ '': unknown backend '' @ quote (pb_Backend p))
      else if \<not> contains_str (pb_Query p) Variable
        then Some (''probe '' @ pb_ID p @ '': query must be scoped with '' @ Variable)
      else if pb_Weight p \<le> 0 \<or> pb_Weight p > 1 / 2
        then Some (''probe '' @ pb_ID p @ '': weight must be in (0, 0.5]'')
      else if trim_space (pb_Claim p) = [] then Some (''probe '' @ pb_ID p @ '': claim is required'')
      else if pb_Comparator p \<notin> set [AtLeast, Above, AtMost, Below]
        then Some (''probe '' @ pb_ID p @ '': unknown comparator '' @ quote (pb_Comparator p))
      else case RenderProbe (pb_Query p) ''probe-check'' of
        Inl err \<Rightarrow> Some (''probe '' @ pb_ID p @ '': '' @ err)
      | Inr _ \<Rightarrow> None)"

section \<open>Running probes\<close>

definition Compare :: "rat \<Rightarrow> string \<Rightarrow> rat \<Rightarrow> bool" where
  "Compare value comparator threshold =
     (if comparator = AtLeast then value \<ge> threshold
      else if comparator = Above then value > threshold
      else if comparator = AtMost then value \<le> threshold
      else if comparator = Below then value < threshold
      else False)"

text \<open>An instant query returns a value and whether the backend had a usable sample.\<close>

type_synonym querier = "string \<Rightarrow> int \<Rightarrow> (f64 \<times> bool) prog"

record collector =
  col_backends :: "(string \<times> querier) list"
  col_timeout :: int

text \<open>A \<^verbatim>\<open>nil\<close> querier is \<open>None\<close>.\<close>

definition NewCollector :: "int \<Rightarrow> (string \<times> querier option) list \<Rightarrow> collector" where
  "NewCollector timeout backends =
     \<lparr>col_backends = concat (map (\<lambda>(b, q). case q of None \<Rightarrow> [] | Some f \<Rightarrow> [(b, f)]) backends),
      col_timeout = (if timeout \<le> 0 then 3 * Second else timeout)\<rparr>"

definition Configured :: "collector option \<Rightarrow> string \<Rightarrow> bool" where
  "Configured c backend = (case c of None \<Rightarrow> False | Some k \<Rightarrow> map_of (col_backends k) backend \<noteq> None)"

definition unanswered :: "probe \<Rightarrow> int \<Rightarrow> probe_result" where
  "unanswered p now =
     \<lparr>er_ProbeID = pb_ID p, er_Backend = pb_Backend p, er_Query = pb_Query p, er_Comparator = pb_Comparator p,
      er_Threshold = pb_Threshold p, er_Weight = pb_Weight p, er_Claim = pb_Claim p, er_Symptom = pb_Symptom p,
      er_Status = StatusUnavailable, er_Value = None, er_Error = [], er_EvaluatedAt = now\<rparr>"

text \<open>What a backend's answer makes of the result.\<close>

definition judged :: "probe_result \<Rightarrow> f64 \<times> bool \<Rightarrow> probe_result" where
  "judged r answer =
     (case answer of
        (Fin value, True) \<Rightarrow>
          r\<lparr>er_Value := Some value,
            er_Status := (if Compare value (er_Comparator r) (er_Threshold r) then StatusCorroborated else StatusRefuted)\<rparr>
      | _ \<Rightarrow> r\<lparr>er_Status := StatusNoData\<rparr>)"

definition runOne :: "collector option \<Rightarrow> probe \<Rightarrow> string \<Rightarrow> int \<Rightarrow> probe_result prog" where
  "runOne c p service now =
     (case RenderProbe (pb_Query p) service of
        Inl err \<Rightarrow> ret ((unanswered p now)\<lparr>er_Error := err\<rparr>)
      | Inr rendered \<Rightarrow>
          (let result = (unanswered p now)\<lparr>er_Query := rendered\<rparr> in
           case Option.bind c (\<lambda>k. map_of (col_backends k) (pb_Backend p)) of
             None \<Rightarrow> ret (result\<lparr>er_Error := pb_Backend p @ '' backend not configured''\<rparr>)
           | Some querier \<Rightarrow>
               bind (attempt (querier rendered now)) (\<lambda>answer.
               ret (case answer of
                      Inl err \<Rightarrow> result\<lparr>er_Error := err_text err\<rparr>
                    | Inr a \<Rightarrow> judged result a))))"

definition RunProbes :: "collector option \<Rightarrow> probe list \<Rightarrow> string \<Rightarrow> int \<Rightarrow> (probe_result list) prog" where
  "RunProbes c probes service now = for_each probes (\<lambda>p. runOne c p service now)"

section \<open>The HTTP client\<close>

record http_querier =
  hq_backend :: string
  hq_endpoint :: string
  hq_token :: string

definition maxResponseBytes :: int where "maxResponseBytes = 4 * 2 ^ 20"

text \<open>
  A \<^verbatim>\<open>json.RawMessage\<close> member: \<open>None\<close> when it is absent, which is not the same as \<^verbatim>\<open>null\<close>.
\<close>

definition raw_member :: "gval gomap \<Rightarrow> string \<Rightarrow> gval option" where
  "raw_member m k = map_option snd (find (\<lambda>(k', v). equal_fold k' k) (rev m))"

record api_envelope =
  ae_Status :: string
  ae_ErrorType :: string
  ae_Error :: string
  ae_ResultType :: string
  ae_Result :: "gval option"

definition decode_data :: "gval \<Rightarrow> (string \<times> gval option) option" where
  "decode_data v =
     (case v of
        VNil \<Rightarrow> Some ([], None)
      | VMap m \<Rightarrow> map_option (\<lambda>t. (t, raw_member m ''result'')) (string_field m ''resultType'')
      | _ \<Rightarrow> None)"

definition decode_envelope :: "string \<Rightarrow> api_envelope option" where
  "decode_envelope body =
     (case json_unmarshal body of
        Some VNil \<Rightarrow> Some \<lparr>ae_Status = [], ae_ErrorType = [], ae_Error = [], ae_ResultType = [], ae_Result = None\<rparr>
      | Some (VMap m) \<Rightarrow>
          (case (string_field m ''status'', string_field m ''errorType'', string_field m ''error'', decode_data (member m ''data'')) of
             (Some s, Some t, Some e, Some (rt, res)) \<Rightarrow>
               Some \<lparr>ae_Status = s, ae_ErrorType = t, ae_Error = e, ae_ResultType = rt, ae_Result = res\<rparr>
           | _ \<Rightarrow> None)
      | _ \<Rightarrow> None)"

text \<open>The second element of a \<^verbatim>\<open>[2]json.RawMessage\<close>.\<close>

definition second_raw :: "gval \<Rightarrow> gval option option" where
  "second_raw v =
     (case v of VNil \<Rightarrow> Some None | VList vs \<Rightarrow> Some (if length vs < 2 then None else Some (vs ! 1)) | _ \<Rightarrow> None)"

definition series_item :: "gval \<Rightarrow> gval option option" where
  "series_item v = (case v of VNil \<Rightarrow> Some None | VMap m \<Rightarrow> second_raw (member m ''value'') | _ \<Rightarrow> None)"

definition decode_series :: "gval option \<Rightarrow> (gval option list) option" where
  "decode_series result =
     (case result of
        Some VNil \<Rightarrow> Some [] | Some (VList vs) \<Rightarrow> all_some (map series_item vs) | _ \<Rightarrow> None)"

definition sampleValue :: "gval option \<Rightarrow> string + f64" where
  "sampleValue raw =
     (case raw of Some (VStr text) \<Rightarrow> ParseFloat text | Some VNil \<Rightarrow> ParseFloat [] | _ \<Rightarrow> Inl ''invalid JSON'')"

text \<open>The largest sample that is a number.\<close>

fun best_sample :: "f64 option \<Rightarrow> gval option list \<Rightarrow> string + f64 option" where
  "best_sample best [] = Inr best"
| "best_sample best (item # items) =
     (case sampleValue item of
        Inl err \<Rightarrow> Inl err
      | Inr value \<Rightarrow>
          best_sample
            (if value = NaN then best
             else case best of None \<Rightarrow> Some value | Some b \<Rightarrow> if f64_less b value then Some value else best) items)"

definition instant_answer :: "f64 option \<Rightarrow> f64 \<times> bool" where
  "instant_answer v = (case v of None \<Rightarrow> (Fin 0, False) | Some x \<Rightarrow> (x, True))"

definition parseInstant :: "string \<Rightarrow> int \<Rightarrow> string \<Rightarrow> goerr + f64 \<times> bool" where
  "parseInstant backend statusCode body =
     (let envelope = decode_envelope body in
      if statusCode \<noteq> 200 then
        Inl (errorf (case envelope of
               Some env \<Rightarrow>
                 if ae_Error env \<noteq> [] then backend @ '' returned HTTP '' @ show_int statusCode @ '': '' @ ae_Error env
                 else backend @ '' returned HTTP '' @ show_int statusCode
             | None \<Rightarrow> backend @ '' returned HTTP '' @ show_int statusCode))
      else case envelope of
        None \<Rightarrow> Inl (errorf (backend @ '' returned invalid JSON: invalid JSON''))
      | Some env \<Rightarrow>
          if ae_Status env \<noteq> ''success''
          then Inl (errorf (backend @ '' query status '' @ quote (ae_Status env) @ '': '' @ ae_Error env))
          else if ae_ResultType env = ''vector'' then
            (case decode_series (ae_Result env) of
               None \<Rightarrow> Inl (errorf (backend @ '' returned an invalid vector: invalid JSON''))
             | Some series \<Rightarrow>
                 (case best_sample None series of
                    Inl err \<Rightarrow> Inl (errorf (backend @ '' returned an invalid sample: '' @ err))
                  | Inr best \<Rightarrow> Inr (instant_answer best)))
          else if ae_ResultType env = ''scalar'' then
            (case Option.bind (ae_Result env) second_raw of
               None \<Rightarrow> Inl (errorf (backend @ '' returned an invalid scalar: invalid JSON''))
             | Some sample \<Rightarrow>
                 (case sampleValue sample of
                    Inl err \<Rightarrow> Inl (errorf (backend @ '' returned an invalid scalar: '' @ err))
                  | Inr value \<Rightarrow> Inr (instant_answer (if value = NaN then None else Some value))))
          else Inl (errorf (backend @ '' returned result type '' @ quote (ae_ResultType env) @
                 ''; probes must aggregate to a vector or scalar'')))"

definition query_time :: "string \<Rightarrow> int \<Rightarrow> string" where
  "query_time backend now =
     (if backend = Loki then show_int (wrap64 now)
      else fmt_fixed 3 (fdiv (of_int (now div Millisecond)) 1000))"

definition Instant :: "http_querier \<Rightarrow> querier" where
  "Instant q text now =
     bind (wrap_err (hq_backend q @ '' query failed'') (http_do
       \<lparr>hr_Method = ''GET'',
        hr_URL = hq_endpoint q @ ''?query='' @ query_escape text @ ''&time='' @ query_escape (query_time (hq_backend q) now),
        hr_Headers = (''Accept'', ''application/json'') #
          (if hq_token q \<noteq> [] then [(''Authorization'', ''Bearer '' @ hq_token q)] else []),
        hr_Body = []\<rparr>)) (\<lambda>resp.
     if int (length (hs_Body resp)) > maxResponseBytes
     then fail (errorf (hq_backend q @ '' response exceeded '' @ show_int maxResponseBytes @ '' bytes''))
     else asks (\<lambda>e. parseInstant (hq_backend q) (hs_StatusCode resp) (hs_Body resp)))"

definition newHTTPQuerier :: "string \<Rightarrow> string \<Rightarrow> string \<Rightarrow> string \<Rightarrow> querier option" where
  "newHTTPQuerier backend baseURL path token =
     (let base = trim_right_char (CHR ''/'') (trim_space baseURL) in
      if base = [] then None
      else Some (Instant \<lparr>hq_backend = backend, hq_endpoint = base @ path, hq_token = token\<rparr>))"

definition NewPrometheus :: "string \<Rightarrow> string \<Rightarrow> querier option" where
  "NewPrometheus baseURL bearerToken = newHTTPQuerier Prometheus baseURL ''/api/v1/query'' bearerToken"

definition NewLoki :: "string \<Rightarrow> string \<Rightarrow> querier option" where
  "NewLoki baseURL bearerToken = newHTTPQuerier Loki baseURL ''/loki/api/v1/query'' bearerToken"

section \<open>Rendered queries and observed results\<close>

text \<open>What remains of a query without label characters and braces.\<close>

definition structural :: "string \<Rightarrow> string" where
  "structural s = filter (\<lambda>c. \<not> safe_char c \<and> c \<noteq> CHR ''{'' \<and> c \<noteq> CHR ''}'') s"

lemma filter_replace_all:
  assumes "old \<noteq> []" and "filter P old = []" and "filter P new = []"
  shows "filter P (replace_all s old new) = filter P s"
  using assms
proof (induction s old new rule: replace_all.induct)
  case (2 c s old new)
  show ?case
  proof (cases "has_prefix (c # s) old")
    case True
    then obtain r where r: "c # s = old @ r" by (auto simp: has_prefix_iff)
    have "filter P (drop (length old - 1) s) = filter P (c # s)"
      using r 2(3,4) by (cases old) (auto split: if_splits)
    then show ?thesis using True 2 by simp
  qed (use 2 in simp)
qed simp

lemma safeLabelValue_chars: "safeLabelValue s \<Longrightarrow> list_all safe_char s \<and> s \<noteq> [] \<and> length s \<le> 63"
proof (cases s)
  case (Cons c r)
  assume *: "safeLabelValue s"
  then have "list_all safe_char r"
    using Cons by (cases r rule: rev_cases) (auto simp: safe_char_def)
  then show ?thesis using * Cons by (auto simp: safe_char_def)
qed simp

lemma structural_safe: "list_all safe_char s \<Longrightarrow> structural s = []"
  by (simp add: structural_def filter_empty_conv list_all_iff)

lemma structural_Variable: "structural Variable = []"
  by code_simp

text \<open>
  C38: A service name from an alert cannot change the structure of a query. When a probe is rendered,
  the name is a label of at most 63 safe characters, it replaces the placeholder, no placeholder is
  left, and quotes, backslashes, operators and every other character that is neither a label
  character nor a brace stand in the query exactly as in the template.
\<close>

theorem rendering_cannot_inject:
  "case RenderProbe template service of
     Inl err \<Rightarrow> True
   | Inr rendered \<Rightarrow>
       rendered = replace_all template Variable service \<and> structural rendered = structural template \<and>
       \<not> contains_str rendered ''{{'' \<and> list_all safe_char service \<and> service \<noteq> [] \<and> length service \<le> 63"
  using safeLabelValue_chars [of service] structural_safe [of service] structural_Variable [unfolded Variable_def]
  by (auto simp: RenderProbe_def Let_def structural_def Variable_def intro!: filter_replace_all)

text \<open>
  What asking a backend comes to: no answer, because the query cannot be rendered safely, the backend
  is not configured or the call fails; an answer without a finite sample; or a sample.
\<close>

datatype probe_answer = Unreached | Empty | Sampled rat

definition ask_backend :: "collector option \<Rightarrow> probe \<Rightarrow> string \<Rightarrow> int \<Rightarrow> env \<Rightarrow> world \<Rightarrow> probe_answer \<times> world" where
  "ask_backend c p service now e w =
     (case (RenderProbe (pb_Query p) service, Option.bind c (\<lambda>k. map_of (col_backends k) (pb_Backend p))) of
        (Inr rendered, Some querier) \<Rightarrow>
          (case querier rendered now e w of
             (Inl err, w') \<Rightarrow> (Unreached, w')
           | (Inr (Fin v, usable), w') \<Rightarrow> (if usable then Sampled v else Empty, w')
           | (Inr _, w') \<Rightarrow> (Empty, w'))
      | _ \<Rightarrow> (Unreached, w))"

definition observed_as :: "probe \<Rightarrow> probe_answer \<Rightarrow> probe_result \<Rightarrow> bool" where
  "observed_as p a r \<longleftrightarrow>
     er_ProbeID r = pb_ID p \<and> er_Backend r = pb_Backend p \<and> er_Weight r = pb_Weight p \<and> er_Symptom r = pb_Symptom p \<and> er_Claim r = pb_Claim p \<and>
     (er_Status r = StatusCorroborated \<longleftrightarrow> (\<exists>v. a = Sampled v \<and> Compare v (pb_Comparator p) (pb_Threshold p))) \<and>
     (er_Status r = StatusRefuted \<longleftrightarrow> (\<exists>v. a = Sampled v \<and> \<not> Compare v (pb_Comparator p) (pb_Threshold p))) \<and>
     (er_Status r = StatusNoData \<longleftrightarrow> a = Empty) \<and> (er_Status r = StatusUnavailable \<longleftrightarrow> a = Unreached) \<and>
     er_Value r = (case a of Sampled v \<Rightarrow> Some v | _ \<Rightarrow> None)"

lemma runOne_observed:
  obtains r where "runOne c p service now e w = (Inr r, snd (ask_backend c p service now e w))" "observed_as p (fst (ask_backend c p service now e w)) r"
proof -
  note defs = runOne_def ask_backend_def observed_as_def ret_def unanswered_def Let_def bind_def attempt_def judged_def
    StatusCorroborated_def StatusRefuted_def StatusNoData_def StatusUnavailable_def
  have "case runOne c p service now e w of (Inl _, _) \<Rightarrow> False
    | (Inr r, w') \<Rightarrow> w' = snd (ask_backend c p service now e w) \<and> observed_as p (fst (ask_backend c p service now e w)) r"
    by (auto simp: defs split: sum.splits option.splits prod.splits f64.splits bool.splits if_splits)
  then show ?thesis by (auto intro: that split: prod.splits sum.splits)
qed

text \<open>One probe after the other, each asked in the world the previous one left.\<close>

fun observed_all :: "collector option \<Rightarrow> string \<Rightarrow> int \<Rightarrow> env \<Rightarrow> world \<Rightarrow> probe list \<Rightarrow> probe_result list \<Rightarrow> world \<Rightarrow> bool" where
  "observed_all c service now e w [] rs w' \<longleftrightarrow> rs = [] \<and> w' = w"
| "observed_all c service now e w (p # ps) rs w' \<longleftrightarrow>
     (case (rs, ask_backend c p service now e w) of
        (r # rs', (a, w1)) \<Rightarrow> observed_as p a r \<and> observed_all c service now e w1 ps rs' w'
      | _ \<Rightarrow> False)"

lemma RunProbes_observed:
  "case RunProbes c probes service now e w of (Inl err, _) \<Rightarrow> False | (Inr rs, w') \<Rightarrow> observed_all c service now e w probes rs w'"
  unfolding RunProbes_def
proof (induction probes arbitrary: w)
  case (Cons p ps)
  obtain r where "runOne c p service now e w = (Inr r, snd (ask_backend c p service now e w))" "observed_as p (fst (ask_backend c p service now e w)) r"
    by (rule runOne_observed)
  with Cons.IH [of "snd (ask_backend c p service now e w)"] show ?case
    by (auto simp: bind_def ret_def split: prod.splits sum.splits)
qed (simp add: ret_def)

text \<open>
  C39: A probe always yields a result, and the result says what was observed: it is corroborated or
  refuted exactly when the query was rendered safely, its backend is configured and answered that query
  with a usable, finite sample that does or does not meet the comparison, and then it holds that sample;
  it has no data exactly when the answer has no such sample, and is unavailable exactly when there is
  no answer. The collector gives one such result for each of its probes, in their order, whatever fails.
\<close>

theorem results_are_observed:
  "(case runOne c p service now e w of
      (Inl err, _) \<Rightarrow> False
    | (Inr r, w') \<Rightarrow> (case ask_backend c p service now e w of (a, w1) \<Rightarrow> observed_as p a r \<and> w' = w1)) \<and>
   (case RunProbes c probes service now e w of
      (Inl err, _) \<Rightarrow> False
    | (Inr rs, w') \<Rightarrow> observed_all c service now e w probes rs w')"
proof
  show "case RunProbes c probes service now e w of (Inl err, _) \<Rightarrow> False | (Inr rs, w') \<Rightarrow> observed_all c service now e w probes rs w'"
    by (rule RunProbes_observed)
qed (rule runOne_observed [of c p service now e w], simp add: case_prod_beta)

end
