(* ===== verification/Correlation.thy ===== *)
theory Correlation
  imports Evidence
begin

text \<open>
  The failure modes the analysis knows, \<^verbatim>\<open>src/internal/correlation/rules.go\<close>, and the matching of
  persisted alert signals to them, \<^verbatim>\<open>src/internal/correlation/correlator.go\<close>. A rule is selected by an
  alert's name or its explicit failure-mode label, never by free text.
\<close>

section \<open>Rules\<close>

definition RulePostgresConnectionExhaustion :: string where
  "RulePostgresConnectionExhaustion = ''postgres_connection_exhaustion''"
definition RuleRedisMemoryPressure :: string where "RuleRedisMemoryPressure = ''redis_memory_pressure''"
definition RuleNginxUpstreamConfig :: string where "RuleNginxUpstreamConfig = ''nginx_upstream_config''"
definition RuleDependencyLatency :: string where "RuleDependencyLatency = ''dependency_latency''"
definition RuleBadConfigRollout :: string where "RuleBadConfigRollout = ''bad_config_rollout''"

definition FailureModeLabel :: string where "FailureModeLabel = ''argus_failure_mode''"

record candidate_template =
  ct_ActionType :: string
  ct_TargetLabel :: string
  ct_FallbackToService :: bool
  ct_TargetFormat :: string
  ct_Parameters :: "gval gomap"
  ct_Risk :: string

record rule =
  ru_ID :: string
  ru_Hypothesis :: string
  ru_AlertNames :: "string list"
  ru_Probes :: "probe list"
  ru_Remediations :: "candidate_template list"

text \<open>The zero value of a template, from which the table's literals set some fields.\<close>

definition template0 :: candidate_template where
  "template0 =
     \<lparr>ct_ActionType = [], ct_TargetLabel = [], ct_FallbackToService = False, ct_TargetFormat = [],
      ct_Parameters = [], ct_Risk = []\<rparr>"

definition errorRatioQuery :: string where
  "errorRatioQuery =
     ''sum(rate(http_requests_total{service=\"{{service}}\",status=~\"5..\"}[5m])) / sum(rate(http_requests_total{service=\"{{service}}\"}[5m]))''"

definition p95LatencyQuery :: string where
  "p95LatencyQuery =
     ''histogram_quantile(0.95, sum by (le) (rate(http_request_duration_seconds_bucket{service=\"{{service}}\"}[5m])))''"

definition errorRatioProbe :: "string \<Rightarrow> rat \<Rightarrow> probe" where
  "errorRatioProbe pid weight =
     \<lparr>pb_ID = pid, pb_Backend = Prometheus, pb_Query = errorRatioQuery, pb_Comparator = AtLeast,
      pb_Threshold = fl (5 / 100), pb_Weight = weight, pb_Claim = ''5xx response ratio is at or above 5%'', pb_Symptom = True\<rparr>"

definition logProbe :: "string \<Rightarrow> string \<Rightarrow> string \<Rightarrow> rat \<Rightarrow> probe" where
  "logProbe pid flt claim weight =
     \<lparr>pb_ID = pid, pb_Backend = Loki,
      pb_Query = ''sum(count_over_time({service=\"{{service}}\"} '' @ flt @ '' [10m]))'',
      pb_Comparator = AtLeast, pb_Threshold = 1, pb_Weight = weight, pb_Claim = claim, pb_Symptom = False\<rparr>"

text \<open>A decimal constant of the table is the \<^verbatim>\<open>float64\<close> nearest to it.\<close>

definition postgres_rule :: rule where
  "postgres_rule =
     \<lparr>ru_ID = RulePostgresConnectionExhaustion,
      ru_Hypothesis = ''PostgreSQL connection pool exhaustion'',
      ru_AlertNames = [''PaymentsAPIPostgresConnectionExhaustion'', ''PaymentsAPIPostgresPoolSaturation'', ''PostgresConnectionPoolExhausted''],
      ru_Probes =
        [\<lparr>pb_ID = ''postgres_pool_utilisation'', pb_Backend = Prometheus,
          pb_Query = ''max(db_connection_pool_in_use{service=\"{{service}}\"} / db_connection_pool_max{service=\"{{service}}\"})'',
          pb_Comparator = AtLeast, pb_Threshold = fl (9 / 10), pb_Weight = fl (20 / 100),
          pb_Claim = ''connection pool utilisation is at or above 90%'', pb_Symptom = False\<rparr>,
         errorRatioProbe ''postgres_service_error_ratio'' (fl (10 / 100)),
         logProbe ''postgres_acquisition_timeout_logs'' ''|= \"connection acquisition timeout\"''
           ''logs contain postgres connection acquisition timeouts'' (fl (20 / 100))],
      ru_Remediations =
        [template0\<lparr>ct_ActionType := DrainPostgresConnections, ct_Risk := ''medium''\<rparr>,
         template0\<lparr>ct_ActionType := ResizeConnectionPool, ct_Parameters := [(''size'', VInt 20)], ct_Risk := ''medium''\<rparr>,
         template0\<lparr>ct_ActionType := RestartPod, ct_TargetLabel := ''pod'', ct_FallbackToService := True,
           ct_TargetFormat := ''local/%s'', ct_Risk := ''medium''\<rparr>]\<rparr>"

definition redis_rule :: rule where
  "redis_rule =
     \<lparr>ru_ID = RuleRedisMemoryPressure,
      ru_Hypothesis = ''Redis memory pressure causing cache degradation'',
      ru_AlertNames = [''PaymentsAPIRedisMemoryPressure'', ''RedisMemoryPressure'', ''RedisMemoryHigh''],
      ru_Probes =
        [\<lparr>pb_ID = ''redis_memory_utilisation'', pb_Backend = Prometheus,
          pb_Query = ''max(redis_memory_used_bytes{service=\"{{service}}\"} / redis_memory_max_bytes{service=\"{{service}}\"})'',
          pb_Comparator = AtLeast, pb_Threshold = fl (9 / 10), pb_Weight = fl (20 / 100),
          pb_Claim = ''redis memory usage is at or above 90% of maxmemory'', pb_Symptom = False\<rparr>,
         \<lparr>pb_ID = ''redis_operation_errors'', pb_Backend = Prometheus,
          pb_Query = ''sum(increase(redis_operation_errors_total{service=\"{{service}}\"}[10m]))'',
          pb_Comparator = AtLeast, pb_Threshold = 1, pb_Weight = fl (15 / 100),
          pb_Claim = ''redis operation errors increased in the last 10 minutes'', pb_Symptom = False\<rparr>,
         logProbe ''redis_memory_pressure_logs'' ''|= \"redis memory pressure\"'' ''logs report redis memory pressure'' (fl (15 / 100))],
      ru_Remediations =
        [template0\<lparr>ct_ActionType := PurgeCache, ct_TargetLabel := ''cache_key_pattern'',
           ct_Parameters := [(''max_keys'', VInt 500)], ct_Risk := ''medium''\<rparr>]\<rparr>"

definition nginx_rule :: rule where
  "nginx_rule =
     \<lparr>ru_ID = RuleNginxUpstreamConfig,
      ru_Hypothesis = ''Nginx upstream misconfiguration or bad route rollout'',
      ru_AlertNames = [''Nginx5xxSpike'', ''NginxUpstreamErrors''],
      ru_Probes =
        [\<lparr>pb_ID = ''nginx_5xx_ratio'', pb_Backend = Prometheus,
          pb_Query = ''sum(rate(nginx_http_requests_total{service=\"{{service}}\",status=~\"5..\"}[5m])) / sum(rate(nginx_http_requests_total{service=\"{{service}}\"}[5m]))'',
          pb_Comparator = AtLeast, pb_Threshold = fl (5 / 100), pb_Weight = fl (20 / 100),
          pb_Claim = ''edge 5xx response ratio is at or above 5%'', pb_Symptom = True\<rparr>,
         logProbe ''nginx_upstream_error_logs'' ''|= \"upstream\"'' ''edge logs report upstream errors'' (fl (15 / 100))],
      ru_Remediations =
        [template0\<lparr>ct_ActionType := RollbackConfig, ct_Risk := ''medium''\<rparr>,
         template0\<lparr>ct_ActionType := ReloadNginx, ct_Risk := ''medium''\<rparr>]\<rparr>"

definition latency_rule :: rule where
  "latency_rule =
     \<lparr>ru_ID = RuleDependencyLatency,
      ru_Hypothesis = ''Downstream dependency latency dominates the request path'',
      ru_AlertNames = [''PaymentsAPIDependencyLatency'', ''DownstreamDependencyLatency''],
      ru_Probes =
        [\<lparr>pb_ID = ''service_p95_latency'', pb_Backend = Prometheus, pb_Query = p95LatencyQuery,
          pb_Comparator = AtLeast, pb_Threshold = fl (8 / 10), pb_Weight = fl (20 / 100),
          pb_Claim = ''p95 request latency is at or above 800ms'', pb_Symptom = True\<rparr>,
         logProbe ''dependency_latency_logs'' ''|= \"latency dominated\"''
           ''logs attribute request latency to a downstream dependency'' (fl (15 / 100))],
      ru_Remediations =
        [template0\<lparr>ct_ActionType := ToggleFeatureFlag, ct_TargetLabel := ''degradable_feature_flag'',
           ct_Parameters := [(''enabled'', VBool False)], ct_Risk := ''medium''\<rparr>]\<rparr>"

definition rollout_rule :: rule where
  "rollout_rule =
     \<lparr>ru_ID = RuleBadConfigRollout,
      ru_Hypothesis = ''Bad config rollout introduced an invalid runtime configuration'',
      ru_AlertNames = [''PaymentsAPIBadConfigRollout'', ''ConfigRolloutFailed''],
      ru_Probes =
        [logProbe ''config_parse_error_logs'' ''|~ \"config parse|invalid config\"''
           ''logs contain configuration parse errors'' (fl (25 / 100)),
         errorRatioProbe ''config_service_error_ratio'' (fl (10 / 100))],
      ru_Remediations =
        [template0\<lparr>ct_ActionType := RollbackConfig, ct_Risk := ''medium''\<rparr>,
         template0\<lparr>ct_ActionType := RestartPod, ct_TargetLabel := ''pod'', ct_FallbackToService := True,
           ct_TargetFormat := ''local/%s'', ct_Risk := ''medium''\<rparr>]\<rparr>"

definition DefaultRules :: "rule list" where
  "DefaultRules = [postgres_rule, redis_rule, nginx_rule, latency_rule, rollout_rule]"

section \<open>Validation of the table\<close>

definition validateTemplate :: "candidate_template \<Rightarrow> string option" where
  "validateTemplate t =
     (if \<not> IsRegistered (ct_ActionType t) then Some (''remediation '' @ quote (ct_ActionType t) @ '' is not a registered action'')
      else if ct_Risk t \<notin> set [''low'', ''medium'', ''high'']
        then Some (''remediation '' @ ct_ActionType t @ '' has unknown risk '' @ quote (ct_Risk t))
      else if ct_TargetFormat t \<noteq> [] \<and> count_str (ct_TargetFormat t) ''%s'' \<noteq> 1
        then Some (''remediation '' @ ct_ActionType t @ '' target format must contain exactly one %s'')
      else if ct_TargetLabel t = [] \<and> ct_FallbackToService t
        then Some (''remediation '' @ ct_ActionType t @ '': fallback without a target label is redundant'')
      else None)"

text \<open>The alert names of one rule against those claimed so far, with their owners.\<close>

fun claim_names :: "string \<Rightarrow> string gomap \<Rightarrow> string list \<Rightarrow> string + string gomap" where
  "claim_names rid owners [] = Inr owners"
| "claim_names rid owners (name # names) =
     (case map_of owners name of
        Some owner \<Rightarrow> Inl (''alert '' @ name @ '' is claimed by both '' @ owner @ '' and '' @ rid)
      | None \<Rightarrow> claim_names rid (owners @ [(name, rid)]) names)"

text \<open>The probes of one rule: their total weight and whether one observes the cause.\<close>

fun check_probes :: "string \<Rightarrow> string list \<Rightarrow> rat \<Rightarrow> bool \<Rightarrow> probe list \<Rightarrow> string + rat \<times> bool" where
  "check_probes rid seen weight hasCause [] = Inr (weight, hasCause)"
| "check_probes rid seen weight hasCause (p # ps) =
     (case ValidateProbe p of
        Some err \<Rightarrow> Inl (''rule '' @ rid @ '': '' @ err)
      | None \<Rightarrow>
          if pb_ID p \<in> set seen then Inl (''rule '' @ rid @ '': duplicate probe '' @ pb_ID p)
          else check_probes rid (seen @ [pb_ID p]) (fadd weight (pb_Weight p)) (hasCause \<or> \<not> pb_Symptom p) ps)"

fun check_templates :: "string \<Rightarrow> candidate_template list \<Rightarrow> string option" where
  "check_templates rid [] = None"
| "check_templates rid (t # ts) =
     (case validateTemplate t of Some err \<Rightarrow> Some (''rule '' @ rid @ '': '' @ err) | None \<Rightarrow> check_templates rid ts)"

fun check_rules :: "string list \<Rightarrow> string gomap \<Rightarrow> rule list \<Rightarrow> string option" where
  "check_rules seen owners [] = None"
| "check_rules seen owners (r # rs) =
     (if ru_ID r = [] \<or> ru_Hypothesis r = [] then Some ''rule id and hypothesis are required''
      else if ru_ID r \<in> set seen then Some (''duplicate rule id '' @ ru_ID r)
      else if ru_AlertNames r = [] then Some (''rule '' @ ru_ID r @ '' has no alert names'')
      else case claim_names (ru_ID r) owners (ru_AlertNames r) of
        Inl err \<Rightarrow> Some err
      | Inr owners' \<Rightarrow>
          if ru_Probes r = [] then Some (''rule '' @ ru_ID r @ '' has no corroboration probes'')
          else case check_probes (ru_ID r) [] 0 False (ru_Probes r) of
            Inl err \<Rightarrow> Some err
          | Inr (weight, hasCause) \<Rightarrow>
              if \<not> hasCause
              then Some (''rule '' @ ru_ID r @ '' has only symptom probes; it can never be independently corroborated'')
              else if weight > fl (500000001 / 1000000000)
              then Some (''rule '' @ ru_ID r @ '': probe weights sum to '' @ fmt_fixed 2 weight @ '', above 0.50'')
              else case check_templates (ru_ID r) (ru_Remediations r) of
                Some err \<Rightarrow> Some err
              | None \<Rightarrow> check_rules (seen @ [ru_ID r]) owners' rs)"

definition ValidateRules :: "rule list \<Rightarrow> string option" where
  "ValidateRules rules = check_rules [] [] rules"

section \<open>Targets\<close>

text \<open>The format's only verb is one \<^verbatim>\<open>%s\<close>.\<close>

definition format_target :: "string \<Rightarrow> string \<Rightarrow> string" where
  "format_target fmt value = (if fmt = [] then value else replace_all fmt ''%s'' value)"

definition template_source :: "candidate_template \<Rightarrow> string \<Rightarrow> string gomap \<Rightarrow> string \<times> string" where
  "template_source t service labels =
     (if ct_TargetLabel t \<noteq> [] then
        (let value = map_str labels (ct_TargetLabel t) in
         if value = [] \<and> ct_FallbackToService t then (service, ''alert service'')
         else (value, ''label '' @ ct_TargetLabel t))
      else (service, ''alert service''))"

text \<open>Either the reason why no safe target can be derived, or the target and its parameters.\<close>

definition RenderTemplate :: "candidate_template \<Rightarrow> string \<Rightarrow> string gomap \<Rightarrow> string + string \<times> gval gomap" where
  "RenderTemplate t service labels =
     (case template_source t service labels of (value, source) \<Rightarrow>
        if value = [] then Inl (''alert has no '' @ source)
        else let target = format_target (ct_TargetFormat t) value; parameters = ct_Parameters t in
          case Validate (ct_ActionType t) target parameters of
            Some err \<Rightarrow> Inl (''target '' @ quote target @ '' from '' @ source @ '' rejected by action catalog: '' @ err)
          | None \<Rightarrow> Inr (target, parameters))"

section \<open>Matching\<close>

record match =
  ma_RuleID :: string
  ma_Rule :: rule
  ma_SignalID :: string
  ma_AlertName :: string
  ma_Service :: string
  ma_Labels :: "string gomap"
  ma_ObservedAt :: int
  ma_Reason :: string

record correlator =
  cor_rules :: "rule list"
  cor_byAlertName :: "rule gomap"
  cor_byID :: "rule gomap"

text \<open>The code's maps hold indexes into the table; these hold the rules at those indexes.\<close>

definition NewWithRules :: "rule list \<Rightarrow> string + correlator" where
  "NewWithRules rules =
     (case ValidateRules rules of
        Some err \<Rightarrow> Inl err
      | None \<Rightarrow>
          Inr \<lparr>cor_rules = rules,
               cor_byAlertName =
                 foldl (\<lambda>m r. foldl (\<lambda>m name. map_set m name r) m (ru_AlertNames r)) [] rules,
               cor_byID = foldl (\<lambda>m r. map_set m (ru_ID r) r) [] rules\<rparr>)"

definition SignalLabels :: "signal \<Rightarrow> string gomap" where
  "SignalLabels s =
     (case map_any (sig_Body s) ''labels'' of
        VStrMap raw \<Rightarrow> raw
      | VMap raw \<Rightarrow> concat (map (\<lambda>(k, v). case v of VStr text \<Rightarrow> [(k, text)] | _ \<Rightarrow> []) raw)
      | _ \<Rightarrow> [])"

definition SignalService :: "incident \<Rightarrow> signal \<Rightarrow> string gomap \<Rightarrow> string" where
  "SignalService i s labels =
     (if map_str labels ''service'' \<noteq> [] then map_str labels ''service''
      else case map_any (sig_Body s) ''topology'' of
        VMap topology \<Rightarrow>
          (case map_any topology ''observed_service'' of
             VStr service \<Rightarrow> if service \<noteq> [] then service else inc_Service i
           | _ \<Rightarrow> inc_Service i)
      | _ \<Rightarrow> inc_Service i)"

definition signal_alert :: "signal \<Rightarrow> string gomap \<Rightarrow> string" where
  "signal_alert s labels = (if sig_Name s = [] then map_str labels ''alertname'' else sig_Name s)"

text \<open>The rule a signal names, with the reason: its failure-mode label first, then its alert name.\<close>

definition named_rule :: "correlator \<Rightarrow> string gomap \<Rightarrow> string \<Rightarrow> (rule \<times> string) option" where
  "named_rule c labels alertName =
     (let mode = map_str labels FailureModeLabel;
          byMode = (if mode \<noteq> [] then map_of (cor_byID c) mode else None)
      in case byMode of
           Some r \<Rightarrow> Some (r, ''label '' @ FailureModeLabel @ ''='' @ mode)
         | None \<Rightarrow> map_option (\<lambda>r. (r, ''alertname '' @ alertName)) (map_of (cor_byAlertName c) alertName))"

definition match_signal :: "correlator \<Rightarrow> incident \<Rightarrow> signal \<Rightarrow> match option" where
  "match_signal c i s =
     (let labels = SignalLabels s; alertName = signal_alert s labels in
      map_option (\<lambda>(r, reason).
        \<lparr>ma_RuleID = ru_ID r, ma_Rule = r, ma_SignalID = sig_ID s, ma_AlertName = alertName,
         ma_Service = SignalService i s labels, ma_Labels = labels,
         ma_ObservedAt = (if sig_ObservedAt s = zero_time then inc_StartedAt i else sig_ObservedAt s),
         ma_Reason = reason\<rparr>) (named_rule c labels alertName))"

definition Match :: "correlator \<Rightarrow> incident \<Rightarrow> signal list \<Rightarrow> match list" where
  "Match c i ss =
     stable_sort (\<lambda>a b. ma_ObservedAt a < ma_ObservedAt b) (List.map_filter (match_signal c i) ss)"

section \<open>A validated table is unambiguous\<close>

lemma claim_names_Inr:
  "claim_names rid owners names = Inr owners' \<Longrightarrow>
     owners' = owners @ map (\<lambda>n. (n, rid)) names \<and> distinct names \<and> set names \<inter> fst ` set owners = {}"
proof (induction names arbitrary: owners)
  case (Cons n names)
  then have n: "n \<notin> fst ` set owners" and "claim_names rid (owners @ [(n, rid)]) names = Inr owners'"
    by (auto split: option.splits simp: map_of_eq_None_iff)
  from Cons.IH [OF this(2)] n show ?case by auto
qed simp

lemma check_rules_distinct:
  "check_rules seen owners rules = None \<Longrightarrow>
     distinct (map ru_ID rules) \<and> set seen \<inter> set (map ru_ID rules) = {} \<and>
     distinct (concat (map ru_AlertNames rules)) \<and> fst ` set owners \<inter> set (concat (map ru_AlertNames rules)) = {}"
proof (induction rules arbitrary: seen owners)
  case (Cons r rs)
  from Cons.prems obtain owners' where
    r: "ru_ID r \<notin> set seen" and c: "claim_names (ru_ID r) owners (ru_AlertNames r) = Inr owners'"
    and rs: "check_rules (seen @ [ru_ID r]) owners' rs = None"
    by (auto split: if_splits sum.splits option.splits)
  have "fst ` set owners' = fst ` set owners \<union> set (ru_AlertNames r)"
    using claim_names_Inr [OF c] by force
  then show ?case using Cons.IH [OF rs] claim_names_Inr [OF c] r by auto
qed simp

lemma map_of_foldl_set:
  "map_of (foldl (\<lambda>m (k, v). map_set m k v) m0 kvs) = map_of m0 ++ map_of (rev kvs)"
  by (induction kvs arbitrary: m0) (auto simp: map_add_assoc fun_eq_iff map_add_def split: option.splits)

lemma map_of_rev_distinct: "distinct (map fst kvs) \<Longrightarrow> map_of (rev kvs) k = Some v \<longleftrightarrow> (k, v) \<in> set kvs"
  by (metis distinct_rev map_of_eq_Some_iff rev_map set_rev)

lemma foldl_concat: "foldl (\<lambda>a x. foldl f a (g x)) a xs = foldl f a (concat (map g xs))"
  by (induction xs arbitrary: a) auto

lemma foldl_map: "foldl (\<lambda>a x. f a (h x)) a xs = foldl f a (map h xs)"
  by (induction xs arbitrary: a) auto

definition alert_entries :: "rule list \<Rightarrow> (string \<times> rule) list" where
  "alert_entries rules = concat (map (\<lambda>r. map (\<lambda>n. (n, r)) (ru_AlertNames r)) rules)"

lemma alert_entries_keys: "map fst (alert_entries rules) = concat (map ru_AlertNames rules)"
  by (simp add: alert_entries_def map_concat comp_def)

lemma correlator_maps:
  assumes "NewWithRules rules = Inr c"
  shows "map_of (cor_byID c) k = Some r \<longleftrightarrow> r \<in> set rules \<and> ru_ID r = k"
    and "map_of (cor_byAlertName c) n = Some r \<longleftrightarrow> r \<in> set rules \<and> n \<in> set (ru_AlertNames r)"
proof -
  have v: "check_rules [] [] rules = None" and c: "c = \<lparr>cor_rules = rules,
      cor_byAlertName = foldl (\<lambda>m (k, v). map_set m k v) [] (alert_entries rules),
      cor_byID = foldl (\<lambda>m (k, v). map_set m k v) [] (map (\<lambda>r. (ru_ID r, r)) rules)\<rparr>"
    using assms
    by (auto simp: NewWithRules_def ValidateRules_def alert_entries_def foldl_map [symmetric] foldl_concat [symmetric]
        split: option.splits)
  note d = check_rules_distinct [OF v]
  have "distinct (map fst (map (\<lambda>r. (ru_ID r, r)) rules))" using d by (simp add: comp_def)
  from map_of_rev_distinct [OF this] show "map_of (cor_byID c) k = Some r \<longleftrightarrow> r \<in> set rules \<and> ru_ID r = k"
    unfolding c by (auto simp: map_of_foldl_set)
  have "distinct (map fst (alert_entries rules))" using d by (simp add: alert_entries_keys)
  from map_of_rev_distinct [OF this] show "map_of (cor_byAlertName c) n = Some r \<longleftrightarrow> r \<in> set rules \<and> n \<in> set (ru_AlertNames r)"
    unfolding c by (auto simp: map_of_foldl_set alert_entries_def)
qed

section \<open>The compiled table\<close>

lemmas rule_ids = RulePostgresConnectionExhaustion_def RuleRedisMemoryPressure_def RuleNginxUpstreamConfig_def
  RuleDependencyLatency_def RuleBadConfigRollout_def

lemmas default_rule_defs = DefaultRules_def postgres_rule_def redis_rule_def nginx_rule_def latency_rule_def
  rollout_rule_def errorRatioProbe_def logProbe_def

definition probe_text_ok :: "string \<Rightarrow> string \<Rightarrow> string \<Rightarrow> string \<Rightarrow> string \<Rightarrow> bool" where
  "probe_text_ok pid backend text comparator claim \<longleftrightarrow>
     trim_space pid \<noteq> [] \<and> (backend = Prometheus \<or> backend = Loki) \<and> contains_str text Variable \<and>
     trim_space claim \<noteq> [] \<and> comparator \<in> set [AtLeast, Above, AtMost, Below] \<and>
     (case RenderProbe text ''probe-check'' of Inl _ \<Rightarrow> False | Inr _ \<Rightarrow> True)"

lemma ValidateProbe_None:
  "ValidateProbe p = None \<longleftrightarrow>
     0 < pb_Weight p \<and> pb_Weight p \<le> 1 / 2 \<and>
     probe_text_ok (pb_ID p) (pb_Backend p) (pb_Query p) (pb_Comparator p) (pb_Claim p)"
  by (auto simp: ValidateProbe_def probe_text_ok_def not_le not_less split: sum.splits)

lemma weight_ok: "0 < x \<Longrightarrow> x \<le> 2 / 5 \<Longrightarrow> 0 < fl x \<and> fl x \<le> 1 / 2"
  using fl_pos [of x] fl_rel(1) [of x] by auto

lemma probe_texts:
  "list_all (\<lambda>r. list_all (\<lambda>(pid, backend, text, comparator, claim). probe_text_ok pid backend text comparator claim)
     (map (\<lambda>p. (pb_ID p, pb_Backend p, pb_Query p, pb_Comparator p, pb_Claim p)) (ru_Probes r))) DefaultRules"
  unfolding default_rule_defs
  by (simp only: list.map list.pred_inject probe.simps rule.simps prod.case) code_simp

lemma check_probes_Inr:
  assumes "list_all (\<lambda>p. ValidateProbe p = None) ps" and "distinct (map pb_ID ps)" and "set seen \<inter> pb_ID ` set ps = {}"
  shows "check_probes rid seen w c ps = Inr (foldl (\<lambda>w p. fadd w (pb_Weight p)) w ps, c \<or> list_ex (\<lambda>p. \<not> pb_Symptom p) ps)"
  using assms by (induction ps arbitrary: seen w c) auto

lemma default_weights:
  "list_all (\<lambda>r. foldl (\<lambda>w p. fadd w (pb_Weight p)) 0 (ru_Probes r) \<le> fl (500000001 / 1000000000) \<and>
     list_all (\<lambda>p. 0 < pb_Weight p \<and> pb_Weight p \<le> 1 / 2) (ru_Probes r)) DefaultRules"
proof -
  have lim: "501 / 1002 + 6 / 2 ^ 53 \<le> fl (500000001 / 1000000000)"
    using fl_rel(2) [of "500000001 / 1000000000"] by simp
  have u: "0 \<le> fl (20 / 100)" "fl (20 / 100) \<le> 20 / 100 + 1 / 2 ^ 53" "0 \<le> fl (10 / 100)" "fl (10 / 100) \<le> 10 / 100 + 1 / 2 ^ 53"
    "0 \<le> fl (15 / 100)" "fl (15 / 100) \<le> 15 / 100 + 1 / 2 ^ 53" "0 \<le> fl (25 / 100)" "fl (25 / 100) \<le> 25 / 100 + 1 / 2 ^ 53"
    using fl_upper [of "20 / 100"] fl_upper [of "10 / 100"] fl_upper [of "15 / 100"] fl_upper [of "25 / 100"] by simp_all
  have foldl: "foldl (\<lambda>w p. fadd w (pb_Weight p)) 0 ps \<le> fl (500000001 / 1000000000)"
    if "list_all (\<lambda>x. 0 \<le> x) (map pb_Weight ps)" "sum_list (map pb_Weight ps) \<le> 1 / 2 + 3 / 2 ^ 53" "length ps \<le> 3" for ps
    using total_upper [of 0 "map pb_Weight ps" "1 / 2 + 3 / 2 ^ 53"] that lim
    by (auto simp: foldl_map [symmetric])
  have "list_all (\<lambda>r. list_all (\<lambda>p. 0 < pb_Weight p \<and> pb_Weight p \<le> 1 / 2) (ru_Probes r) \<and> length (ru_Probes r) \<le> 3 \<and>
      sum_list (map pb_Weight (ru_Probes r)) \<le> 1 / 2 + 3 / 2 ^ 53) DefaultRules"
    unfolding default_rule_defs
    using u weight_ok [of "20 / 100"] weight_ok [of "10 / 100"] weight_ok [of "15 / 100"] weight_ok [of "25 / 100"] by auto
  then show ?thesis using foldl by (fastforce simp: list_all_iff)
qed

lemma default_probes_valid: "list_all (\<lambda>r. list_all (\<lambda>p. ValidateProbe p = None) (ru_Probes r)) DefaultRules"
  using default_weights probe_texts by (auto simp: list_all_iff ValidateProbe_None)

text \<open>What \<open>check_rules\<close> asks of one rule, apart from names it shares with others.\<close>

definition rule_ok :: "rule \<Rightarrow> bool" where
  "rule_ok r \<longleftrightarrow>
     ru_ID r \<noteq> [] \<and> ru_Hypothesis r \<noteq> [] \<and> ru_AlertNames r \<noteq> [] \<and> ru_Probes r \<noteq> [] \<and>
     list_all (\<lambda>p. ValidateProbe p = None) (ru_Probes r) \<and> distinct (map pb_ID (ru_Probes r)) \<and>
     list_ex (\<lambda>p. \<not> pb_Symptom p) (ru_Probes r) \<and>
     foldl (\<lambda>w p. fadd w (pb_Weight p)) 0 (ru_Probes r) \<le> fl (500000001 / 1000000000) \<and>
     list_all (\<lambda>t. validateTemplate t = None) (ru_Remediations r)"

lemma claim_names_ok:
  "distinct names \<Longrightarrow> set names \<inter> fst ` set owners = {} \<Longrightarrow>
     claim_names rid owners names = Inr (owners @ map (\<lambda>n. (n, rid)) names)"
proof (induction names arbitrary: owners)
  case (Cons n names)
  then have "map_of owners n = None" by (auto simp: map_of_eq_None_iff)
  moreover have "claim_names rid (owners @ [(n, rid)]) names = Inr ((owners @ [(n, rid)]) @ map (\<lambda>n. (n, rid)) names)"
    using Cons.prems by (intro Cons.IH) auto
  ultimately show ?case by simp
qed simp

lemma check_templates_None: "check_templates rid ts = None \<longleftrightarrow> list_all (\<lambda>t. validateTemplate t = None) ts"
  by (induction ts) (auto split: option.splits)

lemma check_rules_ok:
  "list_all rule_ok rules \<Longrightarrow> distinct (map ru_ID rules) \<Longrightarrow> set seen \<inter> set (map ru_ID rules) = {} \<Longrightarrow>
   distinct (concat (map ru_AlertNames rules)) \<Longrightarrow> fst ` set owners \<inter> set (concat (map ru_AlertNames rules)) = {} \<Longrightarrow>
   check_rules seen owners rules = None"
proof (induction rules arbitrary: seen owners)
  case (Cons r rs)
  let ?owners = "owners @ map (\<lambda>n. (n, ru_ID r)) (ru_AlertNames r)"
  have r: "rule_ok r" using Cons.prems by simp
  have "claim_names (ru_ID r) owners (ru_AlertNames r) = Inr ?owners"
    using Cons.prems by (intro claim_names_ok) auto
  moreover have "check_rules (seen @ [ru_ID r]) ?owners rs = None"
    using Cons.prems by (intro Cons.IH) (auto simp: image_Un image_image)
  moreover have "check_probes (ru_ID r) [] 0 False (ru_Probes r) =
      Inr (foldl (\<lambda>w p. fadd w (pb_Weight p)) 0 (ru_Probes r), True)"
    using r check_probes_Inr [of "ru_Probes r" "[]" "ru_ID r" 0 False] by (simp add: rule_ok_def)
  moreover have "ru_ID r \<notin> set seen" using Cons.prems by auto
  moreover have "check_templates (ru_ID r) (ru_Remediations r) = None" using r by (simp add: rule_ok_def check_templates_None)
  ultimately show ?case using r by (simp add: rule_ok_def not_less)
qed simp

lemma default_templates_valid:
  "list_all (\<lambda>r. list_all (\<lambda>t. validateTemplate t = None) (ru_Remediations r)) DefaultRules"
  unfolding default_rule_defs template0_def by (simp only: list.pred_inject rule.simps candidate_template.simps) code_simp

lemma default_rules_valid: "ValidateRules DefaultRules = None"
proof -
  have "list_all (\<lambda>r. distinct (map pb_ID (ru_Probes r)) \<and> list_ex (\<lambda>p. \<not> pb_Symptom p) (ru_Probes r) \<and> ru_Probes r \<noteq> [] \<and>
     ru_Hypothesis r \<noteq> [] \<and> ru_ID r \<noteq> [] \<and> ru_AlertNames r \<noteq> []) DefaultRules"
    by (simp add: default_rule_defs rule_ids)
  then have "list_all rule_ok DefaultRules"
    using default_probes_valid default_weights default_templates_valid by (auto simp: list_all_iff rule_ok_def)
  moreover have "distinct (map ru_ID DefaultRules)" "distinct (concat (map ru_AlertNames DefaultRules))"
    by (simp_all add: default_rule_defs rule_ids)
  ultimately show ?thesis by (simp add: ValidateRules_def check_rules_ok)
qed

section \<open>Selecting a rule\<close>

text \<open>
  The rule a signal selects: the one with the identifier in its failure-mode label when the table has
  it, whatever the alert is called; else the one that lists the name of the alert.
\<close>

definition selects :: "rule list \<Rightarrow> signal \<Rightarrow> rule \<Rightarrow> bool" where
  "selects rules s r \<longleftrightarrow>
     r \<in> set rules \<and>
     (let mode = map_str (SignalLabels s) FailureModeLabel in
      if mode \<noteq> [] \<and> list_ex (\<lambda>q. ru_ID q = mode) rules then ru_ID r = mode
      else signal_alert s (SignalLabels s) \<in> set (ru_AlertNames r))"

lemma validated_distinct:
  assumes "NewWithRules rules = Inr c"
  shows "distinct (map ru_ID rules)" "distinct (concat (map ru_AlertNames rules))"
  using check_rules_distinct [of "[]" "[]" rules] assms by (auto simp: NewWithRules_def ValidateRules_def split: option.splits)

lemma concat_once:
  "distinct (concat (map f xs)) \<Longrightarrow> length (filter (\<lambda>x. n \<in> set (f x)) xs) \<le> 1"
proof (induction xs)
  case (Cons x xs)
  show ?case
  proof (cases "n \<in> set (f x)")
    case True
    with Cons.prems have "filter (\<lambda>x. n \<in> set (f x)) xs = []" by (auto simp: filter_empty_conv)
    with True show ?thesis by simp
  qed (use Cons in simp)
qed simp

lemma map_once: "distinct (map f xs) \<Longrightarrow> length (filter (\<lambda>x. f x = n) xs) \<le> 1"
  using concat_once [of "\<lambda>x. [f x]" xs n] by (simp add: eq_commute)

lemma selects_once:
  assumes "NewWithRules rules = Inr c" shows "length (filter (selects rules s) rules) \<le> 1"
proof -
  let ?m = "map_str (SignalLabels s) FailureModeLabel"
  have "filter (selects rules s) rules =
      (if ?m \<noteq> [] \<and> list_ex (\<lambda>q. ru_ID q = ?m) rules then filter (\<lambda>r. ru_ID r = ?m) rules
       else filter (\<lambda>r. signal_alert s (SignalLabels s) \<in> set (ru_AlertNames r)) rules)"
    by (auto simp: selects_def Let_def intro!: filter_cong)
  then show ?thesis
    using map_once [OF validated_distinct(1) [OF assms], of ?m] concat_once [OF validated_distinct(2) [OF assms], of "signal_alert s (SignalLabels s)"]
    by simp
qed

lemma named_rule_selects:
  assumes "NewWithRules rules = Inr c"
  shows "case named_rule c (SignalLabels s) (signal_alert s (SignalLabels s)) of
      None \<Rightarrow> \<not> list_ex (selects rules s) rules | Some (r, reason) \<Rightarrow> selects rules s r"
proof -
  note maps = correlator_maps [OF assms]
  have none: "map_of (cor_byID c) k = None \<longleftrightarrow> \<not> list_ex (\<lambda>q. ru_ID q = k) rules"
    "map_of (cor_byAlertName c) n = None \<longleftrightarrow> \<not> list_ex (\<lambda>q. n \<in> set (ru_AlertNames q)) rules" for k n
    using maps by (auto simp: list_ex_iff) (metis not_None_eq)+
  show ?thesis
    by (auto simp: named_rule_def selects_def Let_def none maps list_ex_iff split: option.splits if_splits)
qed

text \<open>What a match says of the signal it is for.\<close>

definition match_of :: "rule list \<Rightarrow> incident \<Rightarrow> signal \<Rightarrow> match \<Rightarrow> bool" where
  "match_of rules i s m \<longleftrightarrow>
     selects rules s (ma_Rule m) \<and> ma_RuleID m = ru_ID (ma_Rule m) \<and> ma_SignalID m = sig_ID s \<and>
     ma_AlertName m = signal_alert s (SignalLabels s) \<and> ma_Labels m = SignalLabels s \<and> ma_Service m = SignalService i s (SignalLabels s) \<and>
     ma_ObservedAt m = (if sig_ObservedAt s = zero_time then inc_StartedAt i else sig_ObservedAt s)"

lemma match_signal_of:
  assumes "NewWithRules rules = Inr c"
  shows "case match_signal c i s of None \<Rightarrow> \<not> list_ex (selects rules s) rules | Some m \<Rightarrow> match_of rules i s m \<and> list_ex (selects rules s) rules"
proof (cases "named_rule c (SignalLabels s) (signal_alert s (SignalLabels s))")
  case None
  then show ?thesis using named_rule_selects [OF assms, of s] by (simp add: match_signal_def Let_def)
next
  case (Some x)
  then have "selects rules s (fst x)" using named_rule_selects [OF assms, of s] by (auto split: prod.splits)
  moreover from this have "list_ex (selects rules s) rules" unfolding list_ex_iff by (meson selects_def)
  ultimately show ?thesis using Some by (auto simp: match_signal_def match_of_def Let_def split: prod.splits)
qed

lemma map_filter_matches:
  assumes "NewWithRules rules = Inr c"
  shows "list_all2 (match_of rules i) (filter (\<lambda>s. list_ex (selects rules s) rules) ss) (List.map_filter (match_signal c i) ss)"
proof (induction ss)
  case (Cons s ss)
  then show ?case using match_signal_of [OF assms, where i = i and s = s] by (auto simp: List.map_filter_simps split: option.splits)
qed (simp add: List.map_filter_simps)

lemma Match_matches:
  assumes "NewWithRules rules = Inr c"
  obtains named where "mset named = mset (filter (\<lambda>s. list_ex (selects rules s) rules) ss)" "list_all2 (match_of rules i) named (Match c i ss)"
proof -
  have "mset (Match c i ss) = mset (List.map_filter (match_signal c i) ss)" by (simp add: Match_def)
  moreover have "list_all2 (match_of rules i)\<inverse>\<inverse> (List.map_filter (match_signal c i) ss) (filter (\<lambda>s. list_ex (selects rules s) rules) ss)"
    unfolding list.rel_flip by (rule map_filter_matches [OF assms])
  ultimately obtain named where "list_all2 (match_of rules i)\<inverse>\<inverse> (Match c i ss) named"
    "mset named = mset (filter (\<lambda>s. list_ex (selects rules s) rules) ss)"
    using list_all2_reorder_left_invariance by blast
  then show ?thesis using that unfolding list.rel_flip by blast
qed

lemma Match_sorted: "sorted (map ma_ObservedAt (Match c i ss))"
proof -
  have "strict_weak (\<lambda>a b. ma_ObservedAt a < ma_ObservedAt b)" by (auto simp: strict_weak_def)
  from stable_sort_sorted [OF this] show ?thesis by (simp add: Match_def sorted_map not_less)
qed

text \<open>
  C40: The compiled rule table passes its own validation, so that building the correlator at start-up
  does not panic, and its rules are told apart: a signal selects at most one, by its failure-mode
  label when that names a rule and else by the name of its alert. The correlator matches exactly the
  signals that select a rule, each once and with the rule it selects, its own labels, service and
  time, in the order of time.
\<close>

theorem table_is_unambiguous:
  "case NewWithRules DefaultRules of
     Inl err \<Rightarrow> False
   | Inr c \<Rightarrow>
       length (filter (selects DefaultRules s) DefaultRules) \<le> 1 \<and> sorted (map ma_ObservedAt (Match c i ss)) \<and>
       (\<exists>named. mset named = mset (filter (\<lambda>s. list_ex (selects DefaultRules s) DefaultRules) ss) \<and>
          list_all2 (match_of DefaultRules i) named (Match c i ss))"
proof -
  obtain c where c: "NewWithRules DefaultRules = Inr c" by (simp add: NewWithRules_def default_rules_valid)
  obtain named where "mset named = mset (filter (\<lambda>s. list_ex (selects DefaultRules s) DefaultRules) ss)"
    "list_all2 (match_of DefaultRules i) named (Match c i ss)" by (rule Match_matches [OF c])
  then have "\<exists>named. mset named = mset (filter (\<lambda>s. list_ex (selects DefaultRules s) DefaultRules) ss) \<and>
      list_all2 (match_of DefaultRules i) named (Match c i ss)" by blast
  then show ?thesis unfolding c sum.case using selects_once [OF c] Match_sorted by blast
qed

end
