(* ===== verification/Rca_Scoring.thy ===== *)
theory Rca_Scoring
  imports Correlation
begin

text \<open>
  The deterministic part of the root cause analysis, \<^verbatim>\<open>src/internal/rca/service.go\<close>: scoring each matched
  rule from its probe results, choosing the best hypothesis, deriving remediation candidates, and the
  adjustments from the service topology. Every function is pure; the probe results are inputs.
\<close>

section \<open>Constants and records\<close>

definition BaselineConfidence :: rat where "BaselineConfidence = fl (35 / 100)"
definition AlertMatchScore :: rat where "AlertMatchScore = fl (45 / 100)"
definition RefutationFactor :: rat where "RefutationFactor = 1 / 2"

definition insufficientHypothesis :: string where
  "insufficientHypothesis = ''Insufficient evidence for a high-confidence root cause''"

definition alertSource :: string where "alertSource = ''alertmanager''"

definition SourceCap :: "nat \<Rightarrow> rat" where
  "SourceCap sources = (if sources \<le> 1 then fl (55 / 100) else if sources = 2 then fl (80 / 100) else fl (95 / 100))"

record rule_evidence =
  re_Service :: string
  re_Results :: "probe_result list"

record analysis =
  an_RuleID :: string
  an_Summary :: string
  an_Hypothesis :: string
  an_Confidence :: rat
  an_Evidence :: "string list"
  an_Factors :: "string list"
  an_Candidates :: "rca_candidate list"
  an_Items :: "rca_evidence list"
  an_Score :: rca_score

record hypothesis_score =
  hy_rule :: rule
  hy_matches :: "match list"
  hy_run :: rule_evidence
  hy_corroborated :: rat
  hy_refuted :: rat
  hy_sources :: "string list"
  hy_raw :: rat
  hy_cap :: rat
  hy_confidence :: rat
  hy_contradicted :: bool

section \<open>Arithmetic and text\<close>

definition clamp :: "rat \<Rightarrow> rat \<Rightarrow> rat \<Rightarrow> rat" where
  "clamp value lo hi = (if value < lo then lo else if value > hi then hi else value)"

definition sign :: "rat \<Rightarrow> rat" where
  "sign value = (if value < 0 then -1 else 1)"

definition round4 :: "rat \<Rightarrow> rat" where
  "round4 value = fdiv (of_int (f64_to_int (fadd (fmul value 10000) (fmul (1 / 2) (sign value))))) 10000"

definition formatValue :: "rat \<Rightarrow> string" where
  "formatValue value = trim_right_char (CHR ''.'') (trim_right_char (CHR ''0'') (fmt_fixed 4 value))"

fun appendEvidence :: "string list \<Rightarrow> string list \<Rightarrow> string list" where
  "appendEvidence items [] = items"
| "appendEvidence items (value # values) =
     appendEvidence (if trim_space value = [] \<or> value \<in> set items then items else items @ [value]) values"

text \<open>\<^verbatim>\<open>*result.Value\<close>, read only when the result has one.\<close>

definition value_of :: "probe_result \<Rightarrow> rat" where
  "value_of r = (case er_Value r of None \<Rightarrow> 0 | Some v \<Rightarrow> v)"

section \<open>Scoring one rule\<close>

definition primaryMatches :: "incident \<Rightarrow> match list \<Rightarrow> match list" where
  "primaryMatches i matches =
     map snd (foldl (\<lambda>chosen m.
       case map_of chosen (ma_RuleID m) of
         None \<Rightarrow> chosen @ [(ma_RuleID m, m)]
       | Some existing \<Rightarrow>
           if ma_Service existing \<noteq> inc_Service i \<and> ma_Service m = inc_Service i then map_set chosen (ma_RuleID m) m
           else chosen) [] matches)"

text \<open>The corroborated and refuted weight and the backends that saw the cause itself.\<close>

definition tally :: "rat \<times> rat \<times> string list \<Rightarrow> probe_result \<Rightarrow> rat \<times> rat \<times> string list" where
  "tally acc r =
     (case acc of (corroborated, refuted, backends) \<Rightarrow>
        if er_Status r = StatusCorroborated then
          (fadd corroborated (er_Weight r), refuted, if er_Symptom r then backends else append_unique backends (er_Backend r))
        else if er_Status r = StatusRefuted then (corroborated, fadd refuted (er_Weight r), backends)
        else acc)"

definition scoreRule :: "rule \<Rightarrow> match list \<Rightarrow> rule_evidence \<Rightarrow> hypothesis_score" where
  "scoreRule r matches run =
     (case foldl tally (0, 0, []) (re_Results run) of (corroborated, refuted, backends) \<Rightarrow>
        let sources = alertSource # sort backends;
            raw = round4 (fsub (fadd AlertMatchScore corroborated) (fmul RefutationFactor refuted));
            cap = SourceCap (length sources)
        in \<lparr>hy_rule = r, hy_matches = matches, hy_run = run, hy_corroborated = corroborated, hy_refuted = refuted,
            hy_sources = sources, hy_raw = raw, hy_cap = cap, hy_confidence = clamp raw BaselineConfidence cap,
            hy_contradicted = (refuted > corroborated)\<rparr>)"

section \<open>Candidates\<close>

definition diagnostics :: "string \<Rightarrow> rca_candidate" where
  "diagnostics service =
     \<lparr>cand_ActionType = ''collect_diagnostics'', cand_Target = service, cand_Parameters = None, cand_Risk = ''low'',
      cand_RequiresApproval = False\<rparr>"

text \<open>The alert that targets are taken from: on the probed service if there is one, else the first.\<close>

definition target_match :: "hypothesis_score \<Rightarrow> match" where
  "target_match score =
     (case find (\<lambda>m. ma_Service m = re_Service (hy_run score)) (hy_matches score) of
        Some m \<Rightarrow> m | None \<Rightarrow> hd (hy_matches score))"

fun render_templates :: "match \<Rightarrow> candidate_template list \<Rightarrow> rca_candidate list \<times> string list" where
  "render_templates m [] = ([], [])"
| "render_templates m (t # ts) =
     (case render_templates m ts of (candidates, skipped) \<Rightarrow>
        (case RenderTemplate t (ma_Service m) (ma_Labels m) of
           Inl reason \<Rightarrow> (candidates, (''remediation '' @ ct_ActionType t @ '' not proposed: '' @ reason) # skipped)
         | Inr (target, parameters) \<Rightarrow>
             (\<lparr>cand_ActionType = ct_ActionType t, cand_Target = target,
               cand_Parameters = (if parameters = [] then None else Some parameters), cand_Risk = ct_Risk t,
               cand_RequiresApproval = (ct_Risk t \<noteq> ''low'')\<rparr> # candidates, skipped)))"

definition renderCandidates :: "hypothesis_score \<Rightarrow> rca_candidate list \<times> string list" where
  "renderCandidates score =
     (let m = target_match score in
      case render_templates m (ru_Remediations (hy_rule score)) of (candidates, skipped) \<Rightarrow>
        (if candidates = [] then [diagnostics (ma_Service m)] else candidates, skipped))"

section \<open>Explanations\<close>

definition supportingEvidence :: "hypothesis_score \<Rightarrow> string list" where
  "supportingEvidence score =
     foldl (\<lambda>out r.
         if er_Status r = StatusCorroborated
         then appendEvidence out
           [er_Backend r @ (if er_Symptom r then '' (symptom)'' else []) @ '': '' @ er_Claim r @ '' (observed '' @
            formatValue (value_of r) @ '' '' @ er_Comparator r @ '' '' @ formatValue (er_Threshold r) @ '')'']
         else out)
       (foldl (\<lambda>out m. appendEvidence out
           [alertSource @ '': alert '' @ ma_AlertName m @ '' fired for '' @ ma_Service m]) [] (hy_matches score))
       (re_Results (hy_run score))"

definition result_factor :: "probe_result \<Rightarrow> string" where
  "result_factor r =
     (let label = er_Backend r @ '' probe '' @ er_ProbeID r @ (if er_Symptom r then '' (symptom)'' else []) in
      if er_Status r = StatusCorroborated then
        label @ '' corroborated: observed '' @ formatValue (value_of r) @ '' '' @ er_Comparator r @ '' '' @
        formatValue (er_Threshold r) @ '' (+'' @ fmt_fixed 2 (er_Weight r) @ '')''
      else if er_Status r = StatusRefuted then
        label @ '' refuted: observed '' @ formatValue (value_of r) @ '', expected '' @ er_Comparator r @ '' '' @
        formatValue (er_Threshold r) @ '' (-'' @ fmt_fixed 2 (fmul RefutationFactor (er_Weight r)) @ '')''
      else if er_Status r = StatusNoData then label @ '' returned no matching series (not counted)''
      else label @ '' unavailable: '' @ er_Error r @ '' (not counted)'')"

definition scoreFactors :: "hypothesis_score \<Rightarrow> string list" where
  "scoreFactors score =
     (''alert match via '' @ ma_Reason (hd (hy_matches score)) @ '' (+'' @ fmt_fixed 2 AlertMatchScore @ '')'') #
     map result_factor (re_Results (hy_run score)) @
     [''independent sources: '' @ join_str '', '' (hy_sources score) @ '' (cap '' @ fmt_fixed 2 (hy_cap score) @ '')'']"

definition alert_item :: "hypothesis_score \<Rightarrow> match \<Rightarrow> rca_evidence" where
  "alert_item score m =
     \<lparr>ev_RuleID = ru_ID (hy_rule score), ev_Kind = ''alert'', ev_Source = alertSource, ev_Reference = ma_AlertName m,
      ev_Service = ma_Service m, ev_Query = [], ev_Status = ''matched'', ev_Value = None, ev_Comparator = [],
      ev_Threshold = None, ev_Weight = AlertMatchScore, ev_Claim = ''alert matched by '' @ ma_Reason m, ev_Symptom = False,
      ev_Error = [], ev_ObservedAt = ma_ObservedAt m\<rparr>"

definition probe_item :: "hypothesis_score \<Rightarrow> probe_result \<Rightarrow> rca_evidence" where
  "probe_item score r =
     \<lparr>ev_RuleID = ru_ID (hy_rule score), ev_Kind = ''probe'', ev_Source = er_Backend r, ev_Reference = er_ProbeID r,
      ev_Service = re_Service (hy_run score), ev_Query = er_Query r, ev_Status = er_Status r, ev_Value = er_Value r,
      ev_Comparator = er_Comparator r, ev_Threshold = Some (er_Threshold r), ev_Weight = er_Weight r,
      ev_Claim = er_Claim r, ev_Symptom = er_Symptom r, ev_Error = er_Error r, ev_ObservedAt = er_EvaluatedAt r\<rparr>"

text \<open>The first match of each alert name and service.\<close>

fun distinct_matches :: "string list \<Rightarrow> match list \<Rightarrow> match list" where
  "distinct_matches seen [] = []"
| "distinct_matches seen (m # ms) =
     (let key = ma_AlertName m @ ''|'' @ ma_Service m in
      if key \<in> set seen then distinct_matches seen ms else m # distinct_matches (key # seen) ms)"

definition evidenceItems :: "hypothesis_score \<Rightarrow> rca_evidence list" where
  "evidenceItems score =
     map (alert_item score) (distinct_matches [] (hy_matches score)) @ map (probe_item score) (re_Results (hy_run score))"

definition probe_event :: "string \<Rightarrow> rca_evidence \<Rightarrow> timeline_event option" where
  "probe_event incidentID item =
     (case (ev_Value item, ev_Threshold item) of
        (Some v, Some threshold) \<Rightarrow>
          if ev_Kind item \<noteq> ''probe'' then None
          else Some \<lparr>tl_ID = [], tl_IncidentID = incidentID, tl_EventType = ''probe_'' @ ev_Status item, tl_Source = ev_Source item,
             tl_Summary = ev_Reference item @ '': '' @ ev_Claim item @ '' (observed '' @ formatValue v @ '', threshold '' @
               ev_Comparator item @ '' '' @ formatValue threshold @ '')'',
             tl_Evidence = [(''rule_id'', VStr (ev_RuleID item)), (''probe_id'', VStr (ev_Reference item)),
               (''query'', VStr (ev_Query item)), (''value'', VFloat (Fin v)), (''service'', VStr (ev_Service item))],
             tl_Confidence = 1, tl_OccurredAt = ev_ObservedAt item, tl_CreatedAt = zero_time\<rparr>
      | _ \<Rightarrow> None)"

definition probeTimelineEvents :: "string \<Rightarrow> rca_evidence list \<Rightarrow> timeline_event list" where
  "probeTimelineEvents incidentID items = List.map_filter (probe_event incidentID) items"

section \<open>Choosing a hypothesis\<close>

definition zero_score :: rca_score where
  "zero_score =
     \<lparr>sc_RuleID = [], sc_Baseline = 0, sc_AlertMatch = 0, sc_Corroborated = 0, sc_Refuted = 0, sc_RefutationPenalty = 0,
      sc_Raw = 0, sc_Sources = [], sc_SourceCap = 0, sc_TopologyAdjustment = 0, sc_Contradicted = False, sc_Final = 0\<rparr>"

definition insufficientEvidence :: "incident \<Rightarrow> analysis" where
  "insufficientEvidence i =
     \<lparr>an_RuleID = [], an_Summary = ''Signals have been collected, but no alert names a known failure mode.'',
      an_Hypothesis = insufficientHypothesis, an_Confidence = BaselineConfidence,
      an_Evidence = [''no alert matched a failure-mode rule by alertname or '' @ FailureModeLabel @ '' label''],
      an_Factors = [''no corroboration probes were run''], an_Candidates = [diagnostics (inc_Service i)], an_Items = [],
      an_Score = zero_score\<lparr>sc_Baseline := BaselineConfidence, sc_Final := BaselineConfidence\<rparr>\<rparr>"

definition better_score :: "hypothesis_score \<Rightarrow> hypothesis_score \<Rightarrow> bool" where
  "better_score a b =
     (if hy_contradicted a \<noteq> hy_contradicted b then \<not> hy_contradicted a
      else if hy_confidence a \<noteq> hy_confidence b then hy_confidence a > hy_confidence b
      else if length (hy_sources a) \<noteq> length (hy_sources b) then length (hy_sources a) > length (hy_sources b)
      else ru_Hypothesis (hy_rule a) < ru_Hypothesis (hy_rule b))"

definition rule_order :: "match list \<Rightarrow> string list" where
  "rule_order matches = foldl (\<lambda>order m. append_unique order (ma_RuleID m)) [] matches"

definition run_of :: "rule_evidence gomap \<Rightarrow> string \<Rightarrow> rule_evidence" where
  "run_of runs rid = (case map_of runs rid of None \<Rightarrow> \<lparr>re_Service = [], re_Results = []\<rparr> | Some run \<Rightarrow> run)"

definition rule_scores :: "match list \<Rightarrow> rule_evidence gomap \<Rightarrow> hypothesis_score list" where
  "rule_scores matches runs =
     map (\<lambda>rid. let ms = filter (\<lambda>m. ma_RuleID m = rid) matches in scoreRule (ma_Rule (hd ms)) ms (run_of runs rid))
       (rule_order matches)"

definition probed_service :: "hypothesis_score \<Rightarrow> string" where
  "probed_service best =
     (if re_Service (hy_run best) = [] then ma_Service (hd (hy_matches best)) else re_Service (hy_run best))"

definition contradicted_summary :: "hypothesis_score \<Rightarrow> string" where
  "contradicted_summary best =
     ma_AlertName (hd (hy_matches best)) @ '' matched the '' @ ru_Hypothesis (hy_rule best) @
     '' rule, but backend evidence contradicts it (corroborated '' @ fmt_fixed 2 (hy_corroborated best) @ '' < refuted '' @
     fmt_fixed 2 (hy_refuted best) @ ''). Confidence '' @ fmt_fixed 4 (hy_confidence best) @ ''; only diagnostics are proposed.''"

definition supported_summary :: "hypothesis_score \<Rightarrow> string" where
  "supported_summary best =
     ru_Hypothesis (hy_rule best) @ '' likely impacted '' @ probed_service best @ ''. Confidence '' @
     fmt_fixed 4 (hy_confidence best) @ '' = min(max('' @ fmt_fixed 2 AlertMatchScore @ '' alert match + '' @
     fmt_fixed 2 (hy_corroborated best) @ '' corroborated - '' @ fmt_fixed 2 (fmul RefutationFactor (hy_refuted best)) @
     '' refutation penalty, '' @ fmt_fixed 2 BaselineConfidence @ ''), '' @ fmt_fixed 2 (hy_cap best) @ '' cap for '' @
     show_nat (length (hy_sources best)) @ '' independent source(s): '' @ join_str '', '' (hy_sources best) @ '').''"

definition score_record :: "hypothesis_score \<Rightarrow> rca_score" where
  "score_record best =
     \<lparr>sc_RuleID = ru_ID (hy_rule best), sc_Baseline = BaselineConfidence, sc_AlertMatch = AlertMatchScore,
      sc_Corroborated = round4 (hy_corroborated best), sc_Refuted = round4 (hy_refuted best),
      sc_RefutationPenalty = round4 (fmul RefutationFactor (hy_refuted best)), sc_Raw = hy_raw best,
      sc_Sources = hy_sources best, sc_SourceCap = hy_cap best, sc_TopologyAdjustment = 0,
      sc_Contradicted = hy_contradicted best, sc_Final = hy_confidence best\<rparr>"

definition best_analysis :: "hypothesis_score \<Rightarrow> rca_evidence list \<Rightarrow> analysis" where
  "best_analysis best items =
     (let result = \<lparr>an_RuleID = ru_ID (hy_rule best), an_Summary = [], an_Hypothesis = ru_Hypothesis (hy_rule best),
           an_Confidence = hy_confidence best, an_Evidence = supportingEvidence best, an_Factors = scoreFactors best,
           an_Candidates = [], an_Items = items, an_Score = score_record best\<rparr>
      in if hy_contradicted best
         then result\<lparr>an_Summary := contradicted_summary best, an_Candidates := [diagnostics (probed_service best)]\<rparr>
         else case renderCandidates best of (candidates, skipped) \<Rightarrow>
           result\<lparr>an_Summary := supported_summary best, an_Candidates := candidates,
             an_Factors := scoreFactors best @ skipped\<rparr>)"

definition scoreHypotheses :: "incident \<Rightarrow> match list \<Rightarrow> rule_evidence gomap \<Rightarrow> analysis" where
  "scoreHypotheses i matches runs =
     (let scores = rule_scores matches runs in
      case stable_sort better_score scores of
        [] \<Rightarrow> insufficientEvidence i
      | best # _ \<Rightarrow> best_analysis best (concat (map evidenceItems scores)))"

section \<open>Topology\<close>

definition applyTopologyFallback :: "incident \<Rightarrow> incident_topology \<Rightarrow> analysis \<Rightarrow> analysis" where
  "applyTopologyFallback i topo result =
     (if an_Hypothesis result \<noteq> insufficientHypothesis \<or> it_SuppressedAlertCount topo = 0 \<or> it_RootService topo = []
      then result
      else
        let rootEvidence = (if it_RootInferred topo then ''shared dependency inferred from downstream alert paths''
                            else ''root service emitted alert evidence in the incident window'');
            confidence = (if it_RootInferred topo then fl (58 / 100) else fl (72 / 100))
        in result\<lparr>an_Confidence := confidence,
             an_Hypothesis := ''Failure at root dependency '' @ it_RootService topo,
             an_Summary := ''Topology places the failure domain for incident '' @ quote (inc_Title i) @ '' at '' @ it_RootService topo @
               ''. It establishes the affected dependency but not the component-level failure mode.'',
             an_Evidence := [rootEvidence, show_int (it_AlertCount topo) @ '' alerts across '' @
               show_nat (length (it_AffectedServices topo)) @ '' services share dependency root '' @ it_RootService topo],
             an_Factors := [''specific metric, log, or trace evidence is still required to identify the failure mode''],
             an_Candidates := [diagnostics (it_RootService topo)],
             an_Score := (an_Score result)\<lparr>sc_Sources := [alertSource, ''topology''], sc_SourceCap := SourceCap 2,
               sc_Final := confidence\<rparr>\<rparr>)"

text \<open>The nudge an observed root gives a matched rule, never past the cap of its sources.\<close>

definition nudge :: "incident_topology \<Rightarrow> analysis \<Rightarrow> analysis" where
  "nudge topo result =
     (if \<not> it_RootInferred topo \<and> an_RuleID result \<noteq> [] \<and> \<not> sc_Contradicted (an_Score result) then
        let adjusted = clamp (fadd (an_Confidence result) (fl (3 / 100))) BaselineConfidence (sc_SourceCap (an_Score result))
        in result\<lparr>an_Confidence := adjusted,
             an_Score := (an_Score result)\<lparr>sc_TopologyAdjustment := round4 (fsub adjusted (an_Confidence result)), sc_Final := adjusted\<rparr>\<rparr>
      else result)"

definition enrichWithTopology :: "analysis \<Rightarrow> incident_topology \<Rightarrow> analysis" where
  "enrichWithTopology result topo =
     (if it_SuppressedAlertCount topo = 0 then result
      else
        let result = nudge topo result in
        result\<lparr>an_Summary := an_Summary result @ '' Topology correlation identified '' @
             (if it_RootInferred topo then ''inferred'' else ''observed'') @ '' root service '' @ it_RootService topo @ '', grouped '' @
             show_int (it_AlertCount topo) @ '' alerts across '' @ show_nat (length (it_AffectedServices topo)) @
             '' services, and suppressed '' @ show_int (it_SuppressedAlertCount topo) @ '' downstream alerts.'',
           an_Evidence := appendEvidence (an_Evidence result)
             [show_int (it_SuppressedAlertCount topo) @ '' downstream alerts were suppressed behind root service '' @ it_RootService topo,
              ''blast radius includes '' @ join_str '', '' (it_AffectedServices topo)],
           an_Factors := foldl (\<lambda>factors p. appendEvidence factors [''dependency path: '' @ join_str '' -> '' (Services p)])
             (an_Factors result) (it_Paths topo)\<rparr>)"

definition analyze_with :: "incident \<Rightarrow> match list \<Rightarrow> rule_evidence gomap \<Rightarrow> incident_topology \<Rightarrow> analysis" where
  "analyze_with i matches runs topo =
     enrichWithTopology (applyTopologyFallback i topo (scoreHypotheses i matches runs)) topo"

section \<open>Bounds\<close>

lemma clamp_bounds: "lo \<le> hi \<Longrightarrow> lo \<le> clamp v lo hi \<and> clamp v lo hi \<le> hi"
  by (auto simp: clamp_def)

lemma clamp_mono: "v \<le> v' \<Longrightarrow> lo \<le> hi \<Longrightarrow> hi \<le> hi' \<Longrightarrow> clamp v lo hi \<le> clamp v' lo hi'"
  by (auto simp: clamp_def)

lemma cap_bounds: "BaselineConfidence \<le> SourceCap n" "SourceCap n \<le> fl (95 / 100)"
  by (auto simp: BaselineConfidence_def SourceCap_def intro: fl_mono)

lemma SourceCap_mono: "m \<le> n \<Longrightarrow> SourceCap m \<le> SourceCap n"
  by (auto simp: SourceCap_def intro: fl_mono)

lemma score_fields:
  "hy_cap (scoreRule r ms run) = SourceCap (length (hy_sources (scoreRule r ms run)))"
  "hy_rule (scoreRule r ms run) = r" "hy_matches (scoreRule r ms run) = ms" "hy_run (scoreRule r ms run) = run"
  "hy_sources (scoreRule r ms run) = alertSource # sort (snd (snd (foldl tally (0, 0, []) (re_Results run))))"
  by (simp_all add: scoreRule_def Let_def split: prod.splits)

lemma score_confidence:
  "BaselineConfidence \<le> hy_confidence (scoreRule r ms run) \<and> hy_confidence (scoreRule r ms run) \<le> hy_cap (scoreRule r ms run)"
  using clamp_bounds [OF cap_bounds(1)] by (simp add: scoreRule_def Let_def split: prod.splits)

text \<open>What the score of an analysis says of its confidence.\<close>

definition confidence_ok :: "analysis \<Rightarrow> bool" where
  "confidence_ok r \<longleftrightarrow>
     an_Confidence r = sc_Final (an_Score r) \<and> BaselineConfidence \<le> an_Confidence r \<and>
     (if sc_Sources (an_Score r) = [] then an_RuleID r = [] \<and> an_Confidence r = BaselineConfidence
      else sc_SourceCap (an_Score r) = SourceCap (length (sc_Sources (an_Score r))) \<and>
           an_Confidence r \<le> sc_SourceCap (an_Score r))"

lemma confidence_best: "confidence_ok (best_analysis (scoreRule r ms run) items)"
  using score_confidence [of r ms run] score_fields [of r ms run]
  by (auto simp: best_analysis_def confidence_ok_def score_record_def Let_def split: prod.splits)

lemma in_rule_scores: "s \<in> set (rule_scores matches runs) \<Longrightarrow> \<exists>rid. s = scoreRule (ma_Rule (hd (filter (\<lambda>m. ma_RuleID m = rid) matches)))
     (filter (\<lambda>m. ma_RuleID m = rid) matches) (run_of runs rid) \<and> rid \<in> set (rule_order matches)"
  by (auto simp: rule_scores_def Let_def)

lemma scoreHypotheses_cases:
  obtains "scoreHypotheses i matches runs = insufficientEvidence i" "rule_scores matches runs = []"
  | best items where "scoreHypotheses i matches runs = best_analysis best items" "best \<in> set (rule_scores matches runs)"
proof (cases "stable_sort better_score (rule_scores matches runs)")
  case Nil
  then have "rule_scores matches runs = []" by simp
  then show ?thesis using that(1) Nil by (simp add: scoreHypotheses_def Let_def del: stable_sort_eq_Nil)
next
  case (Cons b bs)
  then have "b \<in> set (rule_scores matches runs)" by (metis list.set_intros(1) set_stable_sort)
  then show ?thesis using that(2) Cons by (simp add: scoreHypotheses_def Let_def)
qed

lemma confidence_score: "confidence_ok (scoreHypotheses i matches runs)"
proof (cases rule: scoreHypotheses_cases [of i matches runs])
  case 1
  then show ?thesis by (simp add: confidence_ok_def insufficientEvidence_def zero_score_def)
next
  case (2 best items)
  then show ?thesis using confidence_best in_rule_scores by metis
qed

lemma fallback_bounds:
  "BaselineConfidence \<le> fl (58 / 100)" "fl (58 / 100) \<le> SourceCap 2" "BaselineConfidence \<le> fl (72 / 100)" "fl (72 / 100) \<le> SourceCap 2"
  by (simp_all add: BaselineConfidence_def SourceCap_def fl_mono)

lemma confidence_fallback: "confidence_ok r \<Longrightarrow> confidence_ok (applyTopologyFallback i topo r)"
proof (cases "an_Hypothesis r \<noteq> insufficientHypothesis \<or> it_SuppressedAlertCount topo = 0 \<or> it_RootService topo = []")
  case False
  let ?r = "applyTopologyFallback i topo r"
  have "an_Confidence ?r = (if it_RootInferred topo then fl (58 / 100) else fl (72 / 100))" "sc_Final (an_Score ?r) = an_Confidence ?r"
    "sc_Sources (an_Score ?r) = [alertSource, ''topology'']" "sc_SourceCap (an_Score ?r) = SourceCap 2"
    using False by (simp_all add: applyTopologyFallback_def Let_def)
  then show ?thesis using fallback_bounds by (simp only: confidence_ok_def) (simp add: numeral_2_eq_2)
qed (auto simp: applyTopologyFallback_def)

lemma enriched_fields:
  "an_Confidence (enrichWithTopology r topo) = an_Confidence (if it_SuppressedAlertCount topo = 0 then r else nudge topo r)"
  "an_Score (enrichWithTopology r topo) = an_Score (if it_SuppressedAlertCount topo = 0 then r else nudge topo r)"
  "an_RuleID (enrichWithTopology r topo) = an_RuleID (if it_SuppressedAlertCount topo = 0 then r else nudge topo r)"
  "an_Candidates (enrichWithTopology r topo) = an_Candidates r"
  "sc_Contradicted (an_Score (enrichWithTopology r topo)) = sc_Contradicted (an_Score r)"
  by (simp_all add: enrichWithTopology_def nudge_def Let_def)

lemma confidence_enriched: "confidence_ok r \<Longrightarrow> confidence_ok (enrichWithTopology r topo)"
proof -
  assume r: "confidence_ok r"
  have "confidence_ok (nudge topo r)"
  proof (cases "\<not> it_RootInferred topo \<and> an_RuleID r \<noteq> [] \<and> \<not> sc_Contradicted (an_Score r)")
    case True
    let ?r = "nudge topo r"
    have "an_Confidence ?r = clamp (fadd (an_Confidence r) (fl (3 / 100))) BaselineConfidence (sc_SourceCap (an_Score r))"
      "sc_Final (an_Score ?r) = an_Confidence ?r" "sc_Sources (an_Score ?r) = sc_Sources (an_Score r)"
      "sc_SourceCap (an_Score ?r) = sc_SourceCap (an_Score r)" "an_RuleID ?r = an_RuleID r"
      using True by (simp_all add: nudge_def Let_def)
    then show ?thesis using r True clamp_bounds [OF cap_bounds(1)] unfolding confidence_ok_def by (auto split: if_splits)
  qed (auto simp: nudge_def r)
  then have "confidence_ok (if it_SuppressedAlertCount topo = 0 then r else nudge topo r)" using r by simp
  then show ?thesis unfolding confidence_ok_def enriched_fields(1-3) .
qed

text \<open>
  C35: The confidence of an analysis never leaves the range its evidence supports. For every set of
  matches, probe results and topology, it lies between the baseline and 0.95, it is the final value of
  the recorded score, and it is at most the cap for the number of recorded sources: 0.55 for one, 0.80
  for two. Without a matched rule or a topological root it is the baseline.
\<close>

theorem confidence_is_bounded:
  "let r = analyze_with i matches runs topo; sources = sc_Sources (an_Score r) in
     an_Confidence r = sc_Final (an_Score r) \<and>
     BaselineConfidence \<le> an_Confidence r \<and> an_Confidence r \<le> fl (95 / 100) \<and>
     (if sources = [] then an_Confidence r = BaselineConfidence
      else an_Confidence r \<le> SourceCap (length sources))"
proof -
  have "confidence_ok (analyze_with i matches runs topo)"
    unfolding analyze_with_def by (intro confidence_enriched confidence_fallback confidence_score)
  then show ?thesis
    using cap_bounds(2) [of "length (sc_Sources (an_Score (analyze_with i matches runs topo)))"] order_trans [OF cap_bounds]
    by (auto simp: confidence_ok_def Let_def split: if_splits)
qed

section \<open>Corroboration\<close>

definition sees_cause :: "probe_result \<Rightarrow> bool" where
  "sees_cause x \<longleftrightarrow> er_Status x = StatusCorroborated \<and> \<not> er_Symptom x"

lemma tally_backends:
  "snd (snd (foldl tally acc xs)) = foldl append_unique (snd (snd acc)) (map er_Backend (filter sees_cause xs))"
  by (induction xs arbitrary: acc) (auto simp: tally_def sees_cause_def split: prod.splits)

lemma enriched_cap:
  assumes "an_Confidence (enrichWithTopology r topo) > fl (55 / 100)" "confidence_ok r"
    and "sc_Sources (an_Score r) = [] \<or> sc_Sources (an_Score r) = [s]"
  shows False
proof -
  have "confidence_ok (enrichWithTopology r topo)" using assms(2) by (rule confidence_enriched)
  moreover have "sc_Sources (an_Score (enrichWithTopology r topo)) = sc_Sources (an_Score r)"
    by (simp add: enrichWithTopology_def nudge_def Let_def)
  moreover have "BaselineConfidence \<le> fl (55 / 100)" by (simp add: BaselineConfidence_def fl_mono)
  ultimately show False using assms(1,3) by (auto simp: confidence_ok_def SourceCap_def)
qed

section \<open>Candidates\<close>

definition safe_candidate :: "match list \<Rightarrow> rca_candidate \<Rightarrow> bool" where
  "safe_candidate matches c \<longleftrightarrow>
     c = diagnostics (cand_Target c) \<or>
     (Validate (cand_ActionType c) (cand_Target c) (case cand_Parameters c of None \<Rightarrow> [] | Some p \<Rightarrow> p) = None \<and>
      cand_RequiresApproval c = (cand_Risk c \<noteq> ''low'') \<and>
      list_ex (\<lambda>m. list_ex (\<lambda>t. ct_ActionType t = cand_ActionType c \<and> ct_Risk t = cand_Risk c) (ru_Remediations (ma_Rule m))) matches)"

lemma diagnostics_target [simp]: "cand_Target (diagnostics s) = s"
  by (simp add: diagnostics_def)

lemma diagnostics_safe [simp]: "safe_candidate matches (diagnostics s)"
  by (simp add: safe_candidate_def)

lemma render_safe:
  "c \<in> set (fst (render_templates m ts)) \<Longrightarrow>
     Validate (cand_ActionType c) (cand_Target c) (case cand_Parameters c of None \<Rightarrow> [] | Some p \<Rightarrow> p) = None \<and>
     cand_RequiresApproval c = (cand_Risk c \<noteq> ''low'') \<and>
     list_ex (\<lambda>t. ct_ActionType t = cand_ActionType c \<and> ct_Risk t = cand_Risk c) ts"
proof (induction ts)
  case (Cons t ts)
  then show ?case
    by (cases "render_templates m ts")
       (auto simp: RenderTemplate_def Let_def split: sum.splits prod.splits if_splits option.splits)
qed simp

lemma rule_order_set: "set (rule_order matches) = ma_RuleID ` set matches"
proof -
  have "set (foldl (\<lambda>order m. append_unique order (ma_RuleID m)) acc ms) = set acc \<union> ma_RuleID ` set ms" for acc and ms :: "match list"
    by (induction ms arbitrary: acc) auto
  then show ?thesis by (simp add: rule_order_def)
qed

lemma rule_scores_match:
  assumes "s \<in> set (rule_scores matches runs)"
  shows "\<exists>m \<in> set matches. hy_rule s = ma_Rule m"
proof -
  obtain rid where s: "s = scoreRule (ma_Rule (hd (filter (\<lambda>m. ma_RuleID m = rid) matches)))
      (filter (\<lambda>m. ma_RuleID m = rid) matches) (run_of runs rid)" and "rid \<in> set (rule_order matches)"
    using in_rule_scores [OF assms] by blast
  then have "filter (\<lambda>m. ma_RuleID m = rid) matches \<noteq> []" by (auto simp: rule_order_set filter_empty_conv)
  then have "hd (filter (\<lambda>m. ma_RuleID m = rid) matches) \<in> set matches" by (metis filter_is_subset hd_in_set subsetD)
  then show ?thesis by (auto simp: s score_fields)
qed

lemma best_candidates:
  assumes "best \<in> set (rule_scores matches runs)"
  shows "list_all (safe_candidate matches) (an_Candidates (best_analysis best items)) \<and> an_Candidates (best_analysis best items) \<noteq> [] \<and>
    (sc_Contradicted (an_Score (best_analysis best items)) \<longrightarrow>
       an_Candidates (best_analysis best items) = [diagnostics (probed_service best)])"
proof (cases "hy_contradicted best")
  case True
  then show ?thesis by (simp add: best_analysis_def score_record_def Let_def)
next
  case False
  obtain m where m: "m \<in> set matches" "hy_rule best = ma_Rule m" using rule_scores_match [OF assms] by blast
  obtain cs ss where r: "render_templates (target_match best) (ru_Remediations (hy_rule best)) = (cs, ss)" by fastforce
  have "safe_candidate matches c" if "c \<in> set cs" for c
    using render_safe [of c "target_match best" "ru_Remediations (hy_rule best)"] that m
    by (auto simp: r [unfolded m(2)] list_ex_iff safe_candidate_def)
  then have "list_all (safe_candidate matches) cs" by (simp add: list_all_iff)
  then show ?thesis using False
    by (auto simp: best_analysis_def renderCandidates_def score_record_def r Let_def split: prod.splits)
qed

lemma analysis_candidates:
  "let r = analyze_with i matches runs topo in
     an_Candidates r \<noteq> [] \<and> list_all (safe_candidate matches) (an_Candidates r) \<and>
     (if sc_Contradicted (an_Score r) then list_all (\<lambda>c. c = diagnostics (cand_Target c)) (an_Candidates r) else True)"
proof -
  let ?s = "scoreHypotheses i matches runs"
  have s: "an_Candidates ?s \<noteq> [] \<and> list_all (safe_candidate matches) (an_Candidates ?s) \<and>
      (sc_Contradicted (an_Score ?s) \<longrightarrow> list_all (\<lambda>c. c = diagnostics (cand_Target c)) (an_Candidates ?s))"
  proof (cases rule: scoreHypotheses_cases [of i matches runs])
    case 1
    then show ?thesis by (simp add: insufficientEvidence_def zero_score_def)
  next
    case (2 best items)
    then show ?thesis using best_candidates [OF 2(2), of items] by auto
  qed
  then have "an_Candidates (applyTopologyFallback i topo ?s) \<noteq> [] \<and>
      list_all (safe_candidate matches) (an_Candidates (applyTopologyFallback i topo ?s)) \<and>
      (sc_Contradicted (an_Score (applyTopologyFallback i topo ?s)) \<longrightarrow>
         list_all (\<lambda>c. c = diagnostics (cand_Target c)) (an_Candidates (applyTopologyFallback i topo ?s)))"
    by (cases "an_Hypothesis ?s \<noteq> insufficientHypothesis \<or> it_SuppressedAlertCount topo = 0 \<or> it_RootService topo = []")
       (simp_all add: applyTopologyFallback_def Let_def)
  then show ?thesis by (simp add: analyze_with_def enriched_fields(4,5) Let_def)
qed

text \<open>
  C37: Whatever alerts and probe results say, an analysis proposes at least one candidate and only safe
  ones. A candidate is the collection of diagnostics, or an action with the risk that a matched
  rule's table gives it, whose target and parameters passed the action catalog and which asks for
  approval unless its risk is low. A contradicted hypothesis leads to nothing but diagnostics.
\<close>

theorem candidates_are_safe:
  "let r = analyze_with i matches runs topo in
     an_Candidates r \<noteq> [] \<and> list_all (safe_candidate matches) (an_Candidates r) \<and>
     (if sc_Contradicted (an_Score r) then list_all (\<lambda>c. c = diagnostics (cand_Target c)) (an_Candidates r) else True)"
  by (rule analysis_candidates)

section \<open>Earned confidence\<close>

lemma kept_hypothesis:
  "an_Hypothesis (enrichWithTopology r topo) = an_Hypothesis r" "an_RuleID (enrichWithTopology r topo) = an_RuleID r"
  by (simp_all add: enrichWithTopology_def nudge_def Let_def)

lemma best_names:
  "an_RuleID (best_analysis best items) = ru_ID (hy_rule best)" "an_Hypothesis (best_analysis best items) = ru_Hypothesis (hy_rule best)"
  "sc_Sources (an_Score (best_analysis best items)) = hy_sources best"
  by (simp_all add: best_analysis_def score_record_def Let_def split: prod.splits)

text \<open>Without a corroborated cause the alert stays the only source of a rule.\<close>

lemma one_source:
  assumes "\<not> list_ex sees_cause (re_Results run)" shows "hy_sources (scoreRule r ms run) = [alertSource]"
proof -
  have "filter sees_cause (re_Results run) = []" using assms by (auto simp: list_ex_iff filter_empty_conv)
  then show ?thesis by (simp add: score_fields tally_backends)
qed

text \<open>The analysis follows one of the matched rules, whose cause a probe of its own run saw.\<close>

definition supported_rule :: "match list \<Rightarrow> rule_evidence gomap \<Rightarrow> analysis \<Rightarrow> match \<Rightarrow> bool" where
  "supported_rule matches runs r m \<longleftrightarrow>
     m \<in> set matches \<and> an_RuleID r = ma_RuleID m \<and> an_Hypothesis r = ru_Hypothesis (ma_Rule m) \<and>
     list_ex sees_cause (re_Results (run_of runs (ma_RuleID m)))"

definition rests_on_topology :: "match list \<Rightarrow> incident_topology \<Rightarrow> analysis \<Rightarrow> bool" where
  "rests_on_topology matches topo r \<longleftrightarrow>
     matches = [] \<and> it_RootService topo \<noteq> [] \<and> it_SuppressedAlertCount topo \<noteq> 0 \<and> an_RuleID r = [] \<and>
     an_Hypothesis r = ''Failure at root dependency '' @ it_RootService topo"

lemma earned:
  assumes rules: "\<And>m. m \<in> set matches \<Longrightarrow> ma_RuleID m = ru_ID (ma_Rule m) \<and> ru_Hypothesis (ma_Rule m) \<noteq> insufficientHypothesis"
    and high: "an_Confidence (analyze_with i matches runs topo) > fl (55 / 100)"
  shows "rests_on_topology matches topo (analyze_with i matches runs topo) \<or>
    (\<exists>m. supported_rule matches runs (analyze_with i matches runs topo) m)"
proof (cases rule: scoreHypotheses_cases [of i matches runs])
  case 1
  then have "matches = []" using rule_order_set [of matches] by (simp add: rule_scores_def Let_def)
  moreover have "\<not> (it_SuppressedAlertCount topo = 0 \<or> it_RootService topo = [])"
  proof
    assume "it_SuppressedAlertCount topo = 0 \<or> it_RootService topo = []"
    then have "applyTopologyFallback i topo (insufficientEvidence i) = insufficientEvidence i" by (auto simp: applyTopologyFallback_def)
    then show False using high enriched_cap [of "insufficientEvidence i" topo] confidence_score [of i matches runs] 1
      by (auto simp: analyze_with_def insufficientEvidence_def zero_score_def)
  qed
  ultimately show ?thesis using 1(1)
    by (simp add: rests_on_topology_def analyze_with_def kept_hypothesis applyTopologyFallback_def insufficientEvidence_def Let_def)
next
  case (2 best items)
  then obtain rid where best: "best = scoreRule (ma_Rule (hd (filter (\<lambda>m. ma_RuleID m = rid) matches)))
      (filter (\<lambda>m. ma_RuleID m = rid) matches) (run_of runs rid)" and "rid \<in> set (rule_order matches)" using in_rule_scores by blast
  define m where "m = hd (filter (\<lambda>m. ma_RuleID m = rid) matches)"
  have "filter (\<lambda>m. ma_RuleID m = rid) matches \<noteq> []"
    using \<open>rid \<in> set (rule_order matches)\<close> by (auto simp: rule_order_set filter_empty_conv)
  then have "m \<in> set (filter (\<lambda>m. ma_RuleID m = rid) matches)" unfolding m_def by (rule hd_in_set)
  then have m: "m \<in> set matches" "ma_RuleID m = rid" by auto
  have rule: "hy_rule best = ma_Rule m" by (simp add: best score_fields m_def)
  have same: "analyze_with i matches runs topo = enrichWithTopology (best_analysis best items) topo"
    using 2(1) rules [OF m(1)] rule by (simp add: analyze_with_def applyTopologyFallback_def best_names)
  have "list_ex sees_cause (re_Results (run_of runs rid))"
  proof (rule ccontr)
    assume "\<not> ?thesis"
    from one_source [OF this] have "sc_Sources (an_Score (best_analysis best items)) = [alertSource]" by (simp add: best_names best)
    then show False using enriched_cap [of "best_analysis best items" topo] high same confidence_score [of i matches runs] 2(1) by auto
  qed
  then show ?thesis using m rules [OF m(1)] rule
    by (intro disjI2 exI [of _ m]) (simp add: supported_rule_def same kept_hypothesis best_names)
qed

end
