(* ===== verification/Incident_Store.thy ===== *)
theory Incident_Store
  imports Remediation_Store Topology
begin

text \<open>
  The rest of \<^verbatim>\<open>src/internal/incidents/store.go\<close>: the service catalog and its dependencies, the creation,
  grouping and promotion of incidents, the state of their alerts, signals, the timeline and the RCA
  reports. The constraints of \<^verbatim>\<open>src/migrations/0001_baseline.sql\<close> are part of each statement. Rows that
  agree on the columns of an \<^verbatim>\<open>ORDER BY\<close> keep the order they were inserted in.
\<close>

section \<open>Services and dependencies\<close>

definition insert_service :: "service \<Rightarrow> database \<Rightarrow> goerr + unit \<times> database" where
  "insert_service s d =
     (if svc_Tier s \<notin> set [''tier0'', ''tier1'', ''tier2'', ''tier3''] then Inl (check_violation ''services_tier_check'')
      else if list_ex (\<lambda>x. svc_ID x = svc_ID s) (services_tbl d) then Inl (unique_violation ''services_pkey'')
      else if list_ex (\<lambda>x. svc_Name x = svc_Name s) (services_tbl d) then Inl (unique_violation ''services_name_key'')
      else Inr ((), d\<lparr>services_tbl := services_tbl d @ [s\<lparr>svc_CreatedAt := trunc_micro (svc_CreatedAt s)\<rparr>]\<rparr>))"

definition find_service :: "string \<Rightarrow> database \<Rightarrow> goerr + service" where
  "find_service name d =
     (case find (\<lambda>s. svc_Name s = name) (services_tbl d) of None \<Rightarrow> Inl sql_no_rows | Some s \<Rightarrow> Inr s)"

definition EnsureService :: "string \<Rightarrow> service prog" where
  "EnsureService name =
     bind (attempt (query (\<lambda>t. find_service name))) (\<lambda>r.
     case r of
       Inr svc \<Rightarrow> ret svc
     | Inl err \<Rightarrow>
         if err \<noteq> sql_no_rows then fail (wrap ''query service'' err)
         else
           bind (NewID ''svc'') (\<lambda>sid.
           bind time_now (\<lambda>now.
           let svc = \<lparr>svc_ID = sid, svc_Name = name, svc_Owner = [], svc_Tier = ''tier1'', svc_Environment = ''local'',
                svc_SLOAvailability = None, svc_SLOLatencyP95MS = None, svc_RunbookID = None, svc_CreatedAt = now\<rparr> in
           bind (wrap_err ''insert service'' (sql (\<lambda>t. insert_service svc))) (\<lambda>_. ret svc))))"

record dependency_request =
  dr_Service :: string
  dr_DependsOn :: string
  dr_DependencyType :: string
  dr_Criticality :: string

text \<open>\<^verbatim>\<open>INSERT ... ON CONFLICT DO UPDATE ... RETURNING id, created_at\<close>.\<close>

definition same_edge :: "dependency \<Rightarrow> dependency \<Rightarrow> bool" where
  "same_edge a b \<longleftrightarrow> DepServiceID a = DepServiceID b \<and> DependsOnID a = DependsOnID b"

definition upsert_dependency :: "dependency \<Rightarrow> database \<Rightarrow> goerr + (string \<times> int) \<times> database" where
  "upsert_dependency item d =
     (if DependencyType item \<notin> set [''synchronous'', ''asynchronous'', ''datastore'', ''edge'']
      then Inl (check_violation ''service_dependencies_dependency_type_check'')
      else if Criticality item \<notin> set [''critical'', ''degraded'', ''optional'']
      then Inl (check_violation ''service_dependencies_criticality_check'')
      else if DepServiceID item = DependsOnID item then Inl (check_violation ''service_dependencies_check'')
      else case find (same_edge item) (service_dependencies d) of
        Some old \<Rightarrow>
          Inr ((DepID old, DepCreatedAt old), d\<lparr>service_dependencies := update_rows (same_edge item)
            (\<lambda>x. x\<lparr>DependencyType := DependencyType item, Criticality := Criticality item\<rparr>) (service_dependencies d)\<rparr>)
      | None \<Rightarrow>
          if list_ex (\<lambda>x. DepID x = DepID item) (service_dependencies d)
          then Inl (unique_violation ''service_dependencies_pkey'')
          else if \<not> list_ex (\<lambda>s. svc_ID s = DepServiceID item) (services_tbl d)
          then Inl (foreign_key_violation ''service_dependencies_service_id_fkey'')
          else if \<not> list_ex (\<lambda>s. svc_ID s = DependsOnID item) (services_tbl d)
          then Inl (foreign_key_violation ''service_dependencies_depends_on_service_id_fkey'')
          else
            let created = trunc_micro (DepCreatedAt item)
            in Inr ((DepID item, created), d\<lparr>service_dependencies := service_dependencies d @ [item\<lparr>DepCreatedAt := created\<rparr>]\<rparr>))"

definition UpsertServiceDependency :: "dependency_request \<Rightarrow> dependency prog" where
  "UpsertServiceDependency req =
     bind (EnsureService (dr_Service req)) (\<lambda>service.
     bind (EnsureService (dr_DependsOn req)) (\<lambda>dependsOn.
     if svc_ID service = svc_ID dependsOn then fail (errorf ''service cannot depend on itself'')
     else
       bind (NewID ''dep'') (\<lambda>did.
       bind time_now (\<lambda>now.
       let item = \<lparr>DepID = did, DepServiceID = svc_ID service, DepService = svc_Name service,
            DependsOnID = svc_ID dependsOn, DependsOn = svc_Name dependsOn,
            DependencyType = (if dr_DependencyType req = [] then ''synchronous'' else dr_DependencyType req),
            Criticality = (if dr_Criticality req = [] then ''critical'' else dr_Criticality req), DepCreatedAt = now\<rparr> in
       bind (wrap_err ''upsert service dependency'' (sql (\<lambda>t. upsert_dependency item))) (\<lambda>(did', created).
       ret (item\<lparr>DepID := did', DepCreatedAt := created\<rparr>))))))"

text \<open>The inner joins: an edge is listed with the current names of its two services.\<close>

definition service_name :: "database \<Rightarrow> string \<Rightarrow> string option" where
  "service_name d sid = map_option svc_Name (find (\<lambda>s. svc_ID s = sid) (services_tbl d))"

definition joined_dependency :: "database \<Rightarrow> dependency \<Rightarrow> dependency option" where
  "joined_dependency d x =
     (case (service_name d (DepServiceID x), service_name d (DependsOnID x)) of
        (Some a, Some b) \<Rightarrow> Some (x\<lparr>DepService := a, DependsOn := b\<rparr>) | _ \<Rightarrow> None)"

definition ListServiceDependencies :: "(dependency list) prog" where
  "ListServiceDependencies =
     wrap_err ''list service dependencies'' (query (\<lambda>t d.
       Inr (stable_sort (\<lambda>a b. DepService a < DepService b \<or> DepService a = DepService b \<and> DependsOn a < DependsOn b)
             (List.map_filter (joined_dependency d) (service_dependencies d)))))"

section \<open>Creating incidents\<close>

definition defaultSeverity :: "string \<Rightarrow> string" where
  "defaultSeverity value = (if value \<in> set [''sev1'', ''sev2'', ''sev3'', ''sev4''] then value else ''sev3'')"

text \<open>The row of a new incident: times to the microsecond, \<^verbatim>\<open>NULL\<close> where the statement names no value.\<close>

definition stored_incident :: "incident \<Rightarrow> incident" where
  "stored_incident i =
     i\<lparr>inc_StartedAt := trunc_micro (inc_StartedAt i), inc_DetectedAt := trunc_micro (inc_DetectedAt i),
       inc_CreatedAt := trunc_micro (inc_CreatedAt i), inc_UpdatedAt := trunc_micro (inc_UpdatedAt i),
       inc_LastSeenAt := trunc_micro (inc_LastSeenAt i), inc_ResolvedAt := None, inc_AlertsClearedAt := None\<rparr>"

definition insert_incident :: "incident \<Rightarrow> database \<Rightarrow> goerr + unit \<times> database" where
  "insert_incident i d =
     (if inc_Severity i \<notin> set [''sev1'', ''sev2'', ''sev3'', ''sev4''] then Inl (check_violation ''incidents_severity_check'')
      else if list_ex (\<lambda>x. inc_ID x = inc_ID i) (incidents d) then Inl (unique_violation ''incidents_pkey'')
      else if \<not> list_ex (\<lambda>s. svc_ID s = inc_ServiceID i) (services_tbl d)
      then Inl (foreign_key_violation ''incidents_service_id_fkey'')
      else Inr ((), d\<lparr>incidents := incidents d @ [stored_incident i]\<rparr>))"

record manual_request =
  mi_Title :: string
  mi_Service :: string
  mi_Severity :: string
  mi_Summary :: string

definition CreateManualIncident :: "manual_request \<Rightarrow> incident prog" where
  "CreateManualIncident req =
     bind (EnsureService (mi_Service req)) (\<lambda>service.
     bind time_now (\<lambda>now.
     bind (NewID ''inc'') (\<lambda>iid.
     bind (NewID ''fp'') (\<lambda>fp.
     let incident = \<lparr>inc_ID = iid, inc_Title = mi_Title req, inc_ServiceID = svc_ID service, inc_Service = svc_Name service,
          inc_Severity = defaultSeverity (mi_Severity req), inc_Status = IncDetected,
          inc_DedupeKey = svc_Name service @ '':manual:'' @ mi_Title req @ '':manual'', inc_Fingerprint = fp,
          inc_StartedAt = now, inc_DetectedAt = now, inc_ResolvedAt = None, inc_Summary = mi_Summary req,
          inc_CreatedAt = now, inc_UpdatedAt = now, inc_Environment = ''local'', inc_LastSeenAt = now,
          inc_AlertsClearedAt = None\<rparr> in
     bind (wrap_err ''insert incident'' (sql (\<lambda>t. insert_incident incident))) (\<lambda>_. ret incident)))))"

definition CreateAlertIncident ::
  "string \<Rightarrow> string \<Rightarrow> string \<Rightarrow> string \<Rightarrow> string \<Rightarrow> string \<Rightarrow> string \<Rightarrow> int \<Rightarrow> incident prog" where
  "CreateAlertIncident title serviceName environment severity dedupeKey fingerprint summary startedAt =
     bind (EnsureService serviceName) (\<lambda>service.
     bind time_now (\<lambda>now.
     bind (NewID ''inc'') (\<lambda>iid.
     let incident = \<lparr>inc_ID = iid, inc_Title = title, inc_ServiceID = svc_ID service, inc_Service = svc_Name service,
          inc_Severity = defaultSeverity severity, inc_Status = IncDetected, inc_DedupeKey = dedupeKey,
          inc_Fingerprint = fingerprint, inc_StartedAt = startedAt, inc_DetectedAt = now, inc_ResolvedAt = None,
          inc_Summary = summary, inc_CreatedAt = now, inc_UpdatedAt = now, inc_Environment = environment,
          inc_LastSeenAt = now, inc_AlertsClearedAt = None\<rparr> in
     bind (wrap_err ''insert alert incident'' (sql (\<lambda>t. insert_incident incident))) (\<lambda>_. ret incident))))"

definition promote_incident ::
  "string \<Rightarrow> string \<Rightarrow> string \<Rightarrow> string \<Rightarrow> string \<Rightarrow> string \<Rightarrow> string \<Rightarrow> int \<Rightarrow> int \<Rightarrow> database \<Rightarrow> goerr + unit \<times> database" where
  "promote_incident incidentID serviceID title severity dedupeKey fingerprint summary startedAt t d =
     (if \<not> list_ex (\<lambda>s. svc_ID s = serviceID) (services_tbl d) then Inl (foreign_key_violation ''incidents_service_id_fkey'')
      else Inr ((), d\<lparr>incidents := update_rows (\<lambda>i. inc_ID i = incidentID)
        (\<lambda>i. i\<lparr>inc_ServiceID := serviceID, inc_Title := title, inc_Severity := severity, inc_DedupeKey := dedupeKey,
               inc_Fingerprint := fingerprint, inc_Summary := summary,
               inc_StartedAt := min (inc_StartedAt i) (trunc_micro startedAt), inc_UpdatedAt := t\<rparr>) (incidents d)\<rparr>))"

definition PromoteIncidentRoot ::
  "string \<Rightarrow> string \<Rightarrow> string \<Rightarrow> string \<Rightarrow> string \<Rightarrow> string \<Rightarrow> string \<Rightarrow> int \<Rightarrow> incident prog" where
  "PromoteIncidentRoot incidentID rootService title severity dedupeKey fingerprint summary startedAt =
     bind (EnsureService rootService) (\<lambda>service.
     bind (wrap_err ''promote incident root''
       (sql (promote_incident incidentID (svc_ID service) title (defaultSeverity severity) dedupeKey fingerprint summary startedAt))) (\<lambda>_.
     GetIncident incidentID))"

section \<open>Grouping\<close>

text \<open>\<^verbatim>\<open>Duration.Seconds\<close>, and the interval that \<^verbatim>\<open>%f seconds\<close> of it denotes, in nanoseconds.\<close>

definition duration_seconds :: "int \<Rightarrow> rat" where
  "duration_seconds w =
     of_int (sgn w) * fadd (of_int (\<bar>w\<bar> div Second)) (fdiv (of_int (\<bar>w\<bar> mod Second)) (of_int Second))"

definition intervalLiteral :: "int \<Rightarrow> string" where
  "intervalLiteral w = fmt_fixed 6 (duration_seconds w) @ '' seconds''"

definition interval :: "int \<Rightarrow> int" where
  "interval w = 1000 * rnd_even (duration_seconds w * 10 ^ 6)"

definition is_open :: "incident \<Rightarrow> bool" where
  "is_open i \<longleftrightarrow> inc_Status i \<notin> set [IncResolved, IncCancelled]"

definition activeForGrouping :: "grouping \<Rightarrow> int \<Rightarrow> database \<Rightarrow> incident \<Rightarrow> bool" where
  "activeForGrouping g t d i \<longleftrightarrow>
     is_open i \<and>
     (list_ex (\<lambda>a. ia_IncidentID a = inc_ID i \<and> ia_Status a = ''firing'' \<and> ia_LastSeenAt a \<ge> t - interval (AlertStaleAfter g))
        (incident_alerts d)
      \<or> inc_LastSeenAt i \<ge> t - interval (Window g))"

definition latest_first :: "incident \<Rightarrow> incident \<Rightarrow> bool" where
  "latest_first a b \<longleftrightarrow> inc_LastSeenAt a > inc_LastSeenAt b \<or> inc_LastSeenAt a = inc_LastSeenAt b \<and> inc_ID a < inc_ID b"

definition first_row :: "'a list \<Rightarrow> 'a option" where
  "first_row xs = (case xs of [] \<Rightarrow> None | x # _ \<Rightarrow> Some x)"

definition carries_alert :: "database \<Rightarrow> string \<Rightarrow> incident \<Rightarrow> bool" where
  "carries_alert d dedupeKey i \<longleftrightarrow>
     inc_DedupeKey i = dedupeKey \<or>
     list_ex (\<lambda>a. ia_IncidentID a = inc_ID i \<and> ia_DedupeKey a = dedupeKey) (incident_alerts d)"

definition FindOpenByDedupeKey :: "string \<Rightarrow> grouping \<Rightarrow> (incident option) prog" where
  "FindOpenByDedupeKey dedupeKey g =
     wrap_err ''find incident by dedupe key'' (query (\<lambda>t d.
       Inr (map_option (incident_row d) (first_row (stable_sort latest_first
         (filter (\<lambda>i. activeForGrouping g t d i \<and> carries_alert d dedupeKey i) (incidents d)))))))"

definition ListOpenIncidents :: "grouping \<Rightarrow> (incident list) prog" where
  "ListOpenIncidents g =
     wrap_err ''list open incidents'' (query (\<lambda>t d.
       Inr (map (incident_row d) (stable_sort
         (\<lambda>a b. inc_StartedAt a < inc_StartedAt b \<or> inc_StartedAt a = inc_StartedAt b \<and> inc_ID a < inc_ID b)
         (filter (activeForGrouping g t d) (incidents d))))))"

definition ListIncidents :: "(incident list) prog" where
  "ListIncidents =
     wrap_err ''list incidents'' (query (\<lambda>t d.
       Inr (map (incident_row d) (stable_sort (\<lambda>a b. inc_StartedAt a > inc_StartedAt b) (incidents d)))))"

section \<open>The state of alerts\<close>

definition is_alert :: "string \<Rightarrow> string \<Rightarrow> incident_alert \<Rightarrow> bool" where
  "is_alert incidentID dedupeKey a \<longleftrightarrow> ia_IncidentID a = incidentID \<and> ia_DedupeKey a = dedupeKey"

definition upsert_alert :: "string \<Rightarrow> alert_observation \<Rightarrow> int \<Rightarrow> database \<Rightarrow> goerr + unit \<times> database" where
  "upsert_alert incidentID obs t d =
     (if list_ex (is_alert incidentID (ao_DedupeKey obs)) (incident_alerts d)
      then Inr ((), d\<lparr>incident_alerts := update_rows (is_alert incidentID (ao_DedupeKey obs))
             (\<lambda>a. a\<lparr>ia_Status := ''firing'', ia_LastSeenAt := t, ia_ResolvedAt := None\<rparr>) (incident_alerts d)\<rparr>)
      else if \<not> list_ex (\<lambda>i. inc_ID i = incidentID) (incidents d)
      then Inl (foreign_key_violation ''incident_alerts_incident_id_fkey'')
      else Inr ((), d\<lparr>incident_alerts := incident_alerts d @
             [\<lparr>ia_IncidentID = incidentID, ia_DedupeKey = ao_DedupeKey obs, ia_AlertName = ao_AlertName obs,
               ia_Service = ao_Service obs, ia_Status = ''firing'', ia_FirstSeenAt = trunc_micro (ao_At obs),
               ia_LastSeenAt = t, ia_ResolvedAt = None\<rparr>]\<rparr>))"

definition touch_incident :: "string \<Rightarrow> int \<Rightarrow> database \<Rightarrow> goerr + bool \<times> database" where
  "touch_incident incidentID t d =
     (case find (\<lambda>i. inc_ID i = incidentID) (incidents d) of
        None \<Rightarrow> Inl sql_no_rows
      | Some i \<Rightarrow>
          Inr (inc_AlertsClearedAt i \<noteq> None,
               d\<lparr>incidents := update_rows (\<lambda>i. inc_ID i = incidentID)
                   (\<lambda>i. i\<lparr>inc_LastSeenAt := t, inc_AlertsClearedAt := None\<rparr>) (incidents d)\<rparr>))"

definition MarkAlertFiring :: "string \<Rightarrow> alert_observation \<Rightarrow> bool prog" where
  "MarkAlertFiring incidentID obs =
     bind (wrap_err ''record firing alert'' (sql (upsert_alert incidentID obs))) (\<lambda>_.
     wrap_err ''touch incident'' (sql (touch_incident incidentID)))"

definition FindIncidentForResolvedAlert :: "string \<Rightarrow> (incident option) prog" where
  "FindIncidentForResolvedAlert dedupeKey =
     wrap_err ''find incident for resolved alert'' (query (\<lambda>t d.
       Inr (map_option (incident_row d) (first_row (stable_sort latest_first
         (filter (\<lambda>i. is_open i \<and>
            list_ex (\<lambda>a. is_alert (inc_ID i) dedupeKey a \<and> ia_Status a = ''firing'') (incident_alerts d)) (incidents d)))))))"

definition MarkAlertResolved :: "string \<Rightarrow> string \<Rightarrow> int \<Rightarrow> int \<Rightarrow> int prog" where
  "MarkAlertResolved incidentID dedupeKey resolvedAt staleAfter =
     bind (wrap_err ''record resolved alert'' (exec (\<lambda>t d.
       ((), d\<lparr>incident_alerts := update_rows (is_alert incidentID dedupeKey)
         (\<lambda>a. a\<lparr>ia_Status := ''resolved'', ia_ResolvedAt := Some (trunc_micro resolvedAt), ia_LastSeenAt := t\<rparr>)
         (incident_alerts d)\<rparr>)))) (\<lambda>_.
     bind (wrap_err ''touch incident'' (exec (\<lambda>t d.
       ((), d\<lparr>incidents := update_rows (\<lambda>i. inc_ID i = incidentID) (\<lambda>i. i\<lparr>inc_LastSeenAt := t\<rparr>) (incidents d)\<rparr>)))) (\<lambda>_.
     wrap_err ''count firing alerts'' (query (\<lambda>t d.
       Inr (int (affected (\<lambda>a. ia_IncidentID a = incidentID \<and> ia_Status a = ''firing'' \<and>
                   ia_LastSeenAt a \<ge> t - interval staleAfter) (incident_alerts d)))))))"

definition MarkAlertsCleared :: "string \<Rightarrow> unit prog" where
  "MarkAlertsCleared incidentID =
     wrap_err ''mark alerts cleared'' (exec (\<lambda>t d.
       ((), d\<lparr>incidents := update_rows (\<lambda>i. inc_ID i = incidentID \<and> inc_AlertsClearedAt i = None)
              (\<lambda>i. i\<lparr>inc_AlertsClearedAt := Some t\<rparr>) (incidents d)\<rparr>)))"

definition ListIncidentAlerts :: "string \<Rightarrow> (incident_alert list) prog" where
  "ListIncidentAlerts incidentID =
     wrap_err ''list incident alerts'' (query (\<lambda>t d.
       Inr (stable_sort (\<lambda>a b. ia_FirstSeenAt a < ia_FirstSeenAt b \<or>
              ia_FirstSeenAt a = ia_FirstSeenAt b \<and> ia_DedupeKey a < ia_DedupeKey b)
         (filter (\<lambda>a. ia_IncidentID a = incidentID) (incident_alerts d)))))"

section \<open>Signals and the timeline\<close>

definition signal_sources :: "string list" where
  "signal_sources = [''prometheus'', ''alertmanager'', ''loki'', ''otel'', ''manual'', ''deploy'', ''config'']"

definition insert_signal :: "signal \<Rightarrow> database \<Rightarrow> goerr + unit \<times> database" where
  "insert_signal s d =
     (case stored_map (sig_Body s) of
        None \<Rightarrow> Inl (null_violation ''body'')
      | Some body \<Rightarrow>
          if sig_Source s \<notin> set signal_sources then Inl (check_violation ''signals_source_check'')
          else if list_ex (\<lambda>x. sig_ID x = sig_ID s) (signals d) then Inl (unique_violation ''signals_pkey'')
          else if \<not> list_ex (\<lambda>i. inc_ID i = sig_IncidentID s) (incidents d)
          then Inl (foreign_key_violation ''signals_incident_id_fkey'')
          else if \<not> list_ex (\<lambda>x. svc_ID x = sig_ServiceID s) (services_tbl d)
          then Inl (foreign_key_violation ''signals_service_id_fkey'')
          else Inr ((), d\<lparr>signals := signals d @
                 [s\<lparr>sig_Body := body, sig_ObservedAt := trunc_micro (sig_ObservedAt s),
                    sig_CreatedAt := trunc_micro (sig_CreatedAt s)\<rparr>]\<rparr>))"

definition AddSignal :: "signal \<Rightarrow> unit prog" where
  "AddSignal s =
     bind (if sig_ID s = [] then NewID ''sig'' else ret (sig_ID s)) (\<lambda>sid.
     bind (if sig_CreatedAt s = zero_time then time_now else ret (sig_CreatedAt s)) (\<lambda>created.
     wrap_err ''insert signal'' (sql (\<lambda>t. insert_signal (s\<lparr>sig_ID := sid, sig_CreatedAt := created\<rparr>)))))"

text \<open>
  A \<^verbatim>\<open>NUMERIC(4,3)\<close> column rounds the decimal text of a \<^verbatim>\<open>float64\<close> to three places, halves away from zero.
\<close>

definition numeric3 :: "rat \<Rightarrow> rat" where
  "numeric3 q =
     (let x = number_rat (json_float q) * 1000 in fl (of_int (if x < 0 then - \<lfloor>1 / 2 - x\<rfloor> else \<lfloor>x + 1 / 2\<rfloor>) / 1000))"

definition insert_timeline :: "timeline_event \<Rightarrow> database \<Rightarrow> goerr + unit \<times> database" where
  "insert_timeline ev d =
     (case stored_map (tl_Evidence ev) of
        None \<Rightarrow> Inl (null_violation ''evidence'')
      | Some evidence \<Rightarrow>
          if list_ex (\<lambda>x. tl_ID x = tl_ID ev) (timeline d) then Inl (unique_violation ''incident_timeline_events_pkey'')
          else if \<not> list_ex (\<lambda>i. inc_ID i = tl_IncidentID ev) (incidents d)
          then Inl (foreign_key_violation ''incident_timeline_events_incident_id_fkey'')
          else Inr ((), d\<lparr>timeline := timeline d @
                 [ev\<lparr>tl_Evidence := evidence, tl_Confidence := numeric3 (tl_Confidence ev),
                     tl_OccurredAt := trunc_micro (tl_OccurredAt ev), tl_CreatedAt := trunc_micro (tl_CreatedAt ev)\<rparr>]\<rparr>))"

definition AddTimelineEvent :: "timeline_event \<Rightarrow> unit prog" where
  "AddTimelineEvent ev =
     bind (if tl_ID ev = [] then NewID ''tme'' else ret (tl_ID ev)) (\<lambda>tid.
     bind (if tl_CreatedAt ev = zero_time then time_now else ret (tl_CreatedAt ev)) (\<lambda>created.
     wrap_err ''insert timeline event'' (sql (\<lambda>t. insert_timeline (ev\<lparr>tl_ID := tid, tl_CreatedAt := created\<rparr>)))))"

definition ListSignals :: "string \<Rightarrow> (signal list) prog" where
  "ListSignals incidentID =
     wrap_err ''list signals'' (query (\<lambda>t d.
       Inr (map (\<lambda>s. s\<lparr>sig_Body := read_map (sig_Body s)\<rparr>)
         (stable_sort (\<lambda>a b. sig_ObservedAt a < sig_ObservedAt b) (filter (\<lambda>s. sig_IncidentID s = incidentID) (signals d))))))"

definition ListTimeline :: "string \<Rightarrow> (timeline_event list) prog" where
  "ListTimeline incidentID =
     wrap_err ''list timeline'' (query (\<lambda>t d.
       Inr (map (\<lambda>ev. ev\<lparr>tl_Evidence := read_map (tl_Evidence ev)\<rparr>)
         (stable_sort (\<lambda>a b. tl_OccurredAt a < tl_OccurredAt b) (filter (\<lambda>ev. tl_IncidentID ev = incidentID) (timeline d))))))"

section \<open>The topology of an incident\<close>

definition alert_services :: "string \<Rightarrow> database \<Rightarrow> string list" where
  "alert_services incidentID d =
     map (\<lambda>s. case service_name d (sig_ServiceID s) of None \<Rightarrow> [] | Some n \<Rightarrow> n)
       (stable_sort (\<lambda>a b. sig_ObservedAt a < sig_ObservedAt b \<or> sig_ObservedAt a = sig_ObservedAt b \<and> sig_ID a < sig_ID b)
         (filter (\<lambda>s. sig_IncidentID s = incidentID \<and> sig_SignalType s = ''alert'') (signals d)))"

definition analyse_topology :: "incident \<Rightarrow> string list \<Rightarrow> dependency list \<Rightarrow> incident_topology" where
  "analyse_topology i names edges =
     (let rootSvc = inc_Service i; g = New edges; affectedSvcs = sort (remdups (filter (\<lambda>n. n \<noteq> []) (rootSvc # names)))
      in \<lparr>it_IncidentID = inc_ID i, it_RootService = rootSvc,
          it_RootInferred = (names \<noteq> [] \<and> rootSvc \<notin> set names), it_AffectedServices = affectedSvcs,
          it_AlertCount = int (length names), it_SuppressedAlertCount = int (length (filter (\<lambda>n. n \<noteq> rootSvc) names)),
          it_Paths = List.map_filter (\<lambda>n. if n = rootSvc then None else Path g n rootSvc) affectedSvcs\<rparr>)"

definition GetIncidentTopology :: "string \<Rightarrow> incident_topology prog" where
  "GetIncidentTopology incidentID =
     bind (GetIncident incidentID) (\<lambda>incident.
     bind (wrap_err ''read topology signals'' (query (\<lambda>t d. Inr (alert_services incidentID d)))) (\<lambda>names.
     bind ListServiceDependencies (\<lambda>dependencies.
     ret (analyse_topology incident names dependencies))))"

section \<open>RCA reports\<close>

definition LLMStatusDisabled :: string where "LLMStatusDisabled = ''disabled''"
definition LLMStatusPending :: string where "LLMStatusPending = ''pending''"
definition LLMStatusCompleted :: string where "LLMStatusCompleted = ''completed''"
definition LLMStatusFailed :: string where "LLMStatusFailed = ''failed''"

text \<open>
  The documents of a report decode into the structs they were written from; only the parameters of a
  candidate, a \<^verbatim>\<open>map[string]any\<close>, come back as generic values. Parameters that cannot be marshalled
  leave the column without a document.
\<close>

definition stored_candidate :: "rca_candidate \<Rightarrow> rca_candidate option" where
  "stored_candidate c =
     (case cand_Parameters c of
        None \<Rightarrow> Some c
      | Some m \<Rightarrow>
          (case stored_map m of
             None \<Rightarrow> None
           | Some doc \<Rightarrow> Some (c\<lparr>cand_Parameters := (if doc = [] then None else Some (read_map doc))\<rparr>)))"

definition insert_report :: "rca_report \<Rightarrow> database \<Rightarrow> goerr + unit \<times> database" where
  "insert_report r d =
     (case all_some (map stored_candidate (rep_Candidates r)) of
        None \<Rightarrow> Inl (null_violation ''candidates'')
      | Some cs \<Rightarrow>
          if list_ex (\<lambda>x. rep_ID x = rep_ID r) (rca_reports d) then Inl (unique_violation ''rca_reports_pkey'')
          else if \<not> list_ex (\<lambda>i. inc_ID i = rep_IncidentID r) (incidents d)
          then Inl (foreign_key_violation ''rca_reports_incident_id_fkey'')
          else Inr ((), d\<lparr>rca_reports := rca_reports d @
                 [r\<lparr>rep_Candidates := cs, rep_Confidence := numeric3 (rep_Confidence r),
                    rep_CreatedAt := trunc_micro (rep_CreatedAt r)\<rparr>]\<rparr>))"

definition SaveRCAReport :: "rca_report \<Rightarrow> unit prog" where
  "SaveRCAReport r =
     bind (if rep_ID r = [] then NewID ''rca'' else ret (rep_ID r)) (\<lambda>rid.
     bind (if rep_CreatedAt r = zero_time then time_now else ret (rep_CreatedAt r)) (\<lambda>created.
     wrap_err ''save rca report'' (sql (\<lambda>t. insert_report
       (r\<lparr>rep_ID := rid, rep_CreatedAt := created,
          rep_LLMStatus := (if rep_LLMStatus r = [] then LLMStatusDisabled else rep_LLMStatus r)\<rparr>)))))"

definition UpdateRCAReportLLM :: "string \<Rightarrow> string \<Rightarrow> string \<Rightarrow> string \<Rightarrow> string \<Rightarrow> unit prog" where
  "UpdateRCAReportLLM reportID status summary backend model =
     wrap_err ''update rca llm summary'' (exec (\<lambda>t d.
       ((), d\<lparr>rca_reports := update_rows (\<lambda>r. rep_ID r = reportID)
         (\<lambda>r. r\<lparr>rep_LLMStatus := status, rep_LLMSummary := summary,
                 rep_ModelBackend := (if backend = [] then rep_ModelBackend r else backend),
                 rep_ModelName := (if model = [] then rep_ModelName r else model)\<rparr>) (rca_reports d)\<rparr>)))"

definition GetLatestRCAReport :: "string \<Rightarrow> rca_report prog" where
  "GetLatestRCAReport incidentID =
     wrap_err ''get rca report'' (query (\<lambda>t d.
       case stable_sort (\<lambda>a b. rep_CreatedAt a > rep_CreatedAt b)
              (filter (\<lambda>r. rep_IncidentID r = incidentID) (rca_reports d)) of
         [] \<Rightarrow> Inl sql_no_rows | r # _ \<Rightarrow> Inr r))"

section \<open>What successful statements did\<close>

named_theorems stored \<open>the table a successful statement changed\<close>

lemma insert_service_Inr [stored]:
  "insert_service s d = Inr (x, d') \<Longrightarrow>
     d' = d\<lparr>services_tbl := services_tbl d @ [s\<lparr>svc_CreatedAt := trunc_micro (svc_CreatedAt s)\<rparr>]\<rparr> \<and>
     svc_ID s \<notin> svc_ID ` set (services_tbl d) \<and> svc_Name s \<notin> svc_Name ` set (services_tbl d)"
  by (auto simp: insert_service_def list_ex_iff split: if_splits)

lemma upsert_dependency_Inr [stored]:
  "upsert_dependency e d = Inr (x, d') \<Longrightarrow> \<exists>es. d' = d\<lparr>service_dependencies := es\<rparr>"
  unfolding upsert_dependency_def by (simp add: Let_def split: if_splits option.splits) blast+

lemma stored_incident_fields [simp]:
  "inc_ID (stored_incident i) = inc_ID i" "inc_Status (stored_incident i) = inc_Status i"
  "inc_Environment (stored_incident i) = inc_Environment i" "inc_ResolvedAt (stored_incident i) = None"
  "inc_AlertsClearedAt (stored_incident i) = None"
  by (simp_all add: stored_incident_def)

lemma insert_incident_Inr [stored]:
  "insert_incident i d = Inr (x, d') \<Longrightarrow>
     d' = d\<lparr>incidents := incidents d @ [stored_incident i]\<rparr> \<and> inc_ID i \<notin> inc_ID ` set (incidents d)"
  by (auto simp: insert_incident_def list_ex_iff split: if_splits)

lemma promote_incident_Inr [stored]:
  "promote_incident iid sid ti sv k f su st t d = Inr (x, d') \<Longrightarrow>
     \<exists>g. d' = d\<lparr>incidents := update_rows (\<lambda>i. inc_ID i = iid) g (incidents d)\<rparr> \<and>
       (\<forall>i. inc_ID (g i) = inc_ID i \<and> inc_Status (g i) = inc_Status i \<and> inc_Environment (g i) = inc_Environment i \<and>
            inc_ResolvedAt (g i) = inc_ResolvedAt i \<and> inc_AlertsClearedAt (g i) = inc_AlertsClearedAt i)"
  unfolding promote_incident_def by (split if_splits; force)

lemma upsert_alert_Inr [stored]:
  "upsert_alert iid obs t d = Inr (x, d') \<Longrightarrow> \<exists>as. d' = d\<lparr>incident_alerts := as\<rparr>"
  unfolding upsert_alert_def by (simp split: if_splits) blast+

lemma touch_incident_Inr [stored]:
  "touch_incident iid t d = Inr (x, d') \<Longrightarrow>
     d' = d\<lparr>incidents := update_rows (\<lambda>i. inc_ID i = iid) (\<lambda>i. i\<lparr>inc_LastSeenAt := t, inc_AlertsClearedAt := None\<rparr>) (incidents d)\<rparr>"
  by (simp add: touch_incident_def split: option.splits)

lemma insert_signal_Inr [stored]:
  "insert_signal s d = Inr (x, d') \<Longrightarrow> \<exists>s'. d' = d\<lparr>signals := signals d @ [s']\<rparr>"
  unfolding insert_signal_def by (simp split: if_splits option.splits) blast

lemma insert_timeline_Inr [stored]:
  "insert_timeline ev d = Inr (x, d') \<Longrightarrow> \<exists>ev'. d' = d\<lparr>timeline := timeline d @ [ev']\<rparr>"
  unfolding insert_timeline_def by (simp split: if_splits option.splits) blast

lemma insert_report_Inr [stored]:
  "insert_report r d = Inr (x, d') \<Longrightarrow>
     \<exists>cs. all_some (map stored_candidate (rep_Candidates r)) = Some cs \<and>
       d' = d\<lparr>rca_reports := rca_reports d @ [r\<lparr>rep_Candidates := cs, rep_Confidence := numeric3 (rep_Confidence r),
         rep_CreatedAt := trunc_micro (rep_CreatedAt r)\<rparr>]\<rparr>"
  by (auto simp: insert_report_def split: if_splits option.splits)

end
