(* ===== verification/Findings.thy ===== *)
theory Findings
  imports Rca_Scoring Incident_Store
begin

text \<open>
  What a root cause analysis finds. A report's findings are all of it except what the summary of the
  language model fills in. Reports are only ever added, with sound findings, and keep them.
\<close>

section \<open>Reports\<close>

definition finding :: "rca_report \<Rightarrow> rca_report" where
  "finding r = r\<lparr>rep_LLMStatus := [], rep_LLMSummary := [], rep_ModelBackend := [], rep_ModelName := []\<rparr>"

definition vetted :: "rca_candidate \<Rightarrow> bool" where
  "vetted c \<longleftrightarrow>
     cand_RequiresApproval c = (cand_Risk c \<noteq> ''low'') \<and>
     (cand_ActionType c = ''collect_diagnostics'' \<and> cand_Risk c = ''low'' \<or>
      list_ex (\<lambda>r. list_ex (\<lambda>t. ct_ActionType t = cand_ActionType c \<and> ct_Risk t = cand_Risk c) (ru_Remediations r)) DefaultRules)"

definition sound_report :: "rca_report \<Rightarrow> bool" where
  "sound_report r \<longleftrightarrow>
     rep_Candidates r \<noteq> [] \<and> list_all vetted (rep_Candidates r) \<and>
     BaselineConfidence \<le> sc_Final (rep_Score r) \<and> sc_Final (rep_Score r) \<le> fl (95 / 100)"

definition reports_grow :: "rca_report list \<Rightarrow> rca_report list \<Rightarrow> bool" where
  "reports_grow rs rs' \<longleftrightarrow> (\<exists>new. map finding rs' = map finding rs @ new \<and> list_all sound_report new)"

lemma reports_grow_refl [simp]: "reports_grow rs rs"
  by (simp add: reports_grow_def)

lemma reports_grow_trans: "reports_grow rs rs1 \<Longrightarrow> reports_grow rs1 rs' \<Longrightarrow> reports_grow rs rs'"
  unfolding reports_grow_def by force

lemma reports_grow_update: "(\<And>r. finding (g r) = finding r) \<Longrightarrow> reports_grow rs (update_rows P g rs)"
  by (simp add: reports_grow_def update_rows_def comp_def if_distrib [of finding] cong: if_cong)

lemma stored_vetted: "stored_candidate c = Some c' \<Longrightarrow> vetted c \<Longrightarrow> vetted c'"
  by (auto simp: stored_candidate_def vetted_def split: option.splits if_splits)

lemma stored_all_vetted:
  "all_some (map stored_candidate cs) = Some cs' \<Longrightarrow> list_all vetted cs \<Longrightarrow> list_all vetted cs' \<and> (cs' = [] \<longleftrightarrow> cs = [])"
proof (induction cs arbitrary: cs')
  case (Cons c cs)
  then show ?case by (cases "stored_candidate c") (auto dest: stored_vetted)
qed simp

lemma insert_report_grows:
  assumes "insert_report r d = Inr (x, d')" "sound_report r"
  shows "d' = d\<lparr>rca_reports := rca_reports d'\<rparr> \<and> reports_grow (rca_reports d) (rca_reports d')"
  using assms by (auto simp: reports_grow_def sound_report_def finding_def dest!: stored dest: stored_all_vetted)

section \<open>The analysis of the compiled table\<close>

lemma Match_rules:
  assumes "NewWithRules rules = Inr c" "m \<in> set (Match c i ss)"
  shows "ma_Rule m \<in> set rules"
proof -
  obtain s where "match_signal c i s = Some m" using assms(2) by (auto simp: Match_def map_filter_def)
  then obtain reason where "named_rule c (SignalLabels s) (signal_alert s (SignalLabels s)) = Some (ma_Rule m, reason)"
    by (auto simp: match_signal_def Let_def)
  then show ?thesis
    by (auto simp: named_rule_def Let_def correlator_maps [OF assms(1)] split: option.splits if_splits)
qed

lemma safe_vetted:
  assumes "safe_candidate matches c" "\<And>m. m \<in> set matches \<Longrightarrow> ma_Rule m \<in> set DefaultRules"
  shows "vetted c"
proof (cases "c = diagnostics (cand_Target c)")
  case True
  then obtain target where "c = diagnostics target" by blast
  then show ?thesis by (simp add: vetted_def diagnostics_def)
next
  case False
  with assms show ?thesis by (force simp: safe_candidate_def vetted_def list_ex_iff)
qed

definition sound_analysis :: "analysis \<Rightarrow> bool" where
  "sound_analysis r \<longleftrightarrow>
     an_Candidates r \<noteq> [] \<and> list_all vetted (an_Candidates r) \<and>
     BaselineConfidence \<le> sc_Final (an_Score r) \<and> sc_Final (an_Score r) \<le> fl (95 / 100)"

lemma analysis_sound:
  assumes "\<And>m. m \<in> set matches \<Longrightarrow> ma_Rule m \<in> set DefaultRules"
  shows "sound_analysis (analyze_with i matches runs topo)"
proof -
  have "confidence_ok (analyze_with i matches runs topo)"
    unfolding analyze_with_def by (intro confidence_enriched confidence_fallback confidence_score)
  moreover have "list_all vetted (an_Candidates (analyze_with i matches runs topo))" "an_Candidates (analyze_with i matches runs topo) \<noteq> []"
    using analysis_candidates [of i matches runs topo] safe_vetted assms by (auto simp: Let_def list_all_iff)
  ultimately show ?thesis
    using cap_bounds(2) [of "length (sc_Sources (an_Score (analyze_with i matches runs topo)))"] order_trans [OF cap_bounds]
    by (auto simp: sound_analysis_def confidence_ok_def split: if_splits)
qed

end
