(* ===== verification/Outcomes.thy ===== *)
theory Outcomes
  imports Evolution
begin

text \<open>
  What an operation that runs in one transaction achieves. \<open>yields\<close> speaks of the body, which runs
  without interference; \<open>atomically\<close> speaks of the whole operation under any faults and any activity
  of other processes: it takes effect completely, on the tables as they are when it begins, or not
  at all, and it never reports success without having taken effect.
\<close>

definition yields :: "('a \<Rightarrow> database \<Rightarrow> database \<Rightarrow> bool) \<Rightarrow> 'a prog \<Rightarrow> bool" where
  "yields Q m \<longleftrightarrow> (\<forall>h t d x d'. commits m h t d x d' \<longrightarrow> Q x d d')"

definition atomically :: "('a \<Rightarrow> database \<Rightarrow> database \<Rightarrow> bool) \<Rightarrow> 'a prog \<Rightarrow> bool" where
  "atomically Q m \<longleftrightarrow>
     (\<forall>e w. tx_time e = None \<longrightarrow>
        (case m e w of
           (Inr x, w') \<Rightarrow> Q x (ext_others (ext e (steps w)) (db w)) (db w')
         | (Inl err, w') \<Rightarrow>
             db w' = ext_others (ext e (steps w)) (db w) \<or>
             (\<exists>x. Q x (ext_others (ext e (steps w)) (db w)) (db w'))))"

lemma yieldsI: "(\<And>h t d x d'. commits m h t d x d' \<Longrightarrow> Q x d d') \<Longrightarrow> yields Q m"
  by (simp add: yields_def)

lemma yieldsD: "yields Q m \<Longrightarrow> commits m h t d x d' \<Longrightarrow> Q x d d'"
  by (simp add: yields_def)

lemma yields_weaken: "yields P m \<Longrightarrow> (\<And>x d d'. P x d d' \<Longrightarrow> Q x d d') \<Longrightarrow> yields Q m"
  by (auto simp: yields_def)

lemma yields_last: "(\<And>x. yields (\<lambda>y _ _. P y) (f x)) \<Longrightarrow> yields (\<lambda>y _ _. P y) (bind m f)"
  unfolding yields_def by (blast dest!: commits_bind)

lemma yields_ret: "(\<And>d. Q x d d) \<Longrightarrow> yields Q (ret x)"
  by (auto simp: yields_def dest!: commits_ret)

lemma yields_if: "(b \<Longrightarrow> yields Q m) \<Longrightarrow> (\<not> b \<Longrightarrow> yields Q n) \<Longrightarrow> yields Q (if b then m else n)"
  by simp

lemma atomically_InTx:
  assumes "yields Q body" shows "atomically Q (InTx body)"
  unfolding atomically_def
proof (intro allI impI)
  fix e :: env and w :: world assume t: "tx_time e = None"
  obtain s w1 where s: "tick e w = (s, w1)" by fastforce
  define d0 where "d0 = ext_others s (db w1)"
  define e1 where "e1 = e\<lparr>tx_time := Some (trunc_micro (clock w1))\<rparr>"
  have d0: "ext_others (ext e (steps w)) (db w) = d0" using tick_db [OF s] by (simp add: d0_def)
  have q: "Q x d0 (db w3)" if "body e1 (w1\<lparr>db := d0\<rparr>) = (Inr x, w3)" for x w3
    using commitsI [of e1 _ body "w1\<lparr>db := d0\<rparr>" x w3] that assms by (auto simp: e1_def yields_def)
  have c: "db w4 = db w3" if "tick e w3 = (s', w4)" for w3 w4 s' using tick_db [OF that] by simp
  show "case InTx body e w of
      (Inr x, w') \<Rightarrow> Q x (ext_others (ext e (steps w)) (db w)) (db w')
    | (Inl err, w') \<Rightarrow> db w' = ext_others (ext e (steps w)) (db w) \<or> (\<exists>x. Q x (ext_others (ext e (steps w)) (db w)) (db w'))"
    unfolding d0 InTx_def transaction_def transaction_if_def t s
    using q by (auto simp: Let_def e1_def [symmetric] d0_def [symmetric] dest!: c split: fault.splits prod.splits sum.splits)
qed

text \<open>What holds of a value whenever a program returns one.\<close>

definition results :: "'a prog \<Rightarrow> ('a \<Rightarrow> bool) \<Rightarrow> bool" where
  "results m P \<longleftrightarrow> (\<forall>e w. case m e w of (Inl _, _) \<Rightarrow> True | (Inr x, _) \<Rightarrow> P x)"

lemma resultsD: "results m P \<Longrightarrow> m e w = (Inr x, w') \<Longrightarrow> P x"
  unfolding results_def by (erule allE [of _ e], erule allE [of _ w]) simp

lemma results_ret: "P x \<Longrightarrow> results (ret x) P" and results_fail: "results (fail err) P"
  by (simp_all add: results_def ret_def fail_def)

lemma results_bind:
  assumes "\<And>x. results (f x) P" shows "results (bind m f) P"
  unfolding results_def using resultsD [OF assms] by (auto simp: bind_def split: prod.splits sum.splits)

context evolution
begin

lemma evolves_bind_results:
  assumes "evolves R m" "results m P" "\<And>x. P x \<Longrightarrow> evolves R (f x)"
  shows "evolves R (bind m f)"
  unfolding evolves_def
proof (intro allI impI)
  fix e :: env and w :: world assume e: "tx_time e = None" "rely R e"
  obtain r w1 where m: "m e w = (r, w1)" by fastforce
  have 1: "R (sha256 e) (db w) (db w1)" using evolvesD [OF assms(1) e, of w] by (simp add: m)
  show "R (sha256 e) (db w) (db (snd (bind m f e w)))"
  proof (cases r)
    case (Inr x)
    have "P x" using resultsD [OF assms(2)] m Inr by simp
    from evolvesD [OF assms(3) [OF this] e, of w1] show ?thesis using trans [OF 1] by (simp add: bind_def m Inr)
  qed (use 1 in \<open>simp add: bind_def m\<close>)
qed

end

end
