(* ===== verification/Control_Spec.thy ===== *)
theory Control_Spec
  imports Dispatch Actions Findings Outcomes
begin

text \<open>
  What the control plane may do to the database: an abstract state machine over the tables, whose
  steps are the committed effects of the services, and the invariant its steps keep. Theories that
  model the services show that their programs only take these steps.

  The machine has two parameters: whether proposers may decide on their own proposals (\<open>self\<close>), and
  whether execution goes through the outbox (\<open>loc\<close>), as it does with the local executor.
\<close>

section \<open>Rows and audit entries\<close>

definition core :: "remediation_action \<Rightarrow> string \<times> string \<times> string \<times> string \<times> gval gomap \<times> string \<times> string" where
  "core r = (rem_ID r, rem_IncidentID r, rem_ActionType r, rem_Target r, rem_Parameters r, rem_IdempotencyKey r, rem_ProposedBy r)"

definition ident :: "request \<Rightarrow> string \<times> string \<times> string" where
  "ident q = (req_ID q, req_RemediationID q, req_RequestedBy q)"

definition keys_ok :: "database \<Rightarrow> bool" where
  "keys_ok d \<longleftrightarrow>
     distinct (map rem_ID (remediation_actions d)) \<and> distinct (map rem_IdempotencyKey (remediation_actions d)) \<and>
     distinct (map req_ID (approval_requests d)) \<and> distinct (map req_RemediationID (approval_requests d)) \<and>
     distinct (map dsp_ID (remediation_dispatches d)) \<and> distinct (map rcp_IdempotencyKey (receipts d))"

text \<open>An audit entry that says a remediation is now in a status.\<close>

definition records :: "entry \<Rightarrow> string \<Rightarrow> string \<Rightarrow> bool" where
  "records e rid s \<longleftrightarrow>
     ent_ResourceType e = ''remediation'' \<and> ent_ResourceID e = rid \<and>
     (case ent_AfterState e of None \<Rightarrow> False | Some m \<Rightarrow> map_any m ''status'' = VStr s)"

text \<open>Appending entries to the ledger, and nothing else.\<close>

fun logged :: "(string \<Rightarrow> string) \<Rightarrow> entry list \<Rightarrow> database \<Rightarrow> database \<Rightarrow> bool" where
  "logged h [] d d' \<longleftrightarrow> d' = d"
| "logged h (e # es) d d' \<longleftrightarrow> (\<exists>d1. appended h e d d1 \<and> logged h es d1 d')"

text \<open>The proposer does not decide, unless the deployment allows it.\<close>

definition separate :: "bool \<Rightarrow> string \<Rightarrow> string \<Rightarrow> bool" where
  "separate self proposer actor \<longleftrightarrow> self \<or> \<not> equal_fold (trim_space proposer) (trim_space actor)"

definition authorised :: "bool \<Rightarrow> remediation_action \<Rightarrow> database \<Rightarrow> bool" where
  "authorised self r d \<longleftrightarrow>
     rem_ActionType r = CollectDiagnostics \<or>
     (\<exists>q \<in> set (approval_requests d). req_RemediationID q = rem_ID r \<and> req_RequestedBy q = rem_ProposedBy r \<and>
        req_Status q = StatusApproved \<and> separate self (rem_ProposedBy r) (req_DecidedBy q))"

text \<open>What an execution receipt stands for: a request to change something, carried out as it was made.\<close>

definition backs :: "remediation_action \<Rightarrow> receipt \<Rightarrow> bool" where
  "backs r x \<longleftrightarrow>
     rem_IdempotencyKey r = rcp_IdempotencyKey x \<and> rem_ActionType r = rcp_ActionType x \<and> rem_Target r = rcp_Target x \<and>
     rem_ActionType r \<noteq> CollectDiagnostics"

section \<open>Steps\<close>

text \<open>How a request ends, and what that makes of its remediation.\<close>

definition settlements :: "(string \<times> string) list" where
  "settlements =
     [(StatusApproved, StateApproved), (StatusDenied, StateRejected), (StatusCancelled, StateCancelled),
      (StatusExpired, StateTimedOut)]"

text \<open>The status changes outside the approval workflow.\<close>

definition moves :: "(string \<times> string) list" where
  "moves =
     [(StateProposed, StateCancelled), (StateApproved, StateQueued), (StateApproved, StateCancelled),
      (StateQueued, StateApproved), (StateQueued, StateRunning), (StateQueued, StateSucceeded),
      (StateQueued, StateFailed), (StateQueued, StateTimedOut), (StateQueued, StateCancelled),
      (StateRunning, StateRunning), (StateRunning, StateSucceeded), (StateRunning, StateFailed),
      (StateRunning, StateTimedOut), (StateCancelled, StateCancelled)]"

definition same_tables :: "database \<Rightarrow> database \<Rightarrow> bool" where
  "same_tables d d' \<longleftrightarrow>
     audit_logs d' = audit_logs d \<and> audit_chain_state d' = audit_chain_state d \<and>
     remediation_actions d' = remediation_actions d \<and> remediation_dispatches d' = remediation_dispatches d \<and>
     approval_requests d' = approval_requests d \<and> target_states d' = target_states d \<and> receipts d' = receipts d \<and>
     rca_reports d' = rca_reports d"

inductive control :: "bool \<Rightarrow> bool \<Rightarrow> change" for self loc h where
  log: "logged h es d d' \<Longrightarrow> control self loc h d d'"
| aside: "same_tables d d' \<Longrightarrow> control self loc h d d'"
| propose:
    "rem_ID r \<notin> rem_ID ` set (remediation_actions d) \<Longrightarrow>
     rem_IdempotencyKey r \<notin> rem_IdempotencyKey ` set (remediation_actions d) \<Longrightarrow>
     rem_Status r \<in> {StatePolicyBlocked, StateAwaitingApproval} \<or>
       rem_Status r = StateApproved \<and> rem_ActionType r = CollectDiagnostics \<Longrightarrow>
     logged h es (d\<lparr>remediation_actions := remediation_actions d @ [r]\<rparr>) d' \<Longrightarrow>
     list_ex (\<lambda>e. records e (rem_ID r) (rem_Status r)) es \<Longrightarrow>
     control self loc h d d'"
| request:
    "r \<in> set (remediation_actions d) \<Longrightarrow> rem_ID r = req_RemediationID q \<Longrightarrow> rem_Status r = StateAwaitingApproval \<Longrightarrow>
     rem_ProposedBy r = req_RequestedBy q \<Longrightarrow> req_Status q = StatusPending \<Longrightarrow>
     req_ID q \<notin> req_ID ` set (approval_requests d) \<Longrightarrow>
     req_RemediationID q \<notin> req_RemediationID ` set (approval_requests d) \<Longrightarrow>
     logged h es (d\<lparr>approval_requests := approval_requests d @ [q]\<rparr>) d' \<Longrightarrow>
     control self loc h d d'"
| settle:
    "q \<in> set (approval_requests d) \<Longrightarrow> req_Status q = StatusPending \<Longrightarrow> (s, t) \<in> set settlements \<Longrightarrow>
     \<forall>x. ident (f x) = ident x \<and> req_Status (f x) = s \<Longrightarrow>
     \<forall>x. core (g x) = core x \<and> rem_Status (g x) = t \<Longrightarrow>
     s = StatusApproved \<longrightarrow> separate self (req_RequestedBy q) (req_DecidedBy (f q)) \<Longrightarrow>
     logged h es (d\<lparr>approval_requests := update_rows (\<lambda>x. req_ID x = req_ID q) f (approval_requests d),
       remediation_actions := update_rows (in_states (req_RemediationID q) [StateAwaitingApproval]) g
         (remediation_actions d)\<rparr>) d' \<Longrightarrow>
     list_ex (\<lambda>e. records e (req_RemediationID q) t) es \<Longrightarrow>
     control self loc h d d'"
| note_request:
    "\<forall>x. ident (f x) = ident x \<and> req_Status (f x) = req_Status x \<and> req_DecidedBy (f x) = req_DecidedBy x \<Longrightarrow>
     logged h es (d\<lparr>approval_requests := update_rows P f (approval_requests d)\<rparr>) d' \<Longrightarrow>
     control self loc h d d'"
| move:
    "r \<in> set (remediation_actions d) \<Longrightarrow> rem_ID r = rid \<Longrightarrow> (rem_Status r, t) \<in> set moves \<Longrightarrow>
     rem_Status r \<in> set ss \<Longrightarrow>
     \<forall>x. core (g x) = core x \<and> rem_Status (g x) = t \<Longrightarrow>
     distinct (map dsp_ID (remediation_dispatches d @ xs)) \<Longrightarrow>
     list_all (\<lambda>x. dsp_RemediationID x = rid) xs \<Longrightarrow> loc \<and> t = StateQueued \<longrightarrow> xs \<noteq> [] \<Longrightarrow>
     logged h es (d\<lparr>remediation_actions := update_rows (in_states rid ss) g (remediation_actions d),
       remediation_dispatches := remediation_dispatches d @ xs\<rparr>) d' \<Longrightarrow>
     t = StateRunning \<or> list_ex (\<lambda>e. records e rid t) es \<Longrightarrow>
     control self loc h d d'"
| resend:
    "r \<in> set (remediation_actions d) \<Longrightarrow> rem_ID r = dsp_RemediationID x \<Longrightarrow>
     dsp_ID x \<notin> dsp_ID ` set (remediation_dispatches d) \<Longrightarrow>
     logged h es (d\<lparr>remediation_dispatches := remediation_dispatches d @ [x]\<rparr>) d' \<Longrightarrow>
     control self loc h d d'"
| mark:
    "\<forall>x. dsp_ID (f x) = dsp_ID x \<and> dsp_RemediationID (f x) = dsp_RemediationID x \<Longrightarrow>
     d' = d\<lparr>remediation_dispatches := update_rows P f (remediation_dispatches d)\<rparr> \<Longrightarrow>
     control self loc h d d'"
| effect:
    "r \<in> set (remediation_actions d) \<Longrightarrow> backs r x \<Longrightarrow> authorised self r d \<Longrightarrow>
     rcp_IdempotencyKey x \<notin> rcp_IdempotencyKey ` set (receipts d) \<Longrightarrow>
     d' = d\<lparr>target_states := ts, receipts := receipts d @ [x]\<rparr> \<Longrightarrow>
     control self loc h d d'"
| report:
    "reports_grow (rca_reports d) rs \<Longrightarrow> d' = d\<lparr>rca_reports := rs\<rparr> \<Longrightarrow> control self loc h d d'"

section \<open>The ledger\<close>

lemma logged_append: "logged h (es @ fs) d d' \<longleftrightarrow> (\<exists>d1. logged h es d d1 \<and> logged h fs d1 d')"
  by (induction es arbitrary: d) auto

lemma appendedD:
  assumes "appended h e d d'"
  shows "\<exists>r s. d' = d\<lparr>audit_logs := audit_logs d @ [r], audit_chain_state := s\<rparr> \<and> row_of e r"
  using assms by (auto simp: appended_def)

lemma logged_tables:
  assumes "logged h es d d'"
  shows "remediation_actions d' = remediation_actions d \<and> remediation_dispatches d' = remediation_dispatches d \<and>
    approval_requests d' = approval_requests d \<and> target_states d' = target_states d \<and> receipts d' = receipts d \<and>
    incidents d' = incidents d \<and> rca_reports d' = rca_reports d"
  using assms by (induction es arbitrary: d) (auto dest!: appendedD)

lemma logged_rows: "logged h es d d' \<Longrightarrow> \<exists>rs. audit_logs d' = audit_logs d @ rs \<and> list_all2 row_of es rs"
  by (induction es arbitrary: d) (fastforce dest!: appendedD)+

lemma logged_grows: "logged h es d d' \<Longrightarrow> ledger_grows h d d'"
proof (induction es arbitrary: d)
  case (Cons e es)
  then show ?case using ledger.trans appended_grows by (metis logged.simps(2))
qed (simp add: ledger.refl)

text \<open>What the ledger says of a remediation.\<close>

definition in_ledger :: "string \<Rightarrow> string \<Rightarrow> database \<Rightarrow> bool" where
  "in_ledger rid s d \<longleftrightarrow> list_ex (\<lambda>row. records (aud_Entry row) rid s) (audit_logs d)"

lemma records_row: "row_of e r \<Longrightarrow> records (aud_Entry r) rid s \<longleftrightarrow> records e rid s"
  by (auto simp: row_of_def records_def)

lemma logged_in_ledger: "logged h es d d' \<Longrightarrow> in_ledger rid s d \<or> list_ex (\<lambda>e. records e rid s) es \<Longrightarrow> in_ledger rid s d'"
proof -
  assume "logged h es d d'"
  then obtain rs where rs: "audit_logs d' = audit_logs d @ rs" "list_all2 row_of es rs" using logged_rows by blast
  have "list_ex (\<lambda>e. records e rid s) es \<Longrightarrow> list_ex (\<lambda>row. records (aud_Entry row) rid s) rs"
    using rs(2) by (induction rule: list_all2_induct) (auto simp: records_row)
  then show "in_ledger rid s d \<or> list_ex (\<lambda>e. records e rid s) es \<Longrightarrow> in_ledger rid s d'"
    using rs(1) by (auto simp: in_ledger_def)
qed

section \<open>Updates\<close>

lemma set_update_rows: "set (update_rows P f rows) = (\<lambda>x. if P x then f x else x) ` set rows"
  by (simp add: update_rows_def)

lemma in_update_rows: "x \<in> set rows \<Longrightarrow> (if P x then f x else x) \<in> set (update_rows P f rows)"
  by (simp add: set_update_rows)

lemma core_fields:
  "core x = core y \<longleftrightarrow>
     rem_ID x = rem_ID y \<and> rem_IncidentID x = rem_IncidentID y \<and> rem_ActionType x = rem_ActionType y \<and>
     rem_Target x = rem_Target y \<and> rem_Parameters x = rem_Parameters y \<and>
     rem_IdempotencyKey x = rem_IdempotencyKey y \<and> rem_ProposedBy x = rem_ProposedBy y"
  by (simp add: core_def)

lemma ident_fields:
  "ident x = ident y \<longleftrightarrow> req_ID x = req_ID y \<and> req_RemediationID x = req_RemediationID y \<and> req_RequestedBy x = req_RequestedBy y"
  by (simp add: ident_def)

lemma same_key: "distinct (map k rows) \<Longrightarrow> x \<in> set rows \<Longrightarrow> y \<in> set rows \<Longrightarrow> k x = k y \<Longrightarrow> x = y"
  by (simp add: distinct_map inj_on_def)

lemma status_neq [simp]:
  "StatusPending \<noteq> StatusApproved" "StatusApproved \<noteq> StatusPending" "StatusPending \<noteq> StatusDenied" "StatusDenied \<noteq> StatusPending"
  "StatusPending \<noteq> StatusExpired" "StatusExpired \<noteq> StatusPending" "StatusPending \<noteq> StatusCancelled" "StatusCancelled \<noteq> StatusPending"
  "StatusApproved \<noteq> StatusDenied" "StatusDenied \<noteq> StatusApproved" "StatusApproved \<noteq> StatusExpired" "StatusExpired \<noteq> StatusApproved"
  "StatusApproved \<noteq> StatusCancelled" "StatusCancelled \<noteq> StatusApproved"
  by (simp_all add: StatusPending_def StatusApproved_def StatusDenied_def StatusExpired_def StatusCancelled_def)

lemma control_keys: "control self loc h d d' \<Longrightarrow> keys_ok d \<Longrightarrow> keys_ok d'"
proof (induction rule: control.induct)
  case (settle q d s t f g es d')
  then show ?case using logged_tables [OF settle(7)]
    by (auto simp: keys_ok_def map_update_rows core_fields ident_fields)
next
  case (note_request f es d P d')
  then show ?case using logged_tables [OF note_request(2)] by (auto simp: keys_ok_def map_update_rows ident_fields)
next
  case (move r d rid t ss g xs es d')
  then show ?case using logged_tables [OF move(9)] by (auto simp: keys_ok_def map_update_rows core_fields)
qed (auto simp: keys_ok_def map_update_rows same_tables_def dest!: logged_tables)

lemma control_grows: "control self loc h d d' \<Longrightarrow> ledger_grows h d d'"
proof (induction rule: control.induct)
  case (log es d d')
  then show ?case by (rule logged_grows)
next
  case (aside d d')
  then show ?case by (auto simp: same_tables_def ledger_grows_def chain_ok_def ledger_head_def)
qed (auto dest!: logged_grows simp: ledger_grows_def chain_ok_def ledger_head_def)

text \<open>Whatever the machine does, the findings of every report stay and new ones are sound.\<close>

lemma control_reports: "control self loc h d d' \<Longrightarrow> reports_grow (rca_reports d) (rca_reports d')"
  by (induction rule: control.induct) (auto simp: same_tables_def dest!: logged_tables)

section \<open>The invariant\<close>

text \<open>
  A remediation past approval, and one whose effect is recorded, is authorised. A pending request
  belongs to a remediation that still waits for it. With the outbox, a remediation that is queued or
  running has a job. Every status but \<^verbatim>\<open>running\<close> is in the ledger.
\<close>

definition past_approval :: "string list" where
  "past_approval = [StateApproved, StateQueued, StateRunning, StateSucceeded, StateFailed]"

definition approvals_ok :: "bool \<Rightarrow> database \<Rightarrow> bool" where
  "approvals_ok self d \<longleftrightarrow>
     (\<forall>r \<in> set (remediation_actions d). rem_Status r \<in> set past_approval \<longrightarrow> authorised self r d)"

definition requests_ok :: "database \<Rightarrow> bool" where
  "requests_ok d \<longleftrightarrow>
     (\<forall>q \<in> set (approval_requests d). \<exists>r \<in> set (remediation_actions d).
        rem_ID r = req_RemediationID q \<and> rem_ProposedBy r = req_RequestedBy q \<and>
        (req_Status q = StatusPending \<longrightarrow> rem_Status r = StateAwaitingApproval))"

definition has_job :: "string \<Rightarrow> database \<Rightarrow> bool" where
  "has_job rid d \<longleftrightarrow> dispatches_of rid d \<noteq> []"

definition outbox_ok :: "bool \<Rightarrow> database \<Rightarrow> bool" where
  "outbox_ok loc d \<longleftrightarrow>
     (\<forall>r \<in> set (remediation_actions d). loc \<and> rem_Status r \<in> set [StateQueued, StateRunning] \<longrightarrow> has_job (rem_ID r) d)"

definition effects_ok :: "bool \<Rightarrow> database \<Rightarrow> bool" where
  "effects_ok self d \<longleftrightarrow>
     (\<forall>x \<in> set (receipts d). \<exists>r \<in> set (remediation_actions d). backs r x \<and> authorised self r d)"

definition audited :: "database \<Rightarrow> bool" where
  "audited d \<longleftrightarrow>
     (\<forall>r \<in> set (remediation_actions d). rem_Status r = StateRunning \<or> in_ledger (rem_ID r) (rem_Status r) d)"

definition control_ok :: "bool \<Rightarrow> bool \<Rightarrow> database \<Rightarrow> bool" where
  "control_ok self loc d \<longleftrightarrow>
     keys_ok d \<and> approvals_ok self d \<and> requests_ok d \<and> outbox_ok loc d \<and> effects_ok self d \<and> audited d"

lemma authorised_core: "core r' = core r \<Longrightarrow> authorised self r d \<Longrightarrow> authorised self r' d"
  by (simp add: authorised_def core_fields)

text \<open>Approved requests and the fixed columns of remediations stay.\<close>

lemma approved_stays:
  assumes "control self loc h d d'" "keys_ok d" "q \<in> set (approval_requests d)" "req_Status q = StatusApproved"
  shows "\<exists>q' \<in> set (approval_requests d'). ident q' = ident q \<and> req_Status q' = StatusApproved \<and> req_DecidedBy q' = req_DecidedBy q"
  using assms
proof (cases rule: control.cases)
  case (settle p s t f g es)
  have "req_ID q \<noteq> req_ID p"
    using same_key [of req_ID "approval_requests d" q p] assms settle(1,2) by (auto simp: keys_ok_def)
  then show ?thesis using logged_tables [OF settle(7)] assms by (auto simp: set_update_rows)
next
  case (note_request f es P)
  then show ?thesis using logged_tables [OF note_request(2)] in_update_rows [OF assms(3), of P f] assms(4)
    by (intro bexI [where x = "if P q then f q else q"]) auto
qed (auto simp: same_tables_def dest!: logged_tables)

lemma remediation_stays:
  assumes "control self loc h d d'" "r \<in> set (remediation_actions d)"
  shows "\<exists>r' \<in> set (remediation_actions d'). core r' = core r"
  using assms
proof (cases rule: control.cases)
  case (settle p s t f g es)
  let ?P = "in_states (req_RemediationID p) [StateAwaitingApproval]"
  have "remediation_actions d' = update_rows ?P g (remediation_actions d)" using logged_tables [OF settle(7)] by simp
  then show ?thesis using in_update_rows [OF assms(2), of ?P g] settle(5)
    by (intro bexI [where x = "if ?P r then g r else r"]) auto
next
  case (move r' rid t ss g xs es)
  have "remediation_actions d' = update_rows (in_states rid ss) g (remediation_actions d)"
    using logged_tables [OF move(9)] by simp
  then show ?thesis using in_update_rows [OF assms(2), of "in_states rid ss" g] move(5)
    by (intro bexI [where x = "if in_states rid ss r then g r else r"]) auto
qed (auto simp: same_tables_def dest!: logged_tables)

lemma authorised_stays:
  assumes "control self loc h d d'" "keys_ok d" "authorised self r d" shows "authorised self r d'"
proof (cases "rem_ActionType r = CollectDiagnostics")
  case False
  then obtain q where q: "q \<in> set (approval_requests d)" "req_RemediationID q = rem_ID r" "req_RequestedBy q = rem_ProposedBy r"
    "req_Status q = StatusApproved" "separate self (rem_ProposedBy r) (req_DecidedBy q)"
    using assms(3) unfolding authorised_def by blast
  then show ?thesis using approved_stays [OF assms(1,2) q(1,4)] by (auto simp: authorised_def ident_fields)
qed (simp add: authorised_def)

text \<open>Where a remediation of the next state comes from.\<close>

lemma remediation_origin:
  assumes "control self loc h d d'" "keys_ok d" "r' \<in> set (remediation_actions d')"
  shows "r' \<in> set (remediation_actions d) \<or>
    (\<exists>r \<in> set (remediation_actions d). core r' = core r \<and>
       ((rem_Status r, rem_Status r') \<in> set moves \<or> rem_Status r = StateAwaitingApproval \<and> rem_Status r' \<in> snd ` set settlements)) \<or>
    (rem_Status r' \<in> {StatePolicyBlocked, StateAwaitingApproval} \<or>
       rem_Status r' = StateApproved \<and> rem_ActionType r' = CollectDiagnostics)"
  using assms
proof (cases rule: control.cases)
  case (settle p s t f g es)
  let ?P = "in_states (req_RemediationID p) [StateAwaitingApproval]"
  have "remediation_actions d' = update_rows ?P g (remediation_actions d)" using logged_tables [OF settle(7)] by simp
  then obtain x where x: "x \<in> set (remediation_actions d)" "r' = (if ?P x then g x else x)"
    using assms(3) by (auto simp: set_update_rows)
  have "rem_Status (g x) \<in> snd ` set settlements" using settle(3,5) by force
  then show ?thesis using x settle(5) by (cases "?P x") (auto simp: in_states_def)
next
  case (move r rid t ss g xs es)
  have eq: "x = r" if "x \<in> set (remediation_actions d)" "in_states rid ss x" for x
    using same_key [of rem_ID "remediation_actions d" x r] that move(1,2) assms(2) by (auto simp: keys_ok_def in_states_def)
  obtain x where x: "x \<in> set (remediation_actions d)" "r' = (if in_states rid ss x then g x else x)"
    using assms(3) logged_tables [OF move(9)] by (auto simp: set_update_rows)
  then show ?thesis using eq [of x] move by (cases "in_states rid ss x") auto
qed (auto simp: same_tables_def dest!: logged_tables)

lemma moves_past: "(s, t) \<in> set moves \<Longrightarrow> t \<in> set past_approval \<Longrightarrow> s \<in> set past_approval"
  by (auto simp: moves_def past_approval_def)

lemma moves_not_waiting: "(s, t) \<in> set moves \<Longrightarrow> s \<noteq> StateAwaitingApproval \<and> t \<noteq> StateAwaitingApproval"
  by (auto simp: moves_def)

lemma settle_authorises:
  assumes "requests_ok d" "keys_ok d" "q \<in> set (approval_requests d)" "r \<in> set (remediation_actions d)"
    and "in_states (req_RemediationID q) [StateAwaitingApproval] r" "ident (f q) = ident q" "req_Status (f q) = StatusApproved"
    and "separate self (req_RequestedBy q) (req_DecidedBy (f q))"
    and "approval_requests d' = update_rows (\<lambda>x. req_ID x = req_ID q) f (approval_requests d)"
  shows "authorised self r d'"
proof -
  obtain r0 where "r0 \<in> set (remediation_actions d)" "rem_ID r0 = req_RemediationID q" "rem_ProposedBy r0 = req_RequestedBy q"
    using assms(1,3) by (auto simp: requests_ok_def)
  moreover then have "r0 = r"
    using same_key [of rem_ID "remediation_actions d" r0 r] assms(2,4,5) by (auto simp: keys_ok_def in_states_def)
  moreover have "f q \<in> set (approval_requests d')" using in_update_rows [OF assms(3), of "\<lambda>x. req_ID x = req_ID q" f] assms(9) by simp
  ultimately show ?thesis using assms(6-8) by (auto simp: authorised_def ident_fields)
qed

lemma step_approvals:
  assumes "control self loc h d d'" "keys_ok d" "requests_ok d" "approvals_ok self d" shows "approvals_ok self d'"
  unfolding approvals_ok_def
proof (intro ballI impI)
  fix r' assume r': "r' \<in> set (remediation_actions d')" "rem_Status r' \<in> set past_approval"
  have old: "authorised self x d'" if "x \<in> set (remediation_actions d)" "rem_Status x \<in> set past_approval" for x
    using authorised_stays [OF assms(1,2)] assms(4) that by (auto simp: approvals_ok_def)
  from assms(1) show "authorised self r' d'"
  proof (cases rule: control.cases)
    case (settle q s t f g es)
    let ?P = "in_states (req_RemediationID q) [StateAwaitingApproval]"
    have rows: "remediation_actions d' = update_rows ?P g (remediation_actions d)"
      "approval_requests d' = update_rows (\<lambda>x. req_ID x = req_ID q) f (approval_requests d)"
      using logged_tables [OF settle(7)] by simp_all
    then obtain x where x: "x \<in> set (remediation_actions d)" "r' = (if ?P x then g x else x)"
      using r'(1) by (auto simp: set_update_rows)
    show ?thesis
    proof (cases "?P x")
      case True
      then have "s = StatusApproved" using settle(3,5) r'(2) x(2) by (auto simp: settlements_def past_approval_def)
      then have "authorised self x d'" using settle_authorises [of d q x f self d'] assms(2,3) settle(1,4,6) x(1) True rows(2) by simp
      moreover have "core r' = core x" using x(2) True settle(5) by simp
      ultimately show ?thesis by (rule authorised_core [rotated])
    qed (use old x r' in auto)
  next
    case (propose r es)
    have "r' = r \<or> r' \<in> set (remediation_actions d)" using logged_tables [OF propose(4)] r'(1) by auto
    then show ?thesis using old [of r'] r'(2) propose(3) by (auto simp: authorised_def past_approval_def)
  next
    case (move r rid t ss g xs es)
    have rows: "remediation_actions d' = update_rows (in_states rid ss) g (remediation_actions d)"
      using logged_tables [OF move(9)] by simp
    then obtain x where x: "x \<in> set (remediation_actions d)" "r' = (if in_states rid ss x then g x else x)"
      using r'(1) by (auto simp: set_update_rows)
    have "x = r" if "in_states rid ss x"
      using same_key [of rem_ID "remediation_actions d" x r] that move(1,2) x(1) assms(2) by (auto simp: keys_ok_def in_states_def)
    then have "rem_Status x \<in> set past_approval" using x(2) r'(2) move(3,5) moves_past [OF move(3)] by (cases "in_states rid ss x") auto
    then have "authorised self x d'" using old [OF x(1)] by simp
    moreover have "core r' = core x" using x(2) move(5) by simp
    ultimately show ?thesis by (rule authorised_core [rotated])
  qed (use old [of r'] r' in \<open>auto simp: same_tables_def dest!: logged_tables\<close>)
qed

lemma step_requests:
  assumes "control self loc h d d'" "keys_ok d" "requests_ok d" shows "requests_ok d'"
  using assms(1)
proof (cases rule: control.cases)
  case (settle q s t f g es)
  let ?P = "in_states (req_RemediationID q) [StateAwaitingApproval]"
  have rows: "remediation_actions d' = update_rows ?P g (remediation_actions d)"
    "approval_requests d' = update_rows (\<lambda>x. req_ID x = req_ID q) f (approval_requests d)"
    using logged_tables [OF settle(7)] by simp_all
  show ?thesis unfolding requests_ok_def
  proof
    fix p' assume "p' \<in> set (approval_requests d')"
    then obtain p where p: "p \<in> set (approval_requests d)" "p' = (if req_ID p = req_ID q then f p else p)"
      by (auto simp: rows set_update_rows)
    obtain r where r: "r \<in> set (remediation_actions d)" "rem_ID r = req_RemediationID p" "rem_ProposedBy r = req_RequestedBy p"
      "req_Status p = StatusPending \<longrightarrow> rem_Status r = StateAwaitingApproval" using assms(3) p(1) by (auto simp: requests_ok_def)
    have "req_ID p = req_ID q" if "?P r"
      using same_key [of req_RemediationID "approval_requests d" p q] p(1) settle(1) assms(2) r(2) that
      by (auto simp: keys_ok_def in_states_def)
    moreover have "s \<noteq> StatusPending" using settle(3) by (auto simp: settlements_def)
    moreover have "(if ?P r then g r else r) \<in> set (remediation_actions d')" using in_update_rows [OF r(1)] by (simp add: rows)
    ultimately show "\<exists>r \<in> set (remediation_actions d'). rem_ID r = req_RemediationID p' \<and> rem_ProposedBy r = req_RequestedBy p' \<and>
        (req_Status p' = StatusPending \<longrightarrow> rem_Status r = StateAwaitingApproval)"
      using r p(2) settle(4,5) by (intro bexI [where x = "if ?P r then g r else r"]) (auto simp: core_fields ident_fields)
  qed
next
  case (note_request f es P)
  then show ?thesis using logged_tables [OF note_request(2)] assms(3)
    by (fastforce simp: requests_ok_def set_update_rows ident_fields)
next
  case (move r rid t ss g xs es)
  have rows: "remediation_actions d' = update_rows (in_states rid ss) g (remediation_actions d)" "approval_requests d' = approval_requests d"
    using logged_tables [OF move(9)] by simp_all
  have eq: "x = r" if "x \<in> set (remediation_actions d)" "in_states rid ss x" for x
    using same_key [of rem_ID "remediation_actions d" x r] that move(1,2) assms(2) by (auto simp: keys_ok_def in_states_def)
  show ?thesis unfolding requests_ok_def rows(2)
  proof
    fix p assume "p \<in> set (approval_requests d)"
    then obtain x where x: "x \<in> set (remediation_actions d)" "rem_ID x = req_RemediationID p" "rem_ProposedBy x = req_RequestedBy p"
      "req_Status p = StatusPending \<longrightarrow> rem_Status x = StateAwaitingApproval" using assms(3) by (auto simp: requests_ok_def)
    then show "\<exists>r \<in> set (remediation_actions d'). rem_ID r = req_RemediationID p \<and> rem_ProposedBy r = req_RequestedBy p \<and>
        (req_Status p = StatusPending \<longrightarrow> rem_Status r = StateAwaitingApproval)"
      using in_update_rows [OF x(1), of "in_states rid ss" g] eq [OF x(1)] moves_not_waiting [OF move(3)] move(5)
      by (intro bexI [where x = "if in_states rid ss x then g x else x"]) (auto simp: core_fields rows)
  qed
next
  case (propose r es)
  then show ?thesis using logged_tables [OF propose(4)] assms(3) by (fastforce simp: requests_ok_def)
qed (use assms(3) in \<open>fastforce simp: requests_ok_def same_tables_def dest!: logged_tables\<close>)+

lemma has_job_stays: "control self loc h d d' \<Longrightarrow> has_job rid d \<Longrightarrow> has_job rid d'"
proof (induction rule: control.induct)
  case (mark f d' P d)
  then obtain x where x: "x \<in> set (remediation_dispatches d)" "dsp_RemediationID x = rid"
    by (auto simp: has_job_def dispatches_of_def filter_empty_conv)
  then show ?case using in_update_rows [OF x(1), of P f] mark(1,2)
    by (auto simp: has_job_def dispatches_of_def filter_empty_conv intro!: bexI [where x = "if P x then f x else x"])
qed (auto simp: has_job_def dispatches_of_def same_tables_def dest!: logged_tables)

lemma step_outbox:
  assumes "control self loc h d d'" "keys_ok d" "outbox_ok loc d" shows "outbox_ok loc d'"
  unfolding outbox_ok_def
proof (intro ballI impI)
  fix r' assume r': "r' \<in> set (remediation_actions d')" "loc \<and> rem_Status r' \<in> set [StateQueued, StateRunning]"
  have old: "has_job (rem_ID x) d'" if "x \<in> set (remediation_actions d)" "rem_Status x \<in> set [StateQueued, StateRunning]" for x
    using has_job_stays [OF assms(1)] assms(3) that r'(2) by (auto simp: outbox_ok_def)
  from assms(1) show "has_job (rem_ID r') d'"
  proof (cases rule: control.cases)
    case (settle q s t f g es)
    then have "rem_Status (g x) \<notin> set [StateQueued, StateRunning]" for x by (auto simp: settlements_def)
    then have "r' \<in> set (remediation_actions d)" using logged_tables [OF settle(7)] r' by (auto simp: set_update_rows split: if_splits)
    then show ?thesis using old r'(2) by blast
  next
    case (propose r es)
    then show ?thesis using logged_tables [OF propose(4)] r' old [of r'] by auto
  next
    case (move r rid t ss g xs es)
    have rows: "remediation_actions d' = update_rows (in_states rid ss) g (remediation_actions d)"
      "remediation_dispatches d' = remediation_dispatches d @ xs" using logged_tables [OF move(9)] by simp_all
    then obtain x where x: "x \<in> set (remediation_actions d)" "r' = (if in_states rid ss x then g x else x)"
      using r'(1) by (auto simp: set_update_rows)
    show ?thesis
    proof (cases "in_states rid ss x")
      case True
      then have x_r: "x = r"
        using same_key [of rem_ID "remediation_actions d" x r] move(1,2) x(1) assms(2) by (auto simp: keys_ok_def in_states_def)
      have t: "rem_Status r' = t" "rem_ID r' = rid" using move(2,5) x(2) True x_r by (simp_all add: core_fields)
      show ?thesis
      proof (cases "t = StateQueued")
        case True
        then obtain y where "y \<in> set xs" "dsp_RemediationID y = rid" using move(7,8) r'(2) by (cases xs) auto
        then show ?thesis using t(2) by (auto simp: has_job_def dispatches_of_def rows filter_empty_conv)
      next
        case False
        then have "rem_Status r \<in> set [StateQueued, StateRunning]" using move(3) t(1) r'(2) by (auto simp: moves_def)
        then show ?thesis using old [OF move(1)] t(2) move(2) by simp
      qed
    qed (use old [OF x(1)] x(2) r'(2) in auto)
  qed (use old [of r'] r' in \<open>auto simp: same_tables_def dest!: logged_tables\<close>)
qed

lemma step_effects:
  assumes "control self loc h d d'" "keys_ok d" "effects_ok self d" shows "effects_ok self d'"
  unfolding effects_ok_def
proof
  fix x assume x: "x \<in> set (receipts d')"
  have carry: "\<exists>r' \<in> set (remediation_actions d'). backs r' k \<and> authorised self r' d'"
    if r: "r \<in> set (remediation_actions d)" "backs r k" "authorised self r d" for r k
  proof -
    obtain r' where r': "r' \<in> set (remediation_actions d')" "core r' = core r" using remediation_stays [OF assms(1) r(1)] by blast
    then show ?thesis using authorised_core [OF r'(2) authorised_stays [OF assms(1,2) r(3)]] r(2) by (auto simp: core_fields backs_def)
  qed
  from assms(1) have "x \<in> set (receipts d) \<or>
    (\<exists>r \<in> set (remediation_actions d). backs r x \<and> authorised self r d)"
    using x by (cases rule: control.cases) (auto simp: same_tables_def dest!: logged_tables)
  then have "\<exists>r \<in> set (remediation_actions d). backs r x \<and> authorised self r d"
    using assms(3) by (auto simp: effects_ok_def)
  then show "\<exists>r \<in> set (remediation_actions d'). backs r x \<and> authorised self r d'"
    using carry by blast
qed

lemma in_ledger_stays: "control self loc h d d' \<Longrightarrow> in_ledger rid s d \<Longrightarrow> in_ledger rid s d'"
  using control_grows by (fastforce simp: ledger_grows_def in_ledger_def)

lemma step_audited:
  assumes "control self loc h d d'" "keys_ok d" "audited d" shows "audited d'"
  unfolding audited_def
proof
  fix r' assume r': "r' \<in> set (remediation_actions d')"
  have old: "rem_Status x = StateRunning \<or> in_ledger (rem_ID x) (rem_Status x) d'" if "x \<in> set (remediation_actions d)" for x
    using in_ledger_stays [OF assms(1)] assms(3) that by (auto simp: audited_def)
  from assms(1) show "rem_Status r' = StateRunning \<or> in_ledger (rem_ID r') (rem_Status r') d'"
  proof (cases rule: control.cases)
    case (settle q s t f g es)
    let ?P = "in_states (req_RemediationID q) [StateAwaitingApproval]"
    obtain x where x: "x \<in> set (remediation_actions d)" "r' = (if ?P x then g x else x)"
      using logged_tables [OF settle(7)] r' by (auto simp: set_update_rows)
    show ?thesis using old [OF x(1)] x(2) settle(5) logged_in_ledger [OF settle(7) disjI2, OF settle(8)]
      by (cases "?P x") (auto simp: core_fields in_states_def)
  next
    case (propose r es)
    then show ?thesis using logged_tables [OF propose(4)] r' old [of r'] logged_in_ledger [OF propose(4) disjI2, OF propose(5)] by auto
  next
    case (move r rid t ss g xs es)
    obtain x where x: "x \<in> set (remediation_actions d)" "r' = (if in_states rid ss x then g x else x)"
      using logged_tables [OF move(9)] r' by (auto simp: set_update_rows)
    show ?thesis using old [OF x(1)] x(2) move(5,10) logged_in_ledger [OF move(9) disjI2, of rid t]
      by (cases "in_states rid ss x") (auto simp: core_fields in_states_def)
  qed (use old [of r'] r' in \<open>auto simp: same_tables_def dest!: logged_tables\<close>)
qed

lemma step_ok: "control self loc h d d' \<Longrightarrow> control_ok self loc d \<Longrightarrow> control_ok self loc d'"
  unfolding control_ok_def
  by (simp add: control_keys step_approvals step_requests step_outbox step_effects step_audited)

end
