(* ===== verification/Control_Approvals.thy ===== *)
theory Control_Approvals
  imports Control_Spec
begin

text \<open>
  The approval workflow only takes steps of the control machine: every transaction of the approval
  store is a step, also when other services act between the transactions of one call.
\<close>

section \<open>Following the machine\<close>

text \<open>From a database that satisfies the invariant, a program takes some steps of the machine.\<close>

definition follows :: "bool \<Rightarrow> bool \<Rightarrow> change" where
  "follows self loc h d d' \<longleftrightarrow> (control_ok self loc d \<longrightarrow> (control self loc h)\<^sup>*\<^sup>* d d')"

lemma run_ok: "(control self loc h)\<^sup>*\<^sup>* d d' \<Longrightarrow> control_ok self loc d \<Longrightarrow> control_ok self loc d'"
  by (induction rule: rtranclp_induct) (auto intro: step_ok)

interpretation flow: evolution "follows self loc" for self loc
proof unfold_locales
  fix h d d' d''
  show "follows self loc h d d" by (simp add: follows_def)
  assume "follows self loc h d d'" "follows self loc h d' d''"
  then show "follows self loc h d d''" using run_ok unfolding follows_def by (metis rtranclp_trans)
qed

lemma follows_step: "(control_ok self loc d \<Longrightarrow> control self loc h d d') \<Longrightarrow> follows self loc h d d'"
  by (auto simp: follows_def)

lemma tx_followsI:
  "(\<And>h t d x d'. control_ok self loc d \<Longrightarrow> commits m h t d x d' \<Longrightarrow> (control self loc h)\<^sup>*\<^sup>* d d') \<Longrightarrow>
     tx_evolves (follows self loc) m"
  by (auto simp: tx_evolves_def follows_def)

lemma stableI:
  assumes "\<And>h d d'. control self loc h d d' \<Longrightarrow> control_ok self loc d \<Longrightarrow> P d \<Longrightarrow> P d'"
  shows "stable (follows self loc) (\<lambda>d. control_ok self loc d \<and> P d)"
proof -
  have "P d' \<and> control_ok self loc d'" if "(control self loc h)\<^sup>*\<^sup>* d d'" "control_ok self loc d" "P d" for h d d'
    using that by (induction rule: rtranclp_induct) (auto intro: assms step_ok)
  then show ?thesis by (auto simp: stable_def follows_def)
qed

lemma stable_ok: "stable (follows self loc) (control_ok self loc)"
  using stableI [of self loc "\<lambda>_. True"] by simp

lemma evolves_ok:
  assumes "guar (follows self loc) (control_ok self loc) m Q" shows "evolves (follows self loc) m"
  unfolding evolves_def
proof (intro allI impI)
  fix e w assume "tx_time e = None" "rely (follows self loc) e"
  moreover obtain r w' where "m e w = (r, w')" by fastforce
  ultimately show "follows self loc (sha256 e) (db w) (db (snd (m e w)))"
    using assms unfolding guar_def by (cases "control_ok self loc (db w)") (auto simp: follows_def)
qed

lemma keys_of_ok: "control_ok self loc d \<Longrightarrow> keys_ok d"
  by (simp add: control_ok_def)

section \<open>Single steps\<close>

lemma appended_logged: "appended h e d d' \<Longrightarrow> logged h [e] d d'"
  by simp

lemma appended_step: "appended h e d d' \<Longrightarrow> control self loc h d d'"
  by (rule control.log [of h "[e]"]) simp

lemma tx_WriteTx [evo]: "tx_evolves (follows self loc) (WriteTx e)"
  by (rule tx_followsI) (auto dest!: tx intro: appended_step)

lemma Write_follows [evo]: "evolves (follows self loc) (Write e)"
  unfolding Write_def by (intro evo flow.evolves_transaction)

lemma Record_follows [evo]: "evolves (follows self loc) (Record e)"
  unfolding Record_def by (intro evo)

lemma affected_le: "distinct (map rem_ID rows) \<Longrightarrow> affected (in_states rid ss) rows \<le> 1"
proof (induction rows)
  case (Cons r rows)
  have "filter (in_states rid ss) rows = []" if "in_states rid ss r"
    using Cons.prems that by (auto simp: filter_empty_conv in_states_def image_iff)
  then show ?case using Cons by (auto simp: affected_def)
qed (simp add: affected_def)

lemma affected_ex: "affected P rows \<noteq> 0 \<Longrightarrow> \<exists>r \<in> set rows. P r"
  by (auto simp: affected_def filter_empty_conv)

text \<open>A guarded update that did not apply changed nothing.\<close>

lemma not_applied:
  assumes "control_ok self loc d" "affected (in_states rid ss) (remediation_actions d) \<noteq> 1"
  shows "update_rows (in_states rid ss) g (remediation_actions d) = remediation_actions d"
proof -
  have "affected (in_states rid ss) (remediation_actions d) \<le> 1" using assms(1) affected_le by (auto simp: control_ok_def keys_ok_def)
  with assms(2) show ?thesis by (simp add: update_rows_none)
qed

lemma move_step:
  assumes "control_ok self loc d" "affected (in_states rid ss) (remediation_actions d) \<noteq> 0" "list_all (\<lambda>s. (s, t) \<in> set moves) ss"
    and "\<And>x. core (g x) = core x \<and> rem_Status (g x) = t" "t \<noteq> StateQueued"
    and "logged h es (d\<lparr>remediation_actions := update_rows (in_states rid ss) g (remediation_actions d)\<rparr>) d'"
    and "t = StateRunning \<or> list_ex (\<lambda>e. records e rid t) es"
  shows "control self loc h d d'"
proof -
  obtain r where r: "r \<in> set (remediation_actions d)" "in_states rid ss r" using affected_ex [OF assms(2)] by blast
  show ?thesis
  proof (rule control.move [of r d rid t ss g "[]" loc h es])
    show "(rem_Status r, t) \<in> set moves" using r(2) assms(3) by (auto simp: in_states_def list_all_iff)
    show "distinct (map dsp_ID (remediation_dispatches d @ []))" using assms(1) by (simp add: control_ok_def keys_ok_def)
  qed (use r assms in \<open>auto simp: in_states_def\<close>)
qed

section \<open>Facts that last\<close>

text \<open>A remediation someone proposed waits for approval, or a request for it exists.\<close>

definition waiting :: "string \<Rightarrow> string \<Rightarrow> database \<Rightarrow> bool" where
  "waiting rid who d \<longleftrightarrow>
     (\<exists>r \<in> set (remediation_actions d). rem_ID r = rid \<and> rem_ProposedBy r = who \<and>
        (rem_Status r = StateAwaitingApproval \<or> rid \<in> req_RemediationID ` set (approval_requests d)))"

definition known :: "request \<Rightarrow> database \<Rightarrow> bool" where
  "known q d \<longleftrightarrow> (\<exists>q' \<in> set (approval_requests d). ident q' = ident q)"

lemma request_stays:
  assumes "control self loc h d d'" "q \<in> set (approval_requests d)"
  shows "\<exists>q' \<in> set (approval_requests d'). ident q' = ident q"
  using assms
proof (cases rule: control.cases)
  case (settle p s t f g es)
  then show ?thesis using logged_tables [OF settle(7)] in_update_rows [OF assms(2), of "\<lambda>x. req_ID x = req_ID p" f]
    by (intro bexI [where x = "if req_ID q = req_ID p then f q else q"]) auto
next
  case (note_request f es P)
  then show ?thesis using logged_tables [OF note_request(2)] in_update_rows [OF assms(2), of P f]
    by (intro bexI [where x = "if P q then f q else q"]) auto
qed (auto simp: same_tables_def dest!: logged_tables)

lemma known_step: "control self loc h d d' \<Longrightarrow> known q d \<Longrightarrow> known q d'"
  unfolding known_def by (metis request_stays)

lemma requested_step:
  "control self loc h d d' \<Longrightarrow> rid \<in> req_RemediationID ` set (approval_requests d) \<Longrightarrow> rid \<in> req_RemediationID ` set (approval_requests d')"
  by (auto dest!: request_stays simp: ident_fields image_iff) metis

lemma waits_or_requested:
  assumes "control self loc h d d'" "control_ok self loc d" "r \<in> set (remediation_actions d)" "rem_Status r = StateAwaitingApproval"
  shows "r \<in> set (remediation_actions d') \<or> rem_ID r \<in> req_RemediationID ` set (approval_requests d')"
  using assms(1)
proof (cases rule: control.cases)
  case (settle q s t f g es)
  have "r \<in> set (remediation_actions d') \<or> rem_ID r = req_RemediationID q"
    using logged_tables [OF settle(7)] in_update_rows [OF assms(3), of "in_states (req_RemediationID q) [StateAwaitingApproval]" g]
    by (auto simp: in_states_def split: if_splits)
  then show ?thesis using requested_step [OF assms(1), of "req_RemediationID q"] settle(1) by auto
next
  case (move r' rid t ss g xs es)
  have "x = r'" if "x \<in> set (remediation_actions d)" "in_states rid ss x" for x
    using same_key [of rem_ID "remediation_actions d" x r'] that move(1,2) assms(2) by (auto simp: control_ok_def keys_ok_def in_states_def)
  then have "\<not> in_states rid ss r" using moves_not_waiting [OF move(3)] assms(3,4) by auto
  then show ?thesis using logged_tables [OF move(9)] in_update_rows [OF assms(3), of "in_states rid ss" g] by auto
qed (use assms(3) in \<open>auto simp: same_tables_def dest!: logged_tables\<close>)

lemma waiting_step:
  assumes "control self loc h d d'" "control_ok self loc d" "waiting rid who d" shows "waiting rid who d'"
proof -
  obtain r where r: "r \<in> set (remediation_actions d)" "rem_ID r = rid" "rem_ProposedBy r = who"
    "rem_Status r = StateAwaitingApproval \<or> rid \<in> req_RemediationID ` set (approval_requests d)"
    using assms(3) by (auto simp: waiting_def)
  obtain r' where r': "r' \<in> set (remediation_actions d')" "core r' = core r" using remediation_stays [OF assms(1) r(1)] by blast
  show ?thesis
  proof (cases "rid \<in> req_RemediationID ` set (approval_requests d')")
    case True
    then show ?thesis using r r' by (auto simp: waiting_def core_fields)
  next
    case False
    then have "rem_Status r = StateAwaitingApproval" using r(4) requested_step [OF assms(1)] by blast
    then show ?thesis using waits_or_requested [OF assms(1,2) r(1)] False r(2,3) by (auto simp: waiting_def)
  qed
qed

lemmas stable_waiting = stableI [of _ _ "waiting rid who" for rid who, OF waiting_step]
lemmas stable_known = stableI [of _ _ "known q" for q, OF known_step]

section \<open>Transactions of the approval store\<close>

lemma insert_request_Inr:
  assumes "insert_request q d = Inr (u, d')"
  shows "\<exists>q'. d' = d\<lparr>approval_requests := approval_requests d @ [q']\<rparr> \<and> ident q' = ident q \<and> req_Status q' = req_Status q \<and>
    req_ID q \<notin> req_ID ` set (approval_requests d) \<and> req_RemediationID q \<notin> req_RemediationID ` set (approval_requests d)"
proof -
  obtain doc where "stored_map (req_Parameters q) = Some doc" using assms by (auto simp: insert_request_def split: option.splits)
  then show ?thesis using assms
    by (clarsimp simp: insert_request_def list_ex_iff split: if_splits) (intro exI conjI, rule refl, auto simp: ident_def)
qed

lemma create_commits:
  assumes "commits (create_body q) h t d x d'" "waiting (req_RemediationID q) (req_RequestedBy q) d" "req_Status q = StatusPending"
  shows "(control self loc h)\<^sup>*\<^sup>* d d'"
proof -
  have step: "control self loc h d d'" if ins: "insert_request q d = Inr (u, d1)" and "appended h e d1 d'" for u d1 e
  proof -
    obtain q' where q': "d1 = d\<lparr>approval_requests := approval_requests d @ [q']\<rparr>" "ident q' = ident q" "req_Status q' = req_Status q"
      and fresh: "req_ID q \<notin> req_ID ` set (approval_requests d)" "req_RemediationID q \<notin> req_RemediationID ` set (approval_requests d)"
      using insert_request_Inr [OF ins] by blast
    obtain r where "r \<in> set (remediation_actions d)" "rem_ID r = req_RemediationID q" "rem_ProposedBy r = req_RequestedBy q"
      "rem_Status r = StateAwaitingApproval" using assms(2) fresh(2) by (auto simp: waiting_def)
    then show ?thesis using q' fresh assms(3) that(2)
      by (intro control.request [of r d q' h "[e]"]) (auto simp: ident_fields)
  qed
  have "d' = d \<or> (\<exists>u d1 e. insert_request q d = Inr (u, d1) \<and> appended h e d1 d')"
    using assms(1) unfolding create_body_def getByRemediation_def scanRequest_def writeAuditTx_def
    by (auto dest!: tx split: sum.splits if_splits)
  then show ?thesis using step by blast
qed

lemma pending_update:
  assumes "keys_ok d" "q \<in> set (approval_requests d)" "req_Status q = StatusPending"
  shows "update_rows (\<lambda>x. req_ID x = req_ID q \<and> req_Status x = StatusPending) f (approval_requests d) =
    update_rows (\<lambda>x. req_ID x = req_ID q) f (approval_requests d)"
  unfolding update_rows_def
proof (rule map_cong [OF HOL.refl])
  fix x assume "x \<in> set (approval_requests d)"
  then have "req_ID x = req_ID q \<Longrightarrow> x = q"
    using same_key [of req_ID "approval_requests d" x q] assms(1,2) by (simp add: keys_ok_def)
  then show "(if req_ID x = req_ID q \<and> req_Status x = StatusPending then f x else x) = (if req_ID x = req_ID q then f x else x)"
    using assms(3) by auto
qed

text \<open>A request and its remediation change together, and the ledger says so.\<close>

lemma settle_step:
  assumes "control_ok self loc d" "q \<in> set (approval_requests d)" "req_Status q = StatusPending" "(s, t) \<in> set settlements"
    and "\<And>x. ident (f x) = ident x \<and> req_Status (f x) = s" "\<And>x. core (g x) = core x \<and> rem_Status (g x) = t"
    and "s = StatusApproved \<Longrightarrow> separate self (req_RequestedBy q) (req_DecidedBy (f q))"
    and "appended h e1 (d\<lparr>approval_requests := update_rows (\<lambda>x. req_ID x = req_ID q) f (approval_requests d),
       remediation_actions := update_rows (in_states (req_RemediationID q) [StateAwaitingApproval]) g (remediation_actions d)\<rparr>) d1"
    and "appended h e2 d1 d'" "records e2 (req_RemediationID q) t"
  shows "control self loc h d d'"
  by (rule control.settle [of q d s t f g self h "[e1, e2]"]) (use assms in auto)

lemma timed_out_records: "records (timed_out_entry q) (req_RemediationID q) StateTimedOut"
  by (simp add: records_def timed_out_entry_def entry0_def status_map_def map_any_def)

lemma expired_step:
  assumes "control_ok self loc d" "q \<in> set (approval_requests d)" "req_Status q = StatusPending" "ident request = ident q"
    and "commits (expireRemediationAndAudit request now) h t (snd (expire_request request now d)) u d'"
  shows "control self loc h d d'"
proof -
  obtain e1 d1 where
    "appended h e1 (d\<lparr>approval_requests := update_rows (\<lambda>x. req_ID x = req_ID q)
         (\<lambda>x. x\<lparr>req_Status := StatusExpired, req_UpdatedAt := trunc_micro now\<rparr>) (approval_requests d),
       remediation_actions := update_rows (in_states (req_RemediationID q) [StateAwaitingApproval])
         (\<lambda>r. r\<lparr>rem_Status := StateTimedOut\<rparr>) (remediation_actions d)\<rparr>) d1" "appended h (timed_out_entry request) d1 d'"
    using assms(5) pending_update [OF keys_of_ok [OF assms(1)] assms(2,3)] assms(4)
    unfolding expireRemediationAndAudit_def writeAuditTx_def expire_request_def update_request_def update_remediation_def
    by (auto simp: ident_fields dest!: tx)
  moreover have "records (timed_out_entry request) (req_RemediationID q) StateTimedOut"
    using timed_out_records [of request] assms(4) by (simp add: ident_fields)
  ultimately show ?thesis
    by (intro settle_step [OF assms(1-3), of StatusExpired StateTimedOut]) (auto simp: settlements_def ident_def core_def)
qed

lemma expireTx_step:
  assumes "control_ok self loc d" "q \<in> set (approval_requests d)" "req_Status q = StatusPending" "ident request = ident q"
    and "commits (expireTx request now) h t d u d'"
  shows "control self loc h d d'"
proof -
  have "commits (expireRemediationAndAudit request now) h t (snd (expire_request request now d)) u d'"
    using assms(5) unfolding expireTx_def by (auto dest!: tx)
  then show ?thesis by (rule expired_step [OF assms(1-4)])
qed

lemma scanned:
  assumes "commits (scanRequest P) h t d q' d'"
  shows "d' = d \<and> (\<exists>q \<in> set (approval_requests d). P q \<and> q' = scan_row q)"
  using assms unfolding scanRequest_def by (auto dest!: tx find_SomeD split: option.splits)

lemma scan_row_simps [simp]:
  "ident (scan_row q) = ident q" "req_ID (scan_row q) = req_ID q" "req_Status (scan_row q) = req_Status q"
  "req_RemediationID (scan_row q) = req_RemediationID q" "req_RequestedBy (scan_row q) = req_RequestedBy q"
  by (simp_all add: scan_row_def ident_def)

lemma decided_simps [simp]:
  "ident (decided s a r src now q) = ident q" "req_Status (decided s a r src now q) = s" "req_DecidedBy (decided s a r src now q) = a"
  by (simp_all add: decided_def ident_def)

lemma remediation_records:
  "records (remediation_entry actor ty action rid before\<lparr>ent_AfterState := Some ((''status'', VStr s) # m)\<rparr>) rid s"
  by (simp add: records_def remediation_entry_def entry0_def map_any_def)

lemma decision_step:
  assumes "commits (record_decision request actor ty decision reason source now) h t d x d'" "control_ok self loc d"
    and "q \<in> set (approval_requests d)" "req_Status q = StatusPending" "ident request = ident q"
    and "decision = DecisionApprove \<Longrightarrow> separate self (req_RequestedBy q) actor"
  shows "control self loc h d d'"
proof -
  define s where "s = (if decision = DecisionApprove then StatusApproved else StatusDenied)"
  define st where "st = (if decision = DecisionApprove then StateApproved else StateRejected)"
  obtain e1 e2 d1 by' where
    "appended h e1 (d\<lparr>approval_requests := update_rows (\<lambda>x. req_ID x = req_ID q) (decided s actor reason source (trunc_micro now)) (approval_requests d),
       remediation_actions := update_rows (in_states (req_RemediationID q) [StateAwaitingApproval])
         (\<lambda>r. r\<lparr>rem_Status := st, rem_ApprovedBy := by'\<rparr>) (remediation_actions d)\<rparr>) d1"
    "appended h e2 d1 d'" "records e2 (req_RemediationID q) st"
    using assms(1,5) remediation_records unfolding record_decision_def writeAuditTx_def update_request_def update_remediation_def Let_def
    by (auto simp: ident_fields s_def st_def split: if_splits dest!: tx)
  then show ?thesis
    by (intro settle_step [OF assms(2-4), of s st]) (use assms(6) in \<open>auto simp: settlements_def core_def s_def st_def split: if_splits\<close>)
qed

lemma decide_commits:
  assumes "commits (decide_body rid actor ty decision reason source now) h t d x d'" "control_ok self loc d"
    and "decision = DecisionApprove \<Longrightarrow> \<forall>q \<in> set (approval_requests d). req_ID q = rid \<longrightarrow> separate self (req_RequestedBy q) actor"
  shows "control self loc h d d'"
proof -
  obtain q where q: "q \<in> set (approval_requests d)" "req_ID q = rid" "req_Status q = StatusPending"
    "commits (expireTx (scan_row q) now) h t d () d' \<or>
       (\<exists>y. commits (record_decision (scan_row q) actor ty decision reason source now) h t d y d')"
    using assms(1) unfolding decide_body_def by (auto dest!: tx scanned split: if_splits) blast
  from q(4) show ?thesis
  proof
    assume "commits (expireTx (scan_row q) now) h t d () d'"
    then show ?thesis by (intro expireTx_step [OF assms(2) q(1,3)]) simp_all
  next
    assume "\<exists>y. commits (record_decision (scan_row q) actor ty decision reason source now) h t d y d'"
    then show ?thesis using decision_step [OF _ assms(2) q(1,3)] assms(3) q(1,2) by fastforce
  qed
qed

lemma cancel_commits:
  assumes "commits (cancel_body remediationID actor reason now) h t d x d'" "control_ok self loc d"
  shows "control self loc h d d'"
proof -
  obtain q e1 e2 d1 where q: "q \<in> set (approval_requests d)" "req_RemediationID q = remediationID" "req_Status q = StatusPending"
    and log: "appended h e1 (d\<lparr>approval_requests := update_rows (\<lambda>x. req_ID x = req_ID q)
         (decided StatusCancelled actor reason ''api'' (trunc_micro now)) (approval_requests d),
       remediation_actions := update_rows (in_states remediationID [StateAwaitingApproval])
         (\<lambda>r. r\<lparr>rem_Status := StateCancelled\<rparr>) (remediation_actions d)\<rparr>) d1"
    "appended h e2 d1 d'" "records e2 remediationID StateCancelled"
    using assms(1) remediation_records
    unfolding cancel_body_def getByRemediation_def writeAuditTx_def update_request_def update_remediation_def
    by (auto split: if_splits dest!: tx scanned)
  then show ?thesis
    by (intro settle_step [OF assms(2) q(1,3), of StatusCancelled StateCancelled]) (auto simp: settlements_def core_def)
qed

section \<open>Procedures\<close>

lemma evolves_create:
  assumes "req_Status q = StatusPending"
  shows "guar (follows self loc) (\<lambda>d. control_ok self loc d \<and> waiting (req_RemediationID q) (req_RequestedBy q) d) (StoreCreate q) (\<lambda>_ _. True)"
  unfolding StoreCreate_def
proof (rule flow.guar_bind [OF flow.guar_transaction_if [OF stable_waiting, where Q = "\<lambda>_ _. True"]])
  show "follows self loc h d d' \<and> True \<and> (\<not> C \<longrightarrow> True)"
    if "control_ok self loc d \<and> waiting (req_RemediationID q) (req_RequestedBy q) d" "commits (create_body q) h t d x d'" for h t d x d' C
    using create_commits [OF that(2) _ assms] that(1) by (simp add: follows_def)
  show "guar (follows self loc) (\<lambda>_. True)
     (case x of Inr (_, stored) \<Rightarrow> ret stored
      | Inl err \<Rightarrow>
         bind (attempt (getByRemediation (req_RemediationID q))) (\<lambda>found.
         case found of Inr existing \<Rightarrow> ret existing | Inl _ \<Rightarrow> fail (wrap ''insert approval request'' err))) (\<lambda>_ _. True)" for x
    by (rule flow.guar_evolves) (auto simp: getByRemediation_def scanRequest_def split: sum.split intro!: evo)
qed

definition annotates :: "(request \<Rightarrow> request) \<Rightarrow> bool" where
  "annotates f \<longleftrightarrow> (\<forall>x. ident (f x) = ident x \<and> req_Status (f x) = req_Status x \<and> req_DecidedBy (f x) = req_DecidedBy x)"

lemma note_step: "annotates f \<Longrightarrow> control self loc h d (d\<lparr>approval_requests := update_rows P f (approval_requests d)\<rparr>)"
  by (rule control.note_request [where es = "[]"]) (auto simp: annotates_def)

lemma note_logged: "appended h e (d\<lparr>approval_requests := update_rows P f (approval_requests d)\<rparr>) d' \<Longrightarrow> annotates f \<Longrightarrow> control self loc h d d'"
  by (rule control.note_request [where es = "[e]"]) (auto simp: annotates_def)

lemma MarkNotification_follows [evo]: "evolves (follows self loc) (MarkNotification rid status msg)"
  unfolding MarkNotification_def update_request_def
  by (intro evo flow.evolves_exec follows_step) (auto intro: note_step simp: annotates_def ident_def)

lemma MarkEscalated_follows [evo]: "evolves (follows self loc) (MarkEscalated request now)"
  unfolding MarkEscalated_def
proof (rule flow.evolves_transaction_if, rule tx_followsI, goal_cases)
  case (1 h t d x d')
  then have "d' = d \<or> control self loc h d d'"
    unfolding update_request_def writeAuditTx_def
    by (auto simp: update_rows_none annotates_def ident_def split: if_splits dest!: tx note_logged)
  then show ?case by blast
qed

definition all_known :: "request list \<Rightarrow> database \<Rightarrow> bool" where
  "all_known qs d \<longleftrightarrow> list_all (\<lambda>q. known q d) qs"

lemma all_known_step: "control self loc h d d' \<Longrightarrow> all_known qs d \<Longrightarrow> all_known qs d'"
  using known_step by (auto simp: all_known_def list_all_iff)

lemmas stable_all_known = stableI [of _ _ "all_known qs" for qs, OF all_known_step]

lemma expire_commits:
  assumes "commits (bind (wrap_err m (exec (\<lambda>t. expire_request request now))) (\<lambda>n.
      if n = 0 then ret False else bind (expireRemediationAndAudit request now) (\<lambda>_. ret True))) h t d x d'"
    and "control_ok self loc d" "known request d"
  shows "d' = d \<or> control self loc h d d'"
proof -
  have "d' = d \<or> affected (\<lambda>q. req_ID q = req_ID request \<and> req_Status q = StatusPending) (approval_requests d) \<noteq> 0 \<and>
      commits (expireRemediationAndAudit request now) h t (snd (expire_request request now d)) () d'"
    using assms(1) by (auto simp: expire_request_def update_request_def update_rows_none split: if_splits dest!: tx)
  then show ?thesis
  proof
    assume run: "affected (\<lambda>q. req_ID q = req_ID request \<and> req_Status q = StatusPending) (approval_requests d) \<noteq> 0 \<and>
      commits (expireRemediationAndAudit request now) h t (snd (expire_request request now d)) () d'"
    from affected_ex [OF conjunct1 [OF run]] obtain q where
      q: "q \<in> set (approval_requests d)" "req_ID q = req_ID request" "req_Status q = StatusPending" by blast
    obtain q' where "q' \<in> set (approval_requests d)" "ident q' = ident request" using assms(3) by (auto simp: known_def)
    moreover have "q' = q"
      using same_key [of req_ID "approval_requests d" q' q] calculation q keys_of_ok [OF assms(2)] by (simp add: keys_ok_def ident_fields)
    ultimately show ?thesis using expired_step [OF assms(2) q(1,3)] run by metis
  qed simp
qed

lemma expire_follows:
  assumes "request \<in> set qs"
  shows "guar (follows self loc) (\<lambda>d. control_ok self loc d \<and> all_known qs d) (expire request now) (\<lambda>_ d. control_ok self loc d \<and> all_known qs d)"
  unfolding expire_def
proof (rule flow.guar_transaction_if [OF stable_all_known])
  fix h t d x d'
  assume d: "control_ok self loc d \<and> all_known qs d"
    and run: "commits (bind (wrap_err ''expire approval request'' (exec (\<lambda>t. expire_request request now))) (\<lambda>n.
      if n = 0 then ret False else bind (expireRemediationAndAudit request now) (\<lambda>_. ret True))) h t d x d'"
  have "known request d" using d assms by (auto simp: all_known_def list_all_iff)
  then have "d' = d \<or> control self loc h d d'" using expire_commits [OF run] d by blast
  then show "follows self loc h d d' \<and> (control_ok self loc d' \<and> all_known qs d') \<and> (\<not> x \<longrightarrow> control_ok self loc d \<and> all_known qs d)"
    using d step_ok all_known_step by (auto simp: follows_def)
qed

lemma due_known: "all_known (due_requests P key limit d) d"
  by (auto simp: all_known_def list_all_iff due_requests_def known_def dest!: in_set_takeD)

lemma ExpireDue_follows [evo]: "evolves (follows self loc) (ExpireDue now limit)"
  unfolding ExpireDue_def
proof (rule evolves_ok, rule flow.guar_bind)
  let ?due = "\<lambda>d. due_requests (\<lambda>q. req_Status q = StatusPending \<and> req_ExpiresAt q \<le> trunc_micro now) req_ExpiresAt limit d"
  show "guar (follows self loc) (control_ok self loc) (wrap_err ''list expired approvals'' (query (\<lambda>t d. Inr (?due d))))
      (\<lambda>due d. control_ok self loc d \<and> all_known due d)"
    by (intro flow.guar_wrap_err flow.guar_query stable_ok) (auto simp: due_known)
  show "guar (follows self loc) (\<lambda>d. control_ok self loc d \<and> all_known due d)
      (bind (for_each due (\<lambda>request. bind (expire request now) (\<lambda>ok. ret (ok, request)))) (\<lambda>results.
       ret (map (\<lambda>(ok, request). request\<lparr>req_Status := StatusExpired, req_UpdatedAt := now\<rparr>) (filter fst results))))
      (\<lambda>_ _. True)" for due
    by (rule flow.guar_bind, rule flow.guar_for_each, rule flow.guar_bind, erule expire_follows)
       (auto intro!: flow.guar_ret)
qed

lemma Notify_follows [evo]: "evolves (follows self loc) (Notify n r escalation)"
  by (rule flow.evolves_keeps [OF keeps_Notify])

lemma processDue_follows: "evolves (follows self loc) (processDue svc)"
  unfolding processDue_def DueEscalations_def by (intro evo)

lemma scan_known:
  "guar (follows self loc) (control_ok self loc) (scanRequest P) (\<lambda>q d. control_ok self loc d \<and> known q d \<and> (\<exists>q'. P q' \<and> ident q' = ident q))"
  unfolding scanRequest_def
  by (intro flow.guar_map_err flow.guar_query stable_ok)
     (auto simp: known_def dest!: find_SomeD split: option.splits intro: scan_row_simps(1) [symmetric])

lemma StoreDecide_follows:
  assumes "req_ID pending = rid" "decision = DecisionApprove \<Longrightarrow> separate self (req_RequestedBy pending) actor"
  shows "guar (follows self loc) (\<lambda>d. control_ok self loc d \<and> known pending d)
    (StoreDecide rid actor ty decision reason source now) (\<lambda>_ _. True)"
  unfolding StoreDecide_def
proof (rule flow.guar_bind [OF flow.guar_transaction_if [OF stable_known, where Q = "\<lambda>_ _. True"]])
  fix h t d x d' C
  assume d: "control_ok self loc d \<and> known pending d" and run: "commits (decide_body rid actor ty decision reason source now) h t d x d'"
  obtain p where p: "p \<in> set (approval_requests d)" "ident p = ident pending" using d by (auto simp: known_def)
  have "q = p" if "q \<in> set (approval_requests d)" "req_ID q = rid" for q
    using same_key [of req_ID "approval_requests d" q p] p that assms(1) keys_of_ok d by (auto simp: keys_ok_def ident_fields)
  then have "\<forall>q \<in> set (approval_requests d). req_ID q = rid \<longrightarrow> separate self (req_RequestedBy q) actor" if "decision = DecisionApprove"
    using assms(2) [OF that] p(2) by (auto simp: ident_fields)
  then have "control self loc h d d'" using decide_commits [OF run] d by blast
  then show "follows self loc h d d' \<and> True \<and> (\<not> C \<longrightarrow> True)" by (auto simp: follows_def)
next
  show "guar (follows self loc) (\<lambda>_. True) (case x of None \<Rightarrow> fail approval_expired | Some request \<Rightarrow> ret request) (\<lambda>_ _. True)" for x
    by (rule flow.guar_evolves) (intro evo)
qed

lemma guar_require: "(x = None \<Longrightarrow> guar (follows self loc) P m Q) \<Longrightarrow> guar (follows self loc) P (bind (require x) (\<lambda>_. m)) Q"
  by (cases x) (auto simp: require_def guar_def bind_def ret_def fail_def flow.refl)

lemma Decide_follows [evo]: "evolves (follows (apAllowSelf svc) loc) (Decide svc rid actor ty decision reason source)"
proof (rule evolves_ok)
  let ?self = "apAllowSelf svc"
  let ?fact = "\<lambda>pending d. control_ok ?self loc d \<and> known pending d \<and> (\<exists>q'. req_ID q' = rid \<and> ident q' = ident pending)"
  have step: "guar (follows ?self loc) (?fact pending) (bind (require (validateSeparation (req_RequestedBy pending) actor ?self)) (\<lambda>_.
       StoreDecide rid actor ty dec reas source now)) (\<lambda>_ _. True)" for pending dec reas now
  proof (rule guar_require, rule flow.guar_assume [where C = "req_ID pending = rid"])
    assume ok: "validateSeparation (req_RequestedBy pending) actor ?self = None" and rid: "req_ID pending = rid"
    then have "separate ?self (req_RequestedBy pending) actor" by (auto simp: validateSeparation_def separate_def split: if_splits)
    then show "guar (follows ?self loc) (?fact pending) (StoreDecide rid actor ty dec reas source now) (\<lambda>_ _. True)"
      by (intro flow.guar_weaken [OF StoreDecide_follows [OF rid]]) auto
  qed (auto simp: ident_fields)
  show "guar (follows ?self loc) (control_ok ?self loc) (Decide svc rid actor ty decision reason source) (\<lambda>_ _. True)"
    unfolding Decide_def Let_def StoreGet_def
    by (rule guar_require, rule flow.guar_bind [OF flow.guar_time_now], assumption)
       (rule flow.guar_bind [OF scan_known step])
qed

lemma DecideByRemediation_follows [evo]: "evolves (follows (apAllowSelf svc) loc) (DecideByRemediation svc remediationID actor ty decision reason)"
  unfolding DecideByRemediation_def getByRemediation_def scanRequest_def by (intro evo)

lemma CancelByRemediation_follows [evo]: "evolves (follows self loc) (CancelByRemediation remediationID actor reason)"
  unfolding CancelByRemediation_def StoreCancelByRemediation_def
  by (intro evo flow.evolves_transaction tx_followsI) (auto dest: cancel_commits)

lemma RequestApproval_follows:
  "guar (follows self loc) (\<lambda>d. control_ok self loc d \<and> waiting (rem_ID rem) (rem_ProposedBy rem) d) (RequestApproval svc incident rem) (\<lambda>_ _. True)"
  unfolding RequestApproval_def Let_def
  by (intro flow.guar_bind [OF flow.guar_time_now] flow.guar_bind [OF flow.guar_NewID] flow.guar_bind [OF flow.guar_weaken [OF evolves_create]]
      flow.guar_evolves evo) auto

end
