(* ===== verification/Control_Execution.thy ===== *)
theory Control_Execution
  imports Control_Approvals Helios_Reconcile
begin

text \<open>
  Proposing, cancelling, executing, publishing, re-sending and the Helios reconciler only take steps
  of the control machine.
\<close>

section \<open>Guarded status changes\<close>

text \<open>
  A status change in a transaction: the guard held and the row moved, or nothing happened.
\<close>

definition applies :: "string \<Rightarrow> string list \<Rightarrow> (remediation_action \<Rightarrow> remediation_action) \<Rightarrow> database \<Rightarrow> bool \<Rightarrow> database \<Rightarrow> bool" where
  "applies rid ss g d ok d' \<longleftrightarrow>
     ok = (affected (in_states rid ss) (remediation_actions d) = 1) \<and>
     d' = d\<lparr>remediation_actions := update_rows (in_states rid ss) g (remediation_actions d)\<rparr>"

lemma applies_update [tx]:
  "commits (affectedOne (wrap_err m (exec (\<lambda>t. update_remediation rid ss (g t))))) h t d ok d' \<Longrightarrow> applies rid ss (g t) d ok d'"
  by (auto simp: affectedOne_def update_remediation_def applies_def dest!: tx)

lemma applies_False: "applies rid ss g d False d' \<Longrightarrow> control_ok self loc d \<Longrightarrow> d' = d"
  by (simp add: applies_def not_applied)

lemma applies_step:
  assumes "applies rid ss g d True d1" "logged h es d1 d'" "control_ok self loc d" "list_all (\<lambda>s. (s, t) \<in> set moves) ss"
    and "\<And>x. core (g x) = core x \<and> rem_Status (g x) = t" "t \<noteq> StateQueued" "t = StateRunning \<or> list_ex (\<lambda>e. records e rid t) es"
  shows "control self loc h d d'"
  using assms by (intro move_step [of self loc d rid ss t g h es d']) (auto simp: applies_def)

lemma requireApplied_commits [tx]: "commits (requireApplied m) h t d u d' \<Longrightarrow> commits m h t d True d'"
  unfolding requireApplied_def by (auto split: if_splits dest!: tx)

lemmas store_moves = CancelRemediation_def ClaimRemediation_def MarkRemediationRunning_def CompleteRemediation_def

lemma started_simps [simp]: "core (started t r) = core r" "rem_Status (started t r) = StateRunning"
  by (simp_all add: started_def core_def)

lemma moves_to_running: "list_all (\<lambda>s. (s, StateRunning) \<in> set moves) [StateQueued, StateRunning]"
  by (simp add: moves_def)

lemma moves_to_final:
  "t \<in> set [StateSucceeded, StateFailed, StateTimedOut] \<Longrightarrow> list_all (\<lambda>s. (s, t) \<in> set moves) [StateQueued, StateRunning]"
  by (auto simp: moves_def)

text \<open>Completing a job together with an entry that records it.\<close>

lemma complete_step:
  assumes "commits (CompleteRemediation rid status result err) h t d True d1" "appended h e d1 d'" "control_ok self loc d"
    and "status \<in> set [StateSucceeded, StateFailed, StateTimedOut]" "records e rid status"
  shows "control self loc h d d'"
proof -
  have "applies rid [StateQueued, StateRunning]
      (\<lambda>r. r\<lparr>rem_Status := status, rem_CompletedAt := Some t, rem_Result := stored_result result, rem_Error := err\<rparr>) d True d1"
    using assms(1) unfolding CompleteRemediation_def by (auto dest: tx)
  then show ?thesis
    by (rule applies_step [OF _ appended_logged [OF assms(2)] assms(3) moves_to_final [OF assms(4)]])
       (use assms(4,5) in \<open>auto simp: core_def\<close>)
qed

lemma running_step:
  assumes "commits (MarkRemediationRunning rid result) h t d True d1" "logged h es d1 d'" "control_ok self loc d"
  shows "control self loc h d d'"
proof -
  have "applies rid [StateQueued, StateRunning] (\<lambda>r. (started t r)\<lparr>rem_Result := stored_result result\<rparr>) d True d1"
    using assms(1) unfolding MarkRemediationRunning_def by (auto dest: tx)
  then show ?thesis by (rule applies_step [OF _ assms(2,3) moves_to_running]) (auto simp: core_def started_def)
qed

lemma claim_step:
  assumes "commits (ClaimRemediation rid) h t d True d'" "control_ok self loc d" shows "control self loc h d d'"
proof -
  have "applies rid [StateQueued, StateRunning] (started t) d True d'"
    using assms(1) unfolding ClaimRemediation_def by (auto dest: tx)
  then show ?thesis by (rule applies_step [where es = "[]", OF _ _ assms(2) moves_to_running]) auto
qed

lemma user_records [simp]:
  "records ((user_entry actor action rid)\<lparr>ent_BeforeState := b, ent_AfterState := Some ((''status'', VStr s) # m)\<rparr>) rid s"
  "records ((user_entry actor action rid)\<lparr>ent_AfterState := Some ((''status'', VStr s) # m), ent_Metadata := md\<rparr>) rid s"
  "records ((user_entry actor action rid)\<lparr>ent_BeforeState := b, ent_AfterState := status_map s\<rparr>) rid s"
  by (simp_all add: records_def user_entry_def entry0_def map_any_def status_map_def)

lemma system_records [simp]:
  "records (remediation_entry actor ty action rid before\<lparr>ent_AfterState := Some ((''status'', VStr s) # m)\<rparr>) rid s"
  "records (remediation_entry actor ty action rid before\<lparr>ent_AfterState := Some ((''status'', VStr s) # m), ent_Metadata := md\<rparr>) rid s"
  by (simp_all add: records_def remediation_entry_def entry0_def map_any_def)

section \<open>Synchronous outcomes\<close>

lemma applyQueuedOutcome_follows [evo]: "tx_evolves (follows self loc) (applyQueuedOutcome svc rem outcome actor)"
proof (rule tx_followsI, goal_cases)
  case (1 h t d x d')
  have rec: "records (outcome_entry svc actor a rem outcome) (rem_ID rem) (out_Status outcome)" for a
    by (simp add: outcome_entry_def)
  consider "out_Status outcome = StateQueued" | "out_Status outcome = StateRunning" | "out_Status outcome = StateSucceeded"
    | "out_Status outcome = StateFailed" using 1(2) unfolding applyQueuedOutcome_def by (auto split: if_splits dest!: tx)
  then show ?case
  proof cases
    case 1
    then show ?thesis using \<open>commits _ _ _ _ _ _\<close> unfolding applyQueuedOutcome_def by (auto dest!: tx)
  next
    case 2
    then obtain d1 where "commits (MarkRemediationRunning (rem_ID rem) (out_Result outcome)) h t d True d1"
      "appended h (outcome_entry svc actor ''remediation.running'' rem outcome) d1 d'"
      using \<open>commits _ _ _ _ _ _\<close> unfolding applyQueuedOutcome_def by (auto dest!: commits_bind requireApplied_commits commits_InTx WriteTx_commits)
    then show ?thesis using running_step [OF _ appended_logged \<open>control_ok self loc d\<close>] by blast
  next
    case 3
    then obtain d1 d2 where claim: "commits (ClaimRemediation (rem_ID rem)) h t d True d1"
      and complete: "commits (CompleteRemediation (rem_ID rem) StateSucceeded (out_Result outcome) []) h t d1 True d2"
      "appended h (outcome_entry svc actor ''remediation.completed'' rem outcome) d2 d'"
      using \<open>commits _ _ _ _ _ _\<close> unfolding applyQueuedOutcome_def by (auto dest!: commits_bind requireApplied_commits commits_InTx WriteTx_commits)
    have "control self loc h d d1" by (rule claim_step [OF claim \<open>control_ok self loc d\<close>])
    moreover from this have "control self loc h d1 d'"
      using complete_step [OF complete step_ok [OF _ \<open>control_ok self loc d\<close>]] rec 3 by simp
    ultimately show ?thesis by auto
  next
    case 4
    then obtain d1 where "commits (CompleteRemediation (rem_ID rem) StateFailed (out_Result outcome) ''executor reported failure'') h t d True d1"
      "appended h (outcome_entry svc actor ''remediation.failed'' rem outcome) d1 d'"
      using \<open>commits _ _ _ _ _ _\<close> unfolding applyQueuedOutcome_def by (auto dest!: commits_bind requireApplied_commits commits_InTx WriteTx_commits)
    then show ?thesis using complete_step [OF _ _ \<open>control_ok self loc d\<close>] rec 4 by fastforce
  qed
qed

lemma commits_InTx_iff: "commits (InTx m) h t d x d' \<longleftrightarrow> commits m h t d x d'"
proof
  assume "commits m h t d x d'"
  then obtain e w w' where "tx_time e = Some t" "sha256 e = h" "db w = d" "m e w = (Inr x, w')" "db w' = d'"
    by (auto simp: commits_def)
  then show "commits (InTx m) h t d x d'" using commitsI [of e t "InTx m" w x w'] by (simp add: InTx_def)
qed (rule commits_InTx)

lemma tx_InTx_iff: "tx_evolves R (InTx m) \<longleftrightarrow> tx_evolves R m"
  by (simp add: tx_evolves_def commits_InTx_iff)

lemma outcome_evolves [evo]: "evolves (follows self loc) (applyQueuedOutcome svc rem outcome actor)"
  using applyQueuedOutcome_follows [of self loc svc rem outcome actor] unfolding applyQueuedOutcome_def
  by (simp add: tx_InTx_iff flow.evolves_InTx flow.evolves_ret flow.evolves_fail split: if_splits)

section \<open>Cancelling\<close>

lemma moves_to_cancelled:
  "CanTransition s StateCancelled \<Longrightarrow> s \<noteq> StateAwaitingApproval \<Longrightarrow> (s, StateCancelled) \<in> set moves"
  by (auto simp: CanTransition_iff moves_def)

lemma cancel_follows:
  assumes "CanTransition s StateCancelled" "s \<noteq> StateAwaitingApproval"
  shows "tx_evolves (follows self loc) (bind (CancelRemediation rid s) (\<lambda>ok.
    if \<not> ok then ret False
    else bind (WriteTx ((user_entry actor ''remediation.cancelled'' rid)\<lparr>ent_BeforeState := b, ent_AfterState := status_map StateCancelled\<rparr>)) (\<lambda>_. ret True)))"
proof (rule tx_followsI, goal_cases)
  case (1 h t d x d')
  then obtain ok d1 where up: "applies rid [s] (\<lambda>r. r\<lparr>rem_Status := StateCancelled, rem_CompletedAt := Some t\<rparr>) d ok d1"
    and rest: "if ok then appended h ((user_entry actor ''remediation.cancelled'' rid)\<lparr>ent_BeforeState := b, ent_AfterState := status_map StateCancelled\<rparr>) d1 d' else d' = d1"
    unfolding CancelRemediation_def by (auto split: if_splits dest!: commits_bind applies_update commits_ret WriteTx_commits)
  show ?case
  proof (cases ok)
    case True
    then show ?thesis using up rest moves_to_cancelled [OF assms] 1(1)
      by (intro r_into_rtranclp applies_step [OF _ appended_logged, of rid "[s]" _ d d1 h]) (auto simp: core_def)
  qed (use up rest applies_False [of rid "[s]" _ d d1 self loc] 1(1) in auto)
qed

lemma guard_follows: "(x = None \<Longrightarrow> evolves (follows self loc) m) \<Longrightarrow> evolves (follows self loc) (bind (require x) (\<lambda>_. m))"
  by (cases x) (auto simp: require_def evolves_def bind_def ret_def fail_def flow.refl)

lemma get_follows [evo]: "evolves (follows self loc) (GetRemediation rid)" "evolves (follows self loc) (GetIncident iid)"
  unfolding GetRemediation_def GetIncident_def by (intro evo)+

lemma Cancel_follows: "evolves (follows self loc) (Cancel svc rid actor)"
  unfolding Cancel_def require_transition_def
  by (intro evo guard_follows flow.evolves_InTx cancel_follows) (auto split: option.splits)

section \<open>Executing\<close>

lemma queued_commits [tx]:
  assumes "commits (MarkRemediationQueued rid dry) h t d q d'"
  shows "q = t \<and> affected (in_states rid [StateApproved]) (remediation_actions d) \<noteq> 0 \<and>
    d' = d\<lparr>remediation_actions := update_rows (in_states rid [StateApproved])
      (\<lambda>r. r\<lparr>rem_Status := StateQueued, rem_QueuedAt := Some t, rem_DryRun := dry\<rparr>) (remediation_actions d)\<rparr>"
  using assms unfolding MarkRemediationQueued_def update_remediation_def by (auto split: if_splits dest!: tx)

lemma insert_dispatch_Inr:
  assumes "insert_dispatch did rid reason ev t d = Inr (u, d')"
  shows "\<exists>x. d' = d\<lparr>remediation_dispatches := remediation_dispatches d @ [x]\<rparr> \<and> dsp_ID x = did \<and> dsp_RemediationID x = rid \<and>
    did \<notin> dsp_ID ` set (remediation_dispatches d) \<and> (\<exists>r \<in> set (remediation_actions d). rem_ID r = rid)"
  using assms by (auto simp: insert_dispatch_def list_ex_iff split: if_splits)

lemma enqueue_commits [tx]:
  assumes "commits (Enqueue rem did reason) h t d u d'"
  shows "\<exists>x. d' = d\<lparr>remediation_dispatches := remediation_dispatches d @ [x]\<rparr> \<and> dsp_ID x = did \<and> dsp_RemediationID x = rem_ID rem \<and>
    did \<notin> dsp_ID ` set (remediation_dispatches d) \<and> (\<exists>r \<in> set (remediation_actions d). rem_ID r = rem_ID rem)"
  using assms unfolding Enqueue_def Let_def by (auto split: option.splits dest!: tx insert_dispatch_Inr)

lemma keeps_reservation [keep]: "keeps (reservationEventID rem)"
  unfolding reservationEventID_def by (intro keep)

lemmas reservation_commits [tx] = commits_keeps [OF _ keeps_reservation]

lemma queue_step:
  assumes "control_ok self loc d" "affected (in_states rid [StateApproved]) (remediation_actions d) \<noteq> 0"
    and "\<And>x. core (g x) = core x \<and> rem_Status (g x) = StateQueued" "distinct (map dsp_ID (remediation_dispatches d @ xs))"
    and "list_all (\<lambda>x. dsp_RemediationID x = rid) xs" "loc \<longrightarrow> xs \<noteq> []" "records e rid StateQueued"
    and "appended h e (d\<lparr>remediation_actions := update_rows (in_states rid [StateApproved]) g (remediation_actions d),
       remediation_dispatches := remediation_dispatches d @ xs\<rparr>) d'"
  shows "control self loc h d d'"
proof -
  obtain r where "r \<in> set (remediation_actions d)" "in_states rid [StateApproved] r" using affected_ex [OF assms(2)] by blast
  then show ?thesis using assms
    by (intro control.move [of r d rid StateQueued "[StateApproved]" g xs loc h "[e]"]) (auto simp: in_states_def moves_def)
qed

lemma reserve_follows:
  assumes "loc \<longrightarrow> isQueued (rs_exec svc)"
  shows "evolves (follows self loc) (reserve_execution svc rem dry actor)"
  unfolding reserve_execution_def Let_def
proof (rule flow.evolves_InTx, rule tx_followsI, goal_cases)
  case (1 h t d x d')
  then obtain e xs where aff: "affected (in_states (rem_ID rem) [StateApproved]) (remediation_actions d) \<noteq> 0"
    and e: "appended h e (d\<lparr>remediation_actions := update_rows (in_states (rem_ID rem) [StateApproved])
        (\<lambda>r. r\<lparr>rem_Status := StateQueued, rem_QueuedAt := Some t, rem_DryRun := dry\<rparr>) (remediation_actions d),
      remediation_dispatches := remediation_dispatches d @ xs\<rparr>) d'" "records e (rem_ID rem) StateQueued"
    and xs: "distinct (map dsp_ID (remediation_dispatches d @ xs))" "list_all (\<lambda>x. dsp_RemediationID x = rem_ID rem) xs" "loc \<longrightarrow> xs \<noteq> []"
  proof (cases "isQueued (rs_exec svc)")
    case True
    then show ?thesis using 1 by (fastforce simp: control_ok_def keys_ok_def dest!: tx intro: that)
  next
    case False
    then show ?thesis using 1 assms that [of _ "[]"] by (auto simp: control_ok_def keys_ok_def dest!: tx)
  qed
  show ?case by (intro r_into_rtranclp queue_step [OF 1(1) aff _ xs e(2,1)]) (auto simp: core_def)
qed

lemma release_follows [evo]: "evolves (follows self loc) (release_reservation rid actor err)"
  unfolding release_reservation_def
proof (rule flow.evolves_InTx, rule tx_followsI, goal_cases)
  case (1 h t d x d')
  let ?g = "\<lambda>r. r\<lparr>rem_Status := StateApproved, rem_QueuedAt := None\<rparr>"
  from 1(2) obtain e where e: "appended h e (d\<lparr>remediation_actions := update_rows (in_states rid [StateQueued]) ?g (remediation_actions d)\<rparr>) d'"
    "records e rid StateApproved"
    unfolding ReleaseRemediationQueueReservation_def update_remediation_def by (fastforce dest!: tx)
  show ?case
  proof (cases "affected (in_states rid [StateQueued]) (remediation_actions d) = 0")
    case True
    then show ?thesis using e(1) appended_step by (auto simp: update_rows_none)
  next
    case False
    then show ?thesis
      by (intro r_into_rtranclp move_step [OF 1(1) False, of StateApproved ?g h "[e]"]) (use e in \<open>auto simp: moves_def core_def\<close>)
  qed
qed

lemma execute_sync_follows [evo]: "evolves (follows self loc) (execute_sync svc rem inc dry actor)"
  unfolding execute_sync_def by (intro evo flow.evolves_keeps [OF keeps_executor_execute])

section \<open>The outbox\<close>

lemma mark_step: "(\<And>x. dsp_ID (f x) = dsp_ID x \<and> dsp_RemediationID (f x) = dsp_RemediationID x) \<Longrightarrow> control self loc h d (snd (update_dispatch did f d))"
  by (rule control.mark [where f = f and P = "\<lambda>x. dsp_ID x = did"]) (auto simp: update_dispatch_def)

lemma tx_mark:
  assumes "\<And>t x. dsp_ID (f t x) = dsp_ID x \<and> dsp_RemediationID (f t x) = dsp_RemediationID x"
  shows "tx_evolves (follows self loc) (exec (\<lambda>t. update_dispatch did (f t)))"
proof (rule tx_followsI, goal_cases)
  case (1 h t d x d')
  then have "d' = snd (update_dispatch did (f t) d)" by (auto dest!: tx)
  then show ?case using mark_step [of "f t" self loc h d did] assms by auto
qed

lemma publish_batch_follows: "tx_evolves (follows self loc) (publish_batch batch n)"
proof (induction batch n rule: publish_batch.induct)
  case (2 p status batch n)
  show ?case unfolding publish_batch.simps
    by (intro evo tx_mark flow.tx_keeps [OF keeps_attempt [OF keeps_Publish]] 2) auto
qed (auto intro: evo)

lemma PublishOne_follows [evo]: "evolves (follows self loc) (PublishOne cfg did)"
  unfolding PublishOne_def publish_def by (intro evo flow.evolves_InTx publish_batch_follows)

lemma PublishPending_follows [evo]: "evolves (follows self loc) (PublishPending cfg)"
  unfolding PublishPending_def publish_def by (intro evo flow.evolves_InTx publish_batch_follows)

lemma Execute_follows:
  assumes "loc \<longrightarrow> isQueued (rs_exec svc)"
  shows "evolves (follows self loc) (Execute svc rid dry actor)"
  unfolding Execute_def require_transition_def by (intro evo guard_follows reserve_follows [OF assms])

lemma resend_step:
  assumes "r \<in> set (remediation_actions d)" "rem_ID r = dsp_RemediationID x" "dsp_ID x \<notin> dsp_ID ` set (remediation_dispatches d)"
    and "appended h e (d\<lparr>remediation_dispatches := remediation_dispatches d @ [x]\<rparr>) d'"
  shows "control self loc h d d'"
  by (rule control.resend [of r d x h "[e]"]) (use assms in auto)

lemma redispatchTx_follows [evo]: "tx_evolves (follows self loc) (redispatchTx rid reason actor ty md)"
proof (rule tx_followsI, goal_cases)
  case (1 h t d x d')
  then have "\<exists>r e x. r \<in> set (remediation_actions d) \<and> rem_ID r = dsp_RemediationID x \<and> dsp_ID x \<notin> dsp_ID ` set (remediation_dispatches d) \<and>
      appended h e (d\<lparr>remediation_dispatches := remediation_dispatches d @ [x]\<rparr>) d'"
    unfolding redispatchTx_def GetRemediation_def Let_def by (auto split: if_splits dest!: tx) metis
  then show ?case using resend_step by blast
qed

lemma Redispatch_follows: "evolves (follows self loc) (Redispatch cfg rid reason actor ty md)"
  unfolding Redispatch_def by (intro evo flow.evolves_InTx)

lemma exhaust_follows:
  "tx_evolves (follows self loc) (bind (requireApplied (CompleteRemediation rid StateTimedOut result err)) (\<lambda>_.
     bind (WriteTx ((remediation_entry actor ty action rid before)\<lparr>ent_AfterState := Some ((''status'', VStr StateTimedOut) # m)\<rparr>)) (\<lambda>_. ret x)))"
  by (rule tx_followsI) (auto dest!: commits_bind requireApplied_commits WriteTx_commits commits_ret dest: complete_step intro!: r_into_rtranclp)

lemma reconcile_follows: "tx_evolves (follows self loc) (reconcile_all cfg found result)"
proof (induction found arbitrary: result)
  case (Cons s found)
  have "tx_evolves (follows self loc) (reconcile_one cfg s result)" unfolding reconcile_one_def Let_def
    by (intro evo exhaust_follows)
  then show ?case unfolding reconcile_all.simps by (intro flow.tx_bind Cons.IH)
qed (auto intro: evo)

lemma Reconcile_follows: "evolves (follows self loc) (Reconcile cfg locked)"
  unfolding Reconcile_def by (intro evo flow.evolves_InTx reconcile_follows)

section \<open>Proposing\<close>

lemma insert_remediation_Inr:
  assumes "insert_remediation a d = Inr (u, d')"
  shows "\<exists>r. d' = d\<lparr>remediation_actions := remediation_actions d @ [r]\<rparr> \<and> rem_ID r = rem_ID a \<and> rem_Status r = rem_Status a \<and>
    rem_ActionType r = rem_ActionType a \<and> rem_ProposedBy r = rem_ProposedBy a \<and>
    rem_ID r \<notin> rem_ID ` set (remediation_actions d) \<and> rem_IdempotencyKey r \<notin> rem_IdempotencyKey ` set (remediation_actions d)"
proof -
  obtain p q where "stored_map (rem_Parameters a) = Some p" "stored_map (rem_PolicyDecision a) = Some q"
    using assms by (auto simp: insert_remediation_def split: option.splits)
  then show ?thesis using assms
    by (clarsimp simp: insert_remediation_def list_ex_iff split: if_splits) (intro exI conjI, rule refl, auto)
qed

text \<open>A proposal the policy engine let through: only diagnostics start out approved.\<close>

definition admitted :: "remediation_action \<Rightarrow> bool" where
  "admitted a \<longleftrightarrow>
     rem_ID a \<noteq> [] \<and>
     (rem_Status a \<in> {StatePolicyBlocked, StateAwaitingApproval} \<or> rem_Status a = StateApproved \<and> rem_ActionType a = CollectDiagnostics)"

lemma proposed_admitted:
  "rid \<noteq> [] \<Longrightarrow> admitted (proposed_action h incident candidate parameters actor
     (Evaluate engine (proposal_input incident candidate parameters actor role recent failed)) n m rid now)"
  using Evaluate_unattended [of engine "proposal_input incident candidate parameters actor role recent failed"]
  by (auto simp: admitted_def proposed_action_def proposed_status_def proposal_input_def Let_def)

lemma propose_commits:
  assumes "commits (bind (CreateRemediation a) (\<lambda>_. WriteTx (proposed_entry actor a))) h t d u d'" "admitted a"
  shows "control self loc h d d' \<and> (rem_Status a = StateAwaitingApproval \<longrightarrow> waiting (rem_ID a) (rem_ProposedBy a) d')"
proof -
  have nonempty: "rem_ID a \<noteq> []" using assms(2) by (simp add: admitted_def)
  have "\<exists>b d1. insert_remediation b d = Inr ((), d1) \<and> appended h (proposed_entry actor a) d1 d' \<and> rem_ID b = rem_ID a \<and>
      rem_Status b = rem_Status a \<and> rem_ActionType b = rem_ActionType a \<and> rem_ProposedBy b = rem_ProposedBy a"
    using assms(1) nonempty unfolding CreateRemediation_def by (auto split: if_splits dest!: tx) (intro exI conjI; assumption?; simp)+
  then obtain b d1 where ins: "insert_remediation b d = Inr ((), d1)" and e: "appended h (proposed_entry actor a) d1 d'"
    and b: "rem_ID b = rem_ID a" "rem_Status b = rem_Status a" "rem_ActionType b = rem_ActionType a" "rem_ProposedBy b = rem_ProposedBy a"
    by blast
  obtain r where r: "d1 = d\<lparr>remediation_actions := remediation_actions d @ [r]\<rparr>" "rem_ID r = rem_ID a" "rem_Status r = rem_Status a"
    "rem_ActionType r = rem_ActionType a" "rem_ProposedBy r = rem_ProposedBy a" "rem_ID r \<notin> rem_ID ` set (remediation_actions d)"
    "rem_IdempotencyKey r \<notin> rem_IdempotencyKey ` set (remediation_actions d)" using insert_remediation_Inr [OF ins] b by auto
  have "records (proposed_entry actor a) (rem_ID a) (rem_Status a)" by (simp add: proposed_entry_def)
  then have "control self loc h d d'" using r e assms(2)
    by (intro control.propose [of r d h "[proposed_entry actor a]"]) (auto simp: admitted_def)
  moreover have "remediation_actions d' = remediation_actions d @ [r]" using logged_tables [OF appended_logged [OF e]] r(1) by simp
  ultimately show ?thesis using r by (auto simp: waiting_def)
qed

lemma counts_follow [evo]:
  "evolves (follows self loc) (CountRecentSimilarRemediations i a g p)" "evolves (follows self loc) (CountFailedRemediations i a g p)"
  unfolding CountRecentSimilarRemediations_def CountFailedRemediations_def by (intro evo)+

lemma propose_new_follows:
  "guar (follows self loc) (control_ok self loc) (propose_new svc incident candidate parameters actor role) (\<lambda>_ _. True)"
proof -
  have final: "guar (follows self loc) (\<lambda>d. control_ok self loc d \<and> admitted a)
      (bind (InTx (bind (CreateRemediation a) (\<lambda>_. WriteTx (proposed_entry actor a)))) (\<lambda>_.
       if rem_Status a = StateAwaitingApproval then
         (case rs_approvals svc of
            None \<Rightarrow> fail approvals_unavailable
          | Some approvals \<Rightarrow> bind (RequestApproval approvals incident a) (\<lambda>_. ret a))
       else ret a)) (\<lambda>_ _. True)" for a
  proof (rule flow.guar_assume [where C = "admitted a"], simp, rule flow.guar_bind)
    assume a: "admitted a"
    show "guar (follows self loc) (\<lambda>d. control_ok self loc d \<and> admitted a) (InTx (bind (CreateRemediation a) (\<lambda>_. WriteTx (proposed_entry actor a))))
        (\<lambda>_ d. control_ok self loc d \<and> (rem_Status a = StateAwaitingApproval \<longrightarrow> waiting (rem_ID a) (rem_ProposedBy a) d))"
      by (rule flow.guar_InTx [OF stableI]) (auto simp: follows_def dest: propose_commits step_ok)
    show "guar (follows self loc) (\<lambda>d. control_ok self loc d \<and> (rem_Status a = StateAwaitingApproval \<longrightarrow> waiting (rem_ID a) (rem_ProposedBy a) d))
        (if rem_Status a = StateAwaitingApproval then
           (case rs_approvals svc of
              None \<Rightarrow> fail approvals_unavailable
            | Some approvals \<Rightarrow> bind (RequestApproval approvals incident a) (\<lambda>_. ret a))
         else ret a) (\<lambda>_ _. True)"
      by (intro flow.guar_if flow.guar_case_option flow.guar_fail flow.guar_bind [OF flow.guar_weaken [OF RequestApproval_follows]] flow.guar_ret) auto
  qed
  show ?thesis unfolding propose_new_def Let_def
    by (rule flow.guar_bind [OF flow.guar_frame [OF counts_follow(1) stable_ok]], rule flow.guar_bind [OF flow.guar_frame [OF counts_follow(2) stable_ok]],
        rule flow.guar_bind [OF flow.guar_NewID [where Q = "\<lambda>rid d. control_ok self loc d \<and> rid \<noteq> []"]], simp,
        rule flow.guar_bind [OF flow.guar_time_now], assumption,
        rule flow.guar_bind [OF flow.guar_asks [where Q = "\<lambda>a d. control_ok self loc d \<and> admitted a"] final])
       (auto intro: proposed_admitted)
qed

text \<open>A reader that has fetched a request still awaiting its decision knows its proposer.\<close>

definition awaited :: "remediation_action option \<Rightarrow> database \<Rightarrow> bool" where
  "awaited found d \<longleftrightarrow> (\<forall>r. found = Some r \<longrightarrow> rem_Status r = StateAwaitingApproval \<longrightarrow> waiting (rem_ID r) (rem_ProposedBy r) d)"

lemma first_of_sorted: "stable_sort lt (filter P xs) = r # rs \<Longrightarrow> r \<in> set xs"
  by (metis filter_is_subset list.set_intros(1) set_stable_sort subsetD)

lemma scan_awaited: "r \<in> set (remediation_actions d) \<Longrightarrow> awaited (Some (scanRemediation r)) d"
  by (auto simp: awaited_def waiting_def scanRemediation_def)

lemma FindActive_waiting:
  "guar (follows self loc) (control_ok self loc) (FindActiveRemediationByAction i a g p) (\<lambda>found d. control_ok self loc d \<and> awaited found d)"
  unfolding FindActiveRemediationByAction_def
  by (intro flow.guar_wrap_err flow.guar_query stable_ok)
     (auto split: list.splits intro: scan_awaited first_of_sorted simp: awaited_def [of None])

lemma propose_one_follows [evo]: "evolves (follows self loc) (propose_one svc incident actor role candidate)"
proof (rule evolves_ok)
  show "guar (follows self loc) (control_ok self loc) (propose_one svc incident actor role candidate) (\<lambda>_ _. True)"
    unfolding propose_one_def Let_def
    by (intro flow.guar_bind [OF FindActive_waiting] flow.guar_bind [where Q = "\<lambda>_ _. True"] flow.guar_case_option flow.guar_if
        flow.guar_ret flow.guar_weaken [OF RequestApproval_follows] flow.guar_weaken [OF propose_new_follows] flow.guar_evolves evo)
       (auto simp: awaited_def)
qed

lemma TransitionIncident_follows [evo]: "evolves (follows self loc) (TransitionIncident iid status)"
  unfolding TransitionIncident_def
  by (intro evo flow.evolves_sql follows_step control.aside)
     (auto simp: move_incident_def same_tables_def split: option.splits if_splits)

lemma Propose_follows: "evolves (follows self loc) (Propose svc incident candidates actor role)"
  unfolding Propose_def by (intro evo)

end
