(* ===== verification/Control_Helios.thy ===== *)
theory Control_Helios
  imports Control_Execution
begin

text \<open>
  The decisions reached through the remediation service and a pass of the Helios reconciler only take
  steps of the control machine. The pass handles its lost submissions one after the other in a single
  transaction, so it rests on each of them leaving the others alone.
\<close>

lemma Approve_follows:
  assumes "\<And>approvals. rs_approvals svc = Some approvals \<Longrightarrow> apAllowSelf approvals = self"
  shows "evolves (follows self loc) (Approve svc rid actor reason)" "evolves (follows self loc) (Reject svc rid actor reason)"
  unfolding Approve_def Reject_def using assms
  by (auto intro!: flow.evolves_bind flow.evolves_ret flow.evolves_fail DecideByRemediation_follows split: option.split)

section \<open>Settling workflows\<close>

lemma attempt_get_commits: "commits (attempt (GetRemediation rid)) h t d y d' \<Longrightarrow> d' = d"
  unfolding GetRemediation_def by (auto dest!: tx)

lemma record_settled_follows:
  assumes "status \<in> set [StateSucceeded, StateFailed, StateTimedOut]"
  shows "tx_evolves (follows self loc) (record_settled r final status action err)"
proof (rule tx_followsI, goal_cases)
  case (1 h t d x d')
  obtain d1 e where "commits (CompleteRemediation (rh_id r) status (Some final) err) h t d True d1" "appended h e d1 d'"
    "records e (rh_id r) status"
    using 1(2) unfolding record_settled_def
    by (auto split: if_splits dest!: commits_bind requireApplied_commits WriteTx_commits commits_ret attempt_get_commits)
  then show ?case using complete_step [OF _ _ 1(1) assms] by blast
qed

lemma settleHelios_follows [evo]: "tx_evolves (follows self loc) (settleHelios x r summary result)"
  unfolding settleHelios_def Let_def
  by (intro evo record_settled_follows flow.tx_keeps keep) auto

lemma settle_all_follows: "tx_evolves (follows self loc) (settle_all x rs result)"
proof (induction rs arbitrary: result)
  case (Cons r rs)
  have "keeps (attempt (getWorkflow x (rh_workflowID r)))" by (intro keep)
  then show ?case unfolding settle_all.simps by (intro flow.tx_bind flow.tx_case_sum settleHelios_follows Cons.IH flow.tx_keeps)
qed (auto intro: flow.tx_ret)

section \<open>Leaving the others alone\<close>

definition only :: "string \<Rightarrow> change" where
  "only rid h d d' \<longleftrightarrow> (\<forall>r \<in> set (remediation_actions d). rem_ID r \<noteq> rid \<longrightarrow> r \<in> set (remediation_actions d'))"

interpretation alone: evolution "only rid" for rid
  by unfold_locales (auto simp: only_def)

lemma alone_WriteTx: "tx_evolves (only rid) (WriteTx e)"
  unfolding tx_evolves_def by (auto simp: only_def dest!: WriteTx_commits appendedD)

lemma alone_applies:
  "(\<And>h t d ok d'. commits m h t d ok d' \<Longrightarrow> \<exists>ss g. applies rid ss g d ok d') \<Longrightarrow> tx_evolves (only rid) m"
  unfolding tx_evolves_def by (fastforce simp: applies_def only_def in_states_def set_update_rows)

lemma alone_moves:
  "tx_evolves (only rid) (ClaimRemediation rid)" "tx_evolves (only rid) (MarkRemediationRunning rid result)"
  "tx_evolves (only rid) (CompleteRemediation rid status result err)"
  by (auto intro!: alone_applies simp: store_moves dest!: applies_update)

lemma alone_applied: "tx_evolves (only rid) m \<Longrightarrow> tx_evolves (only rid) (requireApplied m)"
  unfolding tx_evolves_def by (auto dest!: requireApplied_commits)

lemmas alone_rules = alone.tx_bind alone.tx_ret alone.tx_fail alone.tx_if alone.tx_case_sum alone.tx_InTx
  alone_WriteTx alone_moves alone_applied

lemma alone_get: "tx_evolves (only rid) (attempt (GetRemediation other))"
  by (rule tx_evolvesI) (drule attempt_get_commits, simp add: alone.refl)

lemma alone_record: "rh_id r = rid \<Longrightarrow> tx_evolves (only rid) (record_settled r final status action err)"
  unfolding record_settled_def by (intro alone_rules alone_get; simp add: alone_moves)

lemma alone_settle: "rh_id r = rid \<Longrightarrow> tx_evolves (only rid) (settleHelios x r summary result)"
proof -
  assume "rh_id r = rid"
  moreover have "keeps (attempt (cancelWorkflow x (rh_workflowID r)))" by (intro keep)
  ultimately show ?thesis unfolding settleHelios_def Let_def by (intro alone_rules alone_record alone.tx_keeps)
qed

lemma alone_adopt: "tx_evolves (only rid) (adopt x rid found result)"
  unfolding adopt_def Let_def by (intro alone_rules alone_settle) simp

lemma alone_outcome: "rem_ID rem = rid \<Longrightarrow> tx_evolves (only rid) (applyQueuedOutcome svc rem outcome actor)"
  unfolding applyQueuedOutcome_def by (intro alone_rules; simp add: alone_moves)

section \<open>Recovering lost submissions\<close>

definition queued :: "string \<Rightarrow> database \<Rightarrow> bool" where
  "queued rid d \<longleftrightarrow> (\<exists>r \<in> set (remediation_actions d). rem_ID r = rid \<and> rem_Status r = StateQueued)"

lemma queued_stays: "only rid h d d' \<Longrightarrow> queued other d \<Longrightarrow> other \<noteq> rid \<Longrightarrow> queued other d'"
  by (auto simp: only_def queued_def)

lemma adopt_follows: "tx_evolves (follows self loc) (adopt x rid found result)"
proof (rule tx_followsI, goal_cases)
  case (1 h t d y d')
  then obtain e d1 d2 where "commits (MarkRemediationRunning rid (Some (adopted_result found))) h t d True d1" "appended h e d1 d2"
    and settle: "commits (settleHelios x \<lparr>rh_id = rid, rh_workflowID = hw_WorkflowID found, rh_result = adopted_result found, rh_overdue = False\<rparr>
      found (result\<lparr>hrAdopted := hrAdopted result @ [rid]\<rparr>)) h t d2 y d'"
    unfolding adopt_def Let_def by (auto dest!: commits_bind requireApplied_commits WriteTx_commits)
  then have step: "control self loc h d d2" using running_step [OF _ appended_logged 1(1)] by blast
  then have "follows self loc h d2 d'" using tx_evolvesD [OF settleHelios_follows settle] by blast
  then show ?case using step step_ok [OF step 1(1)] by (auto simp: follows_def)
qed

lemma cancel_lost_follows:
  assumes "control_ok self loc d" "queued rid d" "commits (CompleteRemediation rid StateCancelled None err) h t d True d1"
    and "appended h e d1 d'" "records e rid StateCancelled"
  shows "control self loc h d d'"
proof -
  let ?g = "\<lambda>r. r\<lparr>rem_Status := StateCancelled, rem_CompletedAt := Some t, rem_Result := stored_result None, rem_Error := err\<rparr>"
  have "applies rid [StateQueued, StateRunning] ?g d True d1"
    using assms(3) unfolding CompleteRemediation_def by (auto dest: tx)
  moreover obtain r where "r \<in> set (remediation_actions d)" "rem_ID r = rid" "rem_Status r = StateQueued"
    using assms(2) by (auto simp: queued_def)
  ultimately show ?thesis using assms(1,4,5)
    by (intro control.move [of r d rid StateCancelled "[StateQueued, StateRunning]" ?g "[]" loc h "[e]"])
       (auto simp: applies_def moves_def core_def control_ok_def keys_ok_def)
qed

lemma find_remediation_ID: "find_remediation rid d = Inr r \<Longrightarrow> rem_ID r = rid"
  by (auto simp: find_remediation_def scanRemediation_def split: option.splits dest!: find_SomeD)

text \<open>Handling one lost submission that is still queued.\<close>

lemma resubmit_follows:
  assumes "commits (resubmit svc x rid result) h t d y d'" "control_ok self loc d" "queued rid d"
  shows "follows self loc h d d' \<and> only rid h d d'"
proof -
  obtain rem incident where rem: "rem_ID rem = rid" and rest: "commits (if IsClosed (inc_Status incident) then
       bind (requireApplied (CompleteRemediation rid StateCancelled None lost_reason)) (\<lambda>_.
       bind (WriteTx ((remediation_entry [] ''system'' ''remediation.cancelled'' rid StateQueued)\<lparr>
               ent_AfterState := Some [(''status'', VStr StateCancelled), (''error'', VStr lost_reason)],
               ent_Metadata := Some [(''reconciled_by'', VStr ''helios_reconciler'')]\<rparr>)) (\<lambda>_.
       ret result))
     else
       bind (attempt (helios_execute x rem incident (rem_DryRun rem))) (\<lambda>r.
       case r of
         Inl _ \<Rightarrow> ret (result\<lparr>hrErrors := hrErrors result @ [rid]\<rparr>)
       | Inr outcome \<Rightarrow>
           bind (applyQueuedOutcome svc rem outcome ''system'') (\<lambda>_.
           ret (result\<lparr>hrResubmitted := hrResubmitted result @ [rid]\<rparr>)))) h t d y d'"
    using assms(1) unfolding resubmit_def GetRemediation_def GetIncident_def
    by (auto dest!: commits_bind commits_wrap_err commits_query find_remediation_ID)
  show ?thesis
  proof (cases "IsClosed (inc_Status incident)")
    case True
    have lone: "tx_evolves (only rid) (bind (requireApplied (CompleteRemediation rid StateCancelled None lost_reason)) (\<lambda>_. bind (WriteTx e) (\<lambda>_. ret result)))" for e
      by (intro alone_rules)
    have "only rid h d d'" using rest True by (simp, elim tx_evolvesD [OF lone])
    moreover have "control self loc h d d'" using rest True
      by (auto dest!: commits_bind requireApplied_commits WriteTx_commits commits_ret dest: cancel_lost_follows [OF assms(2,3)])
    ultimately show ?thesis by (auto simp: follows_def)
  next
    case False
    have flows: "tx_evolves (follows self loc) (bind (attempt (helios_execute x rem incident (rem_DryRun rem))) (\<lambda>r.
        case r of Inl _ \<Rightarrow> ret a | Inr outcome \<Rightarrow> bind (applyQueuedOutcome svc rem outcome ''system'') (\<lambda>_. ret b)))" for a b
      by (intro evo flow.tx_keeps keep)
    have lone: "tx_evolves (only rid) (bind (attempt (helios_execute x rem incident (rem_DryRun rem))) (\<lambda>r.
        case r of Inl _ \<Rightarrow> ret a | Inr outcome \<Rightarrow> bind (applyQueuedOutcome svc rem outcome ''system'') (\<lambda>_. ret b)))" for a b
      by (intro alone_rules alone_outcome alone.tx_keeps keep rem)
    show ?thesis using rest False by (simp, intro conjI; elim tx_evolvesD [OF flows] tx_evolvesD [OF lone])
  qed
qed

lemma recover_follows:
  assumes "commits (recover_all svc x rids result) h t d y d'" "control_ok self loc d" "distinct rids" "\<forall>rid \<in> set rids. queued rid d"
  shows "follows self loc h d d'"
  using assms
proof (induction rids arbitrary: result d)
  case Nil
  then show ?case by (auto simp: flow.refl dest!: commits_ret)
next
  case (Cons rid rids)
  have one: ?case if "follows self loc h d d1 \<and> only rid h d d1" "commits (recover_all svc x rids res) h t d1 y d'" for d1 res
  proof -
    have "control_ok self loc d1" using that(1) run_ok Cons.prems(2) by (auto simp: follows_def)
    moreover have "\<forall>other \<in> set rids. queued other d1"
      using that(1) Cons.prems(3,4) by (auto intro!: queued_stays [of rid h d d1])
    ultimately have "follows self loc h d1 d'" using Cons.IH [OF that(2)] Cons.prems(3) by simp
    then show ?thesis using that(1) flow.trans by blast
  qed
  have find: "keeps (attempt (findWorkflow x rid))" by (intro keep)
  obtain got d1 where first: "commits (attempt (findWorkflow x rid)) h t d got d1" and "commits (case got of
       Inl _ \<Rightarrow> recover_all svc x rids (result\<lparr>hrErrors := hrErrors result @ [rid]\<rparr>)
     | Inr (Some found) \<Rightarrow> bind (adopt x rid found result) (recover_all svc x rids)
     | Inr None \<Rightarrow> bind (resubmit svc x rid result) (recover_all svc x rids)) h t d1 y d'"
    using commits_bind [OF Cons.prems(1) [unfolded recover_all.simps]] by blast
  note got = this(2) [unfolded commits_keeps [OF first find]]
  show ?case
  proof (cases got)
    case (Inl e)
    then show ?thesis using got one [of d] by (auto simp: flow.refl only_def)
  next
    case (Inr found)
    obtain res d1 where first: "commits (case found of None \<Rightarrow> resubmit svc x rid result | Some w \<Rightarrow> adopt x rid w result) h t d res d1"
      and rest: "commits (recover_all svc x rids res) h t d1 y d'"
      using got Inr by (cases found) (auto dest!: commits_bind)
    have "follows self loc h d d1 \<and> only rid h d d1"
    proof (cases found)
      case None
      then show ?thesis using first resubmit_follows [OF _ Cons.prems(2)] Cons.prems(4) by simp
    next
      case (Some w)
      then show ?thesis using first tx_evolvesD [OF adopt_follows] tx_evolvesD [OF alone_adopt] by auto
    qed
    then show ?thesis using one rest by blast
  qed
qed

lemma lost_batch_queued: "rid \<in> set (lost_batch cfg t d) \<Longrightarrow> queued rid d"
  by (auto simp: lost_batch_def lost_submission_def queued_def dest!: in_set_takeD)

lemma lost_batch_distinct: "control_ok self loc d \<Longrightarrow> distinct (lost_batch cfg t d)"
  unfolding lost_batch_def take_map [symmetric]
  by (auto intro!: distinct_take simp: distinct_map_stable_sort distinct_map_filter control_ok_def keys_ok_def)

lemma recover_lost_follows [evo]: "tx_evolves (follows self loc) (recoverLostHeliosSubmissions svc x cfg result)"
proof (rule tx_evolvesI)
  fix h t d y d'
  assume "commits (recoverLostHeliosSubmissions svc x cfg result) h t d y d'"
  then have "commits (recover_all svc x (lost_batch cfg t d) result) h t d y d'"
    unfolding recoverLostHeliosSubmissions_def by (auto dest!: commits_bind commits_wrap_err commits_query)
  then show "follows self loc h d d'"
    using recover_follows lost_batch_queued lost_batch_distinct by (metis follows_def)
qed

lemma ReconcileHelios_follows: "evolves (follows self loc) (ReconcileHelios svc cfg locked)"
  unfolding ReconcileHelios_def Let_def settleRunningHelios_def
  by (cases "rs_exec svc") (auto intro!: flow.evolves_ret flow.evolves_InTx flow.tx_bind flow.tx_query flow.tx_if flow.tx_ret flow.tx_map_err
        settle_all_follows recover_lost_follows)

end
