(* ===== verification/Control_Workers.thy ===== *)
theory Control_Workers
  imports Control_Approvals Control_Execution Workers
begin

text \<open>
  The worker only takes steps of the control machine. A handler changes a target after it has claimed
  the job, and a job can be claimed only while it is queued or running, that is once it is authorised;
  from then on the authorisation cannot be lost, whatever other services do meanwhile.
\<close>

section \<open>What the worker knows of a job\<close>

definition held :: "remediation_action \<Rightarrow> database \<Rightarrow> bool" where
  "held rem d \<longleftrightarrow> (\<exists>r \<in> set (remediation_actions d). rem_ID r = rem_ID rem \<and>
     rem_IdempotencyKey r = rem_IdempotencyKey rem \<and> rem_ActionType r = rem_ActionType rem \<and> rem_Target r = rem_Target rem)"

definition cleared :: "bool \<Rightarrow> remediation_action \<Rightarrow> database \<Rightarrow> bool" where
  "cleared self rem d \<longleftrightarrow> (\<exists>r \<in> set (remediation_actions d). rem_IdempotencyKey r = rem_IdempotencyKey rem \<and>
     rem_ActionType r = rem_ActionType rem \<and> rem_Target r = rem_Target rem \<and> authorised self r d)"

lemma held_step: "control self loc h d d' \<Longrightarrow> held rem d \<Longrightarrow> held rem d'"
  by (auto simp: held_def core_fields dest!: remediation_stays)

lemma cleared_step:
  assumes "control self loc h d d'" "control_ok self loc d" "cleared self rem d" shows "cleared self rem d'"
proof -
  obtain r where r: "r \<in> set (remediation_actions d)" "rem_IdempotencyKey r = rem_IdempotencyKey rem" "rem_ActionType r = rem_ActionType rem"
    "rem_Target r = rem_Target rem" "authorised self r d" using assms(3) by (auto simp: cleared_def)
  obtain r' where r': "r' \<in> set (remediation_actions d')" "core r' = core r" using remediation_stays [OF assms(1) r(1)] by blast
  have "authorised self r' d'" by (rule authorised_core [OF r'(2) authorised_stays [OF assms(1) keys_of_ok [OF assms(2)] r(5)]])
  then show ?thesis using r' r(2-4) by (auto simp: cleared_def core_fields)
qed

lemmas stable_held = stableI [OF held_step]
  and stable_cleared = stableI [OF cleared_step]

lemma get_held:
  "guar (follows self loc) (control_ok self loc) (GetRemediation rid) (\<lambda>rem d. control_ok self loc d \<and> held rem d)"
  unfolding GetRemediation_def
  by (intro flow.guar_wrap_err flow.guar_query stable_ok)
     (auto simp: find_remediation_def held_def scanRemediation_def dest!: find_SomeD split: option.splits)

text \<open>A claimed job is authorised.\<close>

lemma claimed_cleared:
  assumes "control_ok self loc d" "held rem d" "affected (in_states (rem_ID rem) [StateQueued, StateRunning]) (remediation_actions d) = 1"
  shows "cleared self rem d"
proof -
  obtain r where r: "r \<in> set (remediation_actions d)" "in_states (rem_ID rem) [StateQueued, StateRunning] r"
    using affected_ex [of _ "remediation_actions d"] assms(3) by (metis zero_neq_one)
  obtain r' where r': "r' \<in> set (remediation_actions d)" "rem_ID r' = rem_ID rem" "rem_IdempotencyKey r' = rem_IdempotencyKey rem"
    "rem_ActionType r' = rem_ActionType rem" "rem_Target r' = rem_Target rem" using assms(2) by (auto simp: held_def)
  have "r' = r" using same_key [of rem_ID "remediation_actions d" r' r] r r' assms(1) by (auto simp: control_ok_def keys_ok_def in_states_def)
  then show ?thesis using r r' assms(1) by (auto simp: cleared_def control_ok_def approvals_ok_def in_states_def past_approval_def)
qed

lemma claim_clears:
  "guar (follows self loc) (\<lambda>d. control_ok self loc d \<and> held rem d) (ClaimRemediation (rem_ID rem))
     (\<lambda>ok d. control_ok self loc d \<and> (ok \<longrightarrow> cleared self rem d))"
proof -
  let ?Q = "\<lambda>n d. control_ok self loc d \<and> (n = 1 \<longrightarrow> cleared self rem d)"
  let ?s = "[StateQueued, StateRunning]"
  have "follows self loc h d (snd (update_remediation (rem_ID rem) ?s (started t) d)) \<and>
      ?Q (fst (update_remediation (rem_ID rem) ?s (started t) d)) (snd (update_remediation (rem_ID rem) ?s (started t) d))"
    if ok: "control_ok self loc d \<and> held rem d" for h t d
  proof (cases "affected (in_states (rem_ID rem) ?s) (remediation_actions d) = 1")
    case True
    then have step: "control self loc h d (snd (update_remediation (rem_ID rem) ?s (started t) d))"
      using ok by (intro applies_step [where es = "[]" and t = StateRunning, OF _ _ _ moves_to_running])
        (auto simp: applies_def update_remediation_def)
    then show ?thesis using ok step_ok cleared_step claimed_cleared True by (auto simp: follows_def)
  next
    case False
    then show ?thesis using ok not_applied [of self loc d "rem_ID rem" ?s] by (auto simp: update_remediation_def flow.refl)
  qed
  then show ?thesis unfolding ClaimRemediation_def affectedOne_def
    by (intro flow.guar_bind [OF flow.guar_wrap_err [OF flow.guar_exec [OF stable_held]]] flow.guar_ret) auto
qed

section \<open>Handlers\<close>

lemma upsert_state_Inr: "upsert_state resource target state t d = Inr (u, d') \<Longrightarrow> \<exists>ts. d' = d\<lparr>target_states := ts\<rparr>"
  by (auto simp: upsert_state_def split: option.splits if_splits)

lemma insert_receipt_Inr:
  "insert_receipt key action target result t d = Inr (u, d') \<Longrightarrow>
     \<exists>x. d' = d\<lparr>receipts := receipts d @ [x]\<rparr> \<and> rcp_IdempotencyKey x = key \<and> rcp_ActionType x = action \<and> rcp_Target x = target \<and>
       key \<notin> rcp_IdempotencyKey ` set (receipts d)"
  by (auto simp: insert_receipt_def list_ex_iff split: option.splits if_splits)

lemma currentState_commits [tx]: "commits (currentState resource target) h t d x d' \<Longrightarrow> d' = d"
  unfolding currentState_def decodeState_def by (auto split: sum.splits if_splits dest!: tx)

text \<open>An execution finds a receipt and changes nothing, or writes the target's state with a receipt.\<close>

lemma apply_commits:
  assumes "commits (apply_body key action resource target desired) h t d y d'"
  shows "d' = d \<or> (\<exists>ts x. d' = d\<lparr>target_states := ts, receipts := receipts d @ [x]\<rparr> \<and> rcp_IdempotencyKey x = key \<and>
    rcp_ActionType x = action \<and> rcp_Target x = target \<and> key \<notin> rcp_IdempotencyKey ` set (receipts d))"
  using assms unfolding apply_body_def Let_def
  by (auto split: sum.splits if_splits dest!: tx upsert_state_Inr insert_receipt_Inr)

lemma ApplyOnce_follows:
  assumes "rem_ActionType rem \<noteq> CollectDiagnostics"
  shows "guar (follows self loc) (\<lambda>d. control_ok self loc d \<and> cleared self rem d)
    (ApplyOnce (rem_IdempotencyKey rem) (rem_ActionType rem) resource (rem_Target rem) desired) (\<lambda>_ _. True)"
proof -
  have "follows self loc h d d'" if ok: "control_ok self loc d \<and> cleared self rem d"
    and run: "commits (apply_body (rem_IdempotencyKey rem) (rem_ActionType rem) resource (rem_Target rem) desired) h t d y d'" for h t d y d'
  proof -
    obtain r where r: "r \<in> set (remediation_actions d)" "rem_IdempotencyKey r = rem_IdempotencyKey rem"
      "rem_ActionType r = rem_ActionType rem" "rem_Target r = rem_Target rem" "authorised self r d" using ok by (auto simp: cleared_def)
    have "d' = d \<or> control self loc h d d'"
      using apply_commits [OF run] control.effect [of r d] r assms by (fastforce simp: backs_def)
    then show ?thesis by (auto simp: follows_def)
  qed
  then show ?thesis unfolding ApplyOnce_def
    by (intro flow.guar_bind [OF flow.guar_transaction_if [OF stable_cleared, where Q = "\<lambda>_ _. True"]] flow.guar_evolves evo) auto
qed

lemma Preview_follows: "evolves (follows self loc) (Preview resource target desired)"
  unfolding Preview_def currentState_def decodeState_def by (intro evo)

lemma typed_request: "validateTypedRequest state action req = None \<Longrightarrow> rem_ActionType req = action"
  by (auto simp: validateTypedRequest_def split: if_splits)

lemma handler_names: "(\<forall>a b. h \<noteq> StaticHandler a b) \<Longrightarrow> handler_name h \<noteq> CollectDiagnostics"
  by (cases h) (auto simp: handler_name_def RestartPod_def ResizeConnectionPool_def ToggleFeatureFlag_def PurgeCache_def CollectDiagnostics_def)

lemma handler_execute_follows:
  "guar (follows self loc) (\<lambda>d. control_ok self loc d \<and> cleared self rem d) (handler_execute h rem) (\<lambda>_ _. True)"
proof (cases "\<exists>a b. h = StaticHandler a b")
  case True
  then show ?thesis by (auto simp: handler_execute_def intro: flow.guar_ret)
next
  case False
  show ?thesis
  proof (cases "handler_validate h rem")
    case None
    then have "rem_ActionType rem = handler_name h" using False by (cases h) (auto simp: handler_validate_def dest: typed_request)
    moreover have "handler_name h \<noteq> CollectDiagnostics" using handler_names [of h] False by blast
    moreover have "handler_execute h rem = (case desired_state h rem of (resource, desired) \<Rightarrow>
        ApplyOnce (rem_IdempotencyKey rem) (handler_name h) resource (rem_Target rem) desired)"
      using None False by (cases h) (auto simp: handler_execute_def)
    ultimately show ?thesis using ApplyOnce_follows [of rem] by (simp split: prod.splits)
  next
    case (Some err)
    then show ?thesis using False by (cases h) (auto simp: handler_execute_def intro: flow.guar_fail)
  qed
qed

lemma handler_dry_run_follows [evo]: "evolves (follows self loc) (handler_dry_run h rem)"
  by (cases h; cases "desired_state h rem"; cases "handler_validate h rem")
     (auto simp: handler_dry_run_def intro!: flow.evolves_ret flow.evolves_fail Preview_follows)

section \<open>Messages\<close>

lemma worker_records: "records (worker_entry action rid ((''status'', VStr s) # m)) rid s"
  by (simp add: records_def worker_entry_def entry0_def map_any_def)

lemma finish_follows [evo]:
  assumes "status \<in> set [StateSucceeded, StateFailed, StateTimedOut]"
  shows "evolves (follows self loc) (finish rid status result err (worker_entry action rid ((''status'', VStr status) # m)))"
  unfolding finish_def
proof (rule flow.evolves_InTx, rule tx_followsI, goal_cases)
  case (1 h t d x d')
  then obtain ok d1 where up: "commits (CompleteRemediation rid status result err) h t d ok d1"
    and rest: "if ok then appended h (worker_entry action rid ((''status'', VStr status) # m)) d1 d' else d' = d1"
    by (auto split: if_splits dest!: commits_bind commits_ret WriteTx_commits)
  show ?case
  proof (cases ok)
    case True
    then show ?thesis using up rest complete_step [OF _ _ 1(1) assms worker_records] by auto
  next
    case False
    then have "d1 = d" using up 1(1) unfolding CompleteRemediation_def by (auto dest!: applies_update dest: applies_False)
    then show ?thesis using False rest by simp
  qed
qed

lemma retryLater_follows [evo]: "evolves (follows self loc) (retryLater r msg cause)" "evolves (follows self loc) (deadLetter msg reason)"
  unfolding retryLater_def deadLetter_def Let_def by (intro evo flow.evolves_keeps keep)+

lemma finish_or_retry_follows [evo]:
  assumes "status \<in> set [StateSucceeded, StateFailed, StateTimedOut]"
  shows "evolves (follows self loc) (finish_or_retry r msg rid status text (worker_entry action rid ((''status'', VStr status) # m)) err)"
  unfolding finish_or_retry_def by (intro evo assms)

lemma auditSkip_follows [evo]: "evolves (follows self loc) (auditSkip rid status)"
  unfolding auditSkip_def by (intro evo)

lemma after_run_follows [evo]: "evolves (follows self loc) (after_run r msg rem outcome)"
  by (cases outcome) (auto simp: after_run_def Let_def intro!: evo)

lemma runHandler_follows:
  "guar (follows self loc) (\<lambda>d. control_ok self loc d \<and> cleared self rem d) (runHandler r h rem) (\<lambda>_ _. True)"
  unfolding runHandler_def
  by (intro flow.guar_bind [OF flow.guar_time_now [where Q = "\<lambda>_ d. control_ok self loc d \<and> cleared self rem d"]]
        flow.guar_bind [OF flow.guar_weaken [OF flow.guar_attempt [OF flow.guar_if [OF flow.guar_evolves [OF handler_dry_run_follows] handler_execute_follows]],
          where Q' = "\<lambda>_ _. True"]] flow.guar_evolves evo) auto

lemma run_job_follows:
  "guar (follows self loc) (\<lambda>d. control_ok self loc d \<and> held rem d) (run_job r msg h rem) (\<lambda>_ _. True)"
  unfolding run_job_def Let_def
proof (rule flow.guar_case_option)
  show "guar (follows self loc) (\<lambda>d. control_ok self loc d \<and> held rem d)
     (bind (attempt (ClaimRemediation (rem_ID rem))) (\<lambda>c.
        case c of
          Inl err \<Rightarrow> retryLater r msg err
        | Inr claimed \<Rightarrow>
            if \<not> claimed then
              bind (attempt (GetRemediation (rem_ID rem))) (\<lambda>latest.
              bind (auditSkip (rem_ID rem) (case latest of Inr l \<Rightarrow> rem_Status l | Inl _ \<Rightarrow> ''unknown'')) (\<lambda>_. ret (Ack, None)))
            else bind (runHandler r h rem) (after_run r msg rem))) (\<lambda>_ _. True)"
    by (intro flow.guar_bind [OF flow.guar_attempt [OF claim_clears]] flow.guar_case_sum flow.guar_if
        flow.guar_bind [OF flow.guar_weaken [OF runHandler_follows, where Q' = "\<lambda>_ _. True"]] flow.guar_evolves evo) auto
qed (intro flow.guar_evolves evo, simp)

lemma handleMessage_follows: "evolves (follows self loc) (handleMessage r msg)"
proof (rule evolves_ok)
  show "guar (follows self loc) (control_ok self loc) (handleMessage r msg) (\<lambda>_ _. True)"
    unfolding handleMessage_def Let_def
    by (intro flow.guar_bind [OF flow.guar_attempt [OF get_held]] flow.guar_case_option flow.guar_case_sum flow.guar_if
        flow.guar_weaken [OF run_job_follows] flow.guar_evolves evo) auto
qed

lemma beat_follows: "evolves (follows self loc) (beat r workerID hostname)"
  unfolding beat_def UpsertWorkerHeartbeat_def
  by (intro evo flow.evolves_exec follows_step control.aside) (simp add: same_tables_def)

end
