(* ===== verification/Auth.thy ===== *)
theory Auth
  imports Evolution Documents
begin

text \<open>
  Authentication and permissions, \<^verbatim>\<open>src/internal/auth/auth.go\<close>: a bearer token is verified by the OIDC
  library, which is a parameter, and its claims are mapped to exactly one role. An authentication
  error is its reason. Roles and permissions are the strings the code declares.
\<close>

section \<open>Strings\<close>

text \<open>\<^verbatim>\<open>strings.Fields\<close>: the words between white space.\<close>

fun span_word :: "string \<Rightarrow> string \<times> string" where
  "span_word [] = ([], [])"
| "span_word (c # s) =
     (if space_prefix (c # s) > 0 then ([], c # s) else case span_word s of (w, r) \<Rightarrow> (c # w, r))"

lemma span_word_length: "length (snd (span_word s)) \<le> length s"
  by (induction s) (auto split: prod.splits)

lemma trim_left_stop: "trim_left s = [] \<or> space_prefix (trim_left s) = 0"
  by (induction s rule: trim_left.induct) (metis trim_left.simps)

lemma trim_left_length: "length (trim_left s) \<le> length s"
  by (induction s rule: trim_left.induct) (subst trim_left.simps, auto)

function split_fields :: "string \<Rightarrow> string list" where
  "split_fields s = (let t = trim_left s in if t = [] then [] else fst (span_word t) # split_fields (snd (span_word t)))"
  by pat_completeness auto
termination
proof (relation "measure length")
  fix s t assume "t = trim_left s" "t \<noteq> []"
  then obtain c r where r: "trim_left s = c # r" "space_prefix (c # r) = 0" using trim_left_stop [of s] by (metis neq_Nil_conv)
  then have "length (snd (span_word (c # r))) \<le> length r" using span_word_length [of r] by (simp add: case_prod_beta)
  then show "(snd (span_word t), s) \<in> measure length" using trim_left_length [of s] r \<open>t = trim_left s\<close> by simp
qed simp

declare split_fields.simps [simp del]

text \<open>\<^verbatim>\<open>strings.SplitN(s, "=", 2)\<close> where it finds the separator.\<close>

definition cut_eq :: "string \<Rightarrow> (string \<times> string) option" where
  "cut_eq s =
     (case dropWhile (\<lambda>c. c \<noteq> CHR ''='') s of [] \<Rightarrow> None | _ # r \<Rightarrow> Some (takeWhile (\<lambda>c. c \<noteq> CHR ''='') s, r))"

section \<open>Roles and permissions\<close>

definition RoleAdmin :: string where "RoleAdmin = ''admin''"
definition RoleOperator :: string where "RoleOperator = ''operator''"
definition RoleViewer :: string where "RoleViewer = ''viewer''"
definition RoleIngester :: string where "RoleIngester = ''ingester''"

definition PermissionView :: string where "PermissionView = ''view''"
definition PermissionIngestSignal :: string where "PermissionIngestSignal = ''ingest_signal''"
definition PermissionManageIncident :: string where "PermissionManageIncident = ''manage_incident''"
definition PermissionGenerateRCA :: string where "PermissionGenerateRCA = ''generate_rca''"
definition PermissionProposeRemediation :: string where "PermissionProposeRemediation = ''propose_remediation''"
definition PermissionApproveRemediation :: string where "PermissionApproveRemediation = ''approve_remediation''"
definition PermissionExecuteRemediation :: string where "PermissionExecuteRemediation = ''execute_remediation''"
definition PermissionViewAudit :: string where "PermissionViewAudit = ''view_audit''"
definition PermissionManageService :: string where "PermissionManageService = ''manage_service''"
definition PermissionReindexRunbook :: string where "PermissionReindexRunbook = ''reindex_runbook''"
definition PermissionManageDeadLetters :: string where "PermissionManageDeadLetters = ''manage_dead_letters''"

lemmas role_defs = RoleAdmin_def RoleOperator_def RoleViewer_def RoleIngester_def

lemmas permission_defs = PermissionView_def PermissionIngestSignal_def PermissionManageIncident_def PermissionGenerateRCA_def
  PermissionProposeRemediation_def PermissionApproveRemediation_def PermissionExecuteRemediation_def PermissionViewAudit_def
  PermissionManageService_def PermissionReindexRunbook_def PermissionManageDeadLetters_def

record principal =
  pr_ID :: string
  pr_Subject :: string
  pr_Issuer :: string
  pr_Email :: string
  pr_DisplayName :: string
  pr_Role :: string

definition permissionsByRole :: "(string \<times> string list) list" where
  "permissionsByRole =
     [(RoleViewer, [PermissionView]),
      (RoleIngester, [PermissionIngestSignal]),
      (RoleOperator,
       [PermissionView, PermissionIngestSignal, PermissionManageIncident, PermissionGenerateRCA, PermissionProposeRemediation,
        PermissionApproveRemediation, PermissionExecuteRemediation, PermissionReindexRunbook])]"

definition Can :: "principal \<Rightarrow> string \<Rightarrow> bool" where
  "Can p permission =
     (pr_Role p = RoleAdmin \<or>
      (case map_of permissionsByRole (pr_Role p) of None \<Rightarrow> False | Some allowed \<Rightarrow> permission \<in> set allowed))"

definition validRole :: "string \<Rightarrow> bool" where
  "validRole role \<longleftrightarrow> role \<in> set [RoleAdmin, RoleOperator, RoleViewer, RoleIngester]"

section \<open>Configuration\<close>

fun add_mappings :: "string list \<Rightarrow> string gomap \<Rightarrow> string + string gomap" where
  "add_mappings [] mappings = Inr mappings"
| "add_mappings (entry # entries) mappings =
     (case cut_eq (trim_space entry) of
        None \<Rightarrow> Inl (''invalid OIDC role mapping '' @ quote entry @ ''; want provider-role=argus-role'')
      | Some (x, y) \<Rightarrow>
          (let externalRole = trim_space x; argusRole = trim_space y in
           if externalRole = [] \<or> \<not> validRole argusRole then Inl (''invalid OIDC role mapping '' @ quote entry)
           else if map_of mappings externalRole \<noteq> None then Inl (''duplicate OIDC role mapping for '' @ quote externalRole)
           else add_mappings entries (map_set mappings externalRole argusRole)))"

definition parseRoleMappings :: "string \<Rightarrow> string + string gomap" where
  "parseRoleMappings raw =
     (if trim_space raw = [] then Inl ''ARGUS_OIDC_ROLE_MAPPINGS is required'' else add_mappings (split_on (CHR '','') raw) [])"

text \<open>A verified ID token; \<open>None\<close> stands for claims that cannot be decoded.\<close>

record id_token =
  tok_Issuer :: string
  tok_Subject :: string
  tok_IssuedAt :: int
  tok_Claims :: "gval gomap option"

type_synonym verifier = "nat \<Rightarrow> string \<Rightarrow> goerr + id_token"

record authenticator =
  au_verifier :: verifier
  au_roleClaimPath :: "string list"
  au_roleMappings :: "string gomap"
  au_emailClaim :: string
  au_displayNameClaim :: string

definition or_else :: "string \<Rightarrow> string \<Rightarrow> string" where
  "or_else s fallback = (if trim_space s = [] then fallback else trim_space s)"

definition newOIDCAuthenticator :: "verifier \<Rightarrow> string \<Rightarrow> string \<Rightarrow> string \<Rightarrow> string \<Rightarrow> string + authenticator" where
  "newOIDCAuthenticator v roleClaim roleMappings emailClaim displayNameClaim =
     (let path = split_on (CHR ''.'') (or_else roleClaim ''realm_access.roles'') in
      if list_ex (\<lambda>part. trim_space part = []) path
      then Inl (''invalid OIDC role claim path '' @ quote (or_else roleClaim ''realm_access.roles''))
      else case parseRoleMappings roleMappings of
        Inl err \<Rightarrow> Inl err
      | Inr mappings \<Rightarrow>
          Inr \<lparr>au_verifier = v, au_roleClaimPath = path, au_roleMappings = mappings,
               au_emailClaim = or_else emailClaim ''email'', au_displayNameClaim = or_else displayNameClaim ''preferred_username''\<rparr>)"

section \<open>Tokens\<close>

definition parseBearerToken :: "string \<Rightarrow> string option" where
  "parseBearerToken header =
     (case split_fields header of
        [scheme, token] \<Rightarrow> if equal_fold scheme ''Bearer'' \<and> token \<noteq> [] then Some token else None
      | _ \<Rightarrow> None)"

text \<open>The \<^verbatim>\<open>Authorization\<close> headers of the request; several count as none.\<close>

definition BearerToken :: "string list \<Rightarrow> string" where
  "BearerToken values = (case values of [v] \<Rightarrow> v | _ \<Rightarrow> [])"

fun claimAtPath :: "gval \<Rightarrow> string list \<Rightarrow> gval" where
  "claimAtPath current [] = current"
| "claimAtPath current (part # path) = (case current of VMap object \<Rightarrow> claimAtPath (map_any object part) path | _ \<Rightarrow> VNil)"

definition claimString :: "gval \<Rightarrow> (string \<times> bool)" where
  "claimString value = (case value of VStr s \<Rightarrow> (trim_space s, True) | _ \<Rightarrow> ([], False))"

definition nonempty_texts :: "string option list \<Rightarrow> (string list) option" where
  "nonempty_texts ts = (case all_some ts of None \<Rightarrow> None | Some xs \<Rightarrow> if xs = [] \<or> [] \<in> set xs then None else Some xs)"

definition claimStrings :: "gval \<Rightarrow> (string list) option" where
  "claimStrings value =
     (case value of
        VStr s \<Rightarrow> if trim_space s = [] then None else Some [trim_space s]
      | VList vs \<Rightarrow> nonempty_texts (map (\<lambda>v. case claimString v of (s, ok) \<Rightarrow> if ok then Some s else None) vs)
      | VStrs ss \<Rightarrow> nonempty_texts (map (\<lambda>s. Some (trim_space s)) ss)
      | _ \<Rightarrow> None)"

text \<open>The call to the OIDC library, which may fetch keys from the provider.\<close>

definition verify_token :: "authenticator \<Rightarrow> string \<Rightarrow> id_token prog" where
  "verify_token a raw = (\<lambda>e w. case tick e w of (s, w1) \<Rightarrow>
     (case ext_fault s of
        Fine \<Rightarrow> (au_verifier a (steps w) raw, w1)
      | Broken msg \<Rightarrow> (Inl (errorf msg), w1)
      | Lost msg \<Rightarrow> (Inl (errorf msg), w1)))"

definition mapped_roles :: "authenticator \<Rightarrow> string list \<Rightarrow> string list" where
  "mapped_roles a roleValues = remdups (List.map_filter (map_of (au_roleMappings a)) roleValues)"

definition principal_of :: "authenticator \<Rightarrow> id_token \<Rightarrow> gval gomap \<Rightarrow> string \<Rightarrow> principal" where
  "principal_of a token claims role =
     (let email = fst (claimString (map_any claims (au_emailClaim a)));
          name = fst (claimString (map_any claims (au_displayNameClaim a)));
          displayName = (if name \<noteq> [] then name else if email \<noteq> [] then email else tok_Subject token)
      in \<lparr>pr_ID = tok_Issuer token @ ''#'' @ tok_Subject token, pr_Subject = tok_Subject token, pr_Issuer = tok_Issuer token,
          pr_Email = email, pr_DisplayName = displayName, pr_Role = role\<rparr>)"

definition Authenticate :: "authenticator \<Rightarrow> string \<Rightarrow> (string + principal) prog" where
  "Authenticate a header =
     (case parseBearerToken header of
        None \<Rightarrow> ret (Inl ''missing_bearer_token'')
      | Some raw \<Rightarrow>
          bind (attempt (verify_token a raw)) (\<lambda>r.
          case r of
            Inl _ \<Rightarrow> ret (Inl ''invalid_token'')
          | Inr token \<Rightarrow>
              if trim_space (tok_Subject token) = [] then ret (Inl ''missing_subject'')
              else
                bind time_now (\<lambda>now.
                if tok_IssuedAt token \<noteq> zero_time \<and> tok_IssuedAt token > now + 5 * Minute then ret (Inl ''invalid_token'')
                else case tok_Claims token of
                  None \<Rightarrow> ret (Inl ''invalid_claims'')
                | Some claims \<Rightarrow>
                    (case claimStrings (claimAtPath (VMap claims) (au_roleClaimPath a)) of
                       None \<Rightarrow> ret (Inl ''missing_role_claim'')
                     | Some roleValues \<Rightarrow>
                         (case mapped_roles a roleValues of
                            [] \<Rightarrow> ret (Inl ''unmapped_role'')
                          | [role] \<Rightarrow> ret (Inr (principal_of a token claims role))
                          | _ \<Rightarrow> ret (Inl ''ambiguous_role''))))))"

section \<open>Who is authenticated\<close>

lemma add_mappings_valid:
  "add_mappings es ms = Inr ms' \<Longrightarrow> (\<And>k r. map_of ms k = Some r \<Longrightarrow> validRole r) \<Longrightarrow> map_of ms' k = Some r \<Longrightarrow> validRole r"
proof (induction es ms rule: add_mappings.induct)
  case (2 entry es ms)
  then obtain x y where c: "cut_eq (trim_space entry) = Some (x, y)" "validRole (trim_space y)"
    "add_mappings es (map_set ms (trim_space x) (trim_space y)) = Inr ms'" "\<not> (trim_space x = [] \<or> \<not> validRole (trim_space y))"
    "map_of ms (trim_space x) = None"
    by (auto simp: Let_def split: option.splits if_splits)
  show ?case
    by (rule "2.IH" [OF c(1) refl refl refl c(4) _ c(3) _ "2.prems"(3)]) (use c "2.prems"(2) in \<open>auto split: if_splits\<close>)
qed auto

lemma parsed_roles_valid:
  assumes "newOIDCAuthenticator v rc rm ec dc = Inr a" "map_of (au_roleMappings a) k = Some r"
  shows "validRole r"
proof -
  have "add_mappings (split_on (CHR '','') rm) [] = Inr (au_roleMappings a)"
    using assms(1) by (auto simp: newOIDCAuthenticator_def parseRoleMappings_def Let_def split: if_splits sum.splits)
  from add_mappings_valid [OF this _ assms(2)] show ?thesis by simp
qed

text \<open>What stands behind a principal: one bearer token that the OIDC library verified at that moment.\<close>

definition vouched :: "authenticator \<Rightarrow> string \<Rightarrow> nat \<Rightarrow> int \<Rightarrow> principal \<Rightarrow> bool" where
  "vouched a header step now p \<longleftrightarrow>
     (\<exists>raw token claims values.
        parseBearerToken header = Some raw \<and> au_verifier a step raw = Inr token \<and> trim_space (tok_Subject token) \<noteq> [] \<and>
        (tok_IssuedAt token = zero_time \<or> tok_IssuedAt token \<le> now + 5 * Minute) \<and> tok_Claims token = Some claims \<and>
        claimStrings (claimAtPath (VMap claims) (au_roleClaimPath a)) = Some values \<and>
        {r. \<exists>v \<in> set values. map_of (au_roleMappings a) v = Some r} = {pr_Role p} \<and>
        pr_Subject p = tok_Subject token \<and> pr_Issuer p = tok_Issuer token \<and> pr_ID p = tok_Issuer token @ ''#'' @ tok_Subject token)"

lemma set_mapped_roles: "set (mapped_roles a values) = {r. \<exists>v \<in> set values. map_of (au_roleMappings a) v = Some r}"
  by (force simp: mapped_roles_def map_filter_def)

lemma keeps_Authenticate [keep]: "keeps (Authenticate a header)"
proof -
  have "keeps (verify_token a raw)" for raw
    by (auto simp: keeps_def verify_token_def tick_def Let_def split: fault.splits)
  then show ?thesis unfolding Authenticate_def by (intro keep | auto intro!: keep split: option.splits sum.splits list.splits)+
qed

lemma Authenticate_vouched:
  "case Authenticate a header e w of
     (Inl err, _) \<Rightarrow> False
   | (Inr (Inl reason), _) \<Rightarrow> True
   | (Inr (Inr p), w') \<Rightarrow> vouched a header (steps w) (clock w') p"
proof (cases "parseBearerToken header")
  case None
  then show ?thesis by (simp add: Authenticate_def ret_def)
next
  case (Some raw)
  obtain s w1 where s: "tick e w = (s, w1)" by fastforce
  show ?thesis
  proof (cases "verify_token a raw e w")
    case (Pair r w2)
    then show ?thesis using Some s
      by (auto simp: Authenticate_def bind_def attempt_def ret_def time_now_def vouched_def verify_token_def principal_of_def Let_def
          set_mapped_roles [symmetric] split: sum.splits option.splits list.splits fault.splits if_splits)
  qed
qed

text \<open>
  C8: An identity is never assumed. Authentication always ends, changes nothing in the tables, and yields a
  principal only for one bearer token that the OIDC library verified in that very call, with a subject
  and an acceptable time of issue, whose role claim maps to exactly one role; the principal has that
  role, one of the four roles, and the identity of the token.
\<close>

theorem principals_are_verified:
  "case newOIDCAuthenticator v roleClaim roleMappings emailClaim displayNameClaim of
     Inl err \<Rightarrow> True
   | Inr a \<Rightarrow>
       (case Authenticate a header e w of
          (Inl err, _) \<Rightarrow> False
        | (Inr (Inl reason), w') \<Rightarrow> db w' = db w
        | (Inr (Inr p), w') \<Rightarrow> db w' = db w \<and> validRole (pr_Role p) \<and> vouched a header (steps w) (clock w') p)"
proof (cases "newOIDCAuthenticator v roleClaim roleMappings emailClaim displayNameClaim")
  case (Inr a)
  have "validRole (pr_Role p)" if "vouched a header n t p" for n t p
    using that parsed_roles_valid [OF Inr] unfolding vouched_def by blast
  moreover have "db (snd (Authenticate a header e w)) = db w" using keeps_Authenticate by (simp add: keeps_def)
  ultimately show ?thesis using Authenticate_vouched [where a = a and header = header and e = e and w = w] by (auto simp: Inr split: prod.splits sum.splits)
qed simp

end
