(* ===== verification/Slack.thy ===== *)
theory Slack
  imports Approvals Go_Strconv
begin

text \<open>
  Decisions from Slack, \<^verbatim>\<open>src/internal/approvals/slack.go\<close>: a callback is signed by Slack with a shared
  secret, its user is mapped to an Argus identity, a button opens a prompt for the reason, and the
  submitted prompt decides the request.

  The reason is the first non-blank input of the prompt; Go visits the inputs, which are in a map, in
  any order, so that the choice among several is an argument. Request headers are a list with
  canonical names.
\<close>

section \<open>Signatures\<close>

definition header_values :: "(string \<times> string) list \<Rightarrow> string \<Rightarrow> string list" where
  "header_values headers name = map snd (filter (\<lambda>(k, v). k = name) headers)"

definition header_get :: "(string \<times> string) list \<Rightarrow> string \<Rightarrow> string" where
  "header_get headers name = (case header_values headers name of [] \<Rightarrow> [] | v # _ \<Rightarrow> v)"

definition verifySlackSignature :: "(string \<Rightarrow> string) \<Rightarrow> string \<Rightarrow> (string \<times> string) list \<Rightarrow> string \<Rightarrow> int \<Rightarrow> string option" where
  "verifySlackSignature h secret headers body now =
     (let rawTimestamp = header_get headers ''X-Slack-Request-Timestamp'' in
      case parse_int64 rawTimestamp of
        None \<Rightarrow> Some ''invalid Slack request timestamp''
      | Some timestamp \<Rightarrow>
          (let delta = wrap64 (now div Second - timestamp) in
           if delta > 300 \<or> delta < -300 then Some ''Slack request timestamp is outside the replay window''
           else if header_get headers ''X-Slack-Signature'' \<noteq> ''v0='' @ hmac_sha256 h secret (''v0:'' @ rawTimestamp @ '':'' @ body)
           then Some ''invalid Slack request signature'' else None))"

section \<open>Forms\<close>

text \<open>\<^verbatim>\<open>url.QueryUnescape\<close> and \<^verbatim>\<open>url.ParseQuery\<close>; the code drops what was parsed when a pair is invalid.\<close>

fun query_unescape :: "string \<Rightarrow> string option" where
  "query_unescape [] = Some []"
| "query_unescape (c # s) =
     (if c = CHR ''%'' then
        (case s of
           a # b # r \<Rightarrow>
             (case (hex_val a, hex_val b) of
                (Some x, Some y) \<Rightarrow> map_option (Cons (char_of (16 * x + y))) (query_unescape r)
              | _ \<Rightarrow> None)
         | _ \<Rightarrow> None)
      else map_option (Cons (if c = CHR ''+'' then CHR '' '' else c)) (query_unescape s))"

definition parse_pair :: "string \<Rightarrow> (string \<times> string) option" where
  "parse_pair p =
     (if CHR '';'' \<in> set p then None
      else case (query_unescape (takeWhile (\<lambda>c. c \<noteq> CHR ''='') p), query_unescape (drop 1 (dropWhile (\<lambda>c. c \<noteq> CHR ''='') p))) of
        (Some k, Some v) \<Rightarrow> Some (k, v) | _ \<Rightarrow> None)"

definition ParseQuery :: "string \<Rightarrow> ((string \<times> string) list) option" where
  "ParseQuery body = all_some (map parse_pair (filter (\<lambda>p. p \<noteq> []) (split_on (CHR ''&'') body)))"

section \<open>Payloads\<close>

record slack_payload =
  sp_Type :: string
  sp_TriggerID :: string
  sp_UserID :: string
  sp_Actions :: "string list"
  sp_PrivateMetadata :: string
  sp_Values :: "string list"

text \<open>A nested struct: \<^verbatim>\<open>null\<close> or nothing leaves it zero.\<close>

definition struct_of :: "gval \<Rightarrow> (gval gomap) option" where
  "struct_of v = (case v of VNil \<Rightarrow> Some [] | VMap m \<Rightarrow> Some m | _ \<Rightarrow> None)"

definition list_of :: "gval \<Rightarrow> (gval list) option" where
  "list_of v = (case v of VNil \<Rightarrow> Some [] | VList vs \<Rightarrow> Some vs | _ \<Rightarrow> None)"

definition value_field :: "gval \<Rightarrow> string option" where
  "value_field v = Option.bind (struct_of v) (\<lambda>m. string_field m ''value'')"

text \<open>The inputs of all blocks of the prompt.\<close>

definition decode_values :: "gval \<Rightarrow> (string list) option" where
  "decode_values v =
     Option.bind (struct_of v) (\<lambda>blocks.
     map_option concat (all_some (map (\<lambda>(_, b). Option.bind (struct_of b) (\<lambda>inputs. all_some (map (\<lambda>(_, i). value_field i) inputs))) blocks)))"

definition decode_payload :: "string \<Rightarrow> slack_payload option" where
  "decode_payload text =
     Option.bind (Option.bind (json_unmarshal text) struct_of) (\<lambda>m.
     Option.bind (struct_of (member m ''user'')) (\<lambda>user.
     Option.bind (Option.bind (list_of (member m ''actions'')) (\<lambda>vs. all_some (map value_field vs))) (\<lambda>actions.
     Option.bind (struct_of (member m ''view'')) (\<lambda>view.
     Option.bind (struct_of (member view ''state'')) (\<lambda>state.
     case (string_field m ''type'', string_field m ''trigger_id'', string_field user ''id'', string_field view ''private_metadata'',
           decode_values (member state ''values'')) of
       (Some ty, Some trigger, Some uid, Some metadata, Some inputs) \<Rightarrow>
         Some \<lparr>sp_Type = ty, sp_TriggerID = trigger, sp_UserID = uid, sp_Actions = actions, sp_PrivateMetadata = metadata,
               sp_Values = inputs\<rparr>
     | _ \<Rightarrow> None)))))"

definition decode_action_value :: "string \<Rightarrow> slack_action_value option" where
  "decode_action_value text =
     Option.bind (Option.bind (json_unmarshal text) struct_of) (\<lambda>m.
     case (string_field m ''approval_id'', string_field m ''decision'') of
       (Some a, Some d) \<Rightarrow> Some \<lparr>sv_ApprovalID = a, sv_Decision = d\<rparr> | _ \<Rightarrow> None)"

definition payload_reason :: "nat \<Rightarrow> slack_payload \<Rightarrow> string" where
  "payload_reason pick p =
     (let rs = filter (\<lambda>s. s \<noteq> []) (map trim_space (sp_Values p)) in if rs = [] then [] else rs ! (pick mod length rs))"

section \<open>The workflow\<close>

record slack_workflow =
  sw_signingSecret :: string
  sw_botToken :: string
  sw_approvers :: "string gomap"

fun add_approvers :: "string list \<Rightarrow> string gomap \<Rightarrow> string + string gomap" where
  "add_approvers [] approvers = Inr approvers"
| "add_approvers (item # items) approvers =
     (if trim_space item = [] then add_approvers items approvers
      else
        (let entry = trim_space item; k = trim_space (takeWhile (\<lambda>c. c \<noteq> CHR ''='') entry);
             v = trim_space (drop 1 (dropWhile (\<lambda>c. c \<noteq> CHR ''='') entry)) in
         if CHR ''='' \<notin> set entry \<or> k = [] \<or> v = [] then Inl ''Slack approvers must use SLACK_USER_ID=argus-identity entries''
         else add_approvers items (map_set approvers k v)))"

definition parseSlackApprovers :: "string \<Rightarrow> string + string gomap" where
  "parseSlackApprovers raw = add_approvers (split_on (CHR '','') raw) []"

definition NewSlackWorkflow :: "string \<Rightarrow> string \<Rightarrow> string \<Rightarrow> string + slack_workflow" where
  "NewSlackWorkflow signingSecret botToken rawApprovers =
     map_sum (\<lambda>err. err) (\<lambda>approvers.
       \<lparr>sw_signingSecret = trim_space signingSecret, sw_botToken = trim_space botToken, sw_approvers = approvers\<rparr>)
       (parseSlackApprovers rawApprovers)"

definition SlackEnabled :: "slack_workflow \<Rightarrow> bool" where
  "SlackEnabled s \<longleftrightarrow> sw_signingSecret s \<noteq> [] \<and> sw_botToken s \<noteq> [] \<and> sw_approvers s \<noteq> []"

definition plain_text :: "string \<Rightarrow> gval" where
  "plain_text s = VStrMap [(''type'', ''plain_text''), (''text'', s)]"

definition reason_modal :: "string \<Rightarrow> slack_action_value \<Rightarrow> gval" where
  "reason_modal triggerID value =
     (let deny = (sv_Decision value = DecisionDeny);
          metadata = action_value_json value
      in VMap
        [(''trigger_id'', VStr triggerID),
         (''view'', VMap
           [(''type'', VStr ''modal''), (''callback_id'', VStr ''argus_approval_decision''), (''private_metadata'', VStr metadata),
            (''title'', plain_text (if deny then ''Deny remediation'' else ''Approve remediation'')),
            (''submit'', plain_text (if deny then ''Deny'' else ''Approve'')), (''close'', plain_text ''Cancel''),
            (''blocks'', VList [VMap
              [(''type'', VStr ''input''), (''block_id'', VStr ''decision_reason''), (''label'', plain_text ''Reason''),
               (''element'', VMap
                 [(''type'', VStr ''plain_text_input''), (''action_id'', VStr ''reason''), (''multiline'', VBool True),
                  (''min_length'', VInt 8), (''max_length'', VInt 500),
                  (''placeholder'', plain_text ''What evidence did you review, and why is this decision safe?'')])]])])])"

text \<open>The answer of Slack: whether it is fine, and its error text.\<close>

definition modal_result :: "string \<Rightarrow> bool \<times> string" where
  "modal_result raw =
     (case Option.bind (json_unmarshal raw) struct_of of
        None \<Rightarrow> (False, [])
      | Some m \<Rightarrow>
          (let err = (case string_field m ''error'' of None \<Rightarrow> [] | Some s \<Rightarrow> s) in
           (member m ''ok'' = VBool True \<and> string_field m ''error'' \<noteq> None, err)))"

definition openReasonModal :: "slack_workflow \<Rightarrow> string \<Rightarrow> slack_action_value \<Rightarrow> unit prog" where
  "openReasonModal s triggerID value =
     bind (wrap_err ''open Slack approval modal'' (http_do
       \<lparr>hr_Method = ''POST'', hr_URL = ''https://slack.com/api/views.open'',
        hr_Headers = [(''Authorization'', ''Bearer '' @ sw_botToken s), (''Content-Type'', ''application/json'')],
        hr_Body = (case json_enc (reason_modal triggerID value) of None \<Rightarrow> [] | Some b \<Rightarrow> b)\<rparr>)) (\<lambda>response.
     let (ok, err) = modal_result (take 2048 (hs_Body response)) in
     if hs_StatusCode response < 200 \<or> hs_StatusCode response \<ge> 300 \<or> \<not> ok
     then fail (errorf (''Slack rejected approval modal: '' @ err)) else ret ())"

text \<open>A callback that Slack signed recently, from a user who may approve: the payload and the identity.\<close>

definition slack_sender :: "slack_workflow \<Rightarrow> (string \<Rightarrow> string) \<Rightarrow> (string \<times> string) list \<Rightarrow> string \<Rightarrow> int \<Rightarrow> string + slack_payload \<times> string" where
  "slack_sender s h headers body now =
     (if \<not> SlackEnabled s then Inl ''Slack approval callbacks are not configured''
      else case verifySlackSignature h (sw_signingSecret s) headers body now of
        Some err \<Rightarrow> Inl err
      | None \<Rightarrow>
          (case ParseQuery body of
             None \<Rightarrow> Inl ''invalid Slack callback body''
           | Some values \<Rightarrow>
               (case decode_payload (header_get values ''payload'') of
                  None \<Rightarrow> Inl ''invalid Slack callback payload''
                | Some payload \<Rightarrow>
                    (case map_of (sw_approvers s) (sp_UserID payload) of
                       None \<Rightarrow> Inl ''Slack user is not an authorized Argus approver''
                     | Some actor \<Rightarrow> Inr (payload, actor)))))"

definition slack_action :: "slack_workflow \<Rightarrow> slack_payload \<Rightarrow> (gval gomap) prog" where
  "slack_action s payload =
     (if length (sp_Actions payload) \<noteq> 1 \<or> sp_TriggerID payload = [] then fail (errorf ''invalid Slack approval action'')
      else case decode_action_value (hd (sp_Actions payload)) of
        None \<Rightarrow> fail (errorf ''invalid Slack approval action'')
      | Some value \<Rightarrow>
          if sv_ApprovalID value = [] \<or> (sv_Decision value \<noteq> DecisionApprove \<and> sv_Decision value \<noteq> DecisionDeny)
          then fail (errorf ''invalid Slack approval action'')
          else
            bind (openReasonModal s (sp_TriggerID payload) value) (\<lambda>_.
            ret [(''response_type'', VStr ''ephemeral''),
                 (''text'', VStr ''Argus opened a reason prompt. The remediation remains blocked until it is submitted.'')]))"

definition slack_submission :: "approval_service \<Rightarrow> nat \<Rightarrow> slack_payload \<Rightarrow> string \<Rightarrow> (gval gomap) prog" where
  "slack_submission svc pick payload actor =
     (case decode_action_value (sp_PrivateMetadata payload) of
        None \<Rightarrow> fail (errorf ''invalid Slack approval metadata'')
      | Some value \<Rightarrow>
          bind (Decide svc (sv_ApprovalID value) actor ''slack_user'' (sv_Decision value) (payload_reason pick payload) ''slack'') (\<lambda>request.
          ret [(''response_action'', VStr ''clear''), (''approval_id'', VStr (req_ID request)), (''status'', VStr (req_Status request)),
               (''decided_by'', VStr actor)]))"

definition SlackHandle :: "slack_workflow \<Rightarrow> approval_service \<Rightarrow> nat \<Rightarrow> (string \<times> string) list \<Rightarrow> string \<Rightarrow> (gval gomap) prog" where
  "SlackHandle s svc pick headers body =
     bind time_now (\<lambda>now.
     bind (asks (\<lambda>e. case slack_sender s (sha256 e) headers body now of Inl err \<Rightarrow> Inl (errorf err) | Inr x \<Rightarrow> Inr x)) (\<lambda>(payload, actor).
     if sp_Type payload = ''block_actions'' then slack_action s payload
     else if sp_Type payload = ''view_submission'' then slack_submission svc pick payload actor
     else fail (errorf ''unsupported Slack callback type'')))"

section \<open>Only authentic callbacks count\<close>

lemma slack_sender_Inr:
  assumes "slack_sender s h headers body now = Inr (payload, actor)"
  shows "SlackEnabled s" "map_of (sw_approvers s) (sp_UserID payload) = Some actor"
    and "header_get headers ''X-Slack-Signature'' =
      ''v0='' @ hmac_sha256 h (sw_signingSecret s) (''v0:'' @ header_get headers ''X-Slack-Request-Timestamp'' @ '':'' @ body)"
    and "\<exists>t. parse_int64 (header_get headers ''X-Slack-Request-Timestamp'') = Some t \<and> abs (wrap64 (now div Second - t)) \<le> 300"
  using assms by (auto simp: slack_sender_def verifySlackSignature_def Let_def split: if_splits option.splits)

lemma keeps_slack_action: "keeps (slack_action s payload)"
  unfolding slack_action_def openReasonModal_def case_prod_beta Let_def by (auto intro!: keep split: option.splits)


end
