(* ===== verification/Dead_Letters.thy ===== *)
theory Dead_Letters
  imports Workers Json_Roundtrip
begin

text \<open>
  Dead letters, \<^verbatim>\<open>src/internal/queue/deadletters.go\<close>: listing, reading and deleting what the workers and
  JetStream left in the dead-letter stream, and finding the remediation a dead letter belongs to.
  JetStream holds a message until it is deleted or older than the stream keeps messages; its first
  sequence is that of the oldest message it holds, its last that of the newest it ever took.
\<close>

section \<open>Messages in the streams\<close>

text \<open>\<^verbatim>\<open>json.Marshal\<close> of an event; \<^verbatim>\<open>Publish\<close> has refused a payload that cannot be encoded.\<close>

definition event_json :: "event \<Rightarrow> string" where
  "event_json ev = json_object
     ([(''event_id'', json_string (EventID ev)), (''event_type'', json_string (EventType ev)),
       (''occurred_at'', json_time (OccurredAt ev)), (''producer'', json_string (Producer ev))] @
      omit_empty ''trace_id'' (TraceID ev) @ omit_empty ''idempotency_key'' (EvIdempotencyKey ev) @
      [(''payload'', case json_enc (VMap (Payload ev)) of None \<Rightarrow> [] | Some s \<Rightarrow> s)])"

definition live_letters :: "world \<Rightarrow> dead_msg list" where
  "live_letters w = filter (\<lambda>m. clock w - dm_Time m < DeadLetterRetention) (dead_letters w)"

definition stored_at :: "string \<Rightarrow> int \<Rightarrow> world \<Rightarrow> dead_msg option" where
  "stored_at name seq w =
     (if name = DeadLetterStream then find (\<lambda>m. dm_Sequence m = seq) (live_letters w)
      else if name = RemediationStream \<and> 0 < seq \<and> nat seq \<le> length (stream w) then
        (case stream w ! nat (seq - 1) of (t, subject, ev) \<Rightarrow>
           if clock w - t < RemediationRetention
           then Some \<lparr>dm_Sequence = seq, dm_Time = t, dm_Subject = subject, dm_Header = [(''Nats-Msg-Id'', EventID ev)], dm_Data = event_json ev\<rparr>
           else None)
      else None)"

text \<open>\<^verbatim>\<open>js.GetMsg\<close>: \<open>None\<close> is \<^verbatim>\<open>nats.ErrMsgNotFound\<close>.\<close>

definition GetMsg :: "string \<Rightarrow> int \<Rightarrow> (dead_msg option) prog" where
  "GetMsg name seq = (\<lambda>e w. case tick e w of (s, w1) \<Rightarrow>
     (case ext_fault s of
        Fine \<Rightarrow> (Inr (stored_at name seq w1), w1)
      | Broken err \<Rightarrow> (Inl (errorf err), w1)
      | Lost err \<Rightarrow> (Inl (errorf err), w1)))"

text \<open>\<^verbatim>\<open>js.DeleteMsg\<close>: whether the message was there.\<close>

definition remove_letter :: "int \<Rightarrow> world \<Rightarrow> world" where
  "remove_letter seq w = w\<lparr>dead_letters := filter (\<lambda>m. dm_Sequence m \<noteq> seq) (dead_letters w)\<rparr>"

definition DeleteMsg :: "int \<Rightarrow> bool prog" where
  "DeleteMsg seq = (\<lambda>e w. case tick e w of (s, w1) \<Rightarrow>
     (case ext_fault s of
        Fine \<Rightarrow> (Inr (stored_at DeadLetterStream seq w1 \<noteq> None), remove_letter seq w1)
      | Broken err \<Rightarrow> (Inl (errorf err), w1)
      | Lost err \<Rightarrow> (Inl (errorf err), remove_letter seq w1)))"

text \<open>\<^verbatim>\<open>js.StreamInfo\<close>: how many messages there are, the first sequence and the last.\<close>

definition StreamState :: "(nat \<times> int \<times> int) prog" where
  "StreamState = (\<lambda>e w. case tick e w of (s, w1) \<Rightarrow>
     (case ext_fault s of
        Fine \<Rightarrow> (Inr (length (live_letters w1),
                   foldl (\<lambda>n m. min n (dm_Sequence m)) (dead_count w1 + 1) (live_letters w1), dead_count w1), w1)
      | Broken err \<Rightarrow> (Inl (errorf err), w1)
      | Lost err \<Rightarrow> (Inl (errorf err), w1)))"

lemma keeps_streams [keep]: "keeps (GetMsg name seq)" "keeps (DeleteMsg seq)" "keeps StreamState"
  by (simp_all add: keeps_def GetMsg_def DeleteMsg_def StreamState_def remove_letter_def case_prod_beta split: fault.split)

section \<open>Reading\<close>

definition max_uint64 :: int where "max_uint64 = 2 ^ 64 - 1"

text \<open>\<^verbatim>\<open>strconv.ParseUint(s, 10, 64)\<close>: the value, and whether there is no error; out of range the largest.\<close>

definition ParseUint :: "string \<Rightarrow> int \<times> bool" where
  "ParseUint s =
     (if s = [] \<or> \<not> list_all is_digit s then (0, False)
      else if digits_val s > max_uint64 then (max_uint64, False) else (digits_val s, True))"

text \<open>A \<^verbatim>\<open>uint64\<close> field: anything else leaves it zero, and the code ignores the error.\<close>

definition uint_field :: "gval gomap \<Rightarrow> string \<Rightarrow> int" where
  "uint_field m k = (case member m k of VNumber s \<Rightarrow> if snd (ParseUint s) then fst (ParseUint s) else 0 | _ \<Rightarrow> 0)"

definition text_field :: "gval gomap \<Rightarrow> string \<Rightarrow> string" where
  "text_field m k = (case member m k of VStr s \<Rightarrow> s | _ \<Rightarrow> [])"

definition DeadLetterJob :: string where "DeadLetterJob = ''job''"
definition DeadLetterAdvisory :: string where "DeadLetterAdvisory = ''max_deliveries_advisory''"

record dead_letter =
  dl_Sequence :: int
  dl_Kind :: string
  dl_Reason :: string
  dl_ReceivedAt :: int
  dl_OriginalStream :: string
  dl_OriginalSequence :: int
  dl_Deliveries :: int
  dl_RemediationID :: string
  dl_Data :: string

definition maxScan :: nat where "maxScan = 10000"

definition dead_letter_missing :: "int \<Rightarrow> goerr" where
  "dead_letter_missing seq = GoErr (''dead letter not found: sequence '' @ show_int seq) (Some ErrDeadLetterGone)"

definition remediationID :: "string \<Rightarrow> string" where
  "remediationID data = (case decode_event data of None \<Rightarrow> [] | Some event \<Rightarrow> payload_id event)"

definition letter_data :: "string \<Rightarrow> string" where
  "letter_data data = (if json_unmarshal data = None then json_string data else data)"

definition advisory_letter :: "dead_msg \<Rightarrow> dead_letter" where
  "advisory_letter msg =
     (let advisory = (case json_unmarshal (dm_Data msg) of Some (VMap m) \<Rightarrow> m | _ \<Rightarrow> [])
      in \<lparr>dl_Sequence = dm_Sequence msg, dl_Kind = DeadLetterAdvisory, dl_Reason = ''max_deliveries'', dl_ReceivedAt = dm_Time msg,
          dl_OriginalStream = text_field advisory ''stream'', dl_OriginalSequence = uint_field advisory ''stream_seq'',
          dl_Deliveries = uint_field advisory ''deliveries'', dl_RemediationID = [], dl_Data = letter_data (dm_Data msg)\<rparr>)"

definition job_letter :: "dead_msg \<Rightarrow> dead_letter" where
  "job_letter msg =
     \<lparr>dl_Sequence = dm_Sequence msg, dl_Kind = DeadLetterJob, dl_Reason = map_str (dm_Header msg) ''Argus-Dead-Letter-Reason'',
      dl_ReceivedAt = dm_Time msg, dl_OriginalStream = map_str (dm_Header msg) ''Argus-Original-Stream'',
      dl_OriginalSequence = fst (ParseUint (map_str (dm_Header msg) ''Argus-Stream-Sequence'')),
      dl_Deliveries = fst (ParseUint (map_str (dm_Header msg) ''Argus-Deliveries'')),
      dl_RemediationID = remediationID (dm_Data msg), dl_Data = letter_data (dm_Data msg)\<rparr>"

definition GetDeadLetter :: "int \<Rightarrow> dead_letter prog" where
  "GetDeadLetter seq =
     bind (wrap_err (''read dead letter '' @ show_int seq) (GetMsg DeadLetterStream seq)) (\<lambda>found.
     case found of
       None \<Rightarrow> fail (dead_letter_missing seq)
     | Some msg \<Rightarrow>
         if has_prefix (dm_Subject msg) ''$JS.EVENT.ADVISORY.'' then
           (let letter = advisory_letter msg in
            if dl_OriginalStream letter \<noteq> [] \<and> 0 < dl_OriginalSequence letter then
              bind (attempt (GetMsg (dl_OriginalStream letter) (dl_OriginalSequence letter))) (\<lambda>original.
              case original of
                Inr (Some job) \<Rightarrow> ret (letter\<lparr>dl_RemediationID := remediationID (dm_Data job)\<rparr>)
              | _ \<Rightarrow> ret letter)
            else ret letter)
         else ret (job_letter msg))"

text \<open>The scan of a listing: how many sequences it may still look at, and how many letters it still wants.\<close>

fun scan_letters :: "nat \<Rightarrow> int \<Rightarrow> int \<Rightarrow> int \<Rightarrow> (dead_letter list) prog" where
  "scan_letters 0 seq lastSeq wanted = ret []"
| "scan_letters (Suc n) seq lastSeq wanted =
     (if seq \<le> lastSeq \<and> 0 < wanted then
        bind (attempt (GetDeadLetter seq)) (\<lambda>got.
        case got of
          Inl err \<Rightarrow> if err_is err = Some ErrDeadLetterGone then scan_letters n (seq + 1) lastSeq wanted else fail err
        | Inr letter \<Rightarrow> bind (scan_letters n (seq + 1) lastSeq (wanted - 1)) (\<lambda>rest. ret (letter # rest)))
      else ret [])"

definition ListDeadLetters :: "int \<Rightarrow> (dead_letter list) prog" where
  "ListDeadLetters limit =
     bind (wrap_err ''inspect dead-letter stream'' StreamState) (\<lambda>(msgs, firstSeq, lastSeq).
     if msgs = 0 then ret [] else scan_letters maxScan firstSeq lastSeq limit)"

definition DeleteDeadLetter :: "int \<Rightarrow> unit prog" where
  "DeleteDeadLetter seq =
     bind (wrap_err (''delete dead letter '' @ show_int seq) (DeleteMsg seq)) (\<lambda>there.
     if there then ret () else fail (dead_letter_missing seq))"

lemma keeps_GetDeadLetter [keep]: "keeps (GetDeadLetter seq)"
  unfolding GetDeadLetter_def Let_def by (intro keep)

lemma keeps_scan [keep]: "keeps (scan_letters n seq lastSeq wanted)"
  by (induction n arbitrary: seq wanted) (auto intro!: keep)

lemma keeps_ListDeadLetters [keep]: "keeps (ListDeadLetters limit)"
  unfolding ListDeadLetters_def case_prod_beta by (intro keep)

lemma keeps_DeleteDeadLetter [keep]: "keeps (DeleteDeadLetter seq)"
  unfolding DeleteDeadLetter_def by (intro keep)

section \<open>A dead letter can be found again\<close>

lemma digits_val_snoc: "digits_val (s @ [c]) = 10 * digits_val s + (of_char c - 48)"
  by (simp add: digits_val_def)

lemma show_pos_val: "0 \<le> n \<Longrightarrow> digits_val (show_pos n) = n"
proof (induction n rule: show_pos.induct)
  case (1 n)
  show ?case
  proof (cases "n < 10")
    case True
    then show ?thesis using "1.prems" by (subst show_pos.simps) (auto simp: digits_val_def digit_char_def)
  next
    case False
    then have "digits_val (show_pos (n div 10)) = n div 10" using 1 by simp
    then show ?thesis using False "1.prems" by (subst show_pos.simps) (simp add: digits_val_snoc digit_char_def)
  qed
qed

lemma ParseUint_show: "0 \<le> n \<Longrightarrow> n \<le> max_uint64 \<Longrightarrow> ParseUint (show_int n) = (n, True)"
  using show_pos_digits [of n] show_pos_val [of n] by (simp add: ParseUint_def show_int_def)

text \<open>The stream numbers its messages: no sequence twice, and none above the count.\<close>

definition letters_ok :: "world \<Rightarrow> bool" where
  "letters_ok w \<longleftrightarrow> distinct (map dm_Sequence (dead_letters w)) \<and> list_all (\<lambda>m. dm_Sequence m \<le> dead_count w) (dead_letters w)"

definition unseen :: "js_msg \<Rightarrow> world \<Rightarrow> bool" where
  "unseen msg w \<longleftrightarrow> \<not> (dead_id msg \<noteq> [] \<and> list_ex (\<lambda>(t, i). i = dead_id msg \<and> clock w - t < DuplicateWindow) (dead_ids w))"

lemma letters_ok_store: "letters_ok w \<Longrightarrow> letters_ok (store_dead msg reason w)"
  by (auto simp: letters_ok_def store_dead_def list_all_iff)

lemma letters_ok_remove: "letters_ok w \<Longrightarrow> letters_ok (remove_letter seq w)"
  by (auto simp: letters_ok_def remove_letter_def list_all_iff distinct_map_filter)

lemma find_append: "find P (xs @ ys) = (case find P xs of None \<Rightarrow> find P ys | Some x \<Rightarrow> Some x)"
  by (induction xs) auto

lemma stored_dead:
  assumes "letters_ok w" "unseen msg w" "0 \<le> n" "n < DeadLetterRetention"
  shows "stored_at DeadLetterStream (dead_count w + 1) ((store_dead msg reason w)\<lparr>steps := k, clock := clock w + n\<rparr>) =
    Some \<lparr>dm_Sequence = dead_count w + 1, dm_Time = clock w, dm_Subject = DeadLetterSubject, dm_Header = dead_header msg reason,
      dm_Data = msg_Data msg\<rparr>"
proof -
  have "find (\<lambda>m. dm_Sequence m = dead_count w + 1) (filter P (dead_letters w)) = None" for P
    using assms(1) by (auto simp: find_None_iff letters_ok_def list_all_iff)
  then show ?thesis using assms(2-4) by (auto simp: stored_at_def live_letters_def store_dead_def unseen_def find_append)
qed

text \<open>
  C15: A job a worker gives up on can be found again. Once the dead-letter stream has taken it, reading the
  next sequence of the stream, within the time the stream keeps messages, gives back a dead letter of
  kind \<^verbatim>\<open>job\<close> with the worker's reason, the stream, sequence and delivery count the job had, and the
  remediation its payload names.
\<close>

theorem dead_letter_roundtrip:
  assumes "letters_ok w" "unseen msg w" "msg_Meta msg = Some meta"
    and "0 \<le> mt_Sequence meta" "mt_Sequence meta \<le> max_uint64" "0 \<le> mt_NumDelivered meta" "mt_NumDelivered meta \<le> max_uint64"
    and "ext_fault (ext e (steps w)) = Fine" "int (ext_delay (ext e (steps w))) < DeadLetterRetention"
  shows "fst (GetDeadLetter (dead_count w + 1) e (store_dead msg reason w)) =
    Inr \<lparr>dl_Sequence = dead_count w + 1, dl_Kind = DeadLetterJob, dl_Reason = reason, dl_ReceivedAt = clock w,
      dl_OriginalStream = mt_Stream meta, dl_OriginalSequence = mt_Sequence meta, dl_Deliveries = mt_NumDelivered meta,
      dl_RemediationID = remediationID (msg_Data msg), dl_Data = letter_data (msg_Data msg)\<rparr>"
proof -
  let ?w = "store_dead msg reason w"
  have same: "steps ?w = steps w" "clock ?w = clock w" by (simp_all add: store_dead_def)
  let ?m = "\<lparr>dm_Sequence = dead_count w + 1, dm_Time = clock w, dm_Subject = DeadLetterSubject, dm_Header = dead_header msg reason,
    dm_Data = msg_Data msg\<rparr>"
  have "GetMsg DeadLetterStream (dead_count w + 1) e ?w = (Inr (Some ?m), snd (tick e ?w))"
    using stored_dead [OF assms(1,2), where n = "int (ext_delay (ext e (steps w)))" and reason = reason and k = "Suc (steps w)"] assms(8,9)
    by (simp add: GetMsg_def tick_def Let_def same)
  moreover have "\<not> has_prefix DeadLetterSubject ''$JS.EVENT.ADVISORY.''" by (simp add: has_prefix_def DeadLetterSubject_def)
  ultimately show ?thesis using assms(3-7)
    by (simp add: GetDeadLetter_def bind_def wrap_err_def ret_def job_letter_def dead_header_def map_str_def ParseUint_show)
qed

definition quiet_env :: env where
  "quiet_env = \<lparr>tx_time = None, ext = \<lambda>_. \<lparr>ext_fault = Fine, ext_delay = 1, ext_others = \<lambda>d. d\<rparr>, uuid = show_nat,
     http = \<lambda>_ _. Inl (errorf ''unreachable''), sha256 = \<lambda>s. s\<rparr>"

definition lost_job :: js_msg where
  "lost_job = \<lparr>msg_Subject = RemediationSubject, msg_Data = ''{}'', msg_Meta = Some \<lparr>mt_Stream = RemediationStream, mt_Sequence = 7, mt_NumDelivered = 5\<rparr>\<rparr>"

theorem dead_letter_roundtrip_witness:
  "\<forall>d. fst (GetDeadLetter 1 quiet_env (store_dead lost_job ''retries_exhausted''
      \<lparr>db = d, clock = 0, steps = 0, ids = 0, stream = [], dead_letters = [], dead_count = 0, dead_ids = []\<rparr>)) =
    Inr \<lparr>dl_Sequence = 1, dl_Kind = DeadLetterJob, dl_Reason = ''retries_exhausted'', dl_ReceivedAt = 0,
      dl_OriginalStream = RemediationStream, dl_OriginalSequence = 7, dl_Deliveries = 5,
      dl_RemediationID = remediationID ''{}'', dl_Data = letter_data ''{}''\<rparr>"
proof
  fix d
  show "fst (GetDeadLetter 1 quiet_env (store_dead lost_job ''retries_exhausted''
      \<lparr>db = d, clock = 0, steps = 0, ids = 0, stream = [], dead_letters = [], dead_count = 0, dead_ids = []\<rparr>)) =
    Inr \<lparr>dl_Sequence = 1, dl_Kind = DeadLetterJob, dl_Reason = ''retries_exhausted'', dl_ReceivedAt = 0,
      dl_OriginalStream = RemediationStream, dl_OriginalSequence = 7, dl_Deliveries = 5,
      dl_RemediationID = remediationID ''{}'', dl_Data = letter_data ''{}''\<rparr>"
    using dead_letter_roundtrip [where e = quiet_env and msg = lost_job and reason = "''retries_exhausted''" and
      meta = "\<lparr>mt_Stream = RemediationStream, mt_Sequence = 7, mt_NumDelivered = 5\<rparr>" and
      w = "\<lparr>db = d, clock = 0, steps = 0, ids = 0, stream = [], dead_letters = [], dead_count = 0, dead_ids = []\<rparr>"]
    by (simp add: letters_ok_def unseen_def lost_job_def max_uint64_def quiet_env_def DeadLetterRetention_def Hour_def Minute_def Second_def)
qed

end
