(* ===== verification/Ingestion.thy ===== *)
theory Ingestion
  imports Incident_Store
begin

text \<open>
  Alert ingestion, \<^verbatim>\<open>src/internal/incidents/service.go\<close>: a delivery of Alertmanager is normalised, its
  resolved alerts are applied to the incidents they fire on, and its firing alerts are grouped along
  the service graph into new, existing or promoted incidents. The whole delivery is one transaction
  under an advisory lock. A \<^verbatim>\<open>nil\<close> label map is \<open>None\<close>.
\<close>

section \<open>Deliveries\<close>

record am_alert =
  am_Status :: string
  am_Labels :: "string gomap option"
  am_Annotations :: "string gomap option"
  am_StartsAt :: int
  am_EndsAt :: int
  am_Fingerprint :: string
  am_GeneratorURL :: string

record am_webhook =
  wh_Version :: string
  wh_GroupKey :: string
  wh_TruncatedAlerts :: int
  wh_Status :: string
  wh_Receiver :: string
  wh_ExternalURL :: string
  wh_GroupLabels :: "string gomap option"
  wh_CommonLabels :: "string gomap option"
  wh_CommonAnnotations :: "string gomap option"
  wh_Alerts :: "am_alert list"

record normalized_alert =
  na_alert :: am_alert
  na_status :: string
  na_service :: string
  na_serviceID :: string
  na_alertName :: string
  na_environment :: string
  na_severity :: string
  na_fingerprint :: string
  na_summary :: string
  na_dedupeKey :: string

record ingestion_stats =
  st_AlertCount :: int
  st_IncidentGroups :: int
  st_AffectedServiceCount :: int
  st_ObservedRoots :: int
  st_InferredRoots :: int
  st_SuppressedAlertCount :: int
  st_TruncatedAlerts :: int
  st_ResolvedAlerts :: int
  st_UnmatchedResolvedAlerts :: int

record service_manager =
  sm_grouping :: grouping

definition DefaultAlertStaleAfter :: int where "DefaultAlertStaleAfter = 6 * Hour"

definition NewServiceManager :: "int \<Rightarrow> service_manager" where
  "NewServiceManager groupingWindow = \<lparr>sm_grouping = \<lparr>Window = groupingWindow, AlertStaleAfter = DefaultAlertStaleAfter\<rparr>\<rparr>"

definition SetAlertStaleAfter :: "service_manager \<Rightarrow> int \<Rightarrow> service_manager" where
  "SetAlertStaleAfter m staleAfter =
     (if staleAfter > 0 then m\<lparr>sm_grouping := (sm_grouping m)\<lparr>AlertStaleAfter := staleAfter\<rparr>\<rparr> else m)"

definition BuildDedupeKey :: "string \<Rightarrow> string \<Rightarrow> string \<Rightarrow> string \<Rightarrow> string" where
  "BuildDedupeKey service alertName environment fingerprint =
     service @ '':'' @ alertName @ '':'' @ environment @ '':'' @ fingerprint"

fun firstNonEmpty :: "string list \<Rightarrow> string" where
  "firstNonEmpty [] = []"
| "firstNonEmpty (value # values) = (if trim_space value \<noteq> [] then value else firstNonEmpty values)"

definition label_of :: "string gomap option \<Rightarrow> string \<Rightarrow> string" where
  "label_of m k = (case m of None \<Rightarrow> [] | Some labels \<Rightarrow> map_str labels k)"

definition normalize :: "am_webhook \<Rightarrow> am_alert \<Rightarrow> int \<Rightarrow> normalized_alert" where
  "normalize payload a now =
     (let service = firstNonEmpty [label_of (am_Labels a) ''service'', label_of (wh_CommonLabels payload) ''service'', ''unknown-service''];
          alertName = firstNonEmpty [label_of (am_Labels a) ''alertname'', label_of (wh_CommonLabels payload) ''alertname'', ''unknown-alert''];
          environment = firstNonEmpty [label_of (am_Labels a) ''environment'', label_of (wh_CommonLabels payload) ''environment'', ''local''];
          severity = firstNonEmpty [label_of (am_Labels a) ''severity'', label_of (wh_CommonLabels payload) ''severity'', ''sev3''];
          fingerprint = firstNonEmpty [am_Fingerprint a, alertName];
          summary = firstNonEmpty [label_of (am_Annotations a) ''summary'', label_of (wh_CommonAnnotations payload) ''summary'', alertName];
          status = to_lower (firstNonEmpty [am_Status a, wh_Status payload, ''firing''])
      in \<lparr>na_alert = (if am_StartsAt a = zero_time then a\<lparr>am_StartsAt := now\<rparr> else a), na_status = status, na_service = service,
          na_serviceID = [], na_alertName = alertName, na_environment = environment, na_severity = severity,
          na_fingerprint = fingerprint, na_summary = summary,
          na_dedupeKey = BuildDedupeKey service alertName environment fingerprint\<rparr>)"

definition alert_before :: "normalized_alert \<Rightarrow> normalized_alert \<Rightarrow> bool" where
  "alert_before a b =
     (if am_StartsAt (na_alert a) \<noteq> am_StartsAt (na_alert b) then am_StartsAt (na_alert a) < am_StartsAt (na_alert b)
      else if na_service a \<noteq> na_service b then na_service a < na_service b
      else if na_alertName a \<noteq> na_alertName b then na_alertName a < na_alertName b
      else na_fingerprint a < na_fingerprint b)"

fun collect_alerts :: "am_webhook \<Rightarrow> am_alert list \<Rightarrow> (normalized_alert list \<times> normalized_alert list) prog" where
  "collect_alerts payload [] = ret ([], [])"
| "collect_alerts payload (a # as) =
     bind time_now (\<lambda>now.
     let n = normalize payload a now in
     if na_status n = ''resolved'' then
       bind (collect_alerts payload as) (\<lambda>(firing, resolved). ret (firing, n # resolved))
     else
       bind (EnsureService (na_service n)) (\<lambda>svc.
       bind (collect_alerts payload as) (\<lambda>(firing, resolved).
       ret (n\<lparr>na_serviceID := svc_ID svc\<rparr> # firing, resolved))))"

definition normalizeAlerts :: "am_webhook \<Rightarrow> (normalized_alert list \<times> normalized_alert list) prog" where
  "normalizeAlerts payload =
     bind (collect_alerts payload (wh_Alerts payload)) (\<lambda>(firing, resolved).
     ret (stable_sort alert_before firing, stable_sort alert_before resolved))"

section \<open>Resolved alerts\<close>

definition label_value :: "string gomap option \<Rightarrow> gval" where
  "label_value m = (case m of None \<Rightarrow> VNil | Some labels \<Rightarrow> VStrMap labels)"

definition alertmanager :: string where "alertmanager = ''alertmanager''"

definition signal_for :: "string \<Rightarrow> string \<Rightarrow> normalized_alert \<Rightarrow> gval gomap \<Rightarrow> int \<Rightarrow> signal" where
  "signal_for iid serviceID a body observed =
     \<lparr>sig_ID = [], sig_IncidentID = iid, sig_ServiceID = serviceID, sig_Source = alertmanager, sig_SignalType = ''alert'',
      sig_Severity = na_severity a, sig_Name = na_alertName a, sig_Body = body, sig_ObservedAt = observed,
      sig_CreatedAt = zero_time\<rparr>"

definition alert_event :: "string \<Rightarrow> string \<Rightarrow> string \<Rightarrow> gval gomap \<Rightarrow> rat \<Rightarrow> int \<Rightarrow> timeline_event" where
  "alert_event iid eventType summary evidence confidence occurred =
     \<lparr>tl_ID = [], tl_IncidentID = iid, tl_EventType = eventType, tl_Source = alertmanager, tl_Summary = summary,
      tl_Evidence = evidence, tl_Confidence = confidence, tl_OccurredAt = occurred, tl_CreatedAt = zero_time\<rparr>"

definition incident_entry :: "string \<Rightarrow> string \<Rightarrow> string \<Rightarrow> entry" where
  "incident_entry actor action iid =
     entry0\<lparr>ent_ActorID := actor, ent_ActorType := ''system'', ent_Action := action, ent_ResourceType := ''incident'',
       ent_ResourceID := iid\<rparr>"

definition writeAudit :: "entry \<Rightarrow> unit prog" where
  "writeAudit ent = wrap_err (''audit '' @ ent_Action ent) (WriteTx ent)"

text \<open>A resolved notification for the incident its alert fires on.\<close>

definition resolve_on :: "service_manager \<Rightarrow> normalized_alert \<Rightarrow> string \<Rightarrow> ingestion_stats \<Rightarrow> incident \<Rightarrow> ingestion_stats prog" where
  "resolve_on m a actor stats incident =
     bind (EnsureService (na_service a)) (\<lambda>serviceRecord.
     bind (if am_EndsAt (na_alert a) = zero_time then time_now else ret (am_EndsAt (na_alert a))) (\<lambda>resolvedAt.
     bind (AddSignal (signal_for (inc_ID incident) (svc_ID serviceRecord) a
       [(''labels'', label_value (am_Labels (na_alert a))), (''annotations'', label_value (am_Annotations (na_alert a))),
        (''generator'', VStr (am_GeneratorURL (na_alert a))), (''status'', VStr ''resolved''), (''ends_at'', VTime resolvedAt)]
       resolvedAt)) (\<lambda>_.
     bind (MarkAlertResolved (inc_ID incident) (na_dedupeKey a) resolvedAt (AlertStaleAfter (sm_grouping m))) (\<lambda>remaining.
     bind (AddTimelineEvent (alert_event (inc_ID incident) ''alert_resolved''
       (''Alert '' @ na_alertName a @ '' on '' @ na_service a @ '' resolved; '' @ show_int remaining @ '' alert(s) still firing'')
       [(''alert_name'', VStr (na_alertName a)), (''service'', VStr (na_service a)), (''dedupe_key'', VStr (na_dedupeKey a)),
        (''still_firing'', VInt remaining)] 1 resolvedAt)) (\<lambda>_.
     let stats' = stats\<lparr>st_ResolvedAlerts := st_ResolvedAlerts stats + 1\<rparr> in
     if remaining > 0 then ret stats'
     else
       bind (MarkAlertsCleared (inc_ID incident)) (\<lambda>_.
       bind (AddTimelineEvent (alert_event (inc_ID incident) ''alerts_cleared''
         ''Every alert on this incident has resolved. The incident stays open until an operator resolves it.''
         [(''last_alert'', VStr (na_alertName a))] 1 resolvedAt)) (\<lambda>_.
       bind (writeAudit ((incident_entry actor ''incident.alerts_cleared'' (inc_ID incident))
         \<lparr>ent_AfterState := Some [(''status'', VStr (inc_Status incident)), (''alerts_cleared'', VBool True)],
          ent_Metadata := Some [(''last_alert'', VStr (na_alertName a)), (''service'', VStr (na_service a))]\<rparr>)) (\<lambda>_.
       ret stats'))))))))"

text \<open>The counters after one resolved notification: applied, or without an incident.\<close>

definition resolveAlert :: "service_manager \<Rightarrow> normalized_alert \<Rightarrow> string \<Rightarrow> ingestion_stats \<Rightarrow> ingestion_stats prog" where
  "resolveAlert m a actor stats =
     bind (FindIncidentForResolvedAlert (na_dedupeKey a)) (\<lambda>found.
     case found of
       None \<Rightarrow> ret (stats\<lparr>st_UnmatchedResolvedAlerts := st_UnmatchedResolvedAlerts stats + 1\<rparr>)
     | Some incident \<Rightarrow> resolve_on m a actor stats incident)"

fun resolve_all :: "service_manager \<Rightarrow> string \<Rightarrow> normalized_alert list \<Rightarrow> ingestion_stats \<Rightarrow> ingestion_stats prog" where
  "resolve_all m actor [] stats = ret stats"
| "resolve_all m actor (a # as) stats = bind (resolveAlert m a actor stats) (\<lambda>stats'. resolve_all m actor as stats')"

section \<open>Groups and their roots\<close>

definition alertsForGroup :: "normalized_alert list \<Rightarrow> group \<Rightarrow> normalized_alert list" where
  "alertsForGroup alerts g =
     filter (\<lambda>a. na_environment a = GroupEnvironment g \<and> na_service a \<in> set (Members g)) alerts"

definition topologyGroupsByEnvironment :: "graph \<Rightarrow> normalized_alert list \<Rightarrow> group list" where
  "topologyGroupsByEnvironment gr alerts =
     concat (map (\<lambda>environment.
         map (\<lambda>g. g\<lparr>GroupEnvironment := environment\<rparr>)
           (Groups gr (map na_service (filter (\<lambda>a. na_environment a = environment) alerts))))
       (sortedKeys (map na_environment alerts)))"

definition severityRank :: "string \<Rightarrow> int" where
  "severityRank s = (if s = ''sev1'' then 1 else if s = ''sev2'' then 2 else if s = ''sev3'' then 3 else 4)"

definition highestSeverity :: "normalized_alert list \<Rightarrow> string" where
  "highestSeverity alerts =
     foldl (\<lambda>best a. if severityRank (na_severity a) < severityRank best then na_severity a else best) ''sev4'' alerts"

definition correlated_name :: string where "correlated_name = ''TopologyCorrelatedDependencyFailure''"

text \<open>Called with a non-empty list.\<close>

definition rootAlertForGroup :: "normalized_alert list \<Rightarrow> string \<Rightarrow> normalized_alert" where
  "rootAlertForGroup alerts rootSvc =
     (case find (\<lambda>a. na_service a = rootSvc) alerts of
        Some a \<Rightarrow> a
      | None \<Rightarrow>
          (let result = hd alerts; fp = ''topology-'' @ rootSvc in
           result\<lparr>na_service := rootSvc, na_serviceID := [], na_alertName := correlated_name, na_fingerprint := fp,
             na_dedupeKey := BuildDedupeKey rootSvc correlated_name (na_environment result) fp,
             na_summary := ''Correlated downstream failures point to '' @ rootSvc,
             na_severity := highestSeverity alerts\<rparr>))"

definition rootTitle :: "group \<Rightarrow> normalized_alert \<Rightarrow> string" where
  "rootTitle g a =
     (if Inferred g then ''Correlated downstream failures indicate '' @ Root g @ '' dependency impact'' else na_summary a)"

definition rootSummary :: "group \<Rightarrow> normalized_alert \<Rightarrow> string" where
  "rootSummary g a =
     (if Inferred g
      then ''Topology correlation grouped '' @ show_nat (length (Members g)) @ '' affected services behind inferred dependency '' @ Root g
      else na_summary a)"

definition rootDedupeKey :: "group \<Rightarrow> normalized_alert \<Rightarrow> string" where
  "rootDedupeKey g a =
     (if Inferred g then BuildDedupeKey (Root g) correlated_name (na_environment a) (''topology-'' @ Root g) else na_dedupeKey a)"

definition rootFingerprint :: "group \<Rightarrow> normalized_alert \<Rightarrow> string" where
  "rootFingerprint g a = (if Inferred g then ''topology-'' @ Root g else na_fingerprint a)"

text \<open>
  The open incident a root belongs to: one on the root itself; else the nearest one upstream, which
  the root depends on; else the nearest one downstream, which is to be promoted. The accumulator is
  the nearest upstream and downstream incident so far with its distance.
\<close>

definition nearer :: "topo_path option \<Rightarrow> (incident \<times> nat) option \<Rightarrow> incident \<Rightarrow> (incident \<times> nat) option" where
  "nearer path best i =
     (case path of
        None \<Rightarrow> best
      | Some p \<Rightarrow>
          (case best of
             None \<Rightarrow> Some (i, length (Services p))
           | Some (_, n) \<Rightarrow> if length (Services p) < n then Some (i, length (Services p)) else best))"

fun scan_open ::
  "graph \<Rightarrow> string \<Rightarrow> string \<Rightarrow> (incident \<times> nat) option \<Rightarrow> (incident \<times> nat) option \<Rightarrow> incident list \<Rightarrow> (incident \<times> bool) option" where
  "scan_open gr rootSvc environment up down [] =
     (case up of
        Some (i, _) \<Rightarrow> Some (i, False)
      | None \<Rightarrow> (case down of Some (i, _) \<Rightarrow> Some (i, True) | None \<Rightarrow> None))"
| "scan_open gr rootSvc environment up down (i # is) =
     (if inc_Environment i \<noteq> environment then scan_open gr rootSvc environment up down is
      else if inc_Service i = rootSvc then Some (i, False)
      else scan_open gr rootSvc environment (nearer (Path gr rootSvc (inc_Service i)) up i)
             (nearer (Path gr (inc_Service i) rootSvc) down i) is)"

definition relatedOpenIncident :: "graph \<Rightarrow> string \<Rightarrow> string \<Rightarrow> incident list \<Rightarrow> (incident \<times> bool) option" where
  "relatedOpenIncident gr rootSvc environment opened = scan_open gr rootSvc environment None None opened"

text \<open>The incident, whether it was created and whether it was promoted.\<close>

definition findOrCreateTopologyIncident ::
  "service_manager \<Rightarrow> graph \<Rightarrow> group \<Rightarrow> normalized_alert \<Rightarrow> incident list \<Rightarrow> (incident \<times> bool \<times> bool) prog" where
  "findOrCreateTopologyIncident m gr g a opened =
     bind (if na_service a = Root g then FindOpenByDedupeKey (na_dedupeKey a) (sm_grouping m) else ret None) (\<lambda>exact.
     case exact of
       Some i \<Rightarrow> ret (i, False, False)
     | None \<Rightarrow>
         (case relatedOpenIncident gr (Root g) (GroupEnvironment g) opened of
            Some (existing, promote) \<Rightarrow>
              if \<not> promote \<or> inc_Service existing = Root g then ret (existing, False, False)
              else
                bind (PromoteIncidentRoot (inc_ID existing) (Root g) (rootTitle g a) (na_severity a) (rootDedupeKey g a)
                  (rootFingerprint g a) (rootSummary g a) (am_StartsAt (na_alert a))) (\<lambda>promoted.
                ret (promoted, False, True))
          | None \<Rightarrow>
              bind (CreateAlertIncident (rootTitle g a) (Root g) (GroupEnvironment g) (na_severity a) (rootDedupeKey g a)
                (rootFingerprint g a) (rootSummary g a) (am_StartsAt (na_alert a))) (\<lambda>created.
              ret (created, True, False))))"

section \<open>Attaching alerts\<close>

definition topologyConfidence :: "bool \<Rightarrow> bool \<Rightarrow> rat" where
  "topologyConfidence inferred suppressed = (if inferred then fl (75 / 100) else if suppressed then fl (92 / 100) else 1)"

definition attachTopologyAlert :: "incident \<Rightarrow> normalized_alert \<Rightarrow> topo_path \<Rightarrow> bool \<Rightarrow> bool \<Rightarrow> unit prog" where
  "attachTopologyAlert incident a path rootInferred suppressed =
     bind (AddSignal (signal_for (inc_ID incident) (na_serviceID a) a
       [(''labels'', label_value (am_Labels (na_alert a))), (''annotations'', label_value (am_Annotations (na_alert a))),
        (''generator'', VStr (am_GeneratorURL (na_alert a))), (''status'', VStr (am_Status (na_alert a))),
        (''topology'', VMap
          [(''root_service'', VStr (inc_Service incident)), (''observed_service'', VStr (na_service a)),
           (''root_inferred'', VBool rootInferred), (''suppressed'', VBool suppressed),
           (''dependency_path'', VStrs (Services path))])]
       (am_StartsAt (na_alert a)))) (\<lambda>_.
     bind (MarkAlertFiring (inc_ID incident)
       \<lparr>ao_DedupeKey = na_dedupeKey a, ao_AlertName = na_alertName a, ao_Service = na_service a, ao_At = am_StartsAt (na_alert a)\<rparr>) (\<lambda>refired.
     bind (if refired then
         AddTimelineEvent (alert_event (inc_ID incident) ''alerts_refired''
           (''Alert '' @ na_alertName a @ '' on '' @ na_service a @ '' fired again after all alerts had cleared'')
           [(''alert_name'', VStr (na_alertName a)), (''service'', VStr (na_service a))] 1 (am_StartsAt (na_alert a)))
       else ret ()) (\<lambda>_.
     AddTimelineEvent (alert_event (inc_ID incident)
       (if suppressed then ''downstream_alert_suppressed'' else ''alert_received'')
       (if suppressed
        then ''Suppressed downstream alert '' @ na_alertName a @ '' on '' @ na_service a @ ''; correlated root is '' @ inc_Service incident
        else na_summary a)
       [(''alert_name'', VStr (na_alertName a)), (''service'', VStr (na_service a)), (''severity'', VStr (na_severity a)),
        (''environment'', VStr (na_environment a)), (''root_service'', VStr (inc_Service incident)),
        (''root_inferred'', VBool rootInferred), (''suppressed'', VBool suppressed),
        (''dependency_path'', VStrs (Services path))]
       (topologyConfidence rootInferred suppressed) (am_StartsAt (na_alert a))))))"

definition suppressed_entry :: "string \<Rightarrow> incident \<Rightarrow> normalized_alert \<Rightarrow> topo_path \<Rightarrow> entry" where
  "suppressed_entry actor incident a path =
     (incident_entry actor ''incident.downstream_alert_suppressed'' (inc_ID incident))
       \<lparr>ent_Metadata := Some [(''alert_name'', VStr (na_alertName a)), (''observed_service'', VStr (na_service a)),
          (''root_service'', VStr (inc_Service incident)), (''dependency_path'', VStrs (Services path))]\<rparr>"

definition path_to :: "graph \<Rightarrow> string \<Rightarrow> string \<Rightarrow> topo_path" where
  "path_to gr service rootSvc =
     (case Path gr service rootSvc of
        Some p \<Rightarrow> p
      | None \<Rightarrow> \<lparr>From = service, To = rootSvc, Services = [service]\<rparr>)"

fun attach_all :: "graph \<Rightarrow> string \<Rightarrow> incident \<Rightarrow> bool \<Rightarrow> normalized_alert list \<Rightarrow> ingestion_stats \<Rightarrow> ingestion_stats prog" where
  "attach_all gr actor incident rootInferred [] stats = ret stats"
| "attach_all gr actor incident rootInferred (a # as) stats =
     (let path = path_to gr (na_service a) (inc_Service incident); suppressed = (na_service a \<noteq> inc_Service incident) in
      bind (attachTopologyAlert incident a path rootInferred suppressed) (\<lambda>_.
      bind (if suppressed then writeAudit (suppressed_entry actor incident a path) else ret ()) (\<lambda>_.
      attach_all gr actor incident rootInferred as
        (if suppressed then stats\<lparr>st_SuppressedAlertCount := st_SuppressedAlertCount stats + 1\<rparr> else stats))))"

section \<open>One delivery\<close>

fun appendOrReplaceIncident :: "incident list \<Rightarrow> incident \<Rightarrow> incident list" where
  "appendOrReplaceIncident [] i = [i]"
| "appendOrReplaceIncident (x # xs) i = (if inc_ID x = inc_ID i then i # xs else x # appendOrReplaceIncident xs i)"

definition detected_entry :: "string \<Rightarrow> incident \<Rightarrow> bool \<Rightarrow> group \<Rightarrow> entry" where
  "detected_entry actor incident rootInferred g =
     (incident_entry actor ''incident.detected'' (inc_ID incident))
       \<lparr>ent_AfterState := Some [(''status'', VStr (inc_Status incident)), (''severity'', VStr (inc_Severity incident)),
          (''service'', VStr (inc_Service incident)), (''topology_root'', VStr (inc_Service incident)),
          (''root_inferred'', VBool rootInferred), (''affected_services'', VStrs (Members g))]\<rparr>"

definition promoted_entry :: "string \<Rightarrow> incident \<Rightarrow> bool \<Rightarrow> entry" where
  "promoted_entry actor incident rootInferred =
     (incident_entry actor ''incident.root_promoted'' (inc_ID incident))
       \<lparr>ent_AfterState := Some [(''root_service'', VStr (inc_Service incident)), (''root_inferred'', VBool rootInferred)]\<rparr>"

definition count_group :: "group \<Rightarrow> bool \<Rightarrow> ingestion_stats \<Rightarrow> ingestion_stats" where
  "count_group g rootInferred stats =
     (let s = stats\<lparr>st_IncidentGroups := st_IncidentGroups stats + 1,
                    st_AffectedServiceCount := st_AffectedServiceCount stats + int (length (Members g))\<rparr>
      in if rootInferred then s\<lparr>st_InferredRoots := st_InferredRoots s + 1\<rparr> else s\<lparr>st_ObservedRoots := st_ObservedRoots s + 1\<rparr>)"

text \<open>One group with its alerts: the incident it went to and the counters.\<close>

definition ingest_group ::
  "service_manager \<Rightarrow> graph \<Rightarrow> string \<Rightarrow> group \<Rightarrow> normalized_alert list \<Rightarrow> incident list \<Rightarrow> ingestion_stats \<Rightarrow> (incident \<times> ingestion_stats) prog" where
  "ingest_group m gr actor g groupAlerts opened stats =
     bind (findOrCreateTopologyIncident m gr g (rootAlertForGroup groupAlerts (Root g)) opened) (\<lambda>(incident, created, promoted).
     bind (if \<not> created \<and> \<not> promoted
           then bind (GetIncidentTopology (inc_ID incident)) (\<lambda>analysis. ret (it_RootInferred analysis))
           else ret (Inferred g)) (\<lambda>rootInferred.
     bind (if created then writeAudit (detected_entry actor incident rootInferred g) else ret ()) (\<lambda>_.
     bind (if promoted then writeAudit (promoted_entry actor incident rootInferred) else ret ()) (\<lambda>_.
     bind (attach_all gr actor incident rootInferred groupAlerts (count_group g rootInferred stats)) (\<lambda>stats'.
     ret (incident, stats'))))))"

fun ingest_groups ::
  "service_manager \<Rightarrow> graph \<Rightarrow> string \<Rightarrow> normalized_alert list \<Rightarrow> group list \<Rightarrow> incident list \<Rightarrow> ingestion_stats \<Rightarrow> (incident list \<times> ingestion_stats) prog" where
  "ingest_groups m gr actor alerts [] opened stats = ret ([], stats)"
| "ingest_groups m gr actor alerts (g # gs) opened stats =
     (let groupAlerts = alertsForGroup alerts g in
      if groupAlerts = [] then ingest_groups m gr actor alerts gs opened stats
      else
        bind (ingest_group m gr actor g groupAlerts opened stats) (\<lambda>(incident, stats').
        bind (ingest_groups m gr actor alerts gs (appendOrReplaceIncident opened incident) stats') (\<lambda>(rest, stats'').
        ret (incident # rest, stats''))))"

definition initial_stats :: "nat \<Rightarrow> int \<Rightarrow> ingestion_stats" where
  "initial_stats n truncated =
     \<lparr>st_AlertCount = int n, st_IncidentGroups = 0, st_AffectedServiceCount = 0, st_ObservedRoots = 0, st_InferredRoots = 0,
      st_SuppressedAlertCount = 0, st_TruncatedAlerts = truncated, st_ResolvedAlerts = 0, st_UnmatchedResolvedAlerts = 0\<rparr>"

definition ingest :: "service_manager \<Rightarrow> am_webhook \<Rightarrow> string \<Rightarrow> (incident list \<times> ingestion_stats) prog" where
  "ingest m payload actor =
     bind (normalizeAlerts payload) (\<lambda>(alerts, resolved).
     bind (resolve_all m actor resolved (initial_stats (length alerts) (wh_TruncatedAlerts payload))) (\<lambda>stats.
     if alerts = [] then ret ([], stats)
     else
       bind ListServiceDependencies (\<lambda>dependencies.
       let gr = New dependencies in
       bind (ListOpenIncidents (sm_grouping m)) (\<lambda>opened.
       ingest_groups m gr actor alerts (topologyGroupsByEnvironment gr alerts) opened stats))))"

text \<open>The lock needs a transaction; it is a statement that can fail.\<close>

definition LockIncidentIngestion :: "unit prog" where
  "LockIncidentIngestion =
     (\<lambda>e w. case tx_time e of
        None \<Rightarrow> (Inl (errorf ''incident ingestion lock requires a transaction''), w)
      | Some _ \<Rightarrow> wrap_err ''acquire topology ingestion lock'' (query (\<lambda>t d. Inr ())) e w)"

definition IngestAlertmanagerWithResult :: "service_manager \<Rightarrow> am_webhook \<Rightarrow> string \<Rightarrow> (incident list \<times> ingestion_stats) prog" where
  "IngestAlertmanagerWithResult m payload actor = InTx (bind LockIncidentIngestion (\<lambda>_. ingest m payload actor))"

definition IngestAlertmanager :: "service_manager \<Rightarrow> am_webhook \<Rightarrow> string \<Rightarrow> (incident list) prog" where
  "IngestAlertmanager m payload actor = bind (IngestAlertmanagerWithResult m payload actor) (\<lambda>(items, _). ret items)"

section \<open>Manual incidents\<close>

definition created_entry :: "string \<Rightarrow> incident \<Rightarrow> entry" where
  "created_entry actor incident =
     entry0\<lparr>ent_ActorID := actor, ent_ActorType := ''user'', ent_Action := ''incident.created'', ent_ResourceType := ''incident'',
       ent_ResourceID := inc_ID incident,
       ent_AfterState := Some [(''status'', VStr (inc_Status incident)), (''severity'', VStr (inc_Severity incident))]\<rparr>"

definition CreateManual :: "manual_request \<Rightarrow> string \<Rightarrow> incident prog" where
  "CreateManual req actor =
     InTx (bind (CreateManualIncident req) (\<lambda>incident.
           bind (WriteTx (created_entry actor incident)) (\<lambda>_. ret incident)))"

end
