(* ===== verification/Rca.thy ===== *)
theory Rca
  imports Rca_Scoring Ingestion
begin

text \<open>
  The RCA service, \<^verbatim>\<open>src/internal/rca/service.go\<close>: running the probes of the matched rules, saving the
  report, and the advisory calls to the AI service. The summary of the model is added to a saved report
  by a background task: \<open>Generate\<close> returns the task, \<open>summarize\<close> runs it. Whether the bounded pool has
  a free slot is an argument.
\<close>

section \<open>The service\<close>

record rca_service =
  rs_aiServiceURL :: string
  rs_aiServiceToken :: string
  rs_correlator :: correlator
  rs_collector :: "collector option"

definition NewRcaService :: "string \<Rightarrow> string \<Rightarrow> collector option \<Rightarrow> string + rca_service" where
  "NewRcaService aiServiceURL aiServiceToken c =
     map_sum (\<lambda>err. err) (\<lambda>cor. \<lparr>rs_aiServiceURL = trim_right_char (CHR ''/'') aiServiceURL, rs_aiServiceToken = aiServiceToken,
        rs_correlator = cor, rs_collector = c\<rparr>) (NewWithRules DefaultRules)"

section \<open>Analysis\<close>

text \<open>One probe run per matched rule; the code runs them concurrently and each writes its own key.\<close>

definition collectEvidence :: "rca_service \<Rightarrow> incident \<Rightarrow> match list \<Rightarrow> (rule_evidence gomap) prog" where
  "collectEvidence svc i matches =
     bind time_now (\<lambda>now.
     for_each (primaryMatches i matches) (\<lambda>m.
       bind (RunProbes (rs_collector svc) (ru_Probes (ma_Rule m)) (ma_Service m) now) (\<lambda>results.
       ret (ma_RuleID m, \<lparr>re_Service = ma_Service m, re_Results = results\<rparr>))))"

definition analyze :: "rca_service \<Rightarrow> incident \<Rightarrow> signal list \<Rightarrow> incident_topology \<Rightarrow> analysis prog" where
  "analyze svc i ss topo =
     (let matches = Match (rs_correlator svc) i ss in
      bind (collectEvidence svc i matches) (\<lambda>runs. ret (analyze_with i matches runs topo)))"

record summary_task =
  tk_incident :: incident
  tk_report :: rca_report
  tk_topology :: incident_topology

definition summarizeLater :: "bool \<Rightarrow> incident \<Rightarrow> rca_report \<Rightarrow> incident_topology \<Rightarrow> (summary_task option) prog" where
  "summarizeLater slot i report topo =
     (if slot then ret (Some \<lparr>tk_incident = i, tk_report = report, tk_topology = topo\<rparr>)
      else bind (attempt (UpdateRCAReportLLM (rep_ID report) LLMStatusFailed [] [] [])) (\<lambda>_. ret None))"

definition report_of :: "rca_service \<Rightarrow> string \<Rightarrow> string \<Rightarrow> analysis \<Rightarrow> incident_topology \<Rightarrow> int \<Rightarrow> rca_report" where
  "report_of svc rid incidentID result topo now =
     \<lparr>rep_ID = rid, rep_IncidentID = incidentID, rep_DeterministicSummary = an_Summary result, rep_LLMSummary = [],
      rep_PrimaryHypothesis = an_Hypothesis result, rep_ContributingFactors = an_Factors result, rep_Evidence = an_Evidence result,
      rep_Confidence = an_Confidence result, rep_ModelBackend = ''deterministic'', rep_ModelName = [], rep_Topology = topo,
      rep_EvidenceItems = an_Items result, rep_Score = an_Score result, rep_Candidates = an_Candidates result,
      rep_LLMStatus = (if rs_aiServiceURL svc \<noteq> [] then LLMStatusPending else LLMStatusDisabled), rep_CreatedAt = now\<rparr>"

definition save_report :: "rca_report \<Rightarrow> unit prog" where
  "save_report report =
     InTx (bind (for_each (probeTimelineEvents (rep_IncidentID report) (rep_EvidenceItems report)) AddTimelineEvent) (\<lambda>_.
           SaveRCAReport report))"

definition Generate :: "rca_service \<Rightarrow> bool \<Rightarrow> string \<Rightarrow> (rca_report \<times> rca_candidate list \<times> summary_task option) prog" where
  "Generate svc slot incidentID =
     bind (GetIncident incidentID) (\<lambda>incident.
     bind (ListSignals incidentID) (\<lambda>ss.
     bind (GetIncidentTopology incidentID) (\<lambda>topo.
     bind (analyze svc incident ss topo) (\<lambda>result.
     bind (NewID ''rca'') (\<lambda>rid.
     bind time_now (\<lambda>now.
     let report = report_of svc rid incidentID result topo now in
     bind (save_report report) (\<lambda>_.
     bind (attempt (TransitionIncident incidentID IncRCAGenerated)) (\<lambda>_.
     bind (if rep_LLMStatus report = LLMStatusPending then summarizeLater slot incident report topo else ret None) (\<lambda>task.
     ret (report, an_Candidates result, task))))))))))"

definition ReportForProposal :: "rca_service \<Rightarrow> bool \<Rightarrow> incident \<Rightarrow> (rca_report \<times> rca_candidate list \<times> bool \<times> summary_task option) prog" where
  "ReportForProposal svc slot incident =
     bind (attempt (GetLatestRCAReport (inc_ID incident))) (\<lambda>r.
     let fresh = bind (Generate svc slot (inc_ID incident)) (\<lambda>(report, candidates, task). ret (report, candidates, False, task)) in
     case r of
       Inr latest \<Rightarrow>
         if rep_Candidates latest \<noteq> [] \<and> \<not> inc_LastSeenAt incident > rep_CreatedAt latest
         then ret (latest, rep_Candidates latest, True, None)
         else fresh
     | Inl _ \<Rightarrow> fresh)"

section \<open>The AI service\<close>

definition ai_request :: "rca_service \<Rightarrow> string \<Rightarrow> (string \<times> string) list \<Rightarrow> string \<Rightarrow> http_request" where
  "ai_request svc path headers body =
     \<lparr>hr_Method = ''POST'', hr_URL = rs_aiServiceURL svc @ path,
      hr_Headers = headers @ (if rs_aiServiceToken svc \<noteq> [] then [(''Authorization'', ''Bearer '' @ rs_aiServiceToken svc)] else []),
      hr_Body = body\<rparr>"

definition json_type :: "(string \<times> string) list" where
  "json_type = [(''Content-Type'', ''application/json'')]"

definition json_of :: "gval \<Rightarrow> string" where
  "json_of v = (case json_enc v of None \<Rightarrow> [] | Some s \<Rightarrow> s)"

text \<open>A struct marshals its fields in their order; a \<^verbatim>\<open>nil\<close> slice is \<^verbatim>\<open>null\<close>.\<close>

definition path_json :: "topo_path \<Rightarrow> string" where
  "path_json p = json_object [(''from'', json_string (From p)), (''to'', json_string (To p)), (''services'', json_of (VStrs (Services p)))]"

definition topology_json :: "incident_topology \<Rightarrow> string" where
  "topology_json topo =
     json_object
       [(''incident_id'', json_string (it_IncidentID topo)), (''root_service'', json_string (it_RootService topo)),
        (''root_inferred'', json_of (VBool (it_RootInferred topo))), (''affected_services'', json_of (VStrs (it_AffectedServices topo))),
        (''alert_count'', json_of (VInt (it_AlertCount topo))), (''suppressed_alert_count'', json_of (VInt (it_SuppressedAlertCount topo))),
        (''dependency_paths'', if it_Paths topo = [] then ''null'' else json_array (map path_json (it_Paths topo)))]"

definition candidate_json :: "rca_candidate \<Rightarrow> string" where
  "candidate_json c =
     json_object
       ([(''action_type'', json_string (cand_ActionType c)), (''target'', json_string (cand_Target c))] @
        (case cand_Parameters c of None \<Rightarrow> [] | Some m \<Rightarrow> if m = [] then [] else [(''parameters'', json_of (VMap m))]) @
        [(''risk'', json_string (cand_Risk c)), (''requires_approval'', json_of (VBool (cand_RequiresApproval c)))])"

definition summary_body :: "incident \<Rightarrow> string list \<Rightarrow> string \<Rightarrow> rat \<Rightarrow> incident_topology \<Rightarrow> string" where
  "summary_body i evidenceLines hypothesis confidence topo =
     json_object
       [(''confidence'', json_of (VFloat (Fin confidence))), (''evidence'', json_of (VStrs evidenceLines)),
        (''incident'', json_of (VMap [(''id'', VStr (inc_ID i)), (''title'', VStr (inc_Title i)), (''service'', VStr (inc_Service i)),
           (''severity'', VStr (inc_Severity i)), (''started_at'', VTime (inc_StartedAt i))])),
        (''primary_hypothesis'', json_string hypothesis), (''topology'', topology_json topo)]"

definition decode_summary_reply :: "string \<Rightarrow> (string \<times> string \<times> string) option" where
  "decode_summary_reply body =
     (case json_decode body of
        Some VNil \<Rightarrow> Some ([], [], [])
      | Some (VMap m) \<Rightarrow>
          (case (string_field m ''summary'', string_field m ''backend'', string_field m ''model'') of
             (Some s, Some b, Some n) \<Rightarrow> Some (s, b, n) | _ \<Rightarrow> None)
      | _ \<Rightarrow> None)"

definition callAdvisor ::
  "rca_service \<Rightarrow> incident \<Rightarrow> string list \<Rightarrow> string \<Rightarrow> rat \<Rightarrow> incident_topology \<Rightarrow> (string \<times> string \<times> string) prog" where
  "callAdvisor svc i evidenceLines hypothesis confidence topo =
     (if rs_aiServiceURL svc = [] then fail (errorf ''ai service disabled'')
      else
        bind (http_do (ai_request svc ''/v1/rca/summarize'' json_type (summary_body i evidenceLines hypothesis confidence topo))) (\<lambda>resp.
        if hs_StatusCode resp \<ge> 400 then fail (errorf (''ai service returned '' @ hs_Status resp))
        else case decode_summary_reply (hs_Body resp) of
          None \<Rightarrow> fail (errorf ''invalid JSON'')
        | Some reply \<Rightarrow> ret reply))"

definition summarize :: "rca_service \<Rightarrow> summary_task \<Rightarrow> unit prog" where
  "summarize svc task =
     bind (attempt (callAdvisor svc (tk_incident task) (rep_Evidence (tk_report task)) (rep_PrimaryHypothesis (tk_report task))
       (rep_Confidence (tk_report task)) (tk_topology task))) (\<lambda>r.
     bind (attempt (case r of
         Inl _ \<Rightarrow> UpdateRCAReportLLM (rep_ID (tk_report task)) LLMStatusFailed [] [] []
       | Inr (summary, backend, model) \<Rightarrow> UpdateRCAReportLLM (rep_ID (tk_report task)) LLMStatusCompleted summary backend model)) (\<lambda>_.
     ret ()))"

text \<open>Decoding into a \<^verbatim>\<open>map[string]any\<close>: \<^verbatim>\<open>null\<close> leaves it \<^verbatim>\<open>nil\<close>.\<close>

definition decode_any_map :: "string \<Rightarrow> (gval gomap) option" where
  "decode_any_map body =
     (case json_decode body of Some VNil \<Rightarrow> Some [] | Some (VMap m) \<Rightarrow> Some (read_map m) | _ \<Rightarrow> None)"

definition validateAdvisoryResponse :: "gval gomap \<Rightarrow> goerr option" where
  "validateAdvisoryResponse payload =
     (if map_any payload ''executed'' = VBool False \<and> map_any payload ''advisory_only'' = VBool True then None
      else Some (errorf ''AI suggestion violated advisory-only contract''))"

definition suggest_body :: "incident \<Rightarrow> analysis \<Rightarrow> incident_topology \<Rightarrow> string" where
  "suggest_body i result topo =
     json_object
       [(''confidence'', json_of (VFloat (Fin (an_Confidence result)))),
        (''deterministic_candidates'', json_array (map candidate_json (an_Candidates result))),
        (''evidence'', json_of (VStrs (an_Evidence result))),
        (''incident'', json_of (VMap [(''id'', VStr (inc_ID i)), (''title'', VStr (inc_Title i)), (''service'', VStr (inc_Service i)),
           (''severity'', VStr (inc_Severity i)), (''environment'', VStr (inc_Environment i))])),
        (''topology'', topology_json topo)]"

definition SuggestRemediations :: "rca_service \<Rightarrow> string \<Rightarrow> (gval gomap) prog" where
  "SuggestRemediations svc incidentID =
     (if rs_aiServiceURL svc = [] then fail (errorf ''ai service disabled'')
      else
        bind (GetIncident incidentID) (\<lambda>incident.
        bind (ListSignals incidentID) (\<lambda>ss.
        bind (GetIncidentTopology incidentID) (\<lambda>topo.
        bind (analyze svc incident ss topo) (\<lambda>result.
        bind (http_do (ai_request svc ''/v1/remediation/suggest'' json_type (suggest_body incident result topo))) (\<lambda>resp.
        if hs_StatusCode resp \<ge> 400 then fail (errorf (''governed AI suggestion returned '' @ hs_Status resp))
        else case decode_any_map (hs_Body resp) of
          None \<Rightarrow> fail (errorf ''invalid JSON'')
        | Some payload \<Rightarrow>
            (case validateAdvisoryResponse payload of Some err \<Rightarrow> fail err | None \<Rightarrow> ret payload)))))))"

definition ErrAIServiceDisabled :: goerr where "ErrAIServiceDisabled = GoErr ''ai service disabled'' (Some ErrAIDisabled)"

definition ReindexRunbooks :: "rca_service \<Rightarrow> (gval gomap) prog" where
  "ReindexRunbooks svc =
     (if rs_aiServiceURL svc = [] then fail ErrAIServiceDisabled
      else
        bind (http_do (ai_request svc ''/v1/runbooks/index'' [] [])) (\<lambda>resp.
        if hs_StatusCode resp \<ge> 400 then fail (errorf (''ai service returned '' @ hs_Status resp))
        else case decode_any_map (take (2 ^ 20) (hs_Body resp)) of
          None \<Rightarrow> fail (errorf ''invalid JSON'')
        | Some payload \<Rightarrow> ret payload))"

end
