(* ===== verification/Http.thy ===== *)
theory Http
  imports Auth Slack Dead_Letters Rca
begin

text \<open>
  Requests and responses of the HTTP API: the readers and writers of \<^verbatim>\<open>src/internal/common/http.go\<close>, the body
  limits, the public routes and the permission of each route of \<^verbatim>\<open>src/internal/api/server.go\<close>, and the part
  of \<^verbatim>\<open>net/http\<close> they rest on: the multiplexer with its redirects.

  A response is the status and the Go value handed to \<^verbatim>\<open>WriteJSON\<close>; its encoding is left to the JSON
  encoder. The path of a request is its escaped form, as \<^verbatim>\<open>URL.EscapedPath\<close> gives it to the multiplexer;
  \<open>URLPath\<close> is the decoded form the handlers read.
\<close>

section \<open>Requests\<close>

record api_request =
  rq_Method :: string
  rq_EscapedPath :: string
  rq_Query :: string
  rq_Headers :: "(string \<times> string) list"
  rq_ContentLength :: int
  rq_Body :: string
  rq_Principal :: "principal option"

text \<open>A percent sequence never spans a slash, so the segments are decoded one by one.\<close>

fun path_unescape :: "string \<Rightarrow> string" where
  "path_unescape [] = []"
| "path_unescape (c # s) =
     (case (c = CHR ''%'', s) of
        (True, a # b # r) \<Rightarrow>
          (case (hex_val a, hex_val b) of
             (Some x, Some y) \<Rightarrow> char_of (16 * x + y) # path_unescape r
           | _ \<Rightarrow> c # path_unescape s)
      | _ \<Rightarrow> c # path_unescape s)"

definition path_segments :: "string \<Rightarrow> string list" where
  "path_segments escaped = map path_unescape (split_on (CHR ''/'') escaped)"

definition URLPath :: "api_request \<Rightarrow> string" where
  "URLPath r = join_str ''/'' (path_segments (rq_EscapedPath r))"

text \<open>\<^verbatim>\<open>URL.Query().Get\<close>: pairs that do not parse are left out.\<close>

definition query_get :: "api_request \<Rightarrow> string \<Rightarrow> string" where
  "query_get r k =
     (case find (\<lambda>(k', v). k' = k) (List.map_filter parse_pair (filter (\<lambda>p. p \<noteq> []) (split_on (CHR ''&'') (rq_Query r)))) of
        None \<Rightarrow> [] | Some (_, v) \<Rightarrow> v)"

definition GET :: string where "GET = ''GET''"
definition POST :: string where "POST = ''POST''"

lemmas methods = GET_def POST_def

section \<open>Responses\<close>

record dead_letter_view =
  dv_Letter :: dead_letter
  dv_RemediationStatus :: string
  dv_Replayable :: bool

datatype reply =
    ErrorBody string
  | ValueBody gval
  | PrincipalBody principal
  | MetricsBody
  | RedirectBody string
  | IngestedBody "incident list" ingestion_stats
  | IncidentsBody "incident list"
  | IncidentBody incident
  | TimelineBody "timeline_event list"
  | SignalsBody "signal list"
  | TopologyBody incident_topology
  | ReportBody rca_report
  | GeneratedBody rca_report
  | RemediationsBody "remediation_action list"
  | ProposedBody "remediation_action list" string bool
  | ApprovalsBody "request list"
  | ApprovalBody request
  | AuditBody "audit_row list"
  | VerificationBody verification
  | ServicesBody "service list"
  | ServiceBody service
  | DependenciesBody "dependency list"
  | DependencyBody dependency
  | LettersBody "dead_letter_view list"

record response =
  rsp_Status :: int
  rsp_Body :: reply

definition WriteJSON :: "int \<Rightarrow> reply \<Rightarrow> response" where
  "WriteJSON status payload = \<lparr>rsp_Status = status, rsp_Body = payload\<rparr>"

definition WriteError :: "int \<Rightarrow> string \<Rightarrow> response" where
  "WriteError status message = WriteJSON status (ErrorBody message)"

definition method_not_allowed :: response where
  "method_not_allowed = WriteError 405 ''method not allowed''"

section \<open>Bodies\<close>

definition defaultMaxBodyBytes :: int where "defaultMaxBodyBytes = 2 ^ 20"
definition maxAlertmanagerPayloadBytes :: int where "maxAlertmanagerPayloadBytes = 8 * 2 ^ 20"

definition maxBodyBytes :: "api_request \<Rightarrow> int" where
  "maxBodyBytes r = (if URLPath r = ''/v1/alerts/alertmanager'' then maxAlertmanagerPayloadBytes else defaultMaxBodyBytes)"

definition body_exceeds :: "int \<Rightarrow> string" where
  "body_exceeds limit = ''request body exceeds '' @ show_int limit @ '' bytes''"

text \<open>A body that could not be read: \<^verbatim>\<open>http.MaxBytesError\<close>, or the text of any other error.\<close>

datatype read_error = TooLarge int | Malformed string

definition WriteDecodeError :: "read_error \<Rightarrow> response" where
  "WriteDecodeError err =
     (case err of TooLarge limit \<Rightarrow> WriteError 413 (body_exceeds limit) | Malformed text \<Rightarrow> WriteError 400 text)"

text \<open>
  \<^verbatim>\<open>Decoder.Decode\<close> on the limited body. It succeeds when the first value ends within the limit; a body over
  the limit without one is answered as too large, one without any value as the end of the file.
\<close>

definition read_value :: "api_request \<Rightarrow> read_error + gval" where
  "read_value r =
     (let limit = maxBodyBytes r; data = take (nat limit) (rq_Body r) in
      case json_decode data of
        Some v \<Rightarrow> Inr v
      | None \<Rightarrow>
          if int (length (rq_Body r)) > limit then Inl (TooLarge limit)
          else Inl (Malformed (if skip_ws data = [] then ''EOF'' else ''invalid JSON'')))"

definition unknown_member :: "string list \<Rightarrow> gval gomap \<Rightarrow> string option" where
  "unknown_member names m = map_option fst (find (\<lambda>(k, _). \<not> list_ex (equal_fold k) names) m)"

text \<open>\<^verbatim>\<open>ReadJSON\<close> into a struct with the given field names: other members are refused.\<close>

definition ReadJSON :: "string list \<Rightarrow> (gval gomap \<Rightarrow> 'a option) \<Rightarrow> api_request \<Rightarrow> read_error + 'a" where
  "ReadJSON names decode r =
     (case read_value r of
        Inl err \<Rightarrow> Inl err
      | Inr v \<Rightarrow>
          (case struct_of v of
             None \<Rightarrow> Inl (Malformed ''invalid JSON'')
           | Some m \<Rightarrow>
               (case unknown_member names m of
                  Some k \<Rightarrow> Inl (Malformed (''json: unknown field '' @ quote k))
                | None \<Rightarrow> (case decode m of None \<Rightarrow> Inl (Malformed ''invalid JSON'') | Some x \<Rightarrow> Inr x))))"

text \<open>\<^verbatim>\<open>ReadExternalJSON\<close>: other members are ignored.\<close>

definition ReadExternalJSON :: "(gval gomap \<Rightarrow> 'a option) \<Rightarrow> api_request \<Rightarrow> read_error + 'a" where
  "ReadExternalJSON decode r =
     (case read_value r of
        Inl err \<Rightarrow> Inl err
      | Inr v \<Rightarrow> (case Option.bind (struct_of v) decode of None \<Rightarrow> Inl (Malformed ''invalid JSON'') | Some x \<Rightarrow> Inr x))"

text \<open>The structs the handlers decode.\<close>

definition bool_field :: "gval gomap \<Rightarrow> string \<Rightarrow> bool option" where
  "bool_field m k = (case member m k of VNil \<Rightarrow> Some False | VBool b \<Rightarrow> Some b | _ \<Rightarrow> None)"

definition int_field :: "gval gomap \<Rightarrow> string \<Rightarrow> int option" where
  "int_field m k = (case member m k of VNil \<Rightarrow> Some 0 | VNumber s \<Rightarrow> parse_int64 s | _ \<Rightarrow> None)"

definition decode_alert :: "gval \<Rightarrow> am_alert option" where
  "decode_alert v =
     Option.bind (struct_of v) (\<lambda>m.
     Option.bind (string_field m ''status'') (\<lambda>status.
     Option.bind (strings_field m ''labels'') (\<lambda>labels.
     Option.bind (strings_field m ''annotations'') (\<lambda>annotations.
     Option.bind (time_field m ''startsAt'') (\<lambda>starts.
     Option.bind (time_field m ''endsAt'') (\<lambda>ends.
     Option.bind (string_field m ''fingerprint'') (\<lambda>fp.
     Option.bind (string_field m ''generatorURL'') (\<lambda>gen.
     Some \<lparr>am_Status = status, am_Labels = labels, am_Annotations = annotations, am_StartsAt = starts, am_EndsAt = ends,
       am_Fingerprint = fp, am_GeneratorURL = gen\<rparr>))))))))"

definition decode_webhook :: "gval gomap \<Rightarrow> am_webhook option" where
  "decode_webhook m =
     Option.bind (string_field m ''version'') (\<lambda>version.
     Option.bind (string_field m ''groupKey'') (\<lambda>key.
     Option.bind (int_field m ''truncatedAlerts'') (\<lambda>truncated.
     Option.bind (string_field m ''status'') (\<lambda>status.
     Option.bind (string_field m ''receiver'') (\<lambda>receiver.
     Option.bind (string_field m ''externalURL'') (\<lambda>url.
     Option.bind (strings_field m ''groupLabels'') (\<lambda>grouped.
     Option.bind (strings_field m ''commonLabels'') (\<lambda>common.
     Option.bind (strings_field m ''commonAnnotations'') (\<lambda>annotations.
     Option.bind (Option.bind (list_of (member m ''alerts'')) (\<lambda>vs. all_some (map decode_alert vs))) (\<lambda>alerts.
     Some \<lparr>wh_Version = version, wh_GroupKey = key, wh_TruncatedAlerts = truncated, wh_Status = status, wh_Receiver = receiver,
       wh_ExternalURL = url, wh_GroupLabels = grouped, wh_CommonLabels = common, wh_CommonAnnotations = annotations,
       wh_Alerts = alerts\<rparr>))))))))))"

definition ReadManual :: "api_request \<Rightarrow> read_error + manual_request" where
  "ReadManual = ReadJSON [''title'', ''service'', ''severity'', ''summary''] (\<lambda>m.
     case (string_field m ''title'', string_field m ''service'', string_field m ''severity'', string_field m ''summary'') of
       (Some ti, Some sv, Some se, Some su) \<Rightarrow> Some \<lparr>mi_Title = ti, mi_Service = sv, mi_Severity = se, mi_Summary = su\<rparr>
     | _ \<Rightarrow> None)"

definition ReadSignal :: "api_request \<Rightarrow> read_error + string \<times> string \<times> string" where
  "ReadSignal = ReadJSON [''scenario'', ''service'', ''severity''] (\<lambda>m.
     case (string_field m ''scenario'', string_field m ''service'', string_field m ''severity'') of
       (Some sc, Some sv, Some se) \<Rightarrow> Some (sc, sv, se) | _ \<Rightarrow> None)"

definition ReadReason :: "api_request \<Rightarrow> read_error + string" where
  "ReadReason = ReadJSON [''reason''] (\<lambda>m. string_field m ''reason'')"

definition ReadName :: "api_request \<Rightarrow> read_error + string" where
  "ReadName = ReadJSON [''name''] (\<lambda>m. string_field m ''name'')"

definition ReadDryRun :: "api_request \<Rightarrow> read_error + bool" where
  "ReadDryRun = ReadJSON [''dry_run''] (\<lambda>m. bool_field m ''dry_run'')"

definition ReadDecision :: "api_request \<Rightarrow> read_error + string \<times> string" where
  "ReadDecision = ReadJSON [''decision'', ''reason''] (\<lambda>m.
     case (string_field m ''decision'', string_field m ''reason'') of (Some d, Some r) \<Rightarrow> Some (d, r) | _ \<Rightarrow> None)"

definition ReadDependency :: "api_request \<Rightarrow> read_error + dependency_request" where
  "ReadDependency = ReadJSON [''service'', ''depends_on'', ''dependency_type'', ''criticality''] (\<lambda>m.
     case (string_field m ''service'', string_field m ''depends_on'', string_field m ''dependency_type'', string_field m ''criticality'') of
       (Some sv, Some d, Some ty, Some c) \<Rightarrow> Some \<lparr>dr_Service = sv, dr_DependsOn = d, dr_DependencyType = ty, dr_Criticality = c\<rparr>
     | _ \<Rightarrow> None)"

section \<open>Routes and permissions\<close>

definition isPublicRoute :: "api_request \<Rightarrow> bool" where
  "isPublicRoute r \<longleftrightarrow> URLPath r \<in> set [''/healthz'', ''/readyz'', ''/metrics'', ''/v1/approval-callbacks/slack'']"

definition parts_after :: "string \<Rightarrow> string \<Rightarrow> string list" where
  "parts_after p path = split_on (CHR ''/'') (trim_prefix path p)"

text \<open>Cases of the switch whose answer is the one after it, \<^verbatim>\<open>PermissionView\<close>, are left to that answer.\<close>

definition incident_permission :: "string list \<Rightarrow> string" where
  "incident_permission parts =
     (case parts of
        [_, sub] \<Rightarrow> if sub \<in> set [''ack'', ''resolve''] then PermissionManageIncident else PermissionView
      | [_, a, b] \<Rightarrow>
          if a = ''rca'' \<and> b = ''generate'' then PermissionGenerateRCA
          else if a = ''remediations'' \<and> b = ''suggest'' then PermissionGenerateRCA
          else if a = ''remediations'' \<and> b = ''propose'' then PermissionProposeRemediation
          else PermissionView
      | _ \<Rightarrow> PermissionView)"

definition remediation_permission :: "string list \<Rightarrow> string" where
  "remediation_permission parts =
     (case parts of
        [_, act] \<Rightarrow>
          if act \<in> set [''approve'', ''reject''] then PermissionApproveRemediation
          else if act \<in> set [''execute'', ''cancel''] then PermissionExecuteRemediation
          else PermissionView
      | _ \<Rightarrow> PermissionView)"

definition approval_permission :: "string list \<Rightarrow> string \<Rightarrow> string" where
  "approval_permission parts m =
     (case parts of
        [_, act] \<Rightarrow> if act = ''decision'' \<and> m = POST then PermissionApproveRemediation else PermissionView
      | _ \<Rightarrow> PermissionView)"

definition requiredPermission :: "api_request \<Rightarrow> string" where
  "requiredPermission r =
     (let path = URLPath r; m = rq_Method r in
      if path = ''/v1/auth/me'' \<and> m = GET then PermissionView
      else if path = ''/v1/alerts/alertmanager'' \<or> path = ''/v1/signals/manual'' then PermissionIngestSignal
      else if path = ''/v1/incidents'' \<and> m = GET then PermissionView
      else if path = ''/v1/incidents'' \<and> m = POST then PermissionManageIncident
      else if has_prefix path ''/v1/incidents/'' then incident_permission (parts_after ''/v1/incidents/'' path)
      else if has_prefix path ''/v1/remediations/'' then remediation_permission (parts_after ''/v1/remediations/'' path)
      else if path = ''/v1/approval-requests'' \<and> m = GET then PermissionView
      else if has_prefix path ''/v1/approval-requests/'' then approval_permission (parts_after ''/v1/approval-requests/'' path) m
      else if path = ''/v1/audit'' \<or> path = ''/v1/audit/verify'' then PermissionViewAudit
      else if path = ''/v1/dead-letters'' \<or> has_prefix path ''/v1/dead-letters/'' then PermissionManageDeadLetters
      else if path = ''/v1/services'' \<and> m = GET then PermissionView
      else if path = ''/v1/services'' \<and> m = POST then PermissionManageService
      else if path = ''/v1/topology'' \<and> m = GET then PermissionView
      else if path = ''/v1/topology/dependencies'' \<and> m = POST then PermissionManageService
      else if path = ''/v1/runbooks'' \<and> m = GET then PermissionView
      else if path = ''/v1/runbooks/reindex'' then PermissionReindexRunbook
      else PermissionView)"

text \<open>\<^verbatim>\<open>cleanPath\<close>: a rooted path without empty and dot segments; a final slash stays.\<close>

fun clean_segments :: "string list \<Rightarrow> string list \<Rightarrow> string list" where
  "clean_segments done [] = rev done"
| "clean_segments done (x # xs) =
     (if x = [] \<or> x = ''.'' then clean_segments done xs
      else if x = ''..'' then clean_segments (drop 1 done) xs
      else clean_segments (x # done) xs)"

definition cleanPath :: "string \<Rightarrow> string" where
  "cleanPath p =
     (let np = ''/'' @ join_str ''/'' (clean_segments [] (split_on (CHR ''/'') p))
      in if has_suffix p ''/'' \<and> np \<noteq> ''/'' then np @ ''/'' else np)"

text \<open>The patterns of \<^verbatim>\<open>Server.Handler\<close>: a handler each, for one path or for all below it.\<close>

datatype route_handler =
    Health | Ready | MetricsPage | Alertmanager | ManualSignal | CurrentPrincipal | Incidents | IncidentRoutes
  | RemediationRoutes | ApprovalRequests | SlackCallback | AuditList | AuditVerify | DeadLetters | DeadLetterRoutes
  | Services | TopologyGraph | TopologyDependencies | Runbooks | RunbookReindex

definition exact_routes :: "(string list \<times> route_handler) list" where
  "exact_routes =
     [([[], ''healthz''], Health), ([[], ''readyz''], Ready), ([[], ''metrics''], MetricsPage),
      ([[], ''v1'', ''alerts'', ''alertmanager''], Alertmanager), ([[], ''v1'', ''signals'', ''manual''], ManualSignal),
      ([[], ''v1'', ''auth'', ''me''], CurrentPrincipal), ([[], ''v1'', ''incidents''], Incidents),
      ([[], ''v1'', ''approval-requests''], ApprovalRequests),
      ([[], ''v1'', ''approval-callbacks'', ''slack''], SlackCallback), ([[], ''v1'', ''audit''], AuditList),
      ([[], ''v1'', ''audit'', ''verify''], AuditVerify), ([[], ''v1'', ''dead-letters''], DeadLetters),
      ([[], ''v1'', ''services''], Services), ([[], ''v1'', ''topology''], TopologyGraph),
      ([[], ''v1'', ''topology'', ''dependencies''], TopologyDependencies), ([[], ''v1'', ''runbooks''], Runbooks),
      ([[], ''v1'', ''runbooks'', ''reindex''], RunbookReindex)]"

definition subtree_routes :: "(string list \<times> route_handler) list" where
  "subtree_routes =
     [([[], ''v1'', ''incidents''], IncidentRoutes), ([[], ''v1'', ''remediations''], RemediationRoutes),
      ([[], ''v1'', ''approval-requests''], ApprovalRequests), ([[], ''v1'', ''dead-letters''], DeadLetterRoutes)]"

definition match_route :: "string list \<Rightarrow> route_handler option" where
  "match_route segs =
     (case map_of exact_routes segs of
        Some h \<Rightarrow> Some h
      | None \<Rightarrow> if length segs < 4 then None else map_of subtree_routes (take 3 segs))"

datatype routed = Serve route_handler | Redirect string | NoRoute

text \<open>\<^verbatim>\<open>ServeMux\<close>: a path below which there are routes, and a path that is not clean, are redirected.\<close>

definition find_handler :: "api_request \<Rightarrow> routed" where
  "find_handler r =
     (let esc = rq_EscapedPath r; path = (if rq_Method r = ''CONNECT'' then esc else cleanPath esc); segs = path_segments path in
      if match_route segs = None \<and> map_of subtree_routes segs \<noteq> None then Redirect (path @ ''/'')
      else if path \<noteq> esc then Redirect path
      else case match_route segs of Some h \<Rightarrow> Serve h | None \<Rightarrow> NoRoute)"

end
