(* ===== verification/Api.thy ===== *)
theory Api
  imports Http Remediation_Service
begin

text \<open>
  The handlers of the HTTP API, \<^verbatim>\<open>src/internal/api/server.go\<close> and \<^verbatim>\<open>src/internal/api/deadletters.go\<close>, with the
  middleware around them and the listings of \<^verbatim>\<open>src/internal/incidents/store.go\<close> and
  \<^verbatim>\<open>src/internal/audit/service.go\<close> that only they use. Metrics and log lines are left out.

  Beside the services, the server holds what the code leaves to its runtime: how PostgreSQL writes a
  stored document, whether a slot for a background summary is free, and which input of a Slack prompt a
  map yields first.
\<close>

record server =
  srv_manager :: service_manager
  srv_rca :: rca_service
  srv_service :: remediation_service
  srv_approvals :: approval_service
  srv_slack :: slack_workflow
  srv_authenticator :: authenticator
  srv_jsonb :: "string \<Rightarrow> string"
  srv_slot :: bool
  srv_pick :: nat

section \<open>Listings\<close>

definition ListServices :: "(service list) prog" where
  "ListServices =
     wrap_err ''list services'' (query (\<lambda>t d. Inr (stable_sort (\<lambda>a b. svc_Name a < svc_Name b) (services_tbl d))))"

definition runbook_value :: "runbook \<Rightarrow> gval option" where
  "runbook_value b =
     map_option (\<lambda>sid. VMap [(''id'', VStr (rb_ID b)), (''service_id'', VStr sid), (''title'', VStr (rb_Title b)),
       (''path'', VStr (rb_Path b)), (''version'', VInt (rb_Version b)), (''created_at'', VTime (rb_CreatedAt b))]) (rb_ServiceID b)"

text \<open>A row without a service does not fit the string it is scanned into.\<close>

definition ListRunbooks :: "(gval list) prog" where
  "ListRunbooks =
     bind (wrap_err ''list runbooks'' (query (\<lambda>t d. Inr (stable_sort (\<lambda>a b. rb_CreatedAt a > rb_CreatedAt b) (runbooks_tbl d))))) (\<lambda>rows.
     case all_some (map runbook_value rows) of
       None \<Rightarrow> fail (errorf ''scan runbook: converting NULL to string is unsupported'')
     | Some items \<Rightarrow> ret items)"

definition state_of :: "string \<Rightarrow> gval gomap option" where
  "state_of text = (case json_unmarshal text of Some (VMap m) \<Rightarrow> map_value (VMap m) | _ \<Rightarrow> None)"

definition scan_entry :: "audit_row \<Rightarrow> audit_row" where
  "scan_entry row = row\<lparr>aud_Entry := (aud_Entry row)\<lparr>ent_BeforeState := state_of (aud_Before row),
     ent_AfterState := state_of (aud_After row), ent_Metadata := state_of (aud_Metadata row)\<rparr>\<rparr>"

definition ListEntries :: "int \<Rightarrow> (audit_row list) prog" where
  "ListEntries limit =
     (let limit = (if limit \<le> 0 then 100 else limit) in
      wrap_err ''list audit logs'' (query (\<lambda>t d. Inr (map scan_entry (take (nat limit)
        (stable_sort (\<lambda>a b. aud_ChainPosition a > aud_ChainPosition b) (audit_logs d)))))))"

section \<open>The caller\<close>

definition actorFromRequest :: "api_request \<Rightarrow> string" where
  "actorFromRequest r = (case rq_Principal r of None \<Rightarrow> ''system'' | Some p \<Rightarrow> pr_ID p)"

definition roleFromRequest :: "api_request \<Rightarrow> string" where
  "roleFromRequest r = (case rq_Principal r of None \<Rightarrow> RoleOperator | Some p \<Rightarrow> pr_Role p)"

text \<open>Handlers answer; \<open>answer\<close> runs a call and answers its error or goes on, \<open>reads\<close> does so for the body.\<close>

definition answer :: "'a prog \<Rightarrow> (goerr \<Rightarrow> int) \<Rightarrow> ('a \<Rightarrow> response prog) \<Rightarrow> response prog" where
  "answer m status f =
     bind (attempt m) (\<lambda>got. case got of Inl err \<Rightarrow> ret (WriteError (status err) (err_text err)) | Inr x \<Rightarrow> f x)"

definition reads :: "read_error + 'a \<Rightarrow> ('a \<Rightarrow> response prog) \<Rightarrow> response prog" where
  "reads body f = (case body of Inl err \<Rightarrow> ret (WriteDecodeError err) | Inr x \<Rightarrow> f x)"

definition on_method :: "string \<Rightarrow> api_request \<Rightarrow> response prog \<Rightarrow> response prog" where
  "on_method m r h = (if rq_Method r \<noteq> m then ret method_not_allowed else h)"

definition status_body :: "string \<Rightarrow> reply" where
  "status_body s = ValueBody (VStrMap [(''status'', s)])"

definition oks :: "int \<Rightarrow> ('a \<Rightarrow> reply) \<Rightarrow> 'a \<Rightarrow> response prog" where
  "oks status f x = ret (WriteJSON status (f x))"

section \<open>Ingestion and incidents\<close>

definition handleCurrentPrincipal :: "api_request \<Rightarrow> response prog" where
  "handleCurrentPrincipal r =
     on_method GET r
       (case rq_Principal r of
          None \<Rightarrow> ret (WriteError 401 ''authenticated principal unavailable'')
        | Some p \<Rightarrow> ret (WriteJSON 200 (PrincipalBody p)))"

definition handleHealth :: "response prog" where
  "handleHealth = ret (WriteJSON 200 (status_body ''ok''))"

definition handleReady :: "response prog" where
  "handleReady = answer remote (\<lambda>_. 503) (oks 200 (\<lambda>_. status_body ''ready''))"

definition handleAlertmanager :: "server \<Rightarrow> api_request \<Rightarrow> response prog" where
  "handleAlertmanager s r =
     on_method POST r
       (reads (ReadExternalJSON decode_webhook r) (\<lambda>payload.
        answer (IngestAlertmanagerWithResult (srv_manager s) payload (actorFromRequest r)) (\<lambda>_. 500)
          (oks 202 (\<lambda>(items, stats). IngestedBody items stats))))"

definition handleIncidents :: "server \<Rightarrow> api_request \<Rightarrow> response prog" where
  "handleIncidents s r =
     (if rq_Method r = GET then answer ListIncidents (\<lambda>_. 500) (oks 200 IncidentsBody)
      else if rq_Method r = POST then
        reads (ReadManual r) (\<lambda>req. answer (CreateManual req (actorFromRequest r)) (\<lambda>_. 500) (oks 201 IncidentBody))
      else ret method_not_allowed)"

definition scenarioService :: "string \<Rightarrow> string" where
  "scenarioService scenario = (if scenario = ''nginx_5xx_spike'' then ''nginx'' else ''payments-api'')"

definition scenarioLabels :: "string \<Rightarrow> string gomap" where
  "scenarioLabels scenario =
     (if scenario = ''redis_memory_pressure'' then [(''cache_key_pattern'', ''demo:pressure:*'')]
      else if scenario = ''dependency_latency'' then [(''degradable_feature_flag'', ''payments-api/optional-notifications'')]
      else [])"

definition scenarioToAlert :: "string \<Rightarrow> string" where
  "scenarioToAlert scenario =
     (if scenario = ''postgres_connection_exhaustion'' then ''PaymentsAPIPostgresConnectionExhaustion''
      else if scenario = ''redis_memory_pressure'' then ''PaymentsAPIRedisMemoryPressure''
      else if scenario = ''nginx_5xx_spike'' then ''Nginx5xxSpike''
      else if scenario = ''dependency_latency'' then ''PaymentsAPIDependencyLatency''
      else if scenario = ''bad_config_rollout'' then ''PaymentsAPIBadConfigRollout''
      else ''DemoIncident'')"

definition scenarioToSummary :: "string \<Rightarrow> string" where
  "scenarioToSummary scenario =
     (if scenario = ''postgres_connection_exhaustion'' then ''payments-api is showing postgres connection exhaustion signals''
      else if scenario = ''redis_memory_pressure'' then ''payments-api cache performance degraded due to redis memory pressure''
      else if scenario = ''nginx_5xx_spike'' then ''nginx is returning elevated 5xx responses for the payments path''
      else if scenario = ''dependency_latency'' then ''notification-api latency is dominating request time''
      else if scenario = ''bad_config_rollout'' then ''recent config rollout likely broke payments-api connectivity''
      else ''generic demo incident'')"

definition manual_payload :: "string \<Rightarrow> string \<Rightarrow> string \<Rightarrow> int \<Rightarrow> am_webhook" where
  "manual_payload scenario service severity now =
     (let labels = foldl (\<lambda>m (k, v). map_set m k v)
            [(''alertname'', scenarioToAlert scenario), (''service'', service), (''environment'', ''local''), (''severity'', severity)]
            (scenarioLabels scenario) in
      \<lparr>wh_Version = [], wh_GroupKey = [], wh_TruncatedAlerts = 0, wh_Status = ''firing'', wh_Receiver = ''manual'', wh_ExternalURL = [],
       wh_GroupLabels = None, wh_CommonLabels = None, wh_CommonAnnotations = None,
       wh_Alerts = [\<lparr>am_Status = ''firing'', am_Labels = Some labels, am_Annotations = Some [(''summary'', scenarioToSummary scenario)],
         am_StartsAt = now, am_EndsAt = zero_time, am_Fingerprint = ''manual-'' @ scenario, am_GeneratorURL = []\<rparr>]\<rparr>)"

definition handleManualSignal :: "server \<Rightarrow> api_request \<Rightarrow> response prog" where
  "handleManualSignal s r =
     on_method POST r
       (reads (ReadSignal r) (\<lambda>(scenario, service, severity).
        bind time_now (\<lambda>now.
        let payload = manual_payload scenario (if service = [] then scenarioService scenario else service)
              (if severity = [] then ''sev2'' else severity) now in
        answer (IngestAlertmanagerWithResult (srv_manager s) payload (actorFromRequest r)) (\<lambda>_. 500)
          (oks 202 (\<lambda>(items, stats). IngestedBody items stats)))))"

definition change_state :: "string \<Rightarrow> string \<Rightarrow> string \<Rightarrow> (string \<times> bool) prog" where
  "change_state actor incidentID state =
     InTx (bind (TransitionIncident incidentID state) (\<lambda>(previous, applied).
       if \<not> applied then ret (previous, applied)
       else bind (WriteTx (entry0\<lparr>ent_ActorID := actor, ent_ActorType := ''user'', ent_Action := ''incident.'' @ state,
              ent_ResourceType := ''incident'', ent_ResourceID := incidentID,
              ent_BeforeState := Some [(''status'', VStr previous)], ent_AfterState := Some [(''status'', VStr state)]\<rparr>)) (\<lambda>_.
            ret (previous, applied))))"

definition handleIncidentStateChange :: "api_request \<Rightarrow> string \<Rightarrow> string \<Rightarrow> response prog" where
  "handleIncidentStateChange r incidentID state =
     on_method POST r
       (answer (change_state (actorFromRequest r) incidentID state)
          (\<lambda>err. if err_is err = Some ErrIncidentNotFound then 404 else 500) (\<lambda>(previous, applied).
        if \<not> applied then ret (WriteError 409 (''incident is '' @ previous @ '' and cannot move to '' @ state))
        else ret (WriteJSON 200 (status_body state))))"

definition handlePropose :: "server \<Rightarrow> api_request \<Rightarrow> string \<Rightarrow> response prog" where
  "handlePropose s r incidentID =
     answer (GetIncident incidentID) (\<lambda>_. 404) (\<lambda>incident.
     answer (ReportForProposal (srv_rca s) (srv_slot s) incident) (\<lambda>_. 500) (\<lambda>(report, candidates, reused, _).
     answer (Propose (srv_service s) incident candidates (actorFromRequest r) (roleFromRequest r)) (\<lambda>_. 500) (\<lambda>actions.
     ret (WriteJSON 202 (ProposedBody actions (rep_ID report) reused)))))"

definition no_incident_route :: response where
  "no_incident_route = WriteError 404 ''incident route not found''"

definition incident_view :: "api_request \<Rightarrow> string \<Rightarrow> string \<Rightarrow> response prog" where
  "incident_view r incidentID sub =
     (if sub = ''ack'' then handleIncidentStateChange r incidentID IncTriaged
      else if sub = ''resolve'' then handleIncidentStateChange r incidentID IncResolved
      else if sub = ''timeline'' then answer (ListTimeline incidentID) (\<lambda>_. 500) (oks 200 TimelineBody)
      else if sub = ''signals'' then answer (ListSignals incidentID) (\<lambda>_. 500) (oks 200 SignalsBody)
      else if sub = ''topology'' \<and> rq_Method r = GET then answer (GetIncidentTopology incidentID) (\<lambda>_. 500) (oks 200 TopologyBody)
      else if sub = ''rca'' \<and> rq_Method r = GET then answer (GetLatestRCAReport incidentID) (\<lambda>_. 404) (oks 200 ReportBody)
      else if sub = ''remediations'' \<and> rq_Method r = GET
      then answer (ListRemediations incidentID) (\<lambda>_. 500) (oks 200 RemediationsBody)
      else ret no_incident_route)"

definition incident_action :: "server \<Rightarrow> api_request \<Rightarrow> string \<Rightarrow> string \<Rightarrow> string \<Rightarrow> response prog" where
  "incident_action s r incidentID a b =
     (if rq_Method r \<noteq> POST then ret no_incident_route
      else if a = ''rca'' \<and> b = ''generate'' then
        answer (Generate (srv_rca s) (srv_slot s) incidentID) (\<lambda>_. 500) (\<lambda>(report, _, _). ret (WriteJSON 201 (GeneratedBody report)))
      else if a = ''remediations'' \<and> b = ''suggest'' then
        answer (SuggestRemediations (srv_rca s) incidentID) (\<lambda>_. 502) (oks 200 (\<lambda>m. ValueBody (VMap m)))
      else if a = ''remediations'' \<and> b = ''propose'' then handlePropose s r incidentID
      else ret no_incident_route)"

definition handleIncidentRoutes :: "server \<Rightarrow> api_request \<Rightarrow> response prog" where
  "handleIncidentRoutes s r =
     (case parts_after ''/v1/incidents/'' (URLPath r) of
        [] \<Rightarrow> ret no_incident_route
      | incidentID # rest \<Rightarrow>
          if incidentID = [] then ret no_incident_route
          else case rest of
            [] \<Rightarrow> if rq_Method r = GET then answer (GetIncident incidentID) (\<lambda>_. 404) (oks 200 IncidentBody) else ret no_incident_route
          | [sub] \<Rightarrow> incident_view r incidentID sub
          | [a, b] \<Rightarrow> incident_action s r incidentID a b
          | _ \<Rightarrow> ret no_incident_route)"

section \<open>Remediations and approvals\<close>

definition remediation_route :: "server \<Rightarrow> api_request \<Rightarrow> string \<Rightarrow> string \<Rightarrow> response prog" where
  "remediation_route s r rid act =
     (if act = ''approve'' then
        on_method POST r (reads (ReadReason r) (\<lambda>reason.
          answer (Approve (srv_service s) rid (actorFromRequest r) reason) (\<lambda>_. 400) (oks 200 (\<lambda>_. status_body ''approved''))))
      else if act = ''reject'' then
        on_method POST r (reads (ReadReason r) (\<lambda>reason.
          answer (Reject (srv_service s) rid (actorFromRequest r) reason) (\<lambda>_. 400) (oks 200 (\<lambda>_. status_body ''rejected''))))
      else if act = ''execute'' then
        on_method POST r (reads (if ReadDryRun r = Inl (Malformed ''EOF'') then Inr False else ReadDryRun r) (\<lambda>dryRun.
          answer (Execute (srv_service s) rid dryRun (actorFromRequest r))
            (\<lambda>err. if err_is err \<in> {Some ErrIncidentClosed, Some ErrStateChanged} then 409 else 400) (\<lambda>reused.
          ret (if reused then WriteJSON 200 (status_body ''reused'') else WriteJSON 202 (status_body ''queued'')))))
      else if act = ''cancel'' then
        on_method POST r (answer (Cancel (srv_service s) rid (actorFromRequest r))
          (\<lambda>err. if err_is err = Some ErrStateChanged then 409 else 500) (oks 200 (\<lambda>_. status_body ''cancelled'')))
      else ret (WriteError 404 ''unknown remediation action''))"

definition handleRemediationRoutes :: "server \<Rightarrow> api_request \<Rightarrow> response prog" where
  "handleRemediationRoutes s r =
     (case parts_after ''/v1/remediations/'' (URLPath r) of
        [rid, act] \<Rightarrow> remediation_route s r rid act
      | _ \<Rightarrow> ret (WriteError 404 ''remediation route not found''))"

text \<open>\<^verbatim>\<open>strings.Trim(path, "/")\<close>.\<close>

definition trim_slashes :: "string \<Rightarrow> string" where
  "trim_slashes s = trim_right_char (CHR ''/'') (dropWhile (\<lambda>c. c = CHR ''/'') s)"

definition no_approval_route :: response where
  "no_approval_route = WriteError 404 ''approval route not found''"

definition handleApprovalRequests :: "server \<Rightarrow> api_request \<Rightarrow> response prog" where
  "handleApprovalRequests s r =
     (let path = trim_prefix (URLPath r) ''/v1/approval-requests'' in
      if path = [] \<or> path = ''/'' then
        on_method GET r (answer (StoreList (query_get r ''status'') 100) (\<lambda>_. 500) (oks 200 ApprovalsBody))
      else case split_on (CHR ''/'') (trim_slashes path) of
        [rid] \<Rightarrow> if rq_Method r = GET then answer (StoreGet rid) (\<lambda>_. 404) (oks 200 ApprovalBody) else ret no_approval_route
      | [rid, act] \<Rightarrow>
          if act \<noteq> ''decision'' \<or> rq_Method r \<noteq> POST then ret no_approval_route
          else reads (ReadDecision r) (\<lambda>(decision, reason).
            answer (Decide (srv_approvals s) rid (actorFromRequest r) ''user'' decision reason ''webhook_callback'') (\<lambda>_. 400) (oks 200 ApprovalBody))
      | _ \<Rightarrow> ret no_approval_route)"

definition handleSlackApprovalCallback :: "server \<Rightarrow> api_request \<Rightarrow> response prog" where
  "handleSlackApprovalCallback s r =
     on_method POST r
       (if int (length (rq_Body r)) > maxBodyBytes r then ret (WriteDecodeError (TooLarge (maxBodyBytes r)))
        else answer (SlackHandle (srv_slack s) (srv_approvals s) (srv_pick s) (rq_Headers r) (rq_Body r))
          (\<lambda>err. if contains_str (err_text err) ''signature'' \<or> contains_str (err_text err) ''authorized'' then 401 else 400)
          (oks 200 (\<lambda>m. ValueBody (VMap m))))"

section \<open>Audit, services, topology and runbooks\<close>

definition handleAudit :: "api_request \<Rightarrow> response prog" where
  "handleAudit r = on_method GET r (answer (ListEntries 100) (\<lambda>_. 500) (oks 200 AuditBody))"

definition verifyAuditChain :: "server \<Rightarrow> verification prog" where
  "verifyAuditChain s = Verify (srv_jsonb s)"

definition handleAuditVerify :: "server \<Rightarrow> api_request \<Rightarrow> response prog" where
  "handleAuditVerify s r =
     on_method GET r (answer (verifyAuditChain s) (\<lambda>_. 500) (\<lambda>report.
       ret (WriteJSON (if Valid report then 200 else 409) (VerificationBody report))))"

definition handleServices :: "api_request \<Rightarrow> response prog" where
  "handleServices r =
     (if rq_Method r = GET then answer ListServices (\<lambda>_. 500) (oks 200 ServicesBody)
      else if rq_Method r = POST then
        reads (ReadName r) (\<lambda>name. answer (EnsureService name) (\<lambda>_. 500) (oks 201 ServiceBody))
      else ret method_not_allowed)"

definition handleTopology :: "api_request \<Rightarrow> response prog" where
  "handleTopology r = on_method GET r (answer ListServiceDependencies (\<lambda>_. 500) (oks 200 DependenciesBody))"

definition save_dependency :: "string \<Rightarrow> dependency_request \<Rightarrow> dependency prog" where
  "save_dependency actor body =
     InTx (bind (UpsertServiceDependency body) (\<lambda>item.
       bind (WriteTx (entry0\<lparr>ent_ActorID := actor, ent_ActorType := ''user'', ent_Action := ''service_dependency.upserted'',
         ent_ResourceType := ''service_dependency'', ent_ResourceID := DepID item,
         ent_AfterState := Some [(''service'', VStr (DepService item)), (''depends_on'', VStr (DependsOn item)),
           (''dependency_type'', VStr (DependencyType item)), (''criticality'', VStr (Criticality item))]\<rparr>)) (\<lambda>_. ret item)))"

definition handleTopologyDependencies :: "api_request \<Rightarrow> response prog" where
  "handleTopologyDependencies r =
     on_method POST r (reads (ReadDependency r) (\<lambda>body.
       if trim_space (dr_Service body) = [] \<or> trim_space (dr_DependsOn body) = []
       then ret (WriteError 400 ''service and depends_on are required'')
       else if dr_DependencyType body \<notin> set [[], ''synchronous'', ''asynchronous'', ''datastore'', ''edge'']
       then ret (WriteError 400 ''unsupported dependency_type'')
       else if dr_Criticality body \<notin> set [[], ''critical'', ''degraded'', ''optional'']
       then ret (WriteError 400 ''unsupported criticality'')
       else answer (save_dependency (actorFromRequest r) body) (\<lambda>_. 400) (oks 201 DependencyBody)))"

definition handleRunbooks :: "api_request \<Rightarrow> response prog" where
  "handleRunbooks r = on_method GET r (answer ListRunbooks (\<lambda>_. 500) (oks 200 (\<lambda>items. ValueBody (VList items))))"

definition handleRunbookReindex :: "server \<Rightarrow> api_request \<Rightarrow> response prog" where
  "handleRunbookReindex s r =
     on_method POST r (answer (ReindexRunbooks (srv_rca s)) (\<lambda>err. if err_is err = Some ErrAIDisabled then 503 else 502)
       (oks 200 (\<lambda>m. ValueBody (VMap m))))"

section \<open>Dead letters\<close>

definition viewDeadLetter :: "dead_letter \<Rightarrow> dead_letter_view prog" where
  "viewDeadLetter letter =
     (let view = \<lparr>dv_Letter = letter, dv_RemediationStatus = [], dv_Replayable = False\<rparr> in
      if dl_RemediationID letter = [] then ret view
      else bind (attempt (GetRemediation (dl_RemediationID letter))) (\<lambda>got.
        case got of
          Inl _ \<Rightarrow> ret view
        | Inr rem \<Rightarrow> ret (view\<lparr>dv_RemediationStatus := rem_Status rem, dv_Replayable := Dispatchable (rem_Status rem)\<rparr>)))"

definition handleDeadLetters :: "api_request \<Rightarrow> response prog" where
  "handleDeadLetters r =
     on_method GET r
       (let raw = query_get r ''limit'' in
        case (if raw = [] then Some 50 else parse_int64 raw) of
          None \<Rightarrow> ret (WriteError 400 ''limit must be between 1 and 500'')
        | Some limit \<Rightarrow>
            if limit < 1 \<or> limit > 500 then ret (WriteError 400 ''limit must be between 1 and 500'')
            else answer (ListDeadLetters limit) (\<lambda>_. 502) (\<lambda>letters.
              bind (for_each letters viewDeadLetter) (\<lambda>views. ret (WriteJSON 200 (LettersBody views)))))"

definition replay_metadata :: "dead_letter \<Rightarrow> string \<Rightarrow> gval gomap" where
  "replay_metadata letter reason =
     [(''dead_letter_sequence'', VInt (dl_Sequence letter)), (''dead_letter_kind'', VStr (dl_Kind letter)),
      (''dead_letter_reason'', VStr (dl_Reason letter)), (''deliveries'', VInt (dl_Deliveries letter)), (''reason'', VStr reason)]"

definition replayDeadLetter :: "server \<Rightarrow> api_request \<Rightarrow> dead_letter_view \<Rightarrow> gval gomap \<Rightarrow> response prog" where
  "replayDeadLetter s r view metadata =
     (let rid = dl_RemediationID (dv_Letter view) in
      if rid = [] then ret (WriteError 422
        ''this dead letter names no remediation (malformed job, or an advisory whose job has expired); discard it'')
      else if \<not> dv_Replayable view then ret (WriteJSON 409 (ValueBody (VMap
        [(''error'', VStr ''only a queued or running remediation can be replayed; discard the dead letter and propose the remediation again''),
         (''remediation_id'', VStr rid),
         (''remediation_status'', VStr (if dv_RemediationStatus view = [] then ''unknown'' else dv_RemediationStatus view))])))
      else case rs_dispatcher (srv_service s) of
        None \<Rightarrow> ret (WriteError 503 ''replay needs the local executor's remediation outbox'')
      | Some dispatcher \<Rightarrow>
          answer (Redispatch dispatcher rid DispatchReplay (actorFromRequest r) ''user'' (Some metadata))
            (\<lambda>err. if err_is err = Some ErrNotDispatchable then 409 else 500) (\<lambda>dispatchID.
          bind (attempt (DeleteDeadLetter (dl_Sequence (dv_Letter view)))) (\<lambda>deleted.
          case deleted of
            Inl err \<Rightarrow> ret (WriteJSON 202 (ValueBody (VMap [(''status'', VStr ''replayed''), (''dispatch_id'', VStr dispatchID),
              (''warning'', VStr (''job re-sent but the dead letter could not be deleted: '' @ err_text err))])))
          | Inr _ \<Rightarrow> ret (WriteJSON 202 (ValueBody (VMap [(''status'', VStr ''replayed''), (''dispatch_id'', VStr dispatchID),
              (''remediation_id'', VStr rid)]))))))"

definition discardDeadLetter :: "api_request \<Rightarrow> dead_letter_view \<Rightarrow> gval gomap \<Rightarrow> int \<Rightarrow> response prog" where
  "discardDeadLetter r view metadata seq =
     (let letter = dv_Letter view;
          (resourceType, resourceID) = (if dl_RemediationID letter \<noteq> [] then (''remediation'', dl_RemediationID letter)
            else (''dead_letter'', show_int (dl_Sequence letter))) in
      answer (Write (entry0\<lparr>ent_ActorID := actorFromRequest r, ent_ActorType := ''user'', ent_Action := ''remediation.dead_letter_discarded'',
          ent_ResourceType := resourceType, ent_ResourceID := resourceID, ent_Metadata := Some metadata\<rparr>)) (\<lambda>_. 500) (\<lambda>_.
      answer (DeleteDeadLetter seq) (\<lambda>_. 502) (\<lambda>_.
      ret (WriteJSON 200 (ValueBody (VMap [(''status'', VStr ''discarded''), (''sequence'', VInt seq),
        (''remediation_status'', VStr (dv_RemediationStatus view))]))))))"

definition handleDeadLetterRoutes :: "server \<Rightarrow> api_request \<Rightarrow> response prog" where
  "handleDeadLetterRoutes s r =
     (case parts_after ''/v1/dead-letters/'' (URLPath r) of
        [number, act] \<Rightarrow>
          if act \<noteq> ''replay'' \<and> act \<noteq> ''discard'' then ret (WriteError 404 ''not found'')
          else on_method POST r
            (case ParseUint number of (seq, ok) \<Rightarrow>
               if \<not> ok \<or> seq = 0 then ret (WriteError 400 ''dead letter sequence must be a positive integer'')
               else reads (ReadReason r) (\<lambda>reason.
                 if trim_space reason = [] then ret (WriteError 400 ''reason is required'')
                 else answer (GetDeadLetter seq) (\<lambda>err. if err_is err = Some ErrDeadLetterGone then 404 else 502) (\<lambda>letter.
                   bind (viewDeadLetter letter) (\<lambda>view.
                   let metadata = replay_metadata letter reason in
                   if act = ''replay'' then replayDeadLetter s r view metadata
                   else discardDeadLetter r view metadata seq))))
      | _ \<Rightarrow> ret (WriteError 404 ''not found''))"

section \<open>Serving a request\<close>

definition run_handler :: "server \<Rightarrow> route_handler \<Rightarrow> api_request \<Rightarrow> response prog" where
  "run_handler s h r =
     (case h of
        Health \<Rightarrow> handleHealth
      | Ready \<Rightarrow> handleReady
      | MetricsPage \<Rightarrow> ret (WriteJSON 200 MetricsBody)
      | Alertmanager \<Rightarrow> handleAlertmanager s r
      | ManualSignal \<Rightarrow> handleManualSignal s r
      | CurrentPrincipal \<Rightarrow> handleCurrentPrincipal r
      | Incidents \<Rightarrow> handleIncidents s r
      | IncidentRoutes \<Rightarrow> handleIncidentRoutes s r
      | RemediationRoutes \<Rightarrow> handleRemediationRoutes s r
      | ApprovalRequests \<Rightarrow> handleApprovalRequests s r
      | SlackCallback \<Rightarrow> handleSlackApprovalCallback s r
      | AuditList \<Rightarrow> handleAudit r
      | AuditVerify \<Rightarrow> handleAuditVerify s r
      | DeadLetters \<Rightarrow> handleDeadLetters r
      | DeadLetterRoutes \<Rightarrow> handleDeadLetterRoutes s r
      | Services \<Rightarrow> handleServices r
      | TopologyGraph \<Rightarrow> handleTopology r
      | TopologyDependencies \<Rightarrow> handleTopologyDependencies r
      | Runbooks \<Rightarrow> handleRunbooks r
      | RunbookReindex \<Rightarrow> handleRunbookReindex s r)"

definition mux :: "server \<Rightarrow> api_request \<Rightarrow> response prog" where
  "mux s r =
     (case find_handler r of
        Serve h \<Rightarrow> run_handler s h r
      | Redirect url \<Rightarrow> ret (WriteJSON 307 (RedirectBody url))
      | NoRoute \<Rightarrow> ret (WriteError 404 ''404 page not found''))"

definition authorized :: "server \<Rightarrow> api_request \<Rightarrow> principal \<Rightarrow> response prog" where
  "authorized s r p =
     (if \<not> Can p (requiredPermission r) then ret (WriteError 403 ''role is not allowed to perform this action'')
      else mux s (r\<lparr>rq_Principal := Some p\<rparr>))"

definition authMiddleware :: "server \<Rightarrow> api_request \<Rightarrow> response prog" where
  "authMiddleware s r =
     (if isPublicRoute r then mux s r
      else bind (Authenticate (srv_authenticator s) (BearerToken (header_values (rq_Headers r) ''Authorization''))) (\<lambda>who.
        case who of
          Inl _ \<Rightarrow> ret (WriteError 401 ''missing or invalid bearer token'')
        | Inr p \<Rightarrow> authorized s r p))"

definition limitRequestBodies :: "server \<Rightarrow> api_request \<Rightarrow> response prog" where
  "limitRequestBodies s r =
     (if rq_ContentLength r > maxBodyBytes r then ret (WriteError 413 (body_exceeds (maxBodyBytes r))) else authMiddleware s r)"

text \<open>\<^verbatim>\<open>Server.Handler\<close>: a request arrives without a principal in its context.\<close>

definition serve :: "server \<Rightarrow> api_request \<Rightarrow> response prog" where
  "serve s r = limitRequestBodies s (r\<lparr>rq_Principal := None\<rparr>)"

end
