(* ===== verification/Deployment.thy ===== *)
theory Deployment
  imports Config Helios_Reconcile Api
begin

text \<open>
  How the processes are put together: \<^verbatim>\<open>api.New\<close> in \<^verbatim>\<open>src/internal/api/server.go\<close> builds the services of
  the API from the settings, \<^verbatim>\<open>main\<close> of \<^verbatim>\<open>src/cmd/argus-worker\<close> the worker.
\<close>

record deployment =
  dep_service :: remediation_service
  dep_approvals :: approval_service
  dep_helios :: helios_reconcile_config
  dep_runner :: runner
  dep_server :: "verifier \<Rightarrow> (string \<Rightarrow> string) \<Rightarrow> bool \<Rightarrow> nat \<Rightarrow> string + server"
  dep_rca :: "string + rca_service"

text \<open>The notifier of the settings; \<^verbatim>\<open>api.New\<close> refuses to start where its construction fails.\<close>

definition api_notifier :: "config \<Rightarrow> notifier" where
  "api_notifier c =
     (case NewWebhookNotifier (cfg_ApprovalWebhookURL c) (cfg_ApprovalWebhookSecret c) (cfg_ApprovalCallbackBaseURL c) (cfg_ApprovalWebhookMode c) of
        Inr n \<Rightarrow> n
      | Inl _ \<Rightarrow> \<lparr>nt_webhookURL = [], nt_secret = [], nt_baseURL = [], nt_mode = ''generic''\<rparr>)"

definition api_approvals :: "config \<Rightarrow> approval_service" where
  "api_approvals c =
     NewApprovalService (api_notifier c) (cfg_ApprovalTimeout c) (cfg_ApprovalEscalateAfter c)
       (cfg_ApprovalSweepInterval c) (cfg_ApprovalAllowSelf c)"

definition api_executor :: "config \<Rightarrow> executor" where
  "api_executor c =
     (if cfg_RemediationExecutor c = ''helios''
      then HeliosExecutor (NewHeliosExecutor (cfg_HeliosBaseURL c) (cfg_HeliosAdminToken c) (cfg_HeliosPollTimeout c))
      else LocalExecutor)"

definition api_dispatcher :: "config \<Rightarrow> dispatcher_config" where
  "api_dispatcher c =
     NewDispatcher \<lparr>PollInterval = cfg_OutboxPollInterval c, BatchSize = 0, PublishTimeout = 0,
       RedispatchAfter = cfg_RedispatchAfter c, MaxRedispatches = cfg_MaxRedispatches c, ReconcileInterval = 0,
       RunningStaleAfter = cfg_RunningStaleAfter c, WorkerLiveWindow = cfg_WorkerLiveWindow c\<rparr>"

text \<open>The queue client is always there, so the executor alone decides whether jobs go through the outbox.\<close>

definition NewRemediationService :: "policy_engine \<Rightarrow> executor \<Rightarrow> approval_service \<Rightarrow> remediation_service" where
  "NewRemediationService engine x approvals =
     \<lparr>rs_policy = engine, rs_exec = x, rs_approvals = Some approvals,
      rs_dispatcher = (if isQueued x
        then Some (NewDispatcher \<lparr>PollInterval = 0, BatchSize = 0, PublishTimeout = 0, RedispatchAfter = 0, MaxRedispatches = 0,
               ReconcileInterval = 0, RunningStaleAfter = 0, WorkerLiveWindow = 0\<rparr>)
        else None)\<rparr>"

definition api_service :: "config \<Rightarrow> remediation_service" where
  "api_service c =
     (let svc = NewRemediationService (NewEngineForEnvironments (cfg_RemediationEnvironments c)) (api_executor c) (api_approvals c)
      in if rs_dispatcher svc \<noteq> None then svc\<lparr>rs_dispatcher := Some (api_dispatcher c)\<rparr> else svc)"

definition worker_runner :: "config \<Rightarrow> runner" where
  "worker_runner c =
     Configure \<lparr>Concurrency = cfg_WorkerConcurrency c, JobTimeout = cfg_WorkerJobTimeout c,
       MaxDeliver = cfg_WorkerMaxDeliver c, FetchWait = 0\<rparr> (NewRunner (DefaultHandlers True))"

definition api_rca :: "config \<Rightarrow> string + rca_service" where
  "api_rca c =
     NewRcaService (cfg_AIServiceURL c) (cfg_AIServiceToken c)
       (Some (NewCollector (cfg_RCAProbeTimeout c)
          [(Prometheus, NewPrometheus (cfg_PrometheusURL c) (cfg_PrometheusBearerToken c)),
           (Loki, NewLoki (cfg_LokiURL c) (cfg_LokiBearerToken c))]))"

text \<open>
  \<^verbatim>\<open>api.New\<close>: the server, or why the API does not start. Connecting to the database, to JetStream and to the
  OIDC provider is left out; the provider's verifier, and what the runtime decides, are parameters.
\<close>

definition NewServer :: "config \<Rightarrow> verifier \<Rightarrow> (string \<Rightarrow> string) \<Rightarrow> bool \<Rightarrow> nat \<Rightarrow> string + server" where
  "NewServer c v jsonb slot pick =
     (case ValidateConfig c of
        Some err \<Rightarrow> Inl err
      | None \<Rightarrow>
     (case newOIDCAuthenticator v (cfg_OIDCRoleClaim c) (cfg_OIDCRoleMappings c) (cfg_OIDCEmailClaim c) (cfg_OIDCDisplayNameClaim c) of
        Inl err \<Rightarrow> Inl err
      | Inr authenticator \<Rightarrow>
     (case NewWebhookNotifier (cfg_ApprovalWebhookURL c) (cfg_ApprovalWebhookSecret c) (cfg_ApprovalCallbackBaseURL c) (cfg_ApprovalWebhookMode c) of
        Inl err \<Rightarrow> Inl err
      | Inr _ \<Rightarrow>
     (case NewSlackWorkflow (cfg_ApprovalSlackSigningSecret c) (cfg_ApprovalSlackBotToken c) (cfg_ApprovalSlackApprovers c) of
        Inl err \<Rightarrow> Inl err
      | Inr slack \<Rightarrow>
          if cfg_ApprovalWebhookURL c \<noteq> [] \<and> cfg_ApprovalWebhookMode c = ''slack'' \<and> \<not> SlackEnabled slack
          then Inl ''Slack approval delivery requires signing secret, bot token, and approver identity mappings''
          else
     (case api_rca c of
        Inl err \<Rightarrow> Inl err
      | Inr rca \<Rightarrow>
          Inr \<lparr>srv_manager = SetAlertStaleAfter (NewServiceManager (cfg_IncidentGrouping c)) (cfg_AlertStaleAfter c), srv_rca = rca,
               srv_service = api_service c, srv_approvals = api_approvals c, srv_slack = slack, srv_authenticator = authenticator,
               srv_jsonb = jsonb, srv_slot = slot, srv_pick = pick\<rparr>)))))"

definition deploy :: "config \<Rightarrow> deployment" where
  "deploy c =
     \<lparr>dep_service = api_service c, dep_approvals = api_approvals c,
      dep_helios = \<lparr>hrInterval = 0, MaxRuntime = cfg_HeliosMaxRuntime c, SubmitLostAfter = cfg_HeliosSubmitLostAfter c\<rparr>,
      dep_runner = worker_runner c, dep_server = NewServer c, dep_rca = api_rca c\<rparr>"

lemma deploy_service [simp]:
  "rs_approvals (dep_service (deploy c)) = Some (dep_approvals (deploy c))"
  "rs_exec (dep_service (deploy c)) = api_executor c"
  "rs_dispatcher (dep_service (deploy c)) = (if isQueued (api_executor c) then Some (api_dispatcher c) else None)"
  by (simp_all add: deploy_def api_service_def NewRemediationService_def Let_def)

lemma deploy_self [simp]: "apAllowSelf (dep_approvals (deploy c)) = cfg_ApprovalAllowSelf c"
  by (simp add: deploy_def api_approvals_def NewApprovalService_def Let_def)

section \<open>Actions without a handler\<close>

text \<open>
  The analysis proposes diagnostics when nothing else is safe, and the policy engine lets only them run
  unattended; but the worker has no handler for them, nor for scaling, which the catalog also registers.
\<close>

lemma no_diagnostics_handler:
  "map_of (run_handlers (worker_runner c)) CollectDiagnostics = None \<and> map_of (run_handlers (worker_runner c)) ScaleWorkerSimulation = None"
proof -
  have "map_of (run_handlers (NewRunner (DefaultHandlers True))) CollectDiagnostics = None"
    "map_of (run_handlers (NewRunner (DefaultHandlers True))) ScaleWorkerSimulation = None" by code_simp+
  then show ?thesis by (simp add: worker_runner_def Configure_def Let_def)
qed

section \<open>Timeouts that fit together\<close>

text \<open>Settings with a job timeout of zero, which the worker replaces by its default of two minutes.\<close>

definition zero_timeout :: "string \<Rightarrow> string" where
  "zero_timeout k = (if k = ''ARGUS_WORKER_JOB_TIMEOUT'' then ''0s'' else if k = ''ARGUS_RUNNING_STALE_AFTER'' then ''40s'' else [])"

lemma zero_timeout_passes:
  "ValidateConfig (Load zero_timeout) = None \<and>
   RunningStaleAfter (api_dispatcher (Load zero_timeout)) < JobTimeout (run_cfg (worker_runner (Load zero_timeout)))"
proof -
  have "ValidateConfig (Load zero_timeout) = None" by code_simp
  moreover have "RunningStaleAfter (api_dispatcher (Load zero_timeout)) < JobTimeout (run_cfg (worker_runner (Load zero_timeout)))" by code_simp
  ultimately show ?thesis ..
qed



end
