(* ===== verification/Control_Ingestion.thy ===== *)
theory Control_Ingestion
  imports Control_Execution Rca
begin

text \<open>
  Ingesting alerts, opening incidents, maintaining the service graph and analysing root causes take
  only steps of the control machine: of its tables they touch the RCA reports, to which an analysis
  with the compiled table adds sound findings, and the ledger.
\<close>

section \<open>Statements beside the machine\<close>

lemma tx_aside [evo]:
  "(\<And>t d x d'. f t d = Inr (x, d') \<Longrightarrow> same_tables d d') \<Longrightarrow> tx_evolves (follows self loc) (sql f)"
  by (rule flow.tx_sql) (blast intro: follows_step control.aside)

lemma tx_aside_exec [evo]:
  "(\<And>t d. same_tables d (snd (f t d))) \<Longrightarrow> tx_evolves (follows self loc) (exec f)"
  by (rule flow.tx_exec) (blast intro: follows_step control.aside)

lemma aside_sql:
  "(\<And>t d x d'. f t d = Inr (x, d') \<Longrightarrow> same_tables d d') \<Longrightarrow> evolves (follows self loc) (sql f)"
  by (rule flow.evolves_sql) (blast intro: follows_step control.aside)

lemma aside_exec: "(\<And>t d. same_tables d (snd (f t d))) \<Longrightarrow> evolves (follows self loc) (exec f)"
  by (rule flow.evolves_exec) (blast intro: follows_step control.aside)

lemma inserts_aside:
  "insert_service s d = Inr (x, d') \<Longrightarrow> same_tables d d'" "upsert_dependency e d = Inr (y, d') \<Longrightarrow> same_tables d d'"
  "insert_incident i d = Inr (x, d') \<Longrightarrow> same_tables d d'" "promote_incident a b c sv k f su st t d = Inr (x, d') \<Longrightarrow> same_tables d d'"
  "upsert_alert iid obs t d = Inr (x, d') \<Longrightarrow> same_tables d d'" "touch_incident iid t d = Inr (z, d') \<Longrightarrow> same_tables d d'"
  "insert_signal sg d = Inr (x, d') \<Longrightarrow> same_tables d d'" "insert_timeline ev d = Inr (x, d') \<Longrightarrow> same_tables d d'"
  by (auto simp: same_tables_def dest!: stored)

section \<open>The store\<close>

lemma store_follows [evo]:
  "tx_evolves (follows self loc) (EnsureService name)" "tx_evolves (follows self loc) (AddSignal sg)"
  "tx_evolves (follows self loc) (AddTimelineEvent ev)" "tx_evolves (follows self loc) (MarkAlertFiring iid obs)"
  unfolding EnsureService_def AddSignal_def AddTimelineEvent_def MarkAlertFiring_def Let_def
  by (intro evo; (elim inserts_aside)?)+

lemma SaveRCAReport_follows:
  assumes "sound_report r" shows "tx_evolves (follows self loc) (SaveRCAReport r)"
proof (rule tx_evolvesI)
  fix h t d x d' assume "commits (SaveRCAReport r) h t d x d'"
  then obtain q where "insert_report q d = Inr ((), d')" and "rep_Candidates q = rep_Candidates r" "rep_Score q = rep_Score r"
    unfolding SaveRCAReport_def by (auto dest!: tx split: if_splits)
  moreover from this(2,3) have "sound_report q" using assms by (simp add: sound_report_def)
  ultimately show "follows self loc h d d'" using insert_report_grows by (blast intro: follows_step control.report)
qed

lemma marks_follow [evo]:
  "tx_evolves (follows self loc) (MarkAlertResolved iid k r s)" "tx_evolves (follows self loc) (MarkAlertsCleared iid)"
  unfolding MarkAlertResolved_def MarkAlertsCleared_def by (intro evo; simp add: same_tables_def)+

lemma reads_follow [evo]:
  "tx_evolves (follows self loc) ListServiceDependencies" "tx_evolves (follows self loc) (ListOpenIncidents g)"
  "tx_evolves (follows self loc) (FindOpenByDedupeKey k g)" "tx_evolves (follows self loc) (FindIncidentForResolvedAlert k)"
  "tx_evolves (follows self loc) (GetIncident iid)"
  unfolding ListServiceDependencies_def ListOpenIncidents_def FindOpenByDedupeKey_def FindIncidentForResolvedAlert_def GetIncident_def
  by (intro evo)+

lemma creations_follow [evo]:
  "tx_evolves (follows self loc) (CreateManualIncident req)"
  "tx_evolves (follows self loc) (CreateAlertIncident ti sn en sv dk fp su st)"
  "tx_evolves (follows self loc) (PromoteIncidentRoot iid rs ti sv dk fp su st)"
  "tx_evolves (follows self loc) (GetIncidentTopology iid)"
  unfolding CreateManualIncident_def CreateAlertIncident_def PromoteIncidentRoot_def GetIncidentTopology_def Let_def
  by (intro evo; (elim inserts_aside)?)+

section \<open>Ingestion\<close>

lemma collect_follows [evo]: "tx_evolves (follows self loc) (collect_alerts payload as)"
  by (induction as) (simp only: collect_alerts.simps Let_def, intro evo; assumption)+

lemma resolve_follows [evo]: "tx_evolves (follows self loc) (resolveAlert m a actor stats)"
  unfolding resolveAlert_def resolve_on_def writeAudit_def Let_def by (intro evo)

lemma resolve_all_follows [evo]: "tx_evolves (follows self loc) (resolve_all m actor as stats)"
  by (induction as arbitrary: stats) (simp only: resolve_all.simps, intro evo; assumption)+

lemma group_follows [evo]:
  "tx_evolves (follows self loc) (findOrCreateTopologyIncident m gr g a opened)"
  "tx_evolves (follows self loc) (attachTopologyAlert i a path inferred suppressed)"
  unfolding findOrCreateTopologyIncident_def attachTopologyAlert_def by (intro evo)+

lemma attach_all_follows [evo]: "tx_evolves (follows self loc) (attach_all gr actor i inferred as stats)"
  by (induction as arbitrary: stats) (simp only: attach_all.simps writeAudit_def Let_def, intro evo; assumption)+

lemma ingest_group_follows [evo]: "tx_evolves (follows self loc) (ingest_group m gr actor g as opened stats)"
  unfolding ingest_group_def writeAudit_def by (intro evo)

lemma ingest_groups_follows [evo]: "tx_evolves (follows self loc) (ingest_groups m gr actor alerts gs opened stats)"
  by (induction gs arbitrary: opened stats) (simp only: ingest_groups.simps Let_def, intro evo; assumption)+

lemma ingest_follows [evo]: "tx_evolves (follows self loc) (ingest m payload actor)"
  unfolding ingest_def normalizeAlerts_def Let_def by (intro evo)

lemma lock_keeps: "tx_evolves (follows self loc) LockIncidentIngestion"
proof (rule tx_evolvesI)
  fix h t d x d'
  assume "commits LockIncidentIngestion h t d x d'"
  then obtain e w w' where e: "tx_time e = Some t" "sha256 e = h" "db w = d" "db w' = d'"
      "wrap_err ''acquire topology ingestion lock'' (query (\<lambda>t d. Inr ())) e w = (Inr x, w')"
    unfolding commits_def LockIncidentIngestion_def by auto
  have "commits (wrap_err ''acquire topology ingestion lock'' (query (\<lambda>t d. Inr ()))) h t d x d'"
    unfolding commits_def using e by blast
  then show "follows self loc h d d'" by (auto simp: flow.refl dest!: tx)
qed

lemma Ingest_follows [evo]: "evolves (follows self loc) (IngestAlertmanagerWithResult m payload actor)"
  unfolding IngestAlertmanagerWithResult_def by (intro flow.evolves_InTx flow.tx_bind lock_keeps evo)

lemma CreateManual_follows [evo]: "evolves (follows self loc) (CreateManual req actor)"
  unfolding CreateManual_def by (intro flow.evolves_InTx evo)

section \<open>Root cause analysis\<close>

text \<open>The queriers of a collector only read from their backends.\<close>

definition read_only :: "collector option \<Rightarrow> bool" where
  "read_only c \<longleftrightarrow> (\<forall>k. c = Some k \<longrightarrow> (\<forall>b q. map_of (col_backends k) b = Some q \<longrightarrow> (\<forall>text now. keeps (q text now))))"

lemma Instant_keeps: "keeps (Instant q text now)"
  unfolding Instant_def by (intro keep)

lemma read_only_http: "read_only (Some (NewCollector timeout [(Prometheus, NewPrometheus pu pt), (Loki, NewLoki lu lt)]))"
  by (auto simp: read_only_def NewCollector_def NewPrometheus_def NewLoki_def newHTTPQuerier_def Let_def Instant_keeps
      split: if_splits option.splits)

lemma keeps_runOne:
  assumes "read_only c"
  shows "keeps (runOne c p service now)"
proof -
  have "keeps (q s now)" if "Option.bind c (\<lambda>k. map_of (col_backends k) (pb_Backend p)) = Some q" for q s
    using assms that by (cases c) (auto simp: read_only_def)
  then show ?thesis
    unfolding runOne_def Let_def by (auto split: sum.splits option.splits intro!: keep)
qed

lemma keeps_for_each: "(\<And>x. keeps (f x)) \<Longrightarrow> keeps (for_each xs f)"
  by (induction xs) (auto intro!: keep)

lemma keeps_analyze: "read_only (rs_collector svc) \<Longrightarrow> keeps (analyze svc i ss topo)"
  unfolding analyze_def collectEvidence_def RunProbes_def Let_def by (intro keep keeps_for_each keeps_runOne)

lemma analyze_follows: "read_only (rs_collector svc) \<Longrightarrow> evolves (follows self loc) (analyze svc i ss topo)"
  by (intro flow.evolves_keeps keeps_analyze)

lemma incident_reads_follow [evo]:
  "evolves (follows self loc) (ListSignals iid)" "evolves (follows self loc) (GetIncidentTopology iid)"
  "evolves (follows self loc) (GetLatestRCAReport iid)" "evolves (follows self loc) ListServiceDependencies"
  unfolding ListSignals_def GetIncidentTopology_def GetLatestRCAReport_def ListServiceDependencies_def by (intro evo)+

lemma UpdateRCAReportLLM_follows [evo]: "evolves (follows self loc) (UpdateRCAReportLLM rid status s b mdl)"
  unfolding UpdateRCAReportLLM_def
  by (intro evo flow.evolves_exec follows_step, simp, rule control.report [OF reports_grow_update refl]) (simp add: finding_def)

lemma save_report_follows:
  assumes "sound_report r" shows "evolves (follows self loc) (save_report r)"
proof -
  have "tx_evolves (follows self loc) (for_each evs AddTimelineEvent)" for evs
    by (induction evs) (simp_all only: for_each.simps, (intro evo; assumption)+)
  then show ?thesis unfolding save_report_def by (intro flow.evolves_InTx evo SaveRCAReport_follows assms)
qed

text \<open>The service as it is deployed: with the compiled table, over backends that only answer.\<close>

definition deployed :: "rca_service \<Rightarrow> bool" where
  "deployed svc \<longleftrightarrow> NewWithRules DefaultRules = Inr (rs_correlator svc) \<and> read_only (rs_collector svc)"

lemma NewRcaService_deployed:
  "\<exists>svc. NewRcaService url tok (Some (NewCollector timeout [(Prometheus, NewPrometheus pu pt), (Loki, NewLoki lu lt)])) = Inr svc \<and> deployed svc"
proof -
  obtain c where "NewWithRules DefaultRules = Inr c" by (auto simp: NewWithRules_def default_rules_valid)
  then show ?thesis by (simp add: NewRcaService_def deployed_def read_only_http)
qed

lemma analyze_results:
  "NewWithRules DefaultRules = Inr (rs_correlator svc) \<Longrightarrow> results (analyze svc i ss topo) sound_analysis"
  unfolding analyze_def Let_def by (intro results_bind results_ret analysis_sound Match_rules)

lemma Generate_follows:
  assumes "deployed svc" shows "evolves (follows self loc) (Generate svc slot iid)"
proof -
  have report: "sound_report (report_of svc rid iid r topo now)" if "sound_analysis r" for rid r topo now
    using that by (simp add: sound_report_def sound_analysis_def report_of_def)
  have analysed: "evolves (follows self loc) (bind (analyze svc i ss topo) f)" if "\<And>r. sound_analysis r \<Longrightarrow> evolves (follows self loc) (f r)"
    for i ss topo and f :: "analysis \<Rightarrow> (rca_report \<times> rca_candidate list \<times> summary_task option) prog"
    using assms that unfolding deployed_def
    by (intro flow.evolves_bind_results [OF flow.evolves_keeps analyze_results] keeps_analyze) auto
  have reads: "evolves (follows self loc) (GetIncident iid)" "evolves (follows self loc) (ListSignals iid)"
    "evolves (follows self loc) (GetIncidentTopology iid)" by (intro evo)+
  show ?thesis
    unfolding Generate_def summarizeLater_def Let_def
    by (intro flow.evolves_bind [OF reads(1)] flow.evolves_bind [OF reads(2)] flow.evolves_bind [OF reads(3)])
      (rule analysed, intro evo save_report_follows report)
qed

lemma ReportForProposal_follows: "deployed svc \<Longrightarrow> evolves (follows self loc) (ReportForProposal svc slot i)"
  unfolding ReportForProposal_def Let_def by (intro evo Generate_follows)

lemma summarize_follows: "evolves (follows self loc) (summarize svc task)"
  unfolding summarize_def callAdvisor_def by (intro evo)

lemma SuggestRemediations_follows: "deployed svc \<Longrightarrow> evolves (follows self loc) (SuggestRemediations svc iid)"
  unfolding SuggestRemediations_def deployed_def by (intro evo analyze_follows) simp

end
