(* ===== verification/Ingestion_Correct.thy ===== *)
theory Ingestion_Correct
  imports Ingestion Outcomes
begin

text \<open>
  What a committed delivery of alerts did to the database. An observation of the tables that an
  operation cannot change stays as it is: \<open>unchanged\<close> is an evolution for every observation, and each
  operation of the store is placed in it once, for all observations that do not look at its tables.
\<close>

section \<open>Observations\<close>

definition unchanged :: "(database \<Rightarrow> 'a) \<Rightarrow> change" where
  "unchanged f h d d' \<longleftrightarrow> f d' = f d"

interpretation still: evolution "unchanged f" for f
  by unfold_locales (simp_all add: unchanged_def)

text \<open>
  An observation that looks neither at services, the timeline and the state of alerts nor at what
  ingestion updates in an incident.
\<close>

definition updates :: "(incident \<Rightarrow> incident) \<Rightarrow> bool" where
  "updates g \<longleftrightarrow> (\<forall>i. inc_ID (g i) = inc_ID i \<and> inc_Status (g i) = inc_Status i \<and> inc_Environment (g i) = inc_Environment i \<and>
     inc_ResolvedAt (g i) = inc_ResolvedAt i)"

definition blind :: "(database \<Rightarrow> 'a) \<Rightarrow> bool" where
  "blind f \<longleftrightarrow>
     (\<forall>d x. f (d\<lparr>services_tbl := x\<rparr>) = f d) \<and> (\<forall>d x. f (d\<lparr>timeline := x\<rparr>) = f d) \<and>
     (\<forall>d x. f (d\<lparr>incident_alerts := x\<rparr>) = f d) \<and>
     (\<forall>d P g. updates g \<longrightarrow> f (d\<lparr>incidents := update_rows P g (incidents d)\<rparr>) = f d)"

lemma blindD:
  "blind f \<Longrightarrow> f (d\<lparr>services_tbl := x\<rparr>) = f d" "blind f \<Longrightarrow> f (d\<lparr>timeline := y\<rparr>) = f d"
  "blind f \<Longrightarrow> f (d\<lparr>incident_alerts := z\<rparr>) = f d"
  "blind f \<Longrightarrow> updates g \<Longrightarrow> f (d\<lparr>incidents := update_rows P g (incidents d)\<rparr>) = f d"
  by (simp_all add: blind_def)

lemma still_store [evo]:
  "blind f \<Longrightarrow> tx_evolves (unchanged f) (EnsureService name)"
  "blind f \<Longrightarrow> tx_evolves (unchanged f) (AddTimelineEvent ev)"
  "blind f \<Longrightarrow> tx_evolves (unchanged f) (MarkAlertFiring iid obs)"
  "blind f \<Longrightarrow> tx_evolves (unchanged f) (MarkAlertResolved iid k r s)"
  "blind f \<Longrightarrow> tx_evolves (unchanged f) (MarkAlertsCleared iid)"
  "blind f \<Longrightarrow> tx_evolves (unchanged f) (PromoteIncidentRoot iid rs ti sv dk fp su st)"
  unfolding EnsureService_def AddTimelineEvent_def MarkAlertFiring_def MarkAlertResolved_def MarkAlertsCleared_def
    PromoteIncidentRoot_def GetIncident_def Let_def
  by (intro evo still.tx_sql still.tx_exec; (auto simp: unchanged_def updates_def intro!: blindD dest!: stored; fail)?)+

lemma still_reads [evo]:
  "tx_evolves (unchanged f) ListServiceDependencies" "tx_evolves (unchanged f) (ListOpenIncidents g)"
  "tx_evolves (unchanged f) (FindOpenByDedupeKey k g)" "tx_evolves (unchanged f) (FindIncidentForResolvedAlert k)"
  "tx_evolves (unchanged f) (GetIncidentTopology iid)"
  unfolding ListServiceDependencies_def ListOpenIncidents_def FindOpenByDedupeKey_def FindIncidentForResolvedAlert_def
    GetIncidentTopology_def GetIncident_def
  by (intro evo)+

lemma still_AddSignal:
  "(\<And>d x. f (d\<lparr>signals := x\<rparr>) = f d) \<Longrightarrow> tx_evolves (unchanged f) (AddSignal sg)"
  unfolding AddSignal_def by (intro evo still.tx_sql) (auto simp: unchanged_def dest!: stored)

lemma still_writeAudit:
  "(\<And>d r s. row_of ent r \<Longrightarrow> f (d\<lparr>audit_logs := audit_logs d @ [r], audit_chain_state := s\<rparr>) = f d) \<Longrightarrow>
     tx_evolves (unchanged f) (writeAudit ent)"
  unfolding writeAudit_def tx_evolves_def unchanged_def
  by (auto simp: appended_def dest!: commits_wrap_err WriteTx_commits)

section \<open>Every alert becomes a signal\<close>

lemma blind_signals [simp]: "blind signals"
  by (simp add: blind_def)

lemma still_signals [evo]:
  "tx_evolves (unchanged signals) (writeAudit ent)"
  "tx_evolves (unchanged signals) (CreateAlertIncident ti sn en sv dk fp su st)"
  unfolding CreateAlertIncident_def Let_def
  by (rule still_writeAudit, simp) (intro evo blind_signals still.tx_sql, auto simp: unchanged_def dest!: stored)

text \<open>
  What a program makes of one observation, when the steps around the one that matters leave the
  observation as it is.
\<close>

lemma yields_after:
  assumes "tx_evolves (unchanged f) m" "\<And>x. yields (\<lambda>_ d d'. Q (f d) (f d')) (g x)"
  shows "yields (\<lambda>_ d d'. Q (f d) (f d')) (bind m g)"
proof (rule yieldsI)
  fix h t d y d' assume "commits (bind m g) h t d y d'"
  then obtain x d1 where "commits m h t d x d1" and y: "commits (g x) h t d1 y d'" by (blast dest!: commits_bind)
  then have "f d1 = f d" using tx_evolvesD [OF assms(1)] by (auto simp: unchanged_def)
  with yieldsD [OF assms(2) y] show "Q (f d) (f d')" by simp
qed

lemma yields_before:
  assumes "yields (\<lambda>_ d d'. Q (f d) (f d')) m" "\<And>x. tx_evolves (unchanged f) (g x)"
  shows "yields (\<lambda>_ d d'. Q (f d) (f d')) (bind m g)"
proof (rule yieldsI)
  fix h t d y d' assume "commits (bind m g) h t d y d'"
  then obtain x d1 where x: "commits m h t d x d1" and "commits (g x) h t d1 y d'" by (blast dest!: commits_bind)
  then have "f d' = f d1" using tx_evolvesD [OF assms(2)] by (auto simp: unchanged_def)
  with yieldsD [OF assms(1) x] show "Q (f d) (f d')" by simp
qed

text \<open>One more signal for each alert of a list, in its order.\<close>

definition logs :: "('a \<Rightarrow> signal \<Rightarrow> bool) \<Rightarrow> 'a list \<Rightarrow> signal list \<Rightarrow> signal list \<Rightarrow> bool" where
  "logs P as ss ss' \<longleftrightarrow> (\<exists>new. ss' = ss @ new \<and> list_all2 P as new)"

lemma logs_trans: "logs P as ss ss1 \<Longrightarrow> logs P bs ss1 ss' \<Longrightarrow> logs P (as @ bs) ss ss'"
  unfolding logs_def by (auto intro!: list_all2_appendI)

lemma logs_none [simp]: "logs P [] ss ss' \<longleftrightarrow> ss' = ss"
  by (simp add: logs_def)

lemma logs_mono: "logs P as ss ss' \<Longrightarrow> (\<And>a s. a \<in> set as \<Longrightarrow> P a s \<Longrightarrow> Q a s) \<Longrightarrow> logs Q as ss ss'"
  unfolding logs_def by (blast intro: list.rel_mono_strong)

lemmas logs_after = yields_after [where f = signals and Q = "logs P as" for P as]

lemma logs_signal:
  assumes "\<And>s. sig_Source s = sig_Source sg \<Longrightarrow> sig_SignalType s = sig_SignalType sg \<Longrightarrow> sig_Name s = sig_Name sg \<Longrightarrow>
      sig_Severity s = sig_Severity sg \<Longrightarrow> sig_IncidentID s = sig_IncidentID sg \<Longrightarrow>
      sig_ObservedAt s = trunc_micro (sig_ObservedAt sg) \<Longrightarrow> stored_map (sig_Body sg) = Some (sig_Body s) \<Longrightarrow> P a s"
    "\<And>x. tx_evolves (unchanged signals) (f x)"
  shows "yields (\<lambda>_ d d'. logs P [a] (signals d) (signals d')) (bind (AddSignal sg) f)"
proof (rule yields_before [where f = signals and Q = "logs P [a]"])
  show "yields (\<lambda>_ d d'. logs P [a] (signals d) (signals d')) (AddSignal sg)"
    unfolding AddSignal_def
    by (rule yieldsI)
      (auto simp: logs_def insert_signal_def intro!: assms(1) dest!: tx split: if_splits option.splits)
qed (rule assms(2))

text \<open>
  What the signal of an alert says. A firing one is stored under the incident its group went to, with
  the root of that incident; it is suppressed when it comes from another service than the root.
\<close>

definition says :: "normalized_alert \<Rightarrow> gval gomap \<Rightarrow> int \<Rightarrow> signal \<Rightarrow> bool" where
  "says a body when s \<longleftrightarrow>
     sig_Source s = alertmanager \<and> sig_SignalType s = ''alert'' \<and> sig_Name s = na_alertName a \<and> sig_Severity s = na_severity a \<and>
     sig_ObservedAt s = trunc_micro when \<and>
     stored_map ([(''labels'', label_value (am_Labels (na_alert a))), (''annotations'', label_value (am_Annotations (na_alert a))),
        (''generator'', VStr (am_GeneratorURL (na_alert a)))] @ body) = Some (sig_Body s)"

definition says_firing :: "incident list \<Rightarrow> normalized_alert \<Rightarrow> signal \<Rightarrow> bool" where
  "says_firing is a s \<longleftrightarrow>
     (\<exists>i inferred path. i \<in> set is \<and> sig_IncidentID s = inc_ID i \<and>
        says a [(''status'', VStr (am_Status (na_alert a))),
          (''topology'', VMap
            [(''root_service'', VStr (inc_Service i)), (''observed_service'', VStr (na_service a)), (''root_inferred'', VBool inferred),
             (''suppressed'', VBool (na_service a \<noteq> inc_Service i)), (''dependency_path'', VStrs path)])]
          (am_StartsAt (na_alert a)) s)"

definition says_resolved :: "string set \<Rightarrow> normalized_alert \<Rightarrow> signal \<Rightarrow> bool" where
  "says_resolved held a s \<longleftrightarrow>
     sig_IncidentID s \<in> held \<and>
     (\<exists>ended. (if am_EndsAt (na_alert a) = zero_time then True else ended = am_EndsAt (na_alert a)) \<and>
        says a [(''status'', VStr ''resolved''), (''ends_at'', VTime ended)] ended s)"

lemma says_firing_mono: "says_firing is a s \<Longrightarrow> set is \<subseteq> set js \<Longrightarrow> says_firing js a s"
  unfolding says_firing_def by blast

lemma attach_logs:
  assumes "b \<longleftrightarrow> na_service a \<noteq> inc_Service i"
  shows "yields (\<lambda>_ d d'. logs (says_firing [i]) [a] (signals d) (signals d')) (attachTopologyAlert i a path inferred b)"
  unfolding attachTopologyAlert_def
proof (rule logs_signal)
  show "tx_evolves (unchanged signals) (bind (MarkAlertFiring iid obs) (\<lambda>refired. bind (if refired then AddTimelineEvent ev else ret ()) (\<lambda>_. AddTimelineEvent ev')))"
    for iid obs ev ev' by (intro evo blind_signals)
qed (use assms in \<open>auto simp: signal_for_def says_firing_def says_def\<close>)

lemma attach_all_logs: "yields (\<lambda>_ d d'. logs (says_firing [i]) as (signals d) (signals d')) (attach_all gr actor i inferred as stats)"
proof (induction as arbitrary: stats)
  case (Cons a as)
  let ?p = "path_to gr (na_service a) (inc_Service i)" and ?b = "na_service a \<noteq> inc_Service i"
  show ?case
  proof (rule yieldsI)
    fix h t d x d' assume "commits (attach_all gr actor i inferred (a # as) stats) h t d x d'"
    then obtain y d1 z d2 s where 1: "commits (attachTopologyAlert i a ?p inferred ?b) h t d y d1"
      and 2: "commits (if ?b then writeAudit (suppressed_entry actor i a ?p) else ret ()) h t d1 z d2"
      and 3: "commits (attach_all gr actor i inferred as s) h t d2 x d'"
      unfolding attach_all.simps Let_def by (blast dest!: commits_bind)
    have "tx_evolves (unchanged signals) (if ?b then writeAudit (suppressed_entry actor i a ?p) else ret ())" by (intro evo)
    then have "signals d2 = signals d1" using 2 by (auto simp: unchanged_def dest: tx_evolvesD)
    with logs_trans [OF yieldsD [OF attach_logs [OF refl] 1]] yieldsD [OF Cons.IH 3]
    show "logs (says_firing [i]) (a # as) (signals d) (signals d')" by fastforce
  qed
qed (simp add: yields_ret)

lemma still_find [evo]: "tx_evolves (unchanged signals) (findOrCreateTopologyIncident m gr g a opened)"
  unfolding findOrCreateTopologyIncident_def by (intro evo blind_signals)

lemma ingest_group_logs:
  "yields (\<lambda>r d d'. logs (says_firing [fst r]) as (signals d) (signals d')) (ingest_group m gr actor g as opened stats)"
proof (rule yieldsI)
  fix h t d r d' assume "commits (ingest_group m gr actor g as opened stats) h t d r d'"
  then obtain z d0 q d1 u d2 v d3 s where f: "commits (findOrCreateTopologyIncident m gr g (rootAlertForGroup as (Root g)) opened) h t d z d0"
    and q: "commits (if \<not> fst (snd z) \<and> \<not> snd (snd z) then bind (GetIncidentTopology (inc_ID (fst z))) (\<lambda>analysis. ret (it_RootInferred analysis))
              else ret (Inferred g)) h t d0 q d1"
    and u: "commits (if fst (snd z) then writeAudit (detected_entry actor (fst z) q g) else ret ()) h t d1 u d2"
    and v: "commits (if snd (snd z) then writeAudit (promoted_entry actor (fst z) q) else ret ()) h t d2 v d3"
    and c: "commits (attach_all gr actor (fst z) q as (count_group g q stats)) h t d3 s d'" and r: "fst r = fst z"
    unfolding ingest_group_def case_prod_beta by (force dest!: commits_bind commits_ret)
  have "tx_evolves (unchanged signals) (if \<not> fst (snd z) \<and> \<not> snd (snd z) then bind (GetIncidentTopology (inc_ID (fst z))) (\<lambda>analysis. ret (it_RootInferred analysis))
              else ret (Inferred g))"
    "tx_evolves (unchanged signals) (if fst (snd z) then writeAudit (detected_entry actor (fst z) q g) else ret ())"
    "tx_evolves (unchanged signals) (if snd (snd z) then writeAudit (promoted_entry actor (fst z) q) else ret ())"
    by (intro evo)+
  then have "signals d3 = signals d"
    using tx_evolvesD [OF still_find f] q u v by (auto simp: unchanged_def dest!: tx_evolvesD)
  with yieldsD [OF attach_all_logs c] r show "logs (says_firing [fst r]) as (signals d) (signals d')" by simp
qed

lemma ingest_groups_logs:
  "yields (\<lambda>r d d'. logs (says_firing (fst r)) (concat (map (alertsForGroup alerts) gs)) (signals d) (signals d'))
     (ingest_groups m gr actor alerts gs opened stats)"
proof (induction gs arbitrary: opened stats)
  case (Cons g gs)
  show ?case
  proof (cases "alertsForGroup alerts g = []")
    case False
    show ?thesis
    proof (rule yieldsI)
      fix h t d r d' assume "commits (ingest_groups m gr actor alerts (g # gs) opened stats) h t d r d'"
      then obtain x d1 y where 1: "commits (ingest_group m gr actor g (alertsForGroup alerts g) opened stats) h t d x d1"
        and 2: "commits (ingest_groups m gr actor alerts gs (appendOrReplaceIncident opened (fst x)) (snd x)) h t d1 y d'"
        and r: "fst r = fst x # fst y"
        using False by (auto simp: Let_def case_prod_beta dest!: commits_bind commits_ret)
      have "logs (says_firing (fst r)) (alertsForGroup alerts g) (signals d) (signals d1)"
        by (rule logs_mono [OF yieldsD [OF ingest_group_logs 1]]) (erule says_firing_mono, simp add: r)
      moreover have "logs (says_firing (fst r)) (concat (map (alertsForGroup alerts) gs)) (signals d1) (signals d')"
        by (rule logs_mono [OF yieldsD [OF Cons.IH 2]]) (erule says_firing_mono, auto simp: r)
      ultimately show "logs (says_firing (fst r)) (concat (map (alertsForGroup alerts) (g # gs))) (signals d) (signals d')"
        by (simp add: logs_trans)
    qed
  qed (use Cons.IH in simp)
qed (simp add: yields_ret)

section \<open>Every firing alert belongs to one group\<close>

lemma one_member:
  assumes "mset (concat Ms) = mset_set S" "finite S" "x \<in> S"
  shows "length (filter (\<lambda>M. x \<in> set M) Ms) = 1"
proof -
  have n: "count_list (concat Ms) x = 1"
    using assms by (metis count_mset_set(1) count_mset)
  have "length (filter (\<lambda>M. x \<in> set M) Ms) = count_list (concat Ms) x" if "count_list (concat Ms) x \<le> 1" for Ms
    using that
  proof (induction Ms)
    case (Cons M Ms)
    then show ?case using count_list_0_iff [of M x] by (cases "x \<in> set M") auto
  qed simp
  with n show ?thesis by simp
qed

lemma sum_one: "distinct xs \<Longrightarrow> y \<in> set xs \<Longrightarrow> sum_list (map (\<lambda>x. if x = y then (1::nat) else 0) xs) = 1"
  by (induction xs) (auto simp: sum_list_0 cong: map_cong)

definition in_group :: "normalized_alert \<Rightarrow> group \<Rightarrow> bool" where
  "in_group a g \<longleftrightarrow> na_environment a = GroupEnvironment g \<and> na_service a \<in> set (Members g)"

lemma one_group:
  assumes "a \<in> set alerts" "na_service a \<noteq> []"
  shows "length (filter (in_group a) (topologyGroupsByEnvironment gr alerts)) = 1"
proof -
  let ?ss = "\<lambda>en. map na_service (filter (\<lambda>b. na_environment b = en) alerts)"
  have "length (filter (\<lambda>M. na_service a \<in> set M) (map Members (Groups gr (?ss (na_environment a))))) = 1"
    by (rule one_member [OF Groups_members]) (use assms in auto)
  then have env: "length (filter (in_group a) (map (\<lambda>g. g\<lparr>GroupEnvironment := en\<rparr>) (Groups gr (?ss en)))) =
      (if en = na_environment a then 1 else 0)" for en
    by (auto simp: filter_map comp_def in_group_def)
  have "length (filter (in_group a) (topologyGroupsByEnvironment gr alerts)) =
      sum_list (map (\<lambda>en. if en = na_environment a then 1 else 0) (sortedKeys (map na_environment alerts)))"
    unfolding topologyGroupsByEnvironment_def filter_concat length_concat map_map comp_def using env by simp
  then show ?thesis using sum_one [of "sortedKeys (map na_environment alerts)" "na_environment a"] assms by simp
qed

lemma count_grouped:
  "count (mset (concat (map (alertsForGroup alerts) gs))) a = length (filter (in_group a) gs) * count (mset alerts) a"
  by (induction gs) (auto simp: alertsForGroup_def in_group_def)

lemma grouped_all:
  assumes "list_all (\<lambda>a. na_service a \<noteq> []) alerts"
  shows "mset (concat (map (alertsForGroup alerts) (topologyGroupsByEnvironment gr alerts))) = mset alerts"
proof (rule multiset_eqI, unfold count_grouped)
  fix a show "length (filter (in_group a) (topologyGroupsByEnvironment gr alerts)) * count (mset alerts) a = count (mset alerts) a"
    using one_group [of a alerts gr] assms by (cases "a \<in> set alerts") (auto simp: list_all_iff count_mset)
qed

section \<open>Firing and resolved alerts\<close>

lemma firstNonEmpty_nonempty: "trim_space x \<noteq> [] \<Longrightarrow> x \<in> set xs \<Longrightarrow> firstNonEmpty xs \<noteq> []"
  by (induction xs) (auto simp: trim_space_def)

lemma normalize_service: "na_service (normalize payload a now) \<noteq> []"
proof -
  have "trim_space ''unknown-service'' \<noteq> []" by code_simp
  then have "firstNonEmpty [x, y, ''unknown-service''] \<noteq> []" for x y by (rule firstNonEmpty_nonempty) simp
  then show ?thesis unfolding normalize_def Let_def by (simp del: firstNonEmpty.simps)
qed

text \<open>
  An alert is resolved by its own status, else by that of the delivery, in either case of letters. Its
  normal form depends on the time of the delivery only where the alert has no start.
\<close>

definition resolved_alert :: "am_webhook \<Rightarrow> am_alert \<Rightarrow> bool" where
  "resolved_alert payload a \<longleftrightarrow>
     to_lower (if trim_space (am_Status a) \<noteq> [] then am_Status a
               else if trim_space (wh_Status payload) \<noteq> [] then wh_Status payload else ''firing'') = ''resolved''"

definition alert_key :: "am_webhook \<Rightarrow> am_alert \<Rightarrow> string" where
  "alert_key payload a = na_dedupeKey (normalize payload a zero_time)"

definition normal_form :: "am_webhook \<Rightarrow> normalized_alert \<Rightarrow> am_alert \<Rightarrow> bool" where
  "normal_form payload n a \<longleftrightarrow> (\<exists>now sid. n = (normalize payload a now)\<lparr>na_serviceID := sid\<rparr>)"

lemma normal_formD:
  assumes "normal_form payload n a" shows "na_dedupeKey n = alert_key payload a \<and> na_service n \<noteq> []"
proof -
  have "na_dedupeKey (normalize payload a now) = alert_key payload a" for now
    by (simp only: alert_key_def normalize_def Let_def normalized_alert.simps)
  then show ?thesis using assms normalize_service [of payload a] by (auto simp: normal_form_def)
qed

lemma normalize_normal: "normal_form payload (normalize payload a now) a"
  unfolding normal_form_def by (intro exI [of _ now] exI [of _ "[]"]) (simp add: normalize_def Let_def)

lemma normalize_status: "na_status (normalize payload a now) = ''resolved'' \<longleftrightarrow> resolved_alert payload a"
proof -
  have "trim_space ''firing'' \<noteq> []" by code_simp
  then show ?thesis by (simp add: normalize_def Let_def resolved_alert_def)
qed

definition sorted_out :: "am_webhook \<Rightarrow> am_alert list \<Rightarrow> normalized_alert list \<times> normalized_alert list \<Rightarrow> bool" where
  "sorted_out payload as r \<longleftrightarrow>
     (\<exists>fs rs. mset fs = mset (filter (\<lambda>a. \<not> resolved_alert payload a) as) \<and> mset rs = mset (filter (resolved_alert payload) as) \<and>
        list_all2 (normal_form payload) (fst r) fs \<and> list_all2 (normal_form payload) (snd r) rs)"

lemma collect_sorts:
  "yields (\<lambda>r _ _. list_all2 (normal_form payload) (fst r) (filter (\<lambda>a. \<not> resolved_alert payload a) as) \<and>
       list_all2 (normal_form payload) (snd r) (filter (resolved_alert payload) as)) (collect_alerts payload as)"
proof (induction as)
  case (Cons a as)
  have "normal_form payload ((normalize payload a now)\<lparr>na_serviceID := sid\<rparr>) a" for now sid
    by (auto simp: normal_form_def)
  then show ?case
    by (intro yieldsI)
      (auto simp: Let_def normalize_status normalize_normal dest!: tx yieldsD [OF Cons.IH] split: if_splits)
qed (simp add: yields_ret)

lemma normalize_sorts: "yields (\<lambda>r _ _. sorted_out payload (wh_Alerts payload) r) (normalizeAlerts payload)"
  unfolding normalizeAlerts_def
proof (rule yieldsI)
  fix h t d r d' assume "commits (bind (collect_alerts payload (wh_Alerts payload)) (\<lambda>(firing, resolved).
     ret (stable_sort alert_before firing, stable_sort alert_before resolved))) h t d r d'"
  then obtain q d1 where q: "commits (collect_alerts payload (wh_Alerts payload)) h t d q d1"
    and r: "r = (stable_sort alert_before (fst q), stable_sort alert_before (snd q))"
    by (auto simp: case_prod_beta dest!: tx)
  from yieldsD [OF collect_sorts q]
  have q: "list_all2 (normal_form payload) (fst q) (filter (\<lambda>a. \<not> resolved_alert payload a) (wh_Alerts payload))"
    "list_all2 (normal_form payload) (snd q) (filter (resolved_alert payload) (wh_Alerts payload))" by auto
  show "sorted_out payload (wh_Alerts payload) r"
    using list_all2_reorder_left_invariance [OF q(1), of "fst r"] list_all2_reorder_left_invariance [OF q(2), of "snd r"] r
    by (auto simp: sorted_out_def)
qed

lemma still_normalize: "tx_evolves (unchanged signals) (normalizeAlerts payload)"
proof -
  have "tx_evolves (unchanged signals) (collect_alerts payload as)" for as
    by (induction as) (auto simp: Let_def intro!: evo blind_signals)
  then show ?thesis unfolding normalizeAlerts_def by (intro evo)
qed

section \<open>The incidents that wait for an alert\<close>

text \<open>The open incidents on which an alert with a given key fires.\<close>

definition fired_on :: "database \<Rightarrow> string \<Rightarrow> string set" where
  "fired_on d k =
     inc_ID ` {i \<in> set (incidents d). is_open i \<and>
       list_ex (\<lambda>a. is_alert (inc_ID i) k a \<and> ia_Status a = ''firing'') (incident_alerts d)}"

lemma finite_waiting [simp]: "finite (fired_on d k)"
  by (simp add: fired_on_def)

lemma waiting_tables [simp]:
  "fired_on (d\<lparr>services_tbl := x1\<rparr>) = fired_on d" "fired_on (d\<lparr>timeline := x2\<rparr>) = fired_on d" "fired_on (d\<lparr>signals := x3\<rparr>) = fired_on d"
  "fired_on (d\<lparr>audit_logs := x4, audit_chain_state := x5\<rparr>) = fired_on d"
  by (simp_all add: fired_on_def fun_eq_iff)

lemma waiting_update:
  assumes "updates g" shows "fired_on (d\<lparr>incidents := update_rows P g (incidents d)\<rparr>) = fired_on d"
proof -
  define f where "f i = (if P i then g i else i)" for i
  have f: "inc_ID (f i) = inc_ID i" "is_open (f i) = is_open i" for i
    using assms by (simp_all add: f_def updates_def is_open_def)
  have "inc_ID ` {i \<in> f ` S. is_open i \<and> Q (inc_ID i)} = inc_ID ` {i \<in> S. is_open i \<and> Q (inc_ID i)}" for S Q
    using f by (auto simp: image_iff) (metis f)+
  from this [of "set (incidents d)" "\<lambda>iid. list_ex (\<lambda>a. is_alert iid k a \<and> ia_Status a = ''firing'') (incident_alerts d)" for k]
  show ?thesis by (auto simp: fired_on_def update_rows_def f_def [symmetric] fun_eq_iff)
qed

lemma waiting_store [evo]:
  "tx_evolves (unchanged fired_on) (EnsureService name)" "tx_evolves (unchanged fired_on) (AddTimelineEvent ev)"
  "tx_evolves (unchanged fired_on) (AddSignal sg)" "tx_evolves (unchanged fired_on) (MarkAlertsCleared iid)"
  "tx_evolves (unchanged fired_on) (writeAudit ent)"
proof -
  show "tx_evolves (unchanged fired_on) (EnsureService name)" "tx_evolves (unchanged fired_on) (AddTimelineEvent ev)"
    "tx_evolves (unchanged fired_on) (MarkAlertsCleared iid)"
    unfolding EnsureService_def AddTimelineEvent_def MarkAlertsCleared_def Let_def
    by (intro evo still.tx_sql still.tx_exec; (auto simp: unchanged_def updates_def intro!: waiting_update dest!: stored; fail)?)+
qed (rule still_AddSignal still_writeAudit, simp)+

lemma resolved_waiting:
  "yields (\<lambda>_ d d'. fired_on d' = (fired_on d)(k := fired_on d k - {iid})) (MarkAlertResolved iid k resolvedAt stale)"
proof -
  let ?g = "\<lambda>t a. a\<lparr>ia_Status := ''resolved'', ia_ResolvedAt := Some (trunc_micro resolvedAt), ia_LastSeenAt := t\<rparr>"
  have "fired_on (d\<lparr>incident_alerts := update_rows (is_alert iid k) (?g t) (incident_alerts d)\<rparr>) = (fired_on d)(k := fired_on d k - {iid})" for d t
  proof -
    have "list_ex (\<lambda>a. is_alert i k' a \<and> ia_Status a = ''firing'') (update_rows (is_alert iid k) (?g t) as) \<longleftrightarrow>
        list_ex (\<lambda>a. is_alert i k' a \<and> ia_Status a = ''firing'') as \<and> \<not> (i = iid \<and> k' = k)" for i k' as
      by (induction as) (auto simp: update_rows_def is_alert_def)
    then show ?thesis by (auto simp: fired_on_def fun_eq_iff image_iff)
  qed
  then have "yields (\<lambda>_ d d'. fired_on d' = (fired_on d)(k := fired_on d k - {iid})) (wrap_err ''record resolved alert'' (exec (\<lambda>t d.
       ((), d\<lparr>incident_alerts := update_rows (is_alert iid k) (?g t) (incident_alerts d)\<rparr>))))"
    by (intro yieldsI) (auto dest!: tx)
  then show ?thesis unfolding MarkAlertResolved_def
    by (rule yields_before [where f = fired_on and Q = "\<lambda>w w'. w' = w(k := w k - {iid})"])
      (intro evo still.tx_exec, auto simp: unchanged_def updates_def intro!: waiting_update)
qed

lemma found_waiting:
  "yields (\<lambda>r d d'. d' = d \<and> (case r of None \<Rightarrow> fired_on d k = {} | Some i \<Rightarrow> inc_ID i \<in> fired_on d k)) (FindIncidentForResolvedAlert k)"
proof -
  define P where "P d i \<longleftrightarrow> is_open i \<and> list_ex (\<lambda>a. is_alert (inc_ID i) k a \<and> ia_Status a = ''firing'') (incident_alerts d)" for d :: database and i
  define pick where "pick d = first_row (stable_sort latest_first (filter (P d) (incidents d)))" for d :: database
  have "fired_on d k = {}" if "pick d = None" for d
    using that by (auto simp: pick_def first_row_def fired_on_def P_def filter_empty_conv split: list.splits)
  moreover have "inc_ID i \<in> fired_on d k" if "pick d = Some i" for d i
  proof -
    obtain rows where s: "stable_sort latest_first (filter (P d) (incidents d)) = i # rows"
      using \<open>pick d = Some i\<close> by (auto simp: pick_def first_row_def split: list.splits)
    have "i \<in> set (stable_sort latest_first (filter (P d) (incidents d)))" unfolding s by simp
    then show ?thesis by (auto simp: fired_on_def P_def)
  qed
  ultimately show ?thesis
    unfolding FindIncidentForResolvedAlert_def P_def [symmetric] pick_def [symmetric]
    by (intro yieldsI) (auto simp: incident_row_def dest!: tx split: option.splits)
qed

lemma resolve_on_logs:
  "yields (\<lambda>_ d d'. logs (says_resolved {inc_ID i}) [a] (signals d) (signals d')) (resolve_on m a actor stats i)"
proof -
  let ?stop = "am_EndsAt (na_alert a)"
  define sg where "sg svc ended = signal_for (inc_ID i) svc a
     [(''labels'', label_value (am_Labels (na_alert a))), (''annotations'', label_value (am_Annotations (na_alert a))),
      (''generator'', VStr (am_GeneratorURL (na_alert a))), (''status'', VStr ''resolved''), (''ends_at'', VTime ended)] ended" for svc ended
  have "yields (\<lambda>_ d d'. logs (says_resolved {inc_ID i}) [a] (signals d) (signals d')) (bind (AddSignal (sg svc ended)) f)"
    if "ended = ?stop \<or> ?stop = zero_time" "\<And>x. tx_evolves (unchanged signals) (f x)" for svc ended f
    by (rule logs_signal [OF _ that(2)]) (use that(1) in \<open>auto simp: sg_def signal_for_def says_resolved_def says_def\<close>)
  note sent = this
  have timed: "yields Q (bind (if ?stop = zero_time then time_now else ret ?stop) g)" if "\<And>ended. ended = ?stop \<or> ?stop = zero_time \<Longrightarrow> yields Q (g ended)" for Q g
    by (rule yieldsI) (auto dest!: tx intro: yieldsD [OF that] split: if_splits)
  show ?thesis
    unfolding resolve_on_def Let_def sg_def [symmetric]
    by (rule logs_after, intro evo blind_signals, rule timed, erule sent) (intro evo blind_signals)
qed

text \<open>A resolved notification that has an incident leaves a signal there, and the incident no longer waits for it.\<close>

lemma resolve_on_effect:
  "yields (\<lambda>s' d d'. s' = stats\<lparr>st_ResolvedAlerts := st_ResolvedAlerts stats + 1\<rparr> \<and>
       logs (says_resolved {inc_ID i}) [a] (signals d) (signals d') \<and>
       fired_on d' = (fired_on d)(na_dedupeKey a := fired_on d (na_dedupeKey a) - {inc_ID i})) (resolve_on m a actor stats i)"
proof -
  let ?w = "\<lambda>w w'. w' = w(na_dedupeKey a := w (na_dedupeKey a) - {inc_ID i})"
  have "yields (\<lambda>y _ _. y = stats\<lparr>st_ResolvedAlerts := st_ResolvedAlerts stats + 1\<rparr>) (resolve_on m a actor stats i)"
    unfolding resolve_on_def Let_def by (intro yields_last yields_ret yields_if refl)
  moreover have "yields (\<lambda>_ d d'. ?w (fired_on d) (fired_on d')) (resolve_on m a actor stats i)"
    unfolding resolve_on_def Let_def
    by (intro yields_after [where f = fired_on and Q = ?w] yields_before [where f = fired_on and Q = ?w, OF resolved_waiting] evo)
  moreover have "yields (\<lambda>_ d d'. logs (says_resolved {inc_ID i}) [a] (signals d) (signals d')) (resolve_on m a actor stats i)"
    by (rule resolve_on_logs)
  ultimately show ?thesis unfolding yields_def by blast
qed

definition applied :: "(string \<Rightarrow> string set) \<Rightarrow> normalized_alert \<Rightarrow> signal \<Rightarrow> bool" where
  "applied w a s \<longleftrightarrow> says_resolved (w (na_dedupeKey a)) a s"

text \<open>
  Resolved notifications, in their order: as many with a key are applied as incidents wait for the
  key, the others are counted as unmatched.
\<close>

definition settles :: "normalized_alert list \<Rightarrow> ingestion_stats \<Rightarrow> ingestion_stats \<Rightarrow> database \<Rightarrow> database \<Rightarrow> bool" where
  "settles as s s' d d' \<longleftrightarrow>
     (\<exists>xs ys. mset (xs @ ys) = mset as \<and> logs (applied (fired_on d)) xs (signals d) (signals d') \<and>
        (\<forall>k. count_list (map na_dedupeKey xs) k = min (count_list (map na_dedupeKey as) k) (card (fired_on d k))) \<and>
        s' = s\<lparr>st_ResolvedAlerts := st_ResolvedAlerts s + int (length xs),
               st_UnmatchedResolvedAlerts := st_UnmatchedResolvedAlerts s + int (length ys)\<rparr>)"

lemma settles_unmatched:
  assumes "fired_on d (na_dedupeKey a) = {}" "settles as (s\<lparr>st_UnmatchedResolvedAlerts := st_UnmatchedResolvedAlerts s + 1\<rparr>) s' d d'"
  shows "settles (a # as) s s' d d'"
proof -
  obtain xs ys where "mset (xs @ ys) = mset as" "logs (applied (fired_on d)) xs (signals d) (signals d')"
    "\<forall>k. count_list (map na_dedupeKey xs) k = min (count_list (map na_dedupeKey as) k) (card (fired_on d k))"
    "s' = s\<lparr>st_ResolvedAlerts := st_ResolvedAlerts s + int (length xs),
       st_UnmatchedResolvedAlerts := st_UnmatchedResolvedAlerts s + 1 + int (length ys)\<rparr>"
    using assms(2) by (auto simp: settles_def)
  then show ?thesis unfolding settles_def using assms(1) by (intro exI [of _ xs] exI [of _ "a # ys"]) auto
qed

lemma settles_applied:
  assumes "inc_ID i \<in> fired_on d (na_dedupeKey a)" "logs (says_resolved {inc_ID i}) [a] (signals d) (signals d1)"
    "fired_on d1 = (fired_on d)(na_dedupeKey a := fired_on d (na_dedupeKey a) - {inc_ID i})"
    "settles as (s\<lparr>st_ResolvedAlerts := st_ResolvedAlerts s + 1\<rparr>) s' d1 d'"
  shows "settles (a # as) s s' d d'"
proof -
  obtain xs ys where *: "mset (xs @ ys) = mset as" "logs (applied (fired_on d1)) xs (signals d1) (signals d')"
    "\<And>k. count_list (map na_dedupeKey xs) k = min (count_list (map na_dedupeKey as) k) (card (fired_on d1 k))"
    "s' = s\<lparr>st_ResolvedAlerts := st_ResolvedAlerts s + 1 + int (length xs),
       st_UnmatchedResolvedAlerts := st_UnmatchedResolvedAlerts s + int (length ys)\<rparr>"
    using assms(4) by (auto simp: settles_def)
  have "logs (applied (fired_on d)) [a] (signals d) (signals d1)"
    by (rule logs_mono [OF assms(2)]) (use assms(1) in \<open>auto simp: says_resolved_def applied_def\<close>)
  moreover have "logs (applied (fired_on d)) xs (signals d1) (signals d')"
    by (rule logs_mono [OF *(2)]) (auto simp: says_resolved_def applied_def assms(3) split: if_splits)
  ultimately have "logs (applied (fired_on d)) (a # xs) (signals d) (signals d')" using logs_trans [of _ "[a]" _ _ xs] by simp
  moreover have "card (fired_on d (na_dedupeKey a)) = Suc (card (fired_on d1 (na_dedupeKey a)))"
    using card_Suc_Diff1 [OF finite_waiting assms(1)] assms(3) by simp
  then have "count_list (map na_dedupeKey (a # xs)) k = min (count_list (map na_dedupeKey (a # as)) k) (card (fired_on d k))" for k
    using *(3) [of k] assms(3) by (cases "k = na_dedupeKey a") simp_all
  ultimately show ?thesis unfolding settles_def using *(1,4) by (intro exI [of _ "a # xs"] exI [of _ ys]) (simp add: algebra_simps)
qed

lemma resolve_all_settles: "yields (settles as s) (resolve_all m actor as s)"
proof (induction as arbitrary: s)
  case (Cons a as)
  show ?case
  proof (rule yieldsI)
    fix h t d s' d' assume "commits (resolve_all m actor (a # as) s) h t d s' d'"
    then obtain s1 d1 found d0 where f: "commits (FindIncidentForResolvedAlert (na_dedupeKey a)) h t d found d0"
      and r: "commits (case found of None \<Rightarrow> ret (s\<lparr>st_UnmatchedResolvedAlerts := st_UnmatchedResolvedAlerts s + 1\<rparr>)
        | Some i \<Rightarrow> resolve_on m a actor s i) h t d0 s1 d1" and "commits (resolve_all m actor as s1) h t d1 s' d'"
      unfolding resolve_all.simps resolveAlert_def by (blast dest!: commits_bind)
    note rest = yieldsD [OF Cons.IH this(3)]
    show "settles (a # as) s s' d d'"
    proof (cases found)
      case None
      then show ?thesis using r rest yieldsD [OF found_waiting f] by (auto intro: settles_unmatched dest!: tx)
    next
      case (Some i)
      then show ?thesis
        using r rest yieldsD [OF found_waiting f] by (auto intro: settles_applied dest!: yieldsD [OF resolve_on_effect])
    qed
  qed
qed (auto simp: settles_def yields_ret)

section \<open>Counting a delivery\<close>

lemma attach_all_counts:
  "yields (\<lambda>s' _ _. st_AlertCount s' = st_AlertCount s \<and> st_ResolvedAlerts s' = st_ResolvedAlerts s \<and>
       st_UnmatchedResolvedAlerts s' = st_UnmatchedResolvedAlerts s) (attach_all gr actor i inferred as s)"
proof (induction as arbitrary: s)
  case (Cons a as)
  show ?case unfolding attach_all.simps Let_def
    by (intro yields_last) (rule yields_weaken [OF Cons.IH], auto)
qed (simp add: yields_ret)

lemma ingest_groups_counts:
  "yields (\<lambda>r _ _. st_AlertCount (snd r) = st_AlertCount s \<and> st_ResolvedAlerts (snd r) = st_ResolvedAlerts s \<and>
       st_UnmatchedResolvedAlerts (snd r) = st_UnmatchedResolvedAlerts s) (ingest_groups m gr actor alerts gs opened s)"
proof (induction gs arbitrary: opened s)
  case (Cons g gs)
  have "yields (\<lambda>r _ _. st_AlertCount (snd r) = st_AlertCount s \<and> st_ResolvedAlerts (snd r) = st_ResolvedAlerts s \<and>
       st_UnmatchedResolvedAlerts (snd r) = st_UnmatchedResolvedAlerts s) (ingest_group m gr actor g as opened s)" for as
    unfolding ingest_group_def case_prod_beta
    by (intro yields_last yieldsI)
      (auto simp: count_group_def Let_def dest!: tx yieldsD [OF attach_all_counts] split: if_splits)
  from yieldsD [OF this] show ?case
    by (intro yieldsI) (fastforce simp: Let_def dest!: tx yieldsD [OF Cons.IH] split: if_splits)
qed (simp add: yields_ret)

text \<open>
  Every alert of a delivery is accounted for. The firing ones, and only they, are counted as alerts,
  and each leaves a signal with its data under an incident that the delivery returns. Of the resolved
  ones with a key as many are applied as open incidents wait for the key, each with a signal under
  such an incident; the others are counted as unmatched and leave none.
\<close>

definition accounted :: "am_webhook \<Rightarrow> incident list \<times> ingestion_stats \<Rightarrow> database \<Rightarrow> database \<Rightarrow> bool" where
  "accounted payload r d d' \<longleftrightarrow>
     (\<exists>firing matched unmatched new_resolved new_firing.
        mset firing = mset (filter (\<lambda>a. \<not> resolved_alert payload a) (wh_Alerts payload)) \<and>
        mset (matched @ unmatched) = mset (filter (resolved_alert payload) (wh_Alerts payload)) \<and>
        st_AlertCount (snd r) = int (length firing) \<and> st_ResolvedAlerts (snd r) = int (length matched) \<and>
        st_UnmatchedResolvedAlerts (snd r) = int (length unmatched) \<and>
        (\<forall>k. count_list (map (alert_key payload) matched) k =
               min (count_list (map (alert_key payload) (matched @ unmatched)) k) (card (fired_on d k))) \<and>
        signals d' = signals d @ new_resolved @ new_firing \<and>
        list_all2 (\<lambda>a s. \<exists>n. normal_form payload n a \<and> says_resolved (fired_on d (alert_key payload a)) n s) matched new_resolved \<and>
        list_all2 (\<lambda>a s. \<exists>n. normal_form payload n a \<and> says_firing (fst r) n s) firing new_firing)"

lemma normal_keys: "list_all2 (normal_form payload) ns as \<Longrightarrow> map na_dedupeKey ns = map (alert_key payload) as"
  by (induction rule: list_all2_induct) (auto dest: normal_formD)

lemma normal_signals:
  assumes "list_all2 (normal_form payload) ns as" "list_all2 P ns new"
  shows "list_all2 (\<lambda>a s. \<exists>n. normal_form payload n a \<and> P n s) as new"
  using assms by (fastforce simp: list_all2_conv_all_nth)

lemma normal_services: "list_all2 (normal_form payload) ns as \<Longrightarrow> list_all (\<lambda>n. na_service n \<noteq> []) ns"
  by (induction rule: list_all2_induct) (auto dest: normal_formD)

lemma accountedI:
  assumes "sorted_out payload (wh_Alerts payload) n" "settles (snd n) (initial_stats (length (fst n)) tr) s d d1"
    "logs (says_firing (fst r)) alerts (signals d1) (signals d')" "mset alerts = mset (fst n)"
    "st_AlertCount (snd r) = st_AlertCount s" "st_ResolvedAlerts (snd r) = st_ResolvedAlerts s"
    "st_UnmatchedResolvedAlerts (snd r) = st_UnmatchedResolvedAlerts s"
  shows "accounted payload r d d'"
proof -
  obtain fs rs where fs: "mset fs = mset (filter (\<lambda>a. \<not> resolved_alert payload a) (wh_Alerts payload))" "list_all2 (normal_form payload) (fst n) fs"
    and rs: "mset rs = mset (filter (resolved_alert payload) (wh_Alerts payload))" "list_all2 (normal_form payload) (snd n) rs"
    using assms(1) by (auto simp: sorted_out_def)
  obtain xs ys where xy: "mset (xs @ ys) = mset (snd n)" "logs (applied (fired_on d)) xs (signals d) (signals d1)"
    "\<And>k. count_list (map na_dedupeKey xs) k = min (count_list (map na_dedupeKey (snd n)) k) (card (fired_on d k))"
    "s = (initial_stats (length (fst n)) tr)\<lparr>st_ResolvedAlerts := int (length xs), st_UnmatchedResolvedAlerts := int (length ys)\<rparr>"
    using assms(2) by (auto simp: settles_def initial_stats_def)
  obtain firing where f: "list_all2 (normal_form payload) alerts firing" "mset firing = mset fs"
    using list_all2_reorder_left_invariance [OF fs(2) assms(4)] by auto
  obtain zs where "list_all2 (normal_form payload) (xs @ ys) zs" "mset zs = mset rs"
    using list_all2_reorder_left_invariance [OF rs(2) xy(1)] by auto
  then obtain matched unmatched where m: "list_all2 (normal_form payload) xs matched" "list_all2 (normal_form payload) ys unmatched"
    "mset (matched @ unmatched) = mset rs"
    by (auto simp: list_all2_append1)
  obtain new1 new2 where new: "signals d1 = signals d @ new1" "list_all2 (applied (fired_on d)) xs new1"
    "signals d' = signals d1 @ new2" "list_all2 (says_firing (fst r)) alerts new2"
    using xy(2) assms(3) by (auto simp: logs_def)
  have "count_list (map na_dedupeKey (snd n)) k = count_list (map (alert_key payload) (matched @ unmatched)) k" for k
    using normal_keys [OF m(1)] normal_keys [OF m(2)] arg_cong [OF xy(1), of "image_mset na_dedupeKey"]
    by (metis count_mset map_append mset_map)
  moreover have "list_all2 (\<lambda>a s. \<exists>n. normal_form payload n a \<and> says_resolved (fired_on d (alert_key payload a)) n s) matched new1"
    by (rule list_all2_mono [OF normal_signals [OF m(1) new(2)]]) (metis applied_def normal_formD)
  moreover have "length firing = length (fst n)" "length matched = length xs" "length unmatched = length ys"
    using list_all2_lengthD [OF f(1)] list_all2_lengthD [OF m(1)] list_all2_lengthD [OF m(2)] mset_eq_length [OF assms(4)] by simp_all
  moreover have "signals d' = signals d @ new1 @ new2" using new(1,3) by simp
  ultimately show ?thesis
    unfolding accounted_def using fs(1) rs(1) f(2) m(3) xy(3) normal_keys [OF m(1)] normal_signals [OF f(1) new(4)] assms(5-7)
    by (intro exI [of _ firing] exI [of _ matched] exI [of _ unmatched] exI [of _ new1] exI [of _ new2])
      (simp add: xy(4) initial_stats_def)
qed

lemma still_waiting: "tx_evolves (unchanged fired_on) (normalizeAlerts payload)"
proof -
  have "tx_evolves (unchanged fired_on) (collect_alerts payload as)" for as
    by (induction as) (auto simp: Let_def intro!: evo)
  then show ?thesis unfolding normalizeAlerts_def by (intro evo)
qed

lemma ingest_accounted: "yields (accounted payload) (ingest m payload actor)"
proof (rule yieldsI)
  fix h t d r d' assume "commits (ingest m payload actor) h t d r d'"
  then obtain n d1 s d2 where n: "commits (normalizeAlerts payload) h t d n d1"
    and s: "commits (resolve_all m actor (snd n) (initial_stats (length (fst n)) (wh_TruncatedAlerts payload))) h t d1 s d2"
    and rest: "commits (if fst n = [] then ret ([], s) else bind ListServiceDependencies (\<lambda>dependencies.
       let gr = New dependencies in bind (ListOpenIncidents (sm_grouping m)) (\<lambda>opened.
       ingest_groups m gr actor (fst n) (topologyGroupsByEnvironment gr (fst n)) opened s))) h t d2 r d'"
    unfolding ingest_def case_prod_beta by (blast dest!: commits_bind)
  have 1: "signals d1 = signals d" "fired_on d1 = fired_on d" "sorted_out payload (wh_Alerts payload) n"
    using tx_evolvesD [OF still_normalize n] tx_evolvesD [OF still_waiting n] yieldsD [OF normalize_sorts n] by (auto simp: unchanged_def)
  then have 2: "settles (snd n) (initial_stats (length (fst n)) (wh_TruncatedAlerts payload)) s d d2"
    using yieldsD [OF resolve_all_settles s] by (simp add: settles_def)
  show "accounted payload r d d'"
  proof (cases "fst n = []")
    case False
    obtain gr opened where g: "commits (ingest_groups m gr actor (fst n) (topologyGroupsByEnvironment gr (fst n)) opened s) h t d2 r d'"
      using rest False by (auto simp: ListServiceDependencies_def ListOpenIncidents_def Let_def dest!: tx)
    have "list_all (\<lambda>a. na_service a \<noteq> []) (fst n)"
      using 1(3) by (auto simp: sorted_out_def dest: normal_services)
    from grouped_all [OF this] yieldsD [OF ingest_groups_counts g] show ?thesis
      by (intro accountedI [OF 1(3) 2 yieldsD [OF ingest_groups_logs g]]) simp_all
  next
    case True
    then show ?thesis using rest by (intro accountedI [OF 1(3) 2, where alerts = "[]"]) (auto dest!: tx)
  qed
qed

section \<open>Incidents open with a ledger entry and stay as they are\<close>

definition incident_core :: "incident \<Rightarrow> string \<times> string \<times> string \<times> int option" where
  "incident_core i = (inc_ID i, inc_Status i, inc_Environment i, inc_ResolvedAt i)"

definition cores :: "database \<Rightarrow> (string \<times> string \<times> string \<times> int option) list" where
  "cores d = map incident_core (incidents d)"

definition is_detection :: "entry \<Rightarrow> bool" where
  "is_detection ent \<longleftrightarrow> ent_Action ent = ''incident.detected''"

definition detections :: "database \<Rightarrow> string list" where
  "detections d = map (\<lambda>r. ent_ResourceID (aud_Entry r)) (filter (\<lambda>r. is_detection (aud_Entry r)) (audit_logs d))"

text \<open>The tables of remediations, approvals, dispatches, reports and workers.\<close>

definition work_of :: "database \<Rightarrow> _" where
  "work_of d = (remediation_actions d, remediation_dispatches d, approval_requests d, service_dependencies d, rca_reports d,
     target_states d, receipts d, heartbeats d)"

definition seen :: "database \<Rightarrow> _" where
  "seen d = (cores d, detections d, work_of d)"

definition opens :: "(string \<times> string) list \<Rightarrow> database \<Rightarrow> database \<Rightarrow> bool" where
  "opens new d d' \<longleftrightarrow>
     cores d' = cores d @ map (\<lambda>(iid, en). (iid, IncDetected, en, None)) new \<and>
     detections d' = detections d @ map fst new \<and> work_of d' = work_of d"

lemma opens_none: "unchanged seen h d d' \<Longrightarrow> opens [] d d'"
  by (simp add: unchanged_def seen_def opens_def)

lemma opens_trans: "opens xs d d1 \<Longrightarrow> opens ys d1 d' \<Longrightarrow> opens (xs @ ys) d d'"
  by (simp add: opens_def)

lemma blind_seen [simp]: "blind seen"
  by (auto simp: blind_def seen_def cores_def incident_core_def detections_def work_of_def updates_def update_rows_def)

lemma seen_signal [evo]: "tx_evolves (unchanged seen) (AddSignal sg)"
  by (rule still_AddSignal) (simp add: seen_def cores_def detections_def work_of_def)

lemma seen_audit: "\<not> is_detection ent \<Longrightarrow> tx_evolves (unchanged seen) (writeAudit ent)"
  by (rule still_writeAudit) (auto simp: seen_def cores_def detections_def work_of_def row_of_def is_detection_def)

lemma detected_audit:
  "is_detection ent \<Longrightarrow> yields (\<lambda>_ d d'. cores d' = cores d \<and> detections d' = detections d @ [ent_ResourceID ent] \<and> work_of d' = work_of d) (writeAudit ent)"
  unfolding writeAudit_def
  by (rule yieldsI)
    (auto simp: appended_def cores_def detections_def work_of_def row_of_def is_detection_def dest!: commits_wrap_err WriteTx_commits)

lemma not_detections [simp]:
  "\<not> is_detection (suppressed_entry actor i a path)" "\<not> is_detection (promoted_entry actor i inferred)"
  "\<not> is_detection (incident_entry actor ''incident.alerts_cleared'' iid\<lparr>ent_AfterState := x, ent_Metadata := y\<rparr>)"
  "is_detection (detected_entry actor i inferred g)"
  by (simp_all add: is_detection_def suppressed_entry_def promoted_entry_def incident_entry_def detected_entry_def)

lemma attach_seen [evo]: "tx_evolves (unchanged seen) (attach_all gr actor i inferred as stats)"
  by (induction as arbitrary: stats)
    (auto simp: Let_def attachTopologyAlert_def intro!: evo blind_seen seen_audit)

lemma resolve_all_seen [evo]: "tx_evolves (unchanged seen) (resolve_all m actor as stats)"
  by (induction as arbitrary: stats)
    (auto simp: Let_def resolveAlert_def resolve_on_def intro!: evo blind_seen seen_audit)

lemma normalize_seen [evo]: "tx_evolves (unchanged seen) (normalizeAlerts payload)"
proof -
  have "tx_evolves (unchanged seen) (collect_alerts payload as)" for as
    by (induction as) (auto simp: Let_def intro!: evo blind_seen)
  then show ?thesis unfolding normalizeAlerts_def by (intro evo)
qed

lemma create_opens:
  "yields (\<lambda>i d d'. cores d' = cores d @ [(inc_ID i, IncDetected, en, None)] \<and> detections d' = detections d \<and> work_of d' = work_of d)
     (CreateAlertIncident ti sn en sv dk fp su st)"
proof (rule yieldsI)
  fix h t d i d' assume "commits (CreateAlertIncident ti sn en sv dk fp su st) h t d i d'"
  then obtain s d1 where "commits (EnsureService sn) h t d s d1" and i: "inc_Status i = IncDetected" "inc_Environment i = en" "inc_ResolvedAt i = None"
    and d': "d' = d1\<lparr>incidents := incidents d1 @ [stored_incident i]\<rparr>"
    unfolding CreateAlertIncident_def Let_def by (force dest!: tx stored)
  then have "unchanged seen h d d1" by (intro tx_evolvesD [OF still_store(1)]) simp_all
  then show "cores d' = cores d @ [(inc_ID i, IncDetected, en, None)] \<and> detections d' = detections d \<and> work_of d' = work_of d"
    using i d' by (simp add: unchanged_def seen_def cores_def detections_def work_of_def incident_core_def stored_incident_def)
qed

lemma find_opens:
  "yields (\<lambda>r d d'. case r of (i, created, promoted) \<Rightarrow> detections d' = detections d \<and> work_of d' = work_of d \<and>
       cores d' = cores d @ (if created then [(inc_ID i, IncDetected, GroupEnvironment g, None)] else []))
     (findOrCreateTopologyIncident m gr g a opened)"
proof (rule yieldsI)
  fix h t d r d' assume "commits (findOrCreateTopologyIncident m gr g a opened) h t d r d'"
  then obtain exact d1 where e: "commits (if na_service a = Root g then FindOpenByDedupeKey (na_dedupeKey a) (sm_grouping m) else ret None) h t d exact d1"
    and rest: "commits (case exact of Some i \<Rightarrow> ret (i, False, False)
     | None \<Rightarrow>
         (case relatedOpenIncident gr (Root g) (GroupEnvironment g) opened of
            Some (existing, promote) \<Rightarrow>
              if \<not> promote \<or> inc_Service existing = Root g then ret (existing, False, False)
              else
                bind (PromoteIncidentRoot (inc_ID existing) (Root g) (rootTitle g a) (na_severity a) (rootDedupeKey g a)
                  (rootFingerprint g a) (rootSummary g a) (am_StartsAt (na_alert a))) (\<lambda>promoted.
                ret (promoted, False, True))
          | None \<Rightarrow>
              bind (CreateAlertIncident (rootTitle g a) (Root g) (GroupEnvironment g) (na_severity a) (rootDedupeKey g a)
                (rootFingerprint g a) (rootSummary g a) (am_StartsAt (na_alert a))) (\<lambda>created.
              ret (created, True, False)))) h t d1 r d'"
    unfolding findOrCreateTopologyIncident_def by (blast dest!: commits_bind)
  have "d1 = d" using e by (auto simp: FindOpenByDedupeKey_def dest!: tx split: if_splits)
  moreover have p: "unchanged seen h d d'" if "commits (PromoteIncidentRoot iid rs ti sv dk fp su st) h t d x d'" for iid rs ti sv dk fp su st x
    using tx_evolvesD [OF still_store(6) [OF blind_seen] that] .
  ultimately show "case r of (i, created, promoted) \<Rightarrow> detections d' = detections d \<and> work_of d' = work_of d \<and>
       cores d' = cores d @ (if created then [(inc_ID i, IncDetected, GroupEnvironment g, None)] else [])"
    using rest
    by (auto simp: unchanged_def seen_def dest!: tx p yieldsD [OF create_opens] split: option.splits if_splits)
qed

lemma ingest_group_opens: "yields (\<lambda>r d d'. \<exists>new. opens new d d') (ingest_group m gr actor g as opened stats)"
proof (rule yieldsI)
  fix h t d r d' assume "commits (ingest_group m gr actor g as opened stats) h t d r d'"
  then obtain z inferred d0 d1 d2 d3 s u v
    where f: "commits (findOrCreateTopologyIncident m gr g (rootAlertForGroup as (Root g)) opened) h t d z d0"
      and q: "commits (if \<not> fst (snd z) \<and> \<not> snd (snd z) then bind (GetIncidentTopology (inc_ID (fst z))) (\<lambda>analysis. ret (it_RootInferred analysis))
                else ret (Inferred g)) h t d0 inferred d1"
      and a: "commits (if fst (snd z) then writeAudit (detected_entry actor (fst z) inferred g) else ret ()) h t d1 u d2"
      and b: "commits (if snd (snd z) then writeAudit (promoted_entry actor (fst z) inferred) else ret ()) h t d2 v d3"
      and c: "commits (attach_all gr actor (fst z) inferred as (count_group g inferred stats)) h t d3 s d'"
    unfolding ingest_group_def case_prod_beta by (blast dest!: commits_bind commits_ret)
  have "tx_evolves (unchanged seen) (if snd (snd z) then writeAudit (promoted_entry actor (fst z) inferred) else ret ())"
    by (intro evo seen_audit not_detections)
  then have 1: "seen d' = seen d2"
    using b tx_evolvesD [OF attach_seen c] by (auto simp: unchanged_def dest: tx_evolvesD)
  have "tx_evolves (unchanged seen) (if \<not> fst (snd z) \<and> \<not> snd (snd z) then bind (GetIncidentTopology (inc_ID (fst z))) (\<lambda>analysis. ret (it_RootInferred analysis))
                else ret (Inferred g))"
    by (intro evo)
  then have 2: "seen d1 = seen d0" using q by (auto simp: unchanged_def dest: tx_evolvesD)
  have 3: "cores d2 = cores d1 \<and> work_of d2 = work_of d1 \<and> detections d2 = detections d1 @ (if fst (snd z) then [inc_ID (fst z)] else [])"
    using a yieldsD [OF detected_audit, of "detected_entry actor (fst z) inferred g" h t d1 u d2]
    by (auto simp: detected_entry_def incident_entry_def is_detection_def dest!: tx split: if_splits)
  show "\<exists>new. opens new d d'"
    using yieldsD [OF find_opens f] 1 2 3
    by (intro exI [of _ "if fst (snd z) then [(inc_ID (fst z), GroupEnvironment g)] else []"]) (simp add: opens_def seen_def case_prod_beta split: if_splits)
qed

lemma ingest_groups_opens: "yields (\<lambda>r d d'. \<exists>new. opens new d d') (ingest_groups m gr actor alerts gs opened stats)"
proof (induction gs arbitrary: opened stats)
  case (Cons g gs)
  show ?case unfolding ingest_groups.simps Let_def case_prod_beta
    by (intro yields_if Cons.IH yieldsI)
      (blast dest!: commits_bind commits_ret yieldsD [OF Cons.IH] yieldsD [OF ingest_group_opens] intro: opens_trans)
qed (auto intro!: yields_ret exI [of _ "[]"] opens_none simp: unchanged_def)

lemma ingest_opens:
  "yields (\<lambda>r d d'. \<exists>new. opens new d d' \<and> (if st_AlertCount (snd r) = 0 then new = [] \<and> fst r = [] else True)) (ingest m payload actor)"
proof (rule yieldsI)
  fix h t d r d' assume "commits (ingest m payload actor) h t d r d'"
  then obtain n d1 s d2 where n: "commits (normalizeAlerts payload) h t d n d1"
    and s: "commits (resolve_all m actor (snd n) (initial_stats (length (fst n)) (wh_TruncatedAlerts payload))) h t d1 s d2"
    and rest: "commits (if fst n = [] then ret ([], s) else bind ListServiceDependencies (\<lambda>dependencies.
       let gr = New dependencies in bind (ListOpenIncidents (sm_grouping m)) (\<lambda>opened.
       ingest_groups m gr actor (fst n) (topologyGroupsByEnvironment gr (fst n)) opened s))) h t d2 r d'"
    unfolding ingest_def case_prod_beta by (blast dest!: commits_bind)
  have 1: "opens [] d d2" using tx_evolvesD [OF normalize_seen n] tx_evolvesD [OF resolve_all_seen s]
    by (intro opens_none [of h]) (simp add: unchanged_def)
  have 2: "st_AlertCount s = int (length (fst n))"
    using yieldsD [OF resolve_all_settles s] by (auto simp: settles_def initial_stats_def)
  show "\<exists>new. opens new d d' \<and> (if st_AlertCount (snd r) = 0 then new = [] \<and> fst r = [] else True)"
  proof (cases "fst n = []")
    case False
    obtain gr opened where "commits (ingest_groups m gr actor (fst n) (topologyGroupsByEnvironment gr (fst n)) opened s) h t d2 r d'"
      using rest False by (auto simp: ListServiceDependencies_def ListOpenIncidents_def Let_def dest!: tx)
    from yieldsD [OF ingest_groups_opens this] yieldsD [OF ingest_groups_counts this] show ?thesis
      using 1 2 False by (auto dest: opens_trans)
  qed (use rest 1 in \<open>auto dest!: tx\<close>)
qed

section \<open>The incident a root belongs to\<close>

text \<open>The path from an incident's service, or to it, is as short as that of any other candidate.\<close>

definition nearest :: "(incident \<Rightarrow> topo_path option) \<Rightarrow> incident \<Rightarrow> incident list \<Rightarrow> bool" where
  "nearest P i cs \<longleftrightarrow>
     (case P i of
        None \<Rightarrow> False
      | Some p \<Rightarrow> list_all (\<lambda>j. case P j of None \<Rightarrow> True | Some q \<Rightarrow> length (Services p) \<le> length (Services q)) cs)"

definition unreached :: "(incident \<Rightarrow> topo_path option) \<Rightarrow> incident list \<Rightarrow> bool" where
  "unreached P cs \<longleftrightarrow> list_all (\<lambda>j. P j = None) cs"

definition best_so_far :: "(incident \<Rightarrow> topo_path option) \<Rightarrow> (incident \<times> nat) option \<Rightarrow> incident list \<Rightarrow> bool" where
  "best_so_far P best cs \<longleftrightarrow>
     (case best of
        None \<Rightarrow> unreached P cs
      | Some (i, n) \<Rightarrow> i \<in> set cs \<and> nearest P i cs \<and> map_option (\<lambda>p. length (Services p)) (P i) = Some n)"

lemma nearer_best: "best_so_far P best cs \<Longrightarrow> best_so_far P (nearer (P i) best i) (cs @ [i])"
  by (auto simp: best_so_far_def nearer_def nearest_def unreached_def list_all_iff split: option.splits prod.splits)
    (meson less_imp_le less_le_trans)

text \<open>The open incidents of the environment that are not on the root itself come first in the scan.\<close>

lemma scan_open_correct:
  assumes "best_so_far (\<lambda>j. Path gr r (inc_Service j)) up cs" "best_so_far (\<lambda>j. Path gr (inc_Service j) r) down cs"
  shows "case scan_open gr r en up down is of
      None \<Rightarrow> (let all = cs @ filter (\<lambda>j. inc_Environment j = en) is in
        list_all (\<lambda>j. inc_Service j \<noteq> r) (filter (\<lambda>j. inc_Environment j = en) is) \<and>
        unreached (\<lambda>j. Path gr r (inc_Service j)) all \<and> unreached (\<lambda>j. Path gr (inc_Service j) r) all)
    | Some (i, promote) \<Rightarrow> (let here = filter (\<lambda>j. inc_Environment j = en) is; all = cs @ here in
        if \<not> promote \<and> inc_Service i = r \<and> i \<in> set here then True
        else i \<in> set all \<and> list_all (\<lambda>j. inc_Service j \<noteq> r) here \<and>
          (if promote then unreached (\<lambda>j. Path gr r (inc_Service j)) all \<and> nearest (\<lambda>j. Path gr (inc_Service j) r) i all
           else nearest (\<lambda>j. Path gr r (inc_Service j)) i all))"
  using assms
proof (induction gr r en up down "is" arbitrary: cs rule: scan_open.induct)
  case (1 gr r en up down)
  then show ?case by (auto simp: best_so_far_def split: option.splits)
next
  case (2 gr r en up down i "is")
  consider "inc_Environment i \<noteq> en" | "inc_Environment i = en" "inc_Service i = r" | "inc_Environment i = en" "inc_Service i \<noteq> r"
    by blast
  then show ?case
  proof cases
    case 1
    then show ?thesis using "2.IH"(1) [OF 1 "2.prems"] by (auto simp: Let_def split: option.splits prod.splits if_splits)
  next
    case 2
    then show ?thesis by simp
  next
    case 3
    then show ?thesis
      using "2.IH"(2) [OF _ _ nearer_best [OF "2.prems"(1), of i] nearer_best [OF "2.prems"(2), of i]]
      by (auto simp: Let_def split: option.splits prod.splits if_splits)
  qed
qed

text \<open>
  The incident a failing root is related to, and whether it is promoted to the root: among the open
  ones of the environment one on the root itself; else the nearest one that the root depends on; else
  the nearest one that depends on the root, which is promoted; none exactly when there is none of these.
\<close>

definition related_to :: "graph \<Rightarrow> string \<Rightarrow> string \<Rightarrow> incident list \<Rightarrow> (incident \<times> bool) option \<Rightarrow> bool" where
  "related_to gr rootSvc en opened choice \<longleftrightarrow>
     (let here = filter (\<lambda>j. inc_Environment j = en) opened;
          up = (\<lambda>j. Path gr rootSvc (inc_Service j)); down = (\<lambda>j. Path gr (inc_Service j) rootSvc)
      in case choice of
           None \<Rightarrow> list_all (\<lambda>j. inc_Service j \<noteq> rootSvc) here \<and> unreached up here \<and> unreached down here
         | Some (i, promote) \<Rightarrow>
             i \<in> set here \<and>
             (if inc_Service i = rootSvc then \<not> promote
              else list_all (\<lambda>j. inc_Service j \<noteq> rootSvc) here \<and>
                (if promote then unreached up here \<and> nearest down i here else nearest up i here)))"

lemma relatedOpenIncident_correct: "related_to gr rootSvc en opened (relatedOpenIncident gr rootSvc en opened)"
  using scan_open_correct [of gr rootSvc None "[]" None en opened]
  by (auto simp: relatedOpenIncident_def related_to_def best_so_far_def unreached_def list_all_iff Let_def split: option.splits if_splits)

text \<open>
  The incident a group of alerts goes to. An incident that is active at the time \<open>t\<close> and carries the
  very alert of the root comes first, the one seen last; then the related one; else a new one.
\<close>

definition carriers :: "service_manager \<Rightarrow> int \<Rightarrow> database \<Rightarrow> normalized_alert \<Rightarrow> incident list" where
  "carriers m t d a = filter (\<lambda>i. activeForGrouping (sm_grouping m) t d i \<and> carries_alert d (na_dedupeKey a) i) (incidents d)"

definition joins ::
  "service_manager \<Rightarrow> graph \<Rightarrow> group \<Rightarrow> normalized_alert \<Rightarrow> incident list \<Rightarrow> int \<Rightarrow> incident \<times> bool \<times> bool \<Rightarrow> database \<Rightarrow> database \<Rightarrow> bool" where
  "joins m gr g a opened t r d d' \<longleftrightarrow>
     (case r of (i, created, promoted) \<Rightarrow>
        if na_service a = Root g \<and> carriers m t d a \<noteq> [] then
          \<not> created \<and> \<not> promoted \<and> d' = d \<and> i \<in> incident_row d ` set (carriers m t d a) \<and>
          list_all (\<lambda>j. inc_LastSeenAt j \<le> inc_LastSeenAt i) (carriers m t d a)
        else
          \<exists>choice. related_to gr (Root g) (GroupEnvironment g) opened choice \<and>
            (case choice of
               None \<Rightarrow> created \<and> \<not> promoted \<and> cores d' = cores d @ [(inc_ID i, IncDetected, GroupEnvironment g, None)]
             | Some (j, promote) \<Rightarrow> \<not> created \<and> promoted = promote \<and> inc_ID i = inc_ID j \<and> cores d' = cores d \<and>
                 (if promote then True else i = j \<and> d' = d)))"

definition timely :: "(int \<Rightarrow> 'a \<Rightarrow> database \<Rightarrow> database \<Rightarrow> bool) \<Rightarrow> 'a prog \<Rightarrow> bool" where
  "timely Q m \<longleftrightarrow> (\<forall>h t d x d'. commits m h t d x d' \<longrightarrow> Q t x d d')"

lemma exact_carrier:
  assumes "commits (FindOpenByDedupeKey (na_dedupeKey a) (sm_grouping m)) h t d exact d1"
  shows "d1 = d \<and> (case exact of None \<Rightarrow> carriers m t d a = [] | Some i \<Rightarrow> i \<in> incident_row d ` set (carriers m t d a) \<and>
    list_all (\<lambda>j. inc_LastSeenAt j \<le> inc_LastSeenAt i) (carriers m t d a))"
proof -
  let ?s = "stable_sort latest_first (carriers m t d a)"
  have 1: "d1 = d" "exact = map_option (incident_row d) (first_row ?s)"
    using assms unfolding FindOpenByDedupeKey_def carriers_def by (auto dest!: tx)
  show ?thesis
  proof (cases ?s)
    case Nil
    then have "carriers m t d a = []" using set_stable_sort [of latest_first "carriers m t d a"] by (metis set_empty)
    then show ?thesis using 1 Nil by (simp add: first_row_def del: stable_sort_eq_Nil)
  next
    case (Cons i rows)
    then have i: "i \<in> set (carriers m t d a)" using set_stable_sort [of latest_first "carriers m t d a"] by (metis list.set_intros(1))
    have "strict_weak latest_first" by (auto simp: strict_weak_def latest_first_def)
    from stable_sort_hd_min [OF this Cons]
    have "inc_LastSeenAt j \<le> inc_LastSeenAt i" if "j \<in> set (carriers m t d a)" for j
      using that by (fastforce simp: latest_first_def)
    with 1 Cons i show ?thesis by (auto simp: first_row_def list_all_iff incident_row_def)
  qed
qed

lemma promoted_same:
  assumes "commits (PromoteIncidentRoot iid rs ti sv dk fp su st) h t d i d'"
  shows "inc_ID i = iid \<and> cores d' = cores d"
proof
  show "inc_ID i = iid" using assms unfolding PromoteIncidentRoot_def GetIncident_def
    by (auto simp: incident_row_def dest!: tx find_SomeD split: option.splits)
  show "cores d' = cores d" using tx_evolvesD [OF still_store(6) [OF blind_seen] assms] by (simp add: unchanged_def seen_def)
qed

lemma find_joins: "timely (joins m gr g a opened) (findOrCreateTopologyIncident m gr g a opened)"
  unfolding timely_def
proof (intro allI impI)
  fix h t d r d' assume c: "commits (findOrCreateTopologyIncident m gr g a opened) h t d r d'"
  define R where "R = relatedOpenIncident gr (Root g) (GroupEnvironment g) opened"
  have rel: "related_to gr (Root g) (GroupEnvironment g) opened R" unfolding R_def by (rule relatedOpenIncident_correct)
  obtain exact d1 where e: "commits (if na_service a = Root g then FindOpenByDedupeKey (na_dedupeKey a) (sm_grouping m) else ret None) h t d exact d1"
    and rest: "commits (case exact of Some i \<Rightarrow> ret (i, False, False)
     | None \<Rightarrow>
         (case R of
            Some (existing, promote) \<Rightarrow>
              if \<not> promote \<or> inc_Service existing = Root g then ret (existing, False, False)
              else
                bind (PromoteIncidentRoot (inc_ID existing) (Root g) (rootTitle g a) (na_severity a) (rootDedupeKey g a)
                  (rootFingerprint g a) (rootSummary g a) (am_StartsAt (na_alert a))) (\<lambda>promoted.
                ret (promoted, False, True))
          | None \<Rightarrow>
              bind (CreateAlertIncident (rootTitle g a) (Root g) (GroupEnvironment g) (na_severity a) (rootDedupeKey g a)
                (rootFingerprint g a) (rootSummary g a) (am_StartsAt (na_alert a))) (\<lambda>created.
              ret (created, True, False)))) h t d1 r d'"
    using c unfolding findOrCreateTopologyIncident_def R_def by (blast dest!: commits_bind)
  show "joins m gr g a opened t r d d'"
  proof (cases exact)
    case None
    with e have 1: "d1 = d" "\<not> (na_service a = Root g \<and> carriers m t d a \<noteq> [])"
      by (auto dest!: exact_carrier tx split: if_splits)
    have "promote \<Longrightarrow> inc_Service j \<noteq> Root g" if "R = Some (j, promote)" for j promote
      using rel that by (auto simp: related_to_def Let_def split: if_splits)
    with rest None 1 have "case R of
        None \<Rightarrow> fst (snd r) \<and> \<not> snd (snd r) \<and> cores d' = cores d @ [(inc_ID (fst r), IncDetected, GroupEnvironment g, None)]
      | Some (j, promote) \<Rightarrow> \<not> fst (snd r) \<and> snd (snd r) = promote \<and> inc_ID (fst r) = inc_ID j \<and> cores d' = cores d \<and>
          (if promote then True else fst r = j \<and> d' = d)"
      by (auto dest!: tx promoted_same yieldsD [OF create_opens] split: option.splits if_splits)
    with rel 1(2) show ?thesis unfolding joins_def case_prod_beta by (simp only: if_False) blast
  next
    case (Some i)
    with e rest show ?thesis by (auto simp: joins_def dest!: exact_carrier tx split: if_splits)
  qed
qed

text \<open>
  C12: The incident that a group of alerts goes to is the right one. The search among the open incidents
  of the environment prefers one on the root itself; else the nearest one that the root depends on,
  however far; else it promotes the nearest one that depends on the root; and it finds none exactly
  when the graph connects the root with none of them. \<^verbatim>\<open>findOrCreateTopologyIncident\<close> first takes the
  active incident, seen last, that carries the same alert of the root itself, and only then follows
  the search; a new incident is opened only for an alert no active one carries and an unrelated root.
\<close>

theorem related_incident_is_nearest:
  "related_to gr rootSvc en opened (relatedOpenIncident gr rootSvc en opened) \<and>
   timely (joins m gr g a opened) (findOrCreateTopologyIncident m gr g a opened)"
  using relatedOpenIncident_correct find_joins by blast

section \<open>Deliveries\<close>

lemma locked: "yields Q (ingest m payload actor) \<Longrightarrow> atomically Q (IngestAlertmanagerWithResult m payload actor)"
proof -
  assume "yields Q (ingest m payload actor)"
  moreover have "keeps LockIncidentIngestion"
    unfolding LockIncidentIngestion_def keeps_def wrap_err_def query_def sql_def tick_def
    by (auto simp: Let_def split: option.splits fault.splits)
  ultimately have "yields Q (bind LockIncidentIngestion (\<lambda>_. ingest m payload actor))"
    by (intro yieldsI) (blast dest!: commits_bind dest: commits_keeps yieldsD)
  then show ?thesis unfolding IngestAlertmanagerWithResult_def by (rule atomically_InTx)
qed

text \<open>
  C10: No alert of a delivery is lost or mistaken, whatever fails and whoever else is at work: the
  delivery takes effect as a whole or not at all. When it does, the alert count is the number of its
  firing alerts, and the signals gain exactly one for each of them, with its name, severity, labels,
  annotations and start, under an incident that the delivery returns. Of the resolved notifications
  with one key exactly as many are applied as there are open incidents on which the key fires, and
  each leaves one signal with its data under such an incident; the others are counted as unmatched
  and leave nothing. No other signal appears and none is lost.
\<close>

theorem delivery_accounts_for_alerts:
  "atomically (accounted payload) (IngestAlertmanagerWithResult m payload actor)"
  using ingest_accounted by (rule locked)

text \<open>
  C11: A delivery opens incidents only together with their entry in the audit ledger, one entry each
  and no entry without an incident; it leaves identity, status, environment and resolution of every
  existing incident and all rows of remediations, approvals, dispatches, reports and workers as they
  are; and when no alert of it fires, it opens none. It happens as a whole or not at all.
\<close>

theorem delivery_opens_recorded_incidents:
  "atomically (\<lambda>r d d'. \<exists>new. opens new d d' \<and> (if st_AlertCount (snd r) = 0 then new = [] \<and> fst r = [] else True))
     (IngestAlertmanagerWithResult m payload actor)"
  using ingest_opens by (rule locked)

end
