(* ===== verification/Rca_Correct.thy ===== *)
theory Rca_Correct
  imports Control_Ingestion Ingestion_Correct
begin

text \<open>
  What the RCA service may claim and what its advisor may do. A confident analysis rests on a value
  that a backend answered to a probe of the very rule it names, or on the topology; and the advice of
  the language model changes nothing.
\<close>

section \<open>Evidence of a rule\<close>

lemma for_each_member:
  "for_each xs f e w = (Inr ys, w') \<Longrightarrow> y \<in> set ys \<Longrightarrow> \<exists>x w1 w2. x \<in> set xs \<and> f x e w1 = (Inr y, w2)"
proof (induction xs arbitrary: w ys)
  case (Cons x xs)
  from Cons.prems obtain z w1 zs where z: "f x e w = (Inr z, w1)" "for_each xs f e w1 = (Inr zs, w')" "ys = z # zs"
    by (auto simp: bind_def ret_def split: prod.splits sum.splits)
  then show ?case using Cons.IH [OF z(2)] Cons.prems(2) by auto
qed (simp add: ret_def)

lemma primary_members: "set (primaryMatches i matches) \<subseteq> set matches"
proof -
  define f :: "match gomap \<Rightarrow> match \<Rightarrow> match gomap" where "f = (\<lambda>chosen m. case map_of chosen (ma_RuleID m) of None \<Rightarrow> chosen @ [(ma_RuleID m, m)]
     | Some existing \<Rightarrow> if ma_Service existing \<noteq> inc_Service i \<and> ma_Service m = inc_Service i then map_set chosen (ma_RuleID m) m else chosen)"
  have "y \<in> set (map_set xs k v) \<Longrightarrow> y \<in> set xs \<or> snd y = v" for xs k y and v :: match
    by (induction xs k v rule: map_set.induct) (auto split: if_splits)
  then have f: "snd ` set (f acc m) \<subseteq> insert m (snd ` set acc)" for acc m by (fastforce simp: f_def split: option.splits if_splits)
  have "snd ` set (foldl f acc ms) \<subseteq> snd ` set acc \<union> set ms" for acc ms
  proof (induction ms arbitrary: acc)
    case (Cons m ms)
    show ?case using Cons.IH [of "f acc m"] f [of acc m] by auto
  qed simp
  from this [of "[]" matches] show ?thesis by (simp add: primaryMatches_def f_def)
qed

lemma observed_member:
  "observed_all c service now e w ps rs w' \<Longrightarrow> r \<in> set rs \<Longrightarrow>
     \<exists>p w1. p \<in> set ps \<and> observed_as p (fst (ask_backend c p service now e w1)) r"
proof (induction ps arbitrary: w rs)
  case (Cons p ps)
  from Cons.prems obtain x xs where x: "rs = x # xs" "observed_as p (fst (ask_backend c p service now e w)) x"
    and xs: "observed_all c service now e (snd (ask_backend c p service now e w)) ps xs w'"
    by (auto split: list.splits prod.splits)
  show ?case
  proof (cases "r = x")
    case False
    then have "r \<in> set xs" using Cons.prems(2) x(1) by simp
    from Cons.IH [OF xs this] show ?thesis by auto
  qed (use x(2) in auto)
qed simp

text \<open>A backend answered a probe of the rule, for the service of the match, with a value that shows the cause.\<close>

definition saw_cause :: "rca_service \<Rightarrow> env \<Rightarrow> match \<Rightarrow> bool" where
  "saw_cause svc e m \<longleftrightarrow>
     (\<exists>p now w1 w2 v. p \<in> set (ru_Probes (ma_Rule m)) \<and> \<not> pb_Symptom p \<and>
        ask_backend (rs_collector svc) p (ma_Service m) now e w1 = (Sampled v, w2) \<and> Compare v (pb_Comparator p) (pb_Threshold p))"

lemma collected_cause:
  assumes "collectEvidence svc i matches e w = (Inr runs, w')" "list_ex sees_cause (re_Results (run_of runs rid))"
  shows "\<exists>m. m \<in> set matches \<and> ma_RuleID m = rid \<and> saw_cause svc e m"
proof -
  obtain run where run: "(rid, run) \<in> set runs" "list_ex sees_cause (re_Results run)"
    using assms(2) by (cases "map_of runs rid") (auto simp: run_of_def dest: map_of_SomeD)
  obtain m now w1 w2 where m: "m \<in> set (primaryMatches i matches)" "ma_RuleID m = rid"
      "RunProbes (rs_collector svc) (ru_Probes (ma_Rule m)) (ma_Service m) now e w1 = (Inr (re_Results run), w2)"
    using assms(1) for_each_member [OF _ run(1)] unfolding collectEvidence_def
    by (fastforce simp: bind_def ret_def time_now_def split: prod.splits sum.splits)
  obtain x where x: "x \<in> set (re_Results run)" "sees_cause x" using run(2) by (auto simp: list_ex_iff)
  have "observed_all (rs_collector svc) (ma_Service m) now e w1 (ru_Probes (ma_Rule m)) (re_Results run) w2"
    using RunProbes_observed [where c = "rs_collector svc" and probes = "ru_Probes (ma_Rule m)" and service = "ma_Service m" and now = now and e = e and w = w1] m(3)
    by simp
  from observed_member [OF this x(1)] obtain p w3 where "p \<in> set (ru_Probes (ma_Rule m))"
      "observed_as p (fst (ask_backend (rs_collector svc) p (ma_Service m) now e w3)) x" by blast
  with x(2) have "saw_cause svc e m"
    unfolding saw_cause_def observed_as_def sees_cause_def by (metis prod.collapse)
  then show ?thesis using m(1,2) primary_members by blast
qed

section \<open>Confidence\<close>

lemma default_hypotheses: "list_all (\<lambda>r. ru_Hypothesis r \<noteq> insufficientHypothesis) DefaultRules"
  by (simp add: default_rule_defs insufficientHypothesis_def)

lemma match_rule_unique:
  assumes "NewWithRules DefaultRules = Inr c" "m \<in> set (Match c i ss)"
  shows "map_of (cor_byID c) (ma_RuleID m) = Some (ma_Rule m)" "ma_RuleID m = ru_ID (ma_Rule m)"
    "ru_Hypothesis (ma_Rule m) \<noteq> insufficientHypothesis"
proof -
  have r: "ma_Rule m \<in> set DefaultRules" using Match_rules [OF assms] .
  then show "ru_Hypothesis (ma_Rule m) \<noteq> insufficientHypothesis" using default_hypotheses by (auto simp: list_all_iff)
  show i: "ma_RuleID m = ru_ID (ma_Rule m)" using assms(2) by (auto simp: Match_def map_filter_def match_signal_def Let_def)
  show "map_of (cor_byID c) (ma_RuleID m) = Some (ma_Rule m)" using correlator_maps(1) [OF assms(1)] r i by simp
qed

text \<open>
  C36: A confidence above 0.55 is earned. Then either the analysis names a rule that one of the alerts
  matched, with the hypothesis of that rule, and a configured backend answered a probe of this very
  rule, asked for the service of the alert, with a value that meets its comparison and shows the
  cause itself, not just a symptom; or no alert matches any rule, the topology has a root service
  behind which alerts are suppressed, and the analysis names nothing but that root.
\<close>

theorem confidence_is_earned:
  assumes "NewRcaService url tok collector = Inr svc" "analyze svc i ss topo e w = (Inr r, w')" "an_Confidence r > fl (55 / 100)"
  shows "rests_on_topology (Match (rs_correlator svc) i ss) topo r \<or>
    (\<exists>m \<in> set (Match (rs_correlator svc) i ss). an_RuleID r = ma_RuleID m \<and> an_Hypothesis r = ru_Hypothesis (ma_Rule m) \<and> saw_cause svc e m)"
proof -
  let ?ms = "Match (rs_correlator svc) i ss"
  have c: "NewWithRules DefaultRules = Inr (rs_correlator svc)"
    using assms(1) by (cases "NewWithRules DefaultRules") (auto simp: NewRcaService_def)
  obtain runs where runs: "collectEvidence svc i ?ms e w = (Inr runs, w')" and r: "r = analyze_with i ?ms runs topo"
    using assms(2) by (auto simp: analyze_def Let_def bind_def ret_def split: prod.splits sum.splits)
  consider "rests_on_topology ?ms topo r" | m where "supported_rule ?ms runs r m"
    using earned [of ?ms i runs topo] match_rule_unique [OF c] assms(3) r by blast
  then show ?thesis
  proof cases
    case (2 m)
    then have m: "m \<in> set ?ms" "an_RuleID r = ma_RuleID m" "an_Hypothesis r = ru_Hypothesis (ma_Rule m)"
      and "list_ex sees_cause (re_Results (run_of runs (ma_RuleID m)))" by (auto simp: supported_rule_def)
    from collected_cause [OF runs this(4)] obtain m' where m': "m' \<in> set ?ms" "ma_RuleID m' = ma_RuleID m" "saw_cause svc e m'" by blast
    have "ma_Rule m' = ma_Rule m" using match_rule_unique(1) [OF c m(1)] match_rule_unique(1) [OF c m'(1)] m'(2) by simp
    with m m' show ?thesis by auto
  qed simp
qed

definition sample_topology :: incident_topology where
  "sample_topology =
     \<lparr>it_IncidentID = ''inc_1'', it_RootService = ''postgres'', it_RootInferred = False, it_AffectedServices = [''api'', ''postgres''],
      it_AlertCount = 2, it_SuppressedAlertCount = 1, it_Paths = []\<rparr>"

theorem confidence_is_earned_witness: "\<forall>i e w. \<exists>svc r.
    NewRcaService [] [] None = Inr svc \<and> analyze svc i [] sample_topology e w = (Inr r, w) \<and> an_Confidence r > fl (55 / 100) \<and>
    rests_on_topology [] sample_topology r"
proof (intro allI)
  fix i :: incident and e :: env and w :: world
  obtain svc where svc: "NewRcaService [] [] None = Inr svc" by (auto simp: NewRcaService_def NewWithRules_def default_rules_valid)
  have none: "Match c i [] = []" for c by (simp add: Match_def List.map_filter_simps)
  have run: "analyze svc i [] sample_topology e w = (Inr (analyze_with i [] [] sample_topology), w)"
    by (simp add: analyze_def collectEvidence_def primaryMatches_def none bind_def ret_def time_now_def)
  have "an_Confidence (analyze_with i [] [] sample_topology) = fl (72 / 100)"
    by (simp add: analyze_with_def scoreHypotheses_def rule_scores_def rule_order_def stable_sort_def applyTopologyFallback_def
        insufficientEvidence_def sample_topology_def enrichWithTopology_def nudge_def Let_def)
  moreover have "fl (72 / 100) > fl (55 / 100)" by code_simp
  ultimately have high: "an_Confidence (analyze_with i [] [] sample_topology) > fl (55 / 100)" by simp
  show "\<exists>svc r. NewRcaService [] [] None = Inr svc \<and> analyze svc i [] sample_topology e w = (Inr r, w) \<and> an_Confidence r > fl (55 / 100) \<and>
      rests_on_topology [] sample_topology r"
    using confidence_is_earned [OF svc run high] svc run high by (auto simp: none)
qed

section \<open>Advice\<close>

lemma validate_advisory:
  "validateAdvisoryResponse payload = None \<longleftrightarrow> map_any payload ''executed'' = VBool False \<and> map_any payload ''advisory_only'' = VBool True"
  by (simp add: validateAdvisoryResponse_def)

lemma suggest_results:
  "results (SuggestRemediations svc iid) (\<lambda>payload. map_any payload ''executed'' = VBool False \<and> map_any payload ''advisory_only'' = VBool True)"
  unfolding SuggestRemediations_def
  by (auto intro!: results_bind results_fail results_ret simp: validate_advisory split: option.splits)

lemma still_advice:
  "deployed svc \<Longrightarrow> evolves (unchanged f) (SuggestRemediations svc iid)" "evolves (unchanged f) (ReindexRunbooks svc)"
  unfolding SuggestRemediations_def ReindexRunbooks_def ListSignals_def GetIncidentTopology_def GetIncident_def ListServiceDependencies_def
  by (intro evo still.evolves_keeps keeps_analyze; simp add: deployed_def)+

text \<open>
  C14: Advice of the language model has no effect. Asking it for suggestions changes nothing in any
  table, however it answers and whatever fails, and an answer reaches the caller only if it declares
  that it is advisory and that nothing was executed.
\<close>

theorem advice_has_no_effect:
  "case NewRcaService url tok (Some (NewCollector timeout [(Prometheus, NewPrometheus pu pt), (Loki, NewLoki lu lt)])) of
     Inl err \<Rightarrow> False
   | Inr svc \<Rightarrow>
       evolves (unchanged f) (SuggestRemediations svc iid) \<and> evolves (unchanged f) (ReindexRunbooks svc) \<and>
       results (SuggestRemediations svc iid)
         (\<lambda>payload. map_any payload ''executed'' = VBool False \<and> map_any payload ''advisory_only'' = VBool True)"
  using NewRcaService_deployed [of url tok timeout pu pt lu lt] still_advice suggest_results by auto

end
