(* ===== verification/Control_Api.thy ===== *)
theory Control_Api
  imports Api Control_Helios Rca_Correct
begin

text \<open>
  The HTTP API as a client of the control machine: whatever request arrives, and whoever sends it, serving
  it only does steps of the machine.
\<close>

section \<open>Handlers that only read\<close>

text \<open>Answers, and the calls that leave the tables as they are, whatever relation the tables evolve along.\<close>

lemma keeps_answers: "keeps (oks status f x)" "keeps handleHealth" "keeps (handleCurrentPrincipal r)"
  by (auto simp: oks_def handleHealth_def handleCurrentPrincipal_def on_method_def intro!: keep split: option.splits)

context evolution
begin

lemmas evolves_streams [evo] = evolves_keeps [OF keeps_GetDeadLetter] evolves_keeps [OF keeps_ListDeadLetters]
  evolves_keeps [OF keeps_DeleteDeadLetter] evolves_keeps [OF keeps_answers(1)] evolves_keeps [OF keeps_answers(2)]
  evolves_keeps [OF keeps_answers(3)] evolves_keeps [OF keeps_Authenticate]

lemma evolves_answer [evo]: "evolves R m \<Longrightarrow> (\<And>x. evolves R (f x)) \<Longrightarrow> evolves R (answer m status f)"
  unfolding answer_def by (intro evolves_bind evolves_attempt evolves_case_sum evolves_ret) auto

lemma evolves_reads [evo]: "(\<And>x. evolves R (f x)) \<Longrightarrow> evolves R (reads body f)"
  unfolding reads_def by (intro evolves_case_sum evolves_ret) auto

lemma evolves_on_method [evo]: "(rq_Method r = m \<Longrightarrow> evolves R h) \<Longrightarrow> evolves R (on_method m r h)"
  unfolding on_method_def by (auto intro: evolves_ret)

lemma evolves_listings [evo]:
  "evolves R ListServices" "evolves R ListRunbooks" "evolves R (ListEntries limit)" "evolves R ListIncidents"
  "evolves R (ListTimeline iid)" "evolves R (ListSignals iid)" "evolves R (GetIncidentTopology iid)" "evolves R (GetLatestRCAReport iid)"
  "evolves R (ListRemediations iid)" "evolves R (GetRemediation rid)" "evolves R (GetIncident iid)" "evolves R ListServiceDependencies"
  "evolves R (StoreList status limit)" "evolves R (StoreGet rid)"
  unfolding ListServices_def ListRunbooks_def ListEntries_def ListIncidents_def ListTimeline_def ListSignals_def GetIncidentTopology_def
    GetLatestRCAReport_def ListRemediations_def GetRemediation_def GetIncident_def ListServiceDependencies_def StoreList_def StoreGet_def
    scanRequest_def Let_def
  by (intro evo)+

lemma tx_asks [evo]: "tx_evolves R (asks f)"
  unfolding tx_evolves_def using refl by (auto dest!: tx)

lemma evolves_views [evo]: "evolves R (viewDeadLetter letter)" "evolves R (Verify jsonb)" "evolves R (verifyAuditChain s)"
  unfolding viewDeadLetter_def verifyAuditChain_def Verify_def by (intro evo evolves_transaction_if)+

lemma evolves_readers [evo]:
  "evolves R handleReady" "evolves R (handleAudit r)" "evolves R (handleAuditVerify s r)" "evolves R (handleTopology r)"
  "evolves R (handleRunbooks r)" "evolves R (handleDeadLetters r)"
  unfolding handleReady_def handleAudit_def handleAuditVerify_def handleTopology_def handleRunbooks_def handleDeadLetters_def
  by (intro evo)+

end

section \<open>Calls only the API makes\<close>

lemma dependency_follows [evo]: "tx_evolves (follows self loc) (UpsertServiceDependency body)"
  unfolding UpsertServiceDependency_def Let_def by (intro evo; (elim inserts_aside)?)

lemma EnsureService_follows [evo]: "evolves (follows self loc) (EnsureService name)"
  unfolding EnsureService_def by (intro evo aside_sql; elim inserts_aside)

lemma transition_follows [evo]: "tx_evolves (follows self loc) (TransitionIncident iid status)"
  unfolding TransitionIncident_def
  by (rule tx_followsI)
     (auto dest!: tx simp: move_incident_def same_tables_def split: option.splits if_splits intro!: r_into_rtranclp control.aside)

lemma changes_follow [evo]:
  "evolves (follows self loc) (change_state actor iid state)" "evolves (follows self loc) (save_dependency actor body)"
  unfolding change_state_def save_dependency_def by (intro evo flow.evolves_InTx)+

lemma ReindexRunbooks_follows [evo]: "evolves (follows self loc) (ReindexRunbooks svc)"
  unfolding ReindexRunbooks_def by (intro evo)

lemma SlackHandle_follows:
  assumes "apAllowSelf svc = self"
  shows "evolves (follows self loc) (SlackHandle w svc pick headers body)"
  unfolding SlackHandle_def slack_submission_def
  by (intro evo flow.evolves_keeps keeps_slack_action Decide_follows [of svc, unfolded assms])

section \<open>Every request follows the machine\<close>

text \<open>A server whose services are set up for the given rules, with evidence backends that only answer.\<close>

definition set_up :: "bool \<Rightarrow> bool \<Rightarrow> server \<Rightarrow> bool" where
  "set_up self loc s \<longleftrightarrow>
     apAllowSelf (srv_approvals s) = self \<and> rs_approvals (srv_service s) = Some (srv_approvals s) \<and>
     (loc \<longrightarrow> isQueued (rs_exec (srv_service s))) \<and> deployed (srv_rca s)"

lemma set_up_follows:
  assumes "set_up self loc s"
  shows "evolves (follows self loc) (Decide (srv_approvals s) rid actor ty decision reason source)"
    "evolves (follows self loc) (Approve (srv_service s) rid actor reason)"
    "evolves (follows self loc) (Reject (srv_service s) rid actor reason)"
    "evolves (follows self loc) (Execute (srv_service s) rid dry actor)"
    "evolves (follows self loc) (Generate (srv_rca s) slot iid)"
    "evolves (follows self loc) (ReportForProposal (srv_rca s) slot i)"
    "evolves (follows self loc) (SuggestRemediations (srv_rca s) iid)"
    "evolves (follows self loc) (SlackHandle w (srv_approvals s) pick headers body)"
proof -
  have self: "apAllowSelf (srv_approvals s) = self" and exec: "loc \<longrightarrow> isQueued (rs_exec (srv_service s))"
    and approvals: "\<And>approvals. rs_approvals (srv_service s) = Some approvals \<Longrightarrow> apAllowSelf approvals = self"
    using assms by (auto simp: set_up_def)
  show "evolves (follows self loc) (Decide (srv_approvals s) rid actor ty decision reason source)"
    using Decide_follows [of "srv_approvals s"] self by simp
  show "evolves (follows self loc) (Approve (srv_service s) rid actor reason)" "evolves (follows self loc) (Reject (srv_service s) rid actor reason)"
    using Approve_follows [OF approvals] by auto
  show "evolves (follows self loc) (Execute (srv_service s) rid dry actor)" using Execute_follows [OF exec] .
  show "evolves (follows self loc) (SlackHandle w (srv_approvals s) pick headers body)" using SlackHandle_follows [OF self] .
qed (use assms in \<open>auto simp: set_up_def intro: Generate_follows ReportForProposal_follows SuggestRemediations_follows\<close>)

lemma dead_letters_follow [evo]: "evolves (follows self loc) (handleDeadLetterRoutes s r)"
  unfolding handleDeadLetterRoutes_def replayDeadLetter_def discardDeadLetter_def case_prod_beta
  by (auto intro!: evo Redispatch_follows split: list.split)

lemma incident_view_follows [evo]: "evolves (follows self loc) (incident_view r iid sub)"
  unfolding incident_view_def handleIncidentStateChange_def by (intro evo)

lemma incident_action_follows:
  assumes "set_up self loc s"
  shows "evolves (follows self loc) (incident_action s r iid a b)"
  unfolding incident_action_def handlePropose_def by (intro evo set_up_follows [OF assms] Propose_follows)

lemma incident_routes_follow [evo]:
  assumes "set_up self loc s"
  shows "evolves (follows self loc) (handleIncidentRoutes s r)"
  unfolding handleIncidentRoutes_def by (auto intro!: evo incident_action_follows [OF assms] split: list.split)

lemma remediation_route_follows:
  assumes "set_up self loc s"
  shows "evolves (follows self loc) (remediation_route s r rid act)"
  unfolding remediation_route_def by (intro evo set_up_follows [OF assms] Cancel_follows)

lemma remediation_routes_follow [evo]:
  assumes "set_up self loc s"
  shows "evolves (follows self loc) (handleRemediationRoutes s r)" "evolves (follows self loc) (handleApprovalRequests s r)"
    "evolves (follows self loc) (handleSlackApprovalCallback s r)"
  unfolding handleRemediationRoutes_def handleApprovalRequests_def handleSlackApprovalCallback_def Let_def
  by (auto intro!: evo set_up_follows [OF assms] remediation_route_follows [OF assms] split: list.split)

lemma ingestion_follows [evo]:
  "evolves (follows self loc) (handleAlertmanager s r)" "evolves (follows self loc) (handleManualSignal s r)"
  "evolves (follows self loc) (handleIncidents s r)" "evolves (follows self loc) (handleServices r)"
  "evolves (follows self loc) (handleTopologyDependencies r)" "evolves (follows self loc) (handleRunbookReindex s r)"
  unfolding handleAlertmanager_def handleManualSignal_def handleIncidents_def handleServices_def handleTopologyDependencies_def
    handleRunbookReindex_def
  by (intro evo)+

lemma serve_follows:
  assumes "set_up self loc s"
  shows "evolves (follows self loc) (serve s r)"
proof -
  have "evolves (follows self loc) (run_handler s h r)" for h r
    by (cases h) (auto simp: run_handler_def intro!: evo assms)
  then have "evolves (follows self loc) (mux s r)" for r
    unfolding mux_def by (auto intro!: flow.evolves_ret split: routed.split)
  then show ?thesis
    unfolding serve_def limitRequestBodies_def authMiddleware_def authorized_def by (intro evo)
qed

end
