(* ===== verification/Control_Plane.thy ===== *)
theory Control_Plane
  imports Deployment Control_Api Control_Workers
begin

text \<open>
  The control plane as a whole: every request the API serves, every operation that it, the background
  loops and the worker run, and the states a deployment can reach by running them one after another, with other
  processes acting in between and during them.

  An operation runs against an environment that may fail any statement, lose the answer of any commit,
  and let others change the database between any two statements. What others do is taken to be steps
  of the control machine; that each operation in turn only does such steps is the first theorem, so
  the assumption is one the deployment's own processes meet.
\<close>

section \<open>Operations\<close>

datatype operation =
    OpPropose incident "rca_candidate list" string string
  | OpApprove string string string
  | OpReject string string string
  | OpDecide string string string string string string
  | OpCancel string string
  | OpExecute string bool string
  | OpRedispatch string string string string "gval gomap option"
  | OpSweep
  | OpPublish
  | OpReconcile bool
  | OpReconcileHelios bool
  | OpMessage js_msg
  | OpBeat string string
  | OpRecord entry
  | OpServe verifier "string \<Rightarrow> string" bool nat api_request
  | OpSummarize summary_task
  | OpVerify "string \<Rightarrow> string"

definition discard :: "'a prog \<Rightarrow> unit prog" where
  "discard m = bind m (\<lambda>_. ret ())"

definition run_operation :: "deployment \<Rightarrow> operation \<Rightarrow> unit prog" where
  "run_operation dep act =
     (let svc = dep_service dep;
          cfg = (case rs_dispatcher svc of Some cfg \<Rightarrow> cfg | None \<Rightarrow> DefaultDispatcherConfig) in
      case act of
        OpPropose incident candidates actor role \<Rightarrow> discard (Propose svc incident candidates actor role)
      | OpApprove rid actor reason \<Rightarrow> Approve svc rid actor reason
      | OpReject rid actor reason \<Rightarrow> Reject svc rid actor reason
      | OpDecide rid actor ty decision reason source \<Rightarrow> discard (Decide (dep_approvals dep) rid actor ty decision reason source)
      | OpCancel rid actor \<Rightarrow> Cancel svc rid actor
      | OpExecute rid dry actor \<Rightarrow> discard (Execute svc rid dry actor)
      | OpRedispatch rid reason actor ty md \<Rightarrow> discard (Redispatch cfg rid reason actor ty md)
      | OpSweep \<Rightarrow> processDue (dep_approvals dep)
      | OpPublish \<Rightarrow> discard (PublishPending cfg)
      | OpReconcile locked \<Rightarrow> discard (Reconcile cfg locked)
      | OpReconcileHelios locked \<Rightarrow> discard (ReconcileHelios svc (dep_helios dep) locked)
      | OpMessage msg \<Rightarrow> discard (handleMessage (dep_runner dep) msg)
      | OpBeat workerID hostname \<Rightarrow> beat (dep_runner dep) workerID hostname
      | OpRecord e \<Rightarrow> Record e
      | OpServe v jsonb slot pick r \<Rightarrow> (case dep_server dep v jsonb slot pick of Inl _ \<Rightarrow> ret () | Inr s \<Rightarrow> discard (serve s r))
      | OpSummarize task \<Rightarrow> (case dep_rca dep of Inl _ \<Rightarrow> ret () | Inr rca \<Rightarrow> summarize rca task)
      | OpVerify jsonb \<Rightarrow> discard (Verify jsonb))"

abbreviation plane :: "config \<Rightarrow> change" where
  "plane c \<equiv> follows (cfg_ApprovalAllowSelf c) (isQueued (api_executor c))"

lemma server_set_up:
  assumes "dep_server (deploy c) v jsonb slot pick = Inr s" shows "set_up (cfg_ApprovalAllowSelf c) (isQueued (api_executor c)) s"
proof -
  have "deployed rca" if "api_rca c = Inr rca" for rca
    using that read_only_http by (cases "NewWithRules DefaultRules") (auto simp: api_rca_def NewRcaService_def deployed_def)
  then show ?thesis
    using assms deploy_service [of c] deploy_self [of c]
    by (auto simp: NewServer_def set_up_def deploy_def split: option.splits sum.splits if_splits)
qed

lemma operation_follows: "evolves (plane c) (run_operation (deploy c) act)"
proof -
  have decide: "evolves (plane c) (Decide (dep_approvals (deploy c)) rid actor ty decision reason source)" for rid actor ty decision reason source
    using Decide_follows [of "dep_approvals (deploy c)"] by simp
  have approvals: "rs_approvals (dep_service (deploy c)) = Some approvals \<Longrightarrow> apAllowSelf approvals = cfg_ApprovalAllowSelf c" for approvals
    by auto
  show ?thesis
    by (cases act) (auto simp: run_operation_def discard_def Let_def intro!: flow.evolves_bind flow.evolves_ret Propose_follows Approve_follows
        approvals decide Cancel_follows Execute_follows Redispatch_follows processDue_follows PublishPending_follows Reconcile_follows
        ReconcileHelios_follows handleMessage_follows beat_follows Record_follows serve_follows server_set_up summarize_follows
        flow.evolves_views(2) split: sum.split)
qed

section \<open>Reachable states\<close>

text \<open>The schema as the migrations leave it: no rows in the tables of the control plane, an empty ledger.\<close>

definition fresh :: "database \<Rightarrow> bool" where
  "fresh d \<longleftrightarrow>
     remediation_actions d = [] \<and> remediation_dispatches d = [] \<and> approval_requests d = [] \<and> receipts d = [] \<and>
     audit_logs d = [] \<and> audit_chain_state d = Some (0, GenesisHash)"

inductive step :: "config \<Rightarrow> (string \<Rightarrow> string) \<Rightarrow> database \<Rightarrow> database \<Rightarrow> bool" for c h where
  run: "tx_time e = None \<Longrightarrow> sha256 e = h \<Longrightarrow> rely (plane c) e \<Longrightarrow> run_operation (deploy c) act e w = (r, w') \<Longrightarrow>
     step c h (db w) (db w')"
| others: "plane c h d d' \<Longrightarrow> step c h d d'"

inductive reachable :: "config \<Rightarrow> (string \<Rightarrow> string) \<Rightarrow> database \<Rightarrow> bool" for c h where
  start: "fresh d \<Longrightarrow> reachable c h d"
| run: "reachable c h d \<Longrightarrow> step c h d d' \<Longrightarrow> reachable c h d'"

lemma step_follows: "step c h d d' \<Longrightarrow> plane c h d d'"
proof (induction rule: step.induct)
  case (run e act w r w')
  then show ?case using evolvesD [OF operation_follows [of c act] run(1,3), of w] by simp
qed

lemma fresh_ok: "fresh d \<Longrightarrow> control_ok self loc d \<and> chain_ok h d"
  by (auto simp: fresh_def control_ok_def keys_ok_def approvals_ok_def requests_ok_def outbox_ok_def effects_ok_def audited_def
      chain_ok_def ledger_head_def)

lemma run_grows: "(control self loc h)\<^sup>*\<^sup>* d d' \<Longrightarrow> ledger_grows h d d'"
  by (induction rule: rtranclp_induct) (auto intro: ledger.refl ledger.trans control_grows)

lemma reachable_ok: "reachable c h d \<Longrightarrow> control_ok (cfg_ApprovalAllowSelf c) (isQueued (api_executor c)) d \<and> chain_ok h d"
proof (induction rule: reachable.induct)
  case (run d d')
  then have "(control (cfg_ApprovalAllowSelf c) (isQueued (api_executor c)) h)\<^sup>*\<^sup>* d d'" using step_follows by (auto simp: follows_def)
  then show ?case using run run_ok run_grows by (auto simp: ledger_grows_def)
qed (rule fresh_ok)

section \<open>Statuses over time\<close>

text \<open>The transition table, and the one step back the code takes outside it: releasing a reservation.\<close>

definition moves_to :: "string \<Rightarrow> string \<Rightarrow> bool" where
  "moves_to s t \<longleftrightarrow> CanTransition s t \<and> s \<noteq> StateFailed \<or> s = t \<or> s = StateQueued \<and> t = StateApproved"

interpretation tracked: lifecycle moves_to IsTerminalState
  by unfold_locales (auto simp: moves_to_def CanTransition_iff IsTerminalState_def)

definition carried :: "remediation_action \<Rightarrow> database \<Rightarrow> bool" where
  "carried r d \<longleftrightarrow> (\<exists>r' \<in> set (remediation_actions d). core r' = core r \<and> moves_to\<^sup>*\<^sup>* (rem_Status r) (rem_Status r'))"

lemma moves_table: "(s, t) \<in> set moves \<Longrightarrow> moves_to s t"
  by (auto simp: moves_def moves_to_def CanTransition_iff)

lemma settlements_table: "(s, t) \<in> set settlements \<Longrightarrow> moves_to StateAwaitingApproval t"
  by (auto simp: settlements_def moves_to_def CanTransition_iff)

lemma carried_step:
  assumes "control self loc h d d'" "keys_ok d" "r \<in> set (remediation_actions d)" shows "carried r d'"
  using assms(1)
proof (cases rule: control.cases)
  case (settle q s t f g es)
  let ?P = "in_states (req_RemediationID q) [StateAwaitingApproval]"
  have "remediation_actions d' = update_rows ?P g (remediation_actions d)" using logged_tables [OF settle(7)] by simp
  then have "(if ?P r then g r else r) \<in> set (remediation_actions d')" using in_update_rows [OF assms(3)] by simp
  then show ?thesis using settle(5) settlements_table [OF settle(3)] unfolding carried_def
    by (intro bexI [where x = "if ?P r then g r else r"]) (auto simp: in_states_def)
next
  case (move r0 rid t ss g xs es)
  let ?P = "in_states rid ss"
  have "?P r \<Longrightarrow> r = r0" using same_key [of rem_ID "remediation_actions d" r r0] move(1,2) assms(2,3) by (auto simp: keys_ok_def in_states_def)
  moreover have "remediation_actions d' = update_rows ?P g (remediation_actions d)" using logged_tables [OF move(9)] by simp
  then have "(if ?P r then g r else r) \<in> set (remediation_actions d')" using in_update_rows [OF assms(3)] by simp
  ultimately show ?thesis using move(5) moves_table [OF move(3)] unfolding carried_def
    by (intro bexI [where x = "if ?P r then g r else r"]) auto
qed (use assms(3) in \<open>auto simp: carried_def same_tables_def dest!: logged_tables intro!: bexI [where x = r]\<close>)

lemma carried_run:
  assumes "(control self loc h)\<^sup>*\<^sup>* d d'" "control_ok self loc d" "r \<in> set (remediation_actions d)" shows "carried r d'"
  using assms
proof (induction rule: rtranclp_induct)
  case (step d1 d2)
  then obtain r1 where r1: "r1 \<in> set (remediation_actions d1)" "core r1 = core r" "moves_to\<^sup>*\<^sup>* (rem_Status r) (rem_Status r1)"
    by (auto simp: carried_def)
  have "keys_ok d1" using run_ok [OF step(1,4)] by (rule keys_of_ok)
  then have "carried r1 d2" using carried_step step(2) r1(1) by blast
  then show ?case using r1(2,3) unfolding carried_def by (metis rtranclp_trans)
qed (auto simp: carried_def)

section \<open>Requests and effects over time\<close>

definition request_moves :: "string \<Rightarrow> string \<Rightarrow> bool" where
  "request_moves s t \<longleftrightarrow> s = t \<or> s = StatusPending \<and> t \<in> fst ` set settlements"

interpretation requests: ranked_lifecycle request_moves "\<lambda>s. s \<noteq> StatusPending" "\<lambda>s. if s = StatusPending then 0 else 1"
  by unfold_locales (auto simp: request_moves_def settlements_def)

definition upheld :: "request \<Rightarrow> database \<Rightarrow> bool" where
  "upheld q d \<longleftrightarrow> (\<exists>q' \<in> set (approval_requests d). ident q' = ident q \<and> request_moves (req_Status q) (req_Status q') \<and>
     (req_Status q \<noteq> StatusPending \<longrightarrow> req_DecidedBy q' = req_DecidedBy q))"

lemma upheld_step:
  assumes "control self loc h d d'" "keys_ok d" "q \<in> set (approval_requests d)" shows "upheld q d'"
  using assms(1)
proof (cases rule: control.cases)
  case (settle p s t f g es)
  let ?P = "\<lambda>x. req_ID x = req_ID p"
  have "?P q \<Longrightarrow> q = p" using same_key [of req_ID "approval_requests d" q p] settle(1) assms(2,3) by (auto simp: keys_ok_def)
  moreover have "approval_requests d' = update_rows ?P f (approval_requests d)" using logged_tables [OF settle(7)] by simp
  then have "(if ?P q then f q else q) \<in> set (approval_requests d')" using in_update_rows [OF assms(3), of ?P f] by simp
  ultimately show ?thesis using settle(2-4) unfolding upheld_def
    by (intro bexI [where x = "if ?P q then f q else q"]) (auto simp: request_moves_def intro!: image_eqI [of _ _ "(s, t)"])
next
  case (note_request f es P)
  have "approval_requests d' = update_rows P f (approval_requests d)" using logged_tables [OF note_request(2)] by simp
  then have "(if P q then f q else q) \<in> set (approval_requests d')" using in_update_rows [OF assms(3), of P f] by simp
  then show ?thesis using note_request(1) unfolding upheld_def
    by (intro bexI [where x = "if P q then f q else q"]) (auto simp: request_moves_def)
qed (use assms(3) in \<open>auto simp: upheld_def request_moves_def same_tables_def dest!: logged_tables intro!: bexI [where x = q]\<close>)

lemma upheld_trans: "upheld q d1 \<Longrightarrow> (\<And>q'. q' \<in> set (approval_requests d1) \<Longrightarrow> upheld q' d2) \<Longrightarrow> upheld q d2"
  unfolding upheld_def by (metis request_moves_def)

lemma upheld_run:
  assumes "(control self loc h)\<^sup>*\<^sup>* d d'" "control_ok self loc d" "q \<in> set (approval_requests d)" shows "upheld q d'"
  using assms
proof (induction rule: rtranclp_induct)
  case (step d1 d2)
  have "keys_ok d1" using run_ok [OF step(1,4)] by (rule keys_of_ok)
  then show ?case using upheld_trans [OF step.IH [OF step(4,5)]] upheld_step [OF step(2)] by blast
qed (auto simp: upheld_def request_moves_def)

text \<open>Receipts are only added, and targets change only with them.\<close>

definition receipted :: change where
  "receipted h d d' \<longleftrightarrow> (\<exists>xs. receipts d' = receipts d @ xs \<and> (xs = [] \<longrightarrow> target_states d' = target_states d))"

interpretation receipting: evolution receipted
  by unfold_locales (auto simp: receipted_def)

lemma receipted_step: "control self loc h d d' \<Longrightarrow> receipted h d d'"
  by (induction rule: control.induct) (auto simp: receipted_def same_tables_def dest!: logged_tables)

lemma receipted_run: "(control self loc h)\<^sup>*\<^sup>* d d' \<Longrightarrow> receipted h d d'"
  by (induction rule: rtranclp_induct) (auto intro: receipting.refl receipting.trans receipted_step)

section \<open>Findings over time\<close>

lemma reports_run: "(control self loc h)\<^sup>*\<^sup>* d d' \<Longrightarrow> reports_grow (rca_reports d) (rca_reports d')"
  by (induction rule: rtranclp_induct) (auto intro: reports_grow_trans control_reports)

section \<open>A sample run\<close>

text \<open>One remediation, proposed by one person, approved by another and carried out.\<close>

definition sample_remediation :: remediation_action where
  "sample_remediation =
     \<lparr>rem_ID = ''rem_1'', rem_IncidentID = ''inc_1'', rem_ActionType = ToggleFeatureFlag, rem_Target = ''checkout'',
      rem_Parameters = [(''enabled'', VBool False)], rem_Status = StateAwaitingApproval, rem_Risk = ''medium'',
      rem_IdempotencyKey = ''inc_1_toggle_feature_flag_checkout_1'', rem_ProposedBy = ''alice'', rem_ApprovedBy = [],
      rem_PolicyDecision = [], rem_DryRun = True, rem_Attempt = 1, rem_MaxAttempts = 2, rem_QueuedAt = None,
      rem_StartedAt = None, rem_CompletedAt = None, rem_Result = None, rem_Error = [], rem_CreatedAt = 0\<rparr>"

definition sample_request :: request where
  "sample_request =
     \<lparr>req_ID = ''apr_1'', req_RemediationID = ''rem_1'', req_IncidentID = ''inc_1'', req_ActionType = ToggleFeatureFlag,
      req_Target = ''checkout'', req_Parameters = [(''enabled'', VBool False)], req_Risk = ''medium'', req_Status = StatusPending,
      req_RequestedBy = ''alice'', req_RequestedAt = 0, req_EscalatesAt = Minute, req_ExpiresAt = Hour,
      req_EscalatedAt = None, req_DecidedAt = None, req_DecidedBy = [], req_DecisionReason = [], req_DecisionSource = [],
      req_NotificationStatus = ''pending'', req_NotificationAttempts = 0, req_LastNotificationError = [],
      req_CreatedAt = 0, req_UpdatedAt = 0\<rparr>"

definition sample_receipt :: receipt where
  "sample_receipt =
     \<lparr>rcp_IdempotencyKey = ''inc_1_toggle_feature_flag_checkout_1'', rcp_ActionType = ToggleFeatureFlag,
      rcp_Target = ''checkout'', rcp_Result = [], rcp_CreatedAt = 0\<rparr>"

definition sample_database :: database where
  "sample_database =
     \<lparr>audit_logs = [], audit_chain_state = Some (0, GenesisHash), remediation_actions = [], remediation_dispatches = [],
      approval_requests = [], incidents = [], incident_alerts = [], signals = [], timeline = [], services_tbl = [],
      service_dependencies = [], rca_reports = [],
      target_states = [], receipts = [], heartbeats = [], runbooks_tbl = []\<rparr>"

definition status_entry :: "string \<Rightarrow> string \<Rightarrow> entry" where
  "status_entry rid s = entry0\<lparr>ent_ResourceType := ''remediation'', ent_ResourceID := rid, ent_AfterState := status_map s\<rparr>"

lemma status_entry_records [simp]: "records (status_entry rid s) rid s"
  by (simp add: status_entry_def records_def status_map_def map_any_def entry0_def)

lemma can_log:
  assumes "audit_chain_state d = Some (p, prev)" "json_wf (VMap [(''status'', VStr s)])"
  shows "\<exists>d'. appended h (status_entry rid s) d d'"
proof -
  have null: "canonicalJSON VNil = Inr ''null''" by code_simp
  obtain a where a: "canonicalJSON (VMap [(''status'', VStr s)]) = Inr a" "canonicalizeRawJSON a = Inr a"
    using canonicalJSON_total [OF assms(2)] canonicalJSON_canonical canonicalizeRawJSON_id by metis
  let ?e = "(status_entry rid s)\<lparr>ent_ID := [], ent_CreatedAt := 0\<rparr>"
  have "prepareEntry ?e = Inr (''null'', a, ''null'')" using a null
    by (simp add: prepareEntry_def status_entry_def status_map_def entry0_def state_value_def)
  moreover have "\<exists>hash. calculateHash h ?e (p + 1) prev ''null'' a ''null'' = Inr hash" using a by (simp add: calculateHash_def)
  ultimately show ?thesis using appended_row [OF assms(1)] by blast
qed

lemma sample_statuses:
  "json_wf (VMap [(''status'', VStr StateAwaitingApproval)])" "json_wf (VMap [(''status'', VStr StateApproved)])"
  by code_simp+

lemma appended_head: "appended h e d d' \<Longrightarrow> \<exists>p prev. audit_chain_state d' = Some (p, prev)"
  by (auto simp: appended_def)

lemma sample_fresh: "fresh sample_database"
  by (simp add: fresh_def sample_database_def)

lemma machine_step: "reachable c h d \<Longrightarrow> control (cfg_ApprovalAllowSelf c) (isQueued (api_executor c)) h d d' \<Longrightarrow> reachable c h d'"
  by (rule reachable.run [OF _ step.others]) (auto simp: follows_def)

lemma sample_run: "\<exists>d. reachable c h d \<and> receipts d = [sample_receipt] \<and> map rem_Status (remediation_actions d) = [StateApproved] \<and>
    map req_Status (approval_requests d) = [StatusApproved]"
proof -
  let ?M = "control (cfg_ApprovalAllowSelf c) (isQueued (api_executor c)) h"
  let ?d0 = "sample_database\<lparr>remediation_actions := [sample_remediation]\<rparr>"
  have "audit_chain_state ?d0 = Some (0, GenesisHash)" by (simp add: sample_database_def)
  then obtain d1 where d1: "appended h (status_entry ''rem_1'' StateAwaitingApproval) ?d0 d1"
    using can_log [OF _ sample_statuses(1)] by blast
  note t1 = logged_tables [OF appended_logged [OF d1]]
  have r1: "reachable c h d1"
    by (rule machine_step [OF reachable.start [OF sample_fresh] control.propose [of sample_remediation _ h "[status_entry ''rem_1'' StateAwaitingApproval]"]])
       (use d1 in \<open>auto simp: sample_database_def sample_remediation_def\<close>)
  let ?d2 = "d1\<lparr>approval_requests := [sample_request]\<rparr>"
  have r2: "reachable c h ?d2"
    by (rule machine_step [OF r1 control.request [of sample_remediation _ sample_request h "[]"]])
       (use t1 in \<open>auto simp: sample_database_def sample_remediation_def sample_request_def\<close>)
  let ?f = "\<lambda>q. q\<lparr>req_Status := StatusApproved, req_DecidedBy := ''bob''\<rparr>" and ?g = "\<lambda>r. r\<lparr>rem_Status := StateApproved\<rparr>"
  let ?d2' = "?d2\<lparr>approval_requests := [?f sample_request], remediation_actions := [?g sample_remediation]\<rparr>"
  have "\<exists>p prev. audit_chain_state ?d2' = Some (p, prev)" using appended_head [OF d1] by simp
  then obtain d3 where d3: "appended h (status_entry ''rem_1'' StateApproved) ?d2' d3"
    using can_log [OF _ sample_statuses(2)] by blast
  note t3 = logged_tables [OF appended_logged [OF d3]]
  have "\<not> equal_fold (trim_space ''alice'') (trim_space ''bob'')" by code_simp
  then have "separate (cfg_ApprovalAllowSelf c) ''alice'' ''bob''" by (simp add: separate_def)
  then have "?M ?d2 d3"
    by (intro control.settle [of sample_request _ StatusApproved StateApproved ?f ?g _ h "[status_entry ''rem_1'' StateApproved]"])
       (use t1 d3 in \<open>auto simp: sample_database_def sample_remediation_def sample_request_def settlements_def ident_def core_def
          update_rows_def in_states_def\<close>)
  then have r3: "reachable c h d3" by (rule machine_step [OF r2])
  have "authorised (cfg_ApprovalAllowSelf c) (?g sample_remediation) d3"
    using t3 \<open>separate _ _ _\<close> by (auto simp: authorised_def sample_remediation_def sample_request_def)
  then have "?M d3 (d3\<lparr>target_states := [], receipts := receipts d3 @ [sample_receipt]\<rparr>)"
    by (intro control.effect [of "?g sample_remediation"])
       (use t1 t3 in \<open>auto simp: backs_def sample_remediation_def sample_receipt_def sample_database_def ToggleFeatureFlag_def CollectDiagnostics_def\<close>)
  then show ?thesis using machine_step [OF r3] t1 t3 by (fastforce simp: sample_database_def)
qed

section \<open>Properties\<close>

text \<open>
  C2: whatever fails and whatever other processes do meanwhile, an operation of a deployment only takes
  steps of the control machine: it proposes, requests an approval, settles a request, moves a
  remediation along its life cycle with the audit entry that says so, queues or re-sends a job, or
  records the effect of an authorised one.
\<close>

theorem operations_refine_machine: "evolves (plane c) (run_operation (deploy c) act)"
  by (rule operation_follows)

text \<open>
  C1: nothing is changed in the world without a human decision. In every state a deployment reaches, each
  execution receipt belongs to a stored remediation with the same key, action and target, whose
  approval request was approved, by someone other than the proposer unless the deployment allows
  self-approval.
\<close>

theorem effects_are_approved:
  assumes "reachable c h d" "x \<in> set (receipts d)"
  shows "\<exists>r \<in> set (remediation_actions d). \<exists>q \<in> set (approval_requests d).
    rem_IdempotencyKey r = rcp_IdempotencyKey x \<and> rem_ActionType r = rcp_ActionType x \<and> rem_Target r = rcp_Target x \<and>
    req_RemediationID q = rem_ID r \<and> req_Status q = StatusApproved \<and>
    (cfg_ApprovalAllowSelf c \<or> \<not> equal_fold (trim_space (rem_ProposedBy r)) (trim_space (req_DecidedBy q)))"
proof -
  have "effects_ok (cfg_ApprovalAllowSelf c) d" using reachable_ok [OF assms(1)] by (simp add: control_ok_def)
  then obtain r where r: "r \<in> set (remediation_actions d)" "backs r x" "authorised (cfg_ApprovalAllowSelf c) r d"
    using assms(2) by (auto simp: effects_ok_def)
  then obtain q where "q \<in> set (approval_requests d)" "req_RemediationID q = rem_ID r" "req_Status q = StatusApproved"
    "separate (cfg_ApprovalAllowSelf c) (rem_ProposedBy r) (req_DecidedBy q)" by (auto simp: authorised_def backs_def)
  then show ?thesis using r(1,2) by (auto simp: separate_def backs_def)
qed

theorem effects_are_approved_witness:
  "\<exists>d. reachable (Load (\<lambda>_. [])) sample_digest d \<and> sample_receipt \<in> set (receipts d) \<and>
     (\<exists>r \<in> set (remediation_actions d). \<exists>q \<in> set (approval_requests d).
        rem_IdempotencyKey r = rcp_IdempotencyKey sample_receipt \<and> req_RemediationID q = rem_ID r \<and> req_Status q = StatusApproved)"
proof -
  obtain d where d: "reachable (Load (\<lambda>_. [])) sample_digest d" "receipts d = [sample_receipt]" using sample_run by blast
  then show ?thesis using effects_are_approved [OF d(1), of sample_receipt] by fastforce
qed

text \<open>
  C3: the history of a remediation. From a reachable state, any step keeps every remediation with its
  incident, action, target, parameters, key and proposer; its status only moves along the transition
  table (or back from queued to approved when a reservation is released), and once it is terminal it
  never changes.
\<close>

theorem remediations_follow_life_cycle:
  assumes "reachable c h d" "step c h d d'" "r \<in> set (remediation_actions d)"
  shows "\<exists>r' \<in> set (remediation_actions d'). core r' = core r \<and> moves_to\<^sup>*\<^sup>* (rem_Status r) (rem_Status r') \<and>
    (IsTerminalState (rem_Status r) \<longrightarrow> rem_Status r' = rem_Status r)"
proof -
  have ok: "control_ok (cfg_ApprovalAllowSelf c) (isQueued (api_executor c)) d" using reachable_ok [OF assms(1)] by simp
  then have "carried r d'" using step_follows [OF assms(2)] carried_run assms(3) by (auto simp: follows_def)
  then show ?thesis using tracked.final_forever by (auto simp: carried_def)
qed

theorem remediations_follow_life_cycle_witness:
  "\<exists>d r. reachable (Load (\<lambda>_. [])) sample_digest d \<and> step (Load (\<lambda>_. [])) sample_digest d d \<and> r \<in> set (remediation_actions d) \<and>
     (\<exists>r' \<in> set (remediation_actions d). core r' = core r \<and> moves_to\<^sup>*\<^sup>* StateApproved (rem_Status r'))"
proof -
  obtain d r where d: "reachable (Load (\<lambda>_. [])) sample_digest d" "r \<in> set (remediation_actions d)" "rem_Status r = StateApproved"
    using sample_run [of "Load (\<lambda>_. [])" sample_digest] by auto
  have "step (Load (\<lambda>_. [])) sample_digest d d" by (rule step.others) (rule flow.refl)
  then show ?thesis using remediations_follow_life_cycle [OF d(1) _ d(2)] d by metis
qed

text \<open>
  C5: decisions are final. From a reachable state, any step keeps every approval request with its
  remediation and proposer; a pending one may become approved, denied, expired or cancelled, and a
  settled one keeps its status and its decider.
\<close>

theorem decisions_are_final:
  assumes "reachable c h d" "step c h d d'" "q \<in> set (approval_requests d)"
  shows "\<exists>q' \<in> set (approval_requests d'). ident q' = ident q \<and>
    (if req_Status q = StatusPending
     then req_Status q' \<in> {StatusPending, StatusApproved, StatusDenied, StatusExpired, StatusCancelled}
     else req_Status q' = req_Status q \<and> req_DecidedBy q' = req_DecidedBy q)"
proof -
  have ok: "control_ok (cfg_ApprovalAllowSelf c) (isQueued (api_executor c)) d" using reachable_ok [OF assms(1)] by simp
  then have "upheld q d'" using step_follows [OF assms(2)] upheld_run assms(3) by (auto simp: follows_def)
  then show ?thesis unfolding upheld_def
    by (elim bexE, intro bexI) (auto simp: request_moves_def settlements_def)
qed

theorem decisions_are_final_witness:
  "\<exists>d q. reachable (Load (\<lambda>_. [])) sample_digest d \<and> step (Load (\<lambda>_. [])) sample_digest d d \<and> q \<in> set (approval_requests d) \<and>
     req_Status q = StatusApproved \<and> (\<exists>q' \<in> set (approval_requests d). ident q' = ident q \<and> req_DecidedBy q' = req_DecidedBy q)"
proof -
  obtain d q where d: "reachable (Load (\<lambda>_. [])) sample_digest d" "q \<in> set (approval_requests d)" "req_Status q = StatusApproved"
    using sample_run [of "Load (\<lambda>_. [])" sample_digest] by auto
  have st: "step (Load (\<lambda>_. [])) sample_digest d d" by (rule step.others) (rule flow.refl)
  show ?thesis using decisions_are_final [OF d(1) st d(2)] d st by auto
qed

text \<open>
  C6: no effect twice, none off the record. From a reachable state, any step keeps all execution
  receipts in their order and adds new ones only under keys not used before; a step that adds none
  leaves the state of every target as it was.
\<close>

theorem effects_happen_once:
  assumes "reachable c h d" "step c h d d'"
  shows "\<exists>xs. receipts d' = receipts d @ xs \<and> distinct (map rcp_IdempotencyKey (receipts d @ xs)) \<and>
    (if xs = [] then target_states d' = target_states d else True)"
proof -
  have "control_ok (cfg_ApprovalAllowSelf c) (isQueued (api_executor c)) d'"
    using reachable_ok [OF reachable.run [OF assms]] by simp
  moreover have "receipted h d d'"
    using step_follows [OF assms(2)] receipted_run reachable_ok [OF assms(1)] by (auto simp: follows_def)
  then obtain xs where xs: "receipts d' = receipts d @ xs" "xs = [] \<longrightarrow> target_states d' = target_states d" by (auto simp: receipted_def)
  ultimately show ?thesis by (intro exI [of _ xs]) (simp add: control_ok_def keys_ok_def)
qed

theorem effects_happen_once_witness:
  "\<exists>d. reachable (Load (\<lambda>_. [])) sample_digest d \<and> step (Load (\<lambda>_. [])) sample_digest d d \<and> receipts d = [sample_receipt] \<and>
     (\<exists>xs. receipts d = receipts d @ xs \<and> distinct (map rcp_IdempotencyKey (receipts d @ xs)))"
proof -
  obtain d where d: "reachable (Load (\<lambda>_. [])) sample_digest d" "receipts d = [sample_receipt]"
    using sample_run [of "Load (\<lambda>_. [])" sample_digest] by auto
  have st: "step (Load (\<lambda>_. [])) sample_digest d d" by (rule step.others) (rule flow.refl)
  show ?thesis using effects_happen_once [OF d(1) st] d st by blast
qed

text \<open>
  C4: the ledger accounts for everything. In every reachable state the audit ledger is an intact hash
  chain, it holds an entry saying that each remediation has the status it has (claiming a job, which
  makes it running, is the one change that is not audited), no two remediations, requests, outbox rows
  or receipts share a key, and with the local executor every queued or running remediation has a job
  in the outbox.
\<close>

theorem ledger_accounts_for_statuses:
  assumes "reachable c h d"
  shows "chain_ok h d \<and> keys_ok d \<and>
    list_all (\<lambda>r. (rem_Status r = StateRunning \<or> in_ledger (rem_ID r) (rem_Status r) d) \<and>
      (isQueued (api_executor c) \<and> rem_Status r \<in> {StateQueued, StateRunning} \<longrightarrow> has_job (rem_ID r) d)) (remediation_actions d)"
  using reachable_ok [OF assms] by (auto simp: control_ok_def audited_def outbox_ok_def list_all_iff)

theorem ledger_accounts_for_statuses_witness:
  "\<exists>d r. reachable (Load (\<lambda>_. [])) sample_digest d \<and> r \<in> set (remediation_actions d) \<and> in_ledger (rem_ID r) StateApproved d"
proof -
  obtain d r where d: "reachable (Load (\<lambda>_. [])) sample_digest d" "r \<in> set (remediation_actions d)" "rem_Status r = StateApproved"
    using sample_run [of "Load (\<lambda>_. [])" sample_digest] by auto
  then have "rem_Status r = StateRunning \<or> in_ledger (rem_ID r) (rem_Status r) d"
    using ledger_accounts_for_statuses [OF d(1)] unfolding list_all_iff by blast
  then show ?thesis using d by auto
qed

text \<open>
  C13: the findings of a root cause analysis are written once. From a reachable state, any step keeps all
  RCA reports in their order, with everything in them but the summary of the language model as it was;
  and each report that it adds proposes at least one candidate, only actions and risks of the compiled
  table or diagnostics, asks for approval of every candidate whose risk is not low, and has a final
  score between the baseline and 0.95.
\<close>

theorem findings_are_permanent:
  assumes "reachable c h d" "step c h d d'"
  shows "\<exists>new. map finding (rca_reports d') = map finding (rca_reports d) @ new \<and> list_all sound_report new"
  using step_follows [OF assms(2)] reports_run reachable_ok [OF assms(1)] unfolding reports_grow_def by (fastforce simp: follows_def)

definition sample_report :: rca_report where
  "sample_report =
     \<lparr>rep_ID = ''rca_1'', rep_IncidentID = ''inc_1'', rep_DeterministicSummary = ''no known failure mode'', rep_LLMSummary = [],
      rep_PrimaryHypothesis = insufficientHypothesis, rep_ContributingFactors = [], rep_Evidence = [], rep_Confidence = BaselineConfidence,
      rep_ModelBackend = ''deterministic'', rep_ModelName = [],
      rep_Topology = \<lparr>it_IncidentID = ''inc_1'', it_RootService = [], it_RootInferred = False, it_AffectedServices = [],
        it_AlertCount = 0, it_SuppressedAlertCount = 0, it_Paths = []\<rparr>,
      rep_EvidenceItems = [], rep_Score = zero_score\<lparr>sc_Final := BaselineConfidence\<rparr>, rep_Candidates = [diagnostics ''checkout''],
      rep_LLMStatus = LLMStatusDisabled, rep_CreatedAt = 0\<rparr>"

theorem findings_are_permanent_witness:
  "\<exists>d. reachable (Load (\<lambda>_. [])) sample_digest sample_database \<and> step (Load (\<lambda>_. [])) sample_digest sample_database d \<and>
     rca_reports d = [sample_report] \<and>
     (\<exists>new. map finding (rca_reports d) = map finding (rca_reports sample_database) @ new \<and> list_all sound_report new)"
proof -
  let ?d = "sample_database\<lparr>rca_reports := [sample_report]\<rparr>"
  have "sound_report (finding sample_report)"
    using cap_bounds [of 0] by (auto simp: sound_report_def sample_report_def finding_def vetted_def diagnostics_def zero_score_def)
  then have "reports_grow (rca_reports sample_database) [sample_report]" by (auto simp: reports_grow_def sample_database_def)
  then have st: "step (Load (\<lambda>_. [])) sample_digest sample_database ?d"
    by (intro step.others) (auto simp: follows_def intro: control.report)
  have "reachable (Load (\<lambda>_. [])) sample_digest sample_database" by (rule reachable.start [OF sample_fresh])
  with findings_are_permanent [OF this st] st show ?thesis by (intro exI [of _ ?d]) simp
qed

end
