(* ===== verification/Delivery.thy ===== *)
theory Delivery
  imports Workers Executor
begin

text \<open>
  How jobs travel: what the worker answers to JetStream, how long retries wait, that polling Helios ends,
  and that the outbox is emptied into the stream when nothing fails.
\<close>

section \<open>Programs that always return\<close>

text \<open>\<open>returns m Q\<close>: whatever fails, \<open>m\<close> comes back with a value that satisfies \<open>Q\<close> and never with an error.\<close>

definition returns :: "'a prog \<Rightarrow> ('a \<Rightarrow> bool) \<Rightarrow> bool" where
  "returns m Q \<longleftrightarrow> (\<forall>e w. case m e w of (Inl _, _) \<Rightarrow> False | (Inr x, _) \<Rightarrow> Q x)"

named_theorems returning

lemma returns_ret [returning]: "Q x \<Longrightarrow> returns (ret x) Q"
  by (simp add: returns_def ret_def)

lemma returns_attempt: "returns (attempt m) (\<lambda>_. True)"
  by (simp add: returns_def attempt_def split: prod.split)

lemma returns_time_now: "returns time_now (\<lambda>_. True)"
  by (simp add: returns_def time_now_def)

lemma returns_bind: "returns m P \<Longrightarrow> (\<And>x. P x \<Longrightarrow> returns (f x) Q) \<Longrightarrow> returns (bind m f) Q"
proof -
  assume m: "returns m P" and f: "\<And>x. P x \<Longrightarrow> returns (f x) Q"
  show "returns (bind m f) Q" unfolding returns_def
  proof (intro allI)
    fix e w
    obtain r w1 where r: "m e w = (r, w1)" by fastforce
    have "case m e w of (Inl _, _) \<Rightarrow> False | (Inr x, _) \<Rightarrow> P x" using m by (simp add: returns_def)
    then obtain x where "m e w = (Inr x, w1)" "P x" using r by (cases r) auto
    then show "case bind m f e w of (Inl _, _) \<Rightarrow> False | (Inr x, _) \<Rightarrow> Q x" using f [of x] by (simp add: bind_def returns_def)
  qed
qed

lemmas returns_seq [returning] = returns_bind [OF returns_attempt] returns_bind [OF returns_time_now]

lemma returns_if [returning]: "(b \<Longrightarrow> returns m Q) \<Longrightarrow> (\<not> b \<Longrightarrow> returns n Q) \<Longrightarrow> returns (if b then m else n) Q"
  by simp

lemma returns_case_sum [returning]:
  "(\<And>y. x = Inl y \<Longrightarrow> returns (f y) Q) \<Longrightarrow> (\<And>y. x = Inr y \<Longrightarrow> returns (g y) Q) \<Longrightarrow> returns (case x of Inl y \<Rightarrow> f y | Inr y \<Rightarrow> g y) Q"
  by (cases x) auto

lemma returns_case_option [returning]:
  "(x = None \<Longrightarrow> returns m Q) \<Longrightarrow> (\<And>y. x = Some y \<Longrightarrow> returns (f y) Q) \<Longrightarrow> returns (case x of None \<Rightarrow> m | Some y \<Rightarrow> f y) Q"
  by (cases x) auto

lemma returns_Record: "returns (Record e) (\<lambda>_. True)"
  unfolding Record_def by (intro returning) simp

lemma returns_auditSkip: "returns (auditSkip rid status) (\<lambda>_. True)"
  unfolding auditSkip_def by (intro returning returns_Record) simp

section \<open>Waiting before a retry\<close>

lemma RetryDelay_bounds: "Second \<le> RetryDelay n \<and> RetryDelay n \<le> 60 * Second"
  by (auto simp: RetryDelay_def Let_def Second_def)

text \<open>
  C20: retries back off and stay bounded. The worker asks for redelivery after at least one second and at
  most a minute, the dispatcher republishes after at least one second and at most thirty; neither
  wait shrinks as attempts grow, and both double with each attempt until they reach their ceiling.
\<close>

theorem backoff_bounds:
  "Second \<le> RetryDelay n \<and> RetryDelay n \<le> 60 * Second \<and> RetryDelay n \<le> RetryDelay (n + 1) \<and>
   (if 1 \<le> n \<and> n < 6 then RetryDelay (n + 1) = 2 * RetryDelay n else True) \<and>
   Second \<le> dispatchBackoff n \<and> dispatchBackoff n \<le> 30 * Second \<and> dispatchBackoff n \<le> dispatchBackoff (n + 1) \<and>
   (if 1 \<le> n \<and> n < 5 then dispatchBackoff (n + 1) = 2 * dispatchBackoff n else True)"
proof -
  have "n < 1 \<or> n = 1 \<or> n = 2 \<or> n = 3 \<or> n = 4 \<or> n = 5 \<or> n = 6 \<or> n = 7 \<or> n > 7" by linarith
  then show ?thesis by (elim disjE) (simp_all add: RetryDelay_def dispatchBackoff_def Let_def Second_def)
qed

section \<open>Answering every message\<close>

definition proper_answer :: "runner \<Rightarrow> js_msg \<Rightarrow> handled \<Rightarrow> bool" where
  "proper_answer r msg answer =
     (case answer of
        (Ack, _) \<Rightarrow> True
      | (Term, err) \<Rightarrow> err \<noteq> None
      | (NakWithDelay delay, err) \<Rightarrow>
          err \<noteq> None \<and> delay = RetryDelay (deliveries msg) \<and> deliveries msg < MaxDeliver (run_cfg r))"

lemma returns_deadLetter: "(\<And>x. x = Term \<Longrightarrow> returns (f x) Q) \<Longrightarrow> returns (bind (deadLetter msg reason) f) Q"
  unfolding deadLetter_def by (rule returns_bind [where P = "\<lambda>x. x = Term"]) (intro returning, auto)

lemma returns_retryLater [returning]: "returns (retryLater r msg cause) (proper_answer r msg)"
  unfolding retryLater_def Let_def by (intro returning returns_deadLetter) (auto simp: proper_answer_def)

lemma returns_finish_or_retry [returning]: "returns (finish_or_retry r msg rid status text ent err) (proper_answer r msg)"
  unfolding finish_or_retry_def by (intro returning) (auto simp: proper_answer_def)

lemma returns_after_run: "returns (after_run r msg rem outcome) (proper_answer r msg)"
  by (cases outcome) (auto simp: after_run_def Let_def proper_answer_def intro!: returning returns_bind [OF returns_Record])

lemma returns_runHandler: "returns (runHandler r h rem) (\<lambda>_. True)"
  unfolding runHandler_def by (intro returning) auto

lemma returns_run_job: "returns (run_job r msg h rem) (proper_answer r msg)"
  unfolding run_job_def Let_def
  by (intro returning returns_bind [OF returns_auditSkip] returns_bind [OF returns_runHandler] returns_after_run)
     (auto simp: proper_answer_def)

text \<open>
  C16: the worker answers every message, whatever fails. It never leaves a message without an answer: it
  acknowledges it, dead-letters it with the error that made it do so, or asks for redelivery after the
  back-off delay; and it asks for redelivery only while JetStream still has deliveries left for the
  message, so none is dropped silently by running out of them.
\<close>

theorem worker_answers_properly:
  "case handleMessage r msg e w of
     (Inl _, _) \<Rightarrow> False
   | (Inr (Ack, _), _) \<Rightarrow> True
   | (Inr (Term, err), _) \<Rightarrow> err \<noteq> None
   | (Inr (NakWithDelay delay, err), _) \<Rightarrow>
       err \<noteq> None \<and> delay = RetryDelay (deliveries msg) \<and> deliveries msg < MaxDeliver (run_cfg r)"
proof -
  have "returns (handleMessage r msg) (proper_answer r msg)" unfolding handleMessage_def Let_def
    by (intro returning returns_deadLetter returns_bind [OF returns_auditSkip] returns_run_job) (auto simp: proper_answer_def)
  then show ?thesis unfolding returns_def proper_answer_def
    by (auto split: prod.splits sum.splits disposition.splits)
qed

section \<open>Polling Helios ends\<close>

lemma getWorkflow_step: "steps (snd (getWorkflow x i e w)) = Suc (steps w)"
  by (auto simp: getWorkflow_def helios_call_def bind_def wrap_err_def http_do_def fail_def ret_def tick_def Let_def
      split: prod.splits sum.splits fault.splits option.splits)

lemma poll_budget:
  fixes n :: int
  assumes "0 \<le> n" "m \<le> n - p" "0 < p"
  shows "(if m < 0 then 1 else m div p + 2) + 1 \<le> n div p + 2"
proof (cases "m < 0")
  case False
  have "m div p \<le> (n - p) div p" using assms by (intro zdiv_mono1) auto
  also have "(n - p) div p = n div p - 1" using div_add_self2 [of p "n - p"] assms(3) by simp
  finally show ?thesis using False by simp
qed (use assms in \<open>simp add: pos_imp_zdiv_nonneg_iff\<close>)

text \<open>
  C18: following a workflow ends. Polling comes back after at most one request for every 750 milliseconds
  up to the deadline and two more, or one if the deadline has passed; and it comes back with an error,
  with a workflow that has finished, or because the deadline has passed.
\<close>

theorem polling_terminates:
  "case poll_until x workflowID deadline e w of
     (outcome, w') \<Rightarrow>
       int (steps w') \<le> int (steps w) +
         (if deadline - clock w < 0 then 1 else (deadline - clock w) div (750 * Millisecond) + 2) \<and>
       (case outcome of Inl _ \<Rightarrow> True | Inr summary \<Rightarrow> finished_state (hw_State summary) \<or> deadline < clock w')"
proof (induction x workflowID deadline e w rule: poll_until.induct)
  case (1 x i deadline e w)
  obtain r w1 where g: "getWorkflow x i e w = (r, w1)" by fastforce
  have w1: "steps w1 = Suc (steps w)" "clock w \<le> clock w1" using getWorkflow_step [of x i e w] getWorkflow_clock [of w x i e] by (simp_all add: g)
  let ?w2 = "sleep (750 * Millisecond) w1"
  show ?case
  proof (cases "\<exists>s. r = Inr s \<and> \<not> finished_state (hw_State s) \<and> \<not> clock w1 > deadline")
    case True
    then obtain s where s: "r = Inr s" "\<not> finished_state (hw_State s)" "\<not> clock w1 > deadline" by blast
    have unfold: "poll_until x i deadline e w = poll_until x i deadline e ?w2"
      using s by (subst poll_until.simps) (simp add: g)
    have "(if deadline - clock ?w2 < 0 then 1 else (deadline - clock ?w2) div (750 * Millisecond) + 2) + 1
        \<le> (deadline - clock w) div (750 * Millisecond) + 2"
      using s(3) w1(2) by (intro poll_budget) (auto simp: sleep_def Millisecond_def)
    then show ?thesis using 1 [OF g [symmetric] s(1,2,3)] w1 s(3) unfolding unfold
      by (auto simp: sleep_def split: prod.splits)
  next
    case False
    have "poll_until x i deadline e w = (r, w1)" using False by (subst poll_until.simps) (auto simp: g split: sum.splits)
    moreover have "1 \<le> (if deadline - clock w < 0 then 1 else (deadline - clock w) div (750 * Millisecond) + 2)"
      by (simp add: pos_imp_zdiv_nonneg_iff Millisecond_def add_increasing)
    ultimately show ?thesis using False w1(1) by (auto split: sum.splits)
  qed
qed

section \<open>Emptying the outbox\<close>

text \<open>No statement fails and no answer is lost; others may still act and everything may take time.\<close>

definition calm :: "env \<Rightarrow> bool" where
  "calm e \<longleftrightarrow> (\<forall>n. ext_fault (ext e n) = Fine)"

definition encodable :: "event \<Rightarrow> bool" where
  "encodable ev \<longleftrightarrow> json_enc (VMap (Payload ev)) \<noteq> None"

definition in_stream :: "event \<Rightarrow> world \<Rightarrow> bool" where
  "in_stream ev w \<longleftrightarrow> list_ex (\<lambda>(t, subject, ev'). EventID ev' = EventID ev) (stream w)"

definition extends :: "world \<Rightarrow> world \<Rightarrow> bool" where
  "extends w w' \<longleftrightarrow> (\<exists>msgs. stream w' = stream w @ msgs) \<and> clock w \<le> clock w'"

definition marked :: "string \<Rightarrow> dispatch \<Rightarrow> database \<Rightarrow> bool" where
  "marked st p d \<longleftrightarrow> list_all (\<lambda>x. dsp_ID x = dsp_ID p \<longrightarrow> dsp_State x = st) (remediation_dispatches d)"

lemma calm_publish:
  assumes "calm e" "encodable ev"
  shows "\<exists>dup w'. Publish subject ev e w = (Inr dup, w') \<and> in_stream ev w' \<and> extends w w' \<and> db w' = db w"
proof -
  obtain s w1 where t: "tick e w = (s, w1)" by fastforce
  have s: "stream w1 = stream w" "db w1 = db w" "clock w \<le> clock w1" "ext_fault s = Fine" using t assms(1) by (auto simp: tick_def Let_def calm_def)
  obtain dup w2 where st: "store_message subject ev w1 = (dup, w2)" by fastforce
  then have "in_stream ev w2 \<and> extends w w2 \<and> db w2 = db w" using s
    by (auto simp: store_message_def in_stream_def extends_def is_duplicate_def list_ex_iff split: if_splits)
  moreover have "Publish subject ev e w = (Inr dup, w2)" using assms(2) t s(4) st by (simp add: Publish_def encodable_def del: json_enc.simps)
  ultimately show ?thesis by blast
qed

lemma calm_exec:
  assumes "calm e" "tx_time e = Some t"
  shows "\<exists>w'. exec f e w = (Inr (fst (f t (db w))), w') \<and> db w' = snd (f t (db w)) \<and> stream w' = stream w \<and> clock w \<le> clock w'"
  using assms by (auto simp: calm_def exec_def sql_def tick_def Let_def split: prod.splits)

lemma in_stream_extends: "in_stream ev w \<Longrightarrow> extends w w' \<Longrightarrow> in_stream ev w'"
  by (auto simp: in_stream_def extends_def)

text \<open>Rows of the outbox that leave the state pending, while all others stay as they are.\<close>

definition closes :: "string set \<Rightarrow> database \<Rightarrow> database \<Rightarrow> bool" where
  "closes keys d d' \<longleftrightarrow>
     (\<exists>g. d' = d\<lparr>remediation_dispatches := map g (remediation_dispatches d)\<rparr> \<and>
        (\<forall>x. dsp_ID (g x) = dsp_ID x \<and> dsp_Event (g x) = dsp_Event x \<and> (if dsp_ID x \<in> keys then dsp_State (g x) \<noteq> ''pending'' else g x = x)))"

lemma closes_none: "closes {} d d"
  unfolding closes_def by (intro exI [of _ id]) simp

lemma closes_Cons:
  assumes "closes keys (snd (update_dispatch did f d)) d'" "did \<notin> keys"
    and "\<And>x. dsp_ID (f x) = dsp_ID x \<and> dsp_Event (f x) = dsp_Event x \<and> dsp_State (f x) \<noteq> ''pending''"
  shows "closes (insert did keys) d d'"
proof -
  obtain g where g: "d' = (snd (update_dispatch did f d))\<lparr>remediation_dispatches := map g (remediation_dispatches (snd (update_dispatch did f d)))\<rparr>"
    "\<And>x. dsp_ID (g x) = dsp_ID x \<and> dsp_Event (g x) = dsp_Event x \<and> (if dsp_ID x \<in> keys then dsp_State (g x) \<noteq> ''pending'' else g x = x)"
    using assms(1) by (auto simp: closes_def)
  show ?thesis unfolding closes_def
    by (intro exI [of _ "\<lambda>x. g (if dsp_ID x = did then f x else x)"])
      (use g assms(2,3) in \<open>auto simp: update_dispatch_def update_rows_def\<close>)
qed

lemma closes_marked: "closes keys d d' \<Longrightarrow> dsp_ID p \<notin> keys \<Longrightarrow> marked st p d \<Longrightarrow> marked st p d'"
  unfolding closes_def marked_def list_all_iff by force

lemma closes_rows: "closes keys d d' \<Longrightarrow> map dsp_ID (remediation_dispatches d') = map dsp_ID (remediation_dispatches d)"
  by (auto simp: closes_def)

lemma marked_here: "(\<And>x. dsp_State (f x) = st) \<Longrightarrow> marked st p (snd (update_dispatch (dsp_ID p) f d))"
  by (auto simp: marked_def update_dispatch_def update_rows_def list_all_iff)

lemma in_stream_read [simp]: "in_stream (read_event ev) w = in_stream ev w"
  by (simp add: in_stream_def read_event_def)

text \<open>
  What a batch leaves behind, and that it keeps what was done before. An event of an active remediation
  is in the stream and its row published; a row of another one is skipped.
\<close>

fun forwarded :: "world \<Rightarrow> dispatch \<times> string \<Rightarrow> bool" where
  "forwarded w (p, status) =
     (if Dispatchable status then in_stream (dsp_Event p) w \<and> marked ''published'' p (db w) else marked ''skipped'' p (db w))"

definition delivered :: "(dispatch \<times> string) list \<Rightarrow> world \<Rightarrow> world \<Rightarrow> bool" where
  "delivered batch w w' \<longleftrightarrow>
     extends w w' \<and> closes (dsp_ID ` fst ` set batch) (db w) (db w') \<and> list_all (forwarded w') batch"

lemma delivered_Cons:
  assumes "delivered batch w2 w'" "extends w w1" "stream w2 = stream w1" "clock w1 \<le> clock w2" "db w2 = snd (update_dispatch (dsp_ID p) f (db w))"
    and "\<And>x. dsp_ID (f x) = dsp_ID x \<and> dsp_Event (f x) = dsp_Event x \<and> dsp_State (f x) = (if Dispatchable s then ''published'' else ''skipped'')"
    and "Dispatchable s \<Longrightarrow> in_stream (dsp_Event p) w1" "dsp_ID p \<notin> dsp_ID ` fst ` set batch"
  shows "delivered ((p, s) # batch) w w'"
proof -
  have e: "extends w1 w'" "extends w w'" using assms(1-4) by (auto simp: delivered_def extends_def)
  have r: "closes (dsp_ID ` fst ` set batch) (snd (update_dispatch (dsp_ID p) f (db w))) (db w')" using assms(1,5) by (simp add: delivered_def)
  have "closes (insert (dsp_ID p) (dsp_ID ` fst ` set batch)) (db w) (db w')"
    by (rule closes_Cons [OF r assms(8)]) (use assms(6) in auto)
  moreover have "marked (if Dispatchable s then ''published'' else ''skipped'') p (db w')"
    by (rule closes_marked [OF r assms(8)], rule marked_here) (use assms(6) in simp)
  ultimately show ?thesis using assms(1,7) e in_stream_extends by (auto simp: delivered_def)
qed

lemma publish_batch_calm:
  assumes "calm e" "tx_time e = Some t" "distinct (map (dsp_ID \<circ> fst) batch)"
    and "list_all (\<lambda>(p, _). encodable (read_event (dsp_Event p))) batch"
  shows "\<exists>w'. publish_batch batch n e w = (Inr (n + int (length (filter (\<lambda>(_, s). Dispatchable s) batch))), w') \<and> delivered batch w w'"
  using assms(3,4)
proof (induction batch arbitrary: n w)
  case Nil
  then show ?case by (auto simp: ret_def extends_def delivered_def closes_none)
next
  case (Cons a batch)
  obtain p status where a: "a = (p, status)" by fastforce
  have rest: "\<exists>w'. publish_batch batch m e w1 = (Inr (m + int (length (filter (\<lambda>(_, s). Dispatchable s) batch))), w') \<and> delivered batch w1 w'" for m w1
    using Cons.prems by (intro Cons.IH) auto
  show ?case
  proof (cases "Dispatchable status")
    case False
    let ?f = "\<lambda>x. x\<lparr>dsp_State := ''skipped'', dsp_LastError := Some (''remediation is '' @ status)\<rparr>"
    obtain w1 where w1: "exec (\<lambda>t. update_dispatch (dsp_ID p) ?f) e w = (Inr (fst (update_dispatch (dsp_ID p) ?f (db w))), w1)"
      "db w1 = snd (update_dispatch (dsp_ID p) ?f (db w))" "stream w1 = stream w" "clock w \<le> clock w1"
      using calm_exec [OF assms(1,2)] by blast
    obtain w' where "publish_batch batch n e w1 = (Inr (n + int (length (filter (\<lambda>(_, s). Dispatchable s) batch))), w')" "delivered batch w1 w'"
      using rest by blast
    moreover from this(2) have "delivered (a # batch) w w'"
      unfolding a by (rule delivered_Cons [where f = ?f, OF _ _ w1(3,4)]) (use w1(2) False Cons.prems(1) a in \<open>auto simp: extends_def\<close>)
    ultimately show ?thesis using False w1(1) by (auto simp: a bind_def)
  next
    case True
    let ?f = "\<lambda>x. x\<lparr>dsp_State := ''published'', dsp_PublishedAt := Some t, dsp_Attempts := dsp_Attempts x + 1, dsp_LastError := None\<rparr>"
    have enc: "encodable (read_event (dsp_Event p))"
      using Cons.prems(2) by (simp add: a)
    obtain dup w1 where w1: "Publish (dsp_Subject p) (read_event (dsp_Event p)) e w = (Inr dup, w1)"
      "in_stream (read_event (dsp_Event p)) w1" "extends w w1" "db w1 = db w"
      using calm_publish [OF assms(1) enc] by blast
    obtain w2 where w2: "exec (\<lambda>t. update_dispatch (dsp_ID p) (\<lambda>x. x\<lparr>dsp_State := ''published'', dsp_PublishedAt := Some t,
        dsp_Attempts := dsp_Attempts x + 1, dsp_LastError := None\<rparr>)) e w1 = (Inr (fst (update_dispatch (dsp_ID p) ?f (db w1))), w2)"
      "db w2 = snd (update_dispatch (dsp_ID p) ?f (db w1))" "stream w2 = stream w1" "clock w1 \<le> clock w2"
      using calm_exec [OF assms(1,2)] by blast
    obtain w' where w': "publish_batch batch (n + 1) e w2 = (Inr (n + 1 + int (length (filter (\<lambda>(_, s). Dispatchable s) batch))), w')" "delivered batch w2 w'"
      using rest by blast
    have "delivered (a # batch) w w'"
      unfolding a by (rule delivered_Cons [where f = ?f, OF w'(2) w1(3) w2(3,4)]) (use w1(2) w2(2) w1(4) True Cons.prems(1) a in auto)
    moreover have "publish_batch (a # batch) n e w = publish_batch batch (n + 1) e w2"
      using True w1(1) w2(1) by (simp add: a bind_def attempt_def)
    ultimately show ?thesis using True w'(1) by (auto simp: a)
  qed
qed

lemma calm_query:
  assumes "calm e" "tx_time e = Some t" "f t (db w) = Inr x"
  shows "\<exists>w'. query f e w = (Inr x, w') \<and> db w' = db w \<and> stream w' = stream w \<and> clock w \<le> clock w'"
  using assms by (auto simp: calm_def query_def sql_def tick_def Let_def split: prod.splits)

lemma calm_InTx:
  assumes "calm e" "tx_time e = None" "tick e w = (s, w1)"
    and "body (e\<lparr>tx_time := Some (trunc_micro (clock w1))\<rparr>) (w1\<lparr>db := ext_others s (db w1)\<rparr>) = (Inr x, w2)"
  shows "\<exists>w'. InTx body e w = (Inr x, w') \<and> db w' = db w2 \<and> stream w' = stream w2 \<and> clock w2 \<le> clock w'"
  using assms by (auto simp: InTx_def transaction_def transaction_if_def calm_def Let_def tick_def)

lemma distinct_concat_keyed:
  assumes "\<And>x. g x = [] \<or> (\<exists>y. g x = [y] \<and> k y = l x)"
  shows "distinct (map l xs) \<Longrightarrow> distinct (map k (concat (map g xs))) \<and> k ` set (concat (map g xs)) \<subseteq> l ` set xs"
proof (induction xs)
  case (Cons x xs)
  then show ?case using assms [of x] by (elim disjE exE) auto
qed simp

lemma pending_distinct:
  assumes "distinct (map dsp_ID (remediation_dispatches d))"
  shows "distinct (map (dsp_ID \<circ> fst) (pending_batch onlyID n t d))"
proof -
  let ?g = "\<lambda>x. if dsp_State x = ''pending'' \<and> dsp_NextAttemptAt x \<le> t \<and> (onlyID = [] \<or> dsp_ID x = onlyID) then
            (case find (\<lambda>r. rem_ID r = dsp_RemediationID x) (remediation_actions d) of
               None \<Rightarrow> [] | Some r \<Rightarrow> [(x, rem_Status r)]) else []"
  have "?g x = [] \<or> (\<exists>y. ?g x = [y] \<and> (dsp_ID \<circ> fst) y = dsp_ID x)" for x by (auto split: option.split)
  from conjunct1 [OF distinct_concat_keyed [of ?g, OF this assms]] show ?thesis
    unfolding pending_batch_def take_map [symmetric] by (intro distinct_take) (simp only: distinct_map_stable_sort)
qed

lemma delivered_eq:
  assumes "delivered batch w2 w3" "db w' = db w3" "stream w' = stream w3" "clock w3 \<le> clock w'"
    "db w = db w2" "stream w = stream w2" "clock w \<le> clock w2"
  shows "delivered batch w w'"
proof -
  have "forwarded w' = forwarded w3" by (rule ext, case_tac x) (simp add: in_stream_def assms(2,3))
  then show ?thesis using assms unfolding delivered_def extends_def by auto
qed

text \<open>The rows that are due, each with the status of its remediation, and the oldest of them up to a number.\<close>

definition due :: "string \<Rightarrow> int \<Rightarrow> database \<Rightarrow> (dispatch \<times> string) list" where
  "due onlyID t d =
     concat (map (\<lambda>x.
        if dsp_State x = ''pending'' \<and> dsp_NextAttemptAt x \<le> t \<and> (onlyID = [] \<or> dsp_ID x = onlyID) then
          (case find (\<lambda>r. rem_ID r = dsp_RemediationID x) (remediation_actions d) of
             None \<Rightarrow> [] | Some r \<Rightarrow> [(x, rem_Status r)])
        else []) (remediation_dispatches d))"

definition oldest :: "nat \<Rightarrow> (dispatch \<times> string) list \<Rightarrow> (dispatch \<times> string) list \<Rightarrow> bool" where
  "oldest n rows batch \<longleftrightarrow>
     length batch = min n (length rows) \<and>
     (\<exists>left. mset rows = mset batch + mset left \<and> (\<forall>p \<in> set batch. \<forall>q \<in> set left. dsp_CreatedAt (fst p) \<le> dsp_CreatedAt (fst q)))"

lemma pending_oldest: "oldest (nat n) (due onlyID t d) (pending_batch onlyID n t d)"
proof -
  let ?lt = "\<lambda>a b. dsp_CreatedAt (fst a) < dsp_CreatedAt (fst b)" and ?n = "nat n"
  define rows where "rows = stable_sort ?lt (due onlyID t d)"
  have "strict_weak ?lt" by (auto simp: strict_weak_def)
  from stable_sort_sorted [OF this] have "sorted_wrt (\<lambda>a b. \<not> ?lt b a) (take ?n rows @ drop ?n rows)" by (simp add: rows_def)
  then have "\<forall>p \<in> set (take ?n rows). \<forall>q \<in> set (drop ?n rows). dsp_CreatedAt (fst p) \<le> dsp_CreatedAt (fst q)"
    unfolding sorted_wrt_append by (auto simp: not_less)
  moreover have "mset (due onlyID t d) = mset (take ?n rows) + mset (drop ?n rows)"
    by (metis append_take_drop_id mset_append mset_stable_sort rows_def)
  moreover have "pending_batch onlyID n t d = take ?n rows" by (simp add: pending_batch_def due_def rows_def)
  ultimately show ?thesis by (auto simp: oldest_def rows_def)
qed

lemma due_iff:
  "(p, s) \<in> set (due onlyID t d) \<longleftrightarrow>
     p \<in> set (remediation_dispatches d) \<and> dsp_State p = ''pending'' \<and> dsp_NextAttemptAt p \<le> t \<and> (onlyID = [] \<or> dsp_ID p = onlyID) \<and>
     map_option rem_Status (find (\<lambda>r. rem_ID r = dsp_RemediationID p) (remediation_actions d)) = Some s"
proof -
  define g where "g x = (if dsp_State x = ''pending'' \<and> dsp_NextAttemptAt x \<le> t \<and> (onlyID = [] \<or> dsp_ID x = onlyID) then
      (case find (\<lambda>r. rem_ID r = dsp_RemediationID x) (remediation_actions d) of None \<Rightarrow> [] | Some r \<Rightarrow> [(x, rem_Status r)]) else [])" for x :: dispatch
  have "(p, s) \<in> set (if c then (case q of None \<Rightarrow> [] | Some r \<Rightarrow> [(x, rem_Status r)]) else []) \<longleftrightarrow> x = p \<and> c \<and> map_option rem_Status q = Some s"
    for c :: bool and x :: dispatch and q :: "remediation_action option" by (cases q; cases c) auto
  then have g: "(p, s) \<in> set (g x) \<longleftrightarrow> x = p \<and> (dsp_State x = ''pending'' \<and> dsp_NextAttemptAt x \<le> t \<and> (onlyID = [] \<or> dsp_ID x = onlyID)) \<and>
      map_option rem_Status (find (\<lambda>r. rem_ID r = dsp_RemediationID x) (remediation_actions d)) = Some s" for x unfolding g_def .
  have "due onlyID t d = concat (map g (remediation_dispatches d))" unfolding due_def g_def ..
  then show ?thesis using g by auto
qed

lemma due_row: "(p, s) \<in> set (due onlyID t d) \<Longrightarrow> p \<in> set (remediation_dispatches d)"
  by (simp add: due_iff)

text \<open>The tables a transaction finds when it begins, and its time.\<close>

definition tables_at :: "env \<Rightarrow> world \<Rightarrow> database" where
  "tables_at e w = ext_others (ext e (steps w)) (db w)"

definition time_at :: "env \<Rightarrow> world \<Rightarrow> int" where
  "time_at e w = trunc_micro (clock (snd (tick e w)))"

lemma publish_calm:
  assumes calm: "calm e" "tx_time e = None" and ids: "distinct (map dsp_ID (remediation_dispatches (tables_at e w)))"
    and enc: "list_all (\<lambda>(p, _). encodable (read_event (dsp_Event p))) (pending_batch onlyID (BatchSize cfg) (time_at e w) (tables_at e w))"
  obtains w' where "publish cfg onlyID e w = (Inr (int (length (filter (\<lambda>(_, s). Dispatchable s) (pending_batch onlyID (BatchSize cfg) (time_at e w) (tables_at e w))))), w')"
    "delivered (pending_batch onlyID (BatchSize cfg) (time_at e w) (tables_at e w)) (w\<lparr>db := tables_at e w\<rparr>) w'"
    "clock (snd (tick e w)) \<le> clock w'"
proof -
  obtain s w1 where tk: "tick e w = (s, w1)" by fastforce
  have s: "s = ext e (steps w)" "stream w1 = stream w" "db w1 = db w" "clock w \<le> clock w1" using tk by (auto simp: tick_def Let_def)
  let ?t = "time_at e w" and ?d = "tables_at e w"
  have td: "?t = trunc_micro (clock w1)" "?d = ext_others s (db w1)" by (simp_all add: time_at_def tables_at_def tk s(1,3))
  let ?e = "e\<lparr>tx_time := Some ?t\<rparr>" and ?w = "w1\<lparr>db := ?d\<rparr>" and ?batch = "pending_batch onlyID (BatchSize cfg) ?t ?d"
  have c: "calm ?e" "tx_time ?e = Some ?t" using calm by (auto simp: calm_def)
  obtain w2 where w2: "query (\<lambda>t d. Inr (pending_batch onlyID (BatchSize cfg) t d)) ?e ?w = (Inr ?batch, w2)" "db w2 = ?d" "stream w2 = stream w1" "clock w1 \<le> clock w2"
    using calm_query [OF c, of "\<lambda>t d. Inr (pending_batch onlyID (BatchSize cfg) t d)" ?w] by auto
  obtain w3 where w3: "publish_batch ?batch 0 ?e w2 = (Inr (0 + int (length (filter (\<lambda>(_, s). Dispatchable s) ?batch))), w3)" "delivered ?batch w2 w3"
    using publish_batch_calm [OF c pending_distinct [OF ids] enc] by blast
  let ?body = "bind (wrap_err ''select pending dispatches'' (query (\<lambda>t d. Inr (pending_batch onlyID (BatchSize cfg) t d)))) (\<lambda>batch. publish_batch batch 0)"
  have "?body ?e ?w = (Inr (int (length (filter (\<lambda>(_, s). Dispatchable s) ?batch))), w3)" using w2(1) w3(1) by (simp add: bind_def wrap_err_def)
  from calm_InTx [where body = ?body, OF calm tk this [unfolded td]] obtain w' where w': "publish cfg onlyID e w = (Inr (int (length (filter (\<lambda>(_, s). Dispatchable s) ?batch))), w')"
    "db w' = db w3" "stream w' = stream w3" "clock w3 \<le> clock w'" unfolding publish_def td by blast
  have "delivered ?batch (w\<lparr>db := ?d\<rparr>) w'" by (rule delivered_eq [OF w3(2) w'(2-4)]) (use w2(2-4) s(2,4) in simp_all)
  moreover have "clock (snd (tick e w)) \<le> clock w'" using w2(4) w3(2) w'(4) tk by (simp add: delivered_def extends_def)
  ultimately show ?thesis using w'(1) that by blast
qed

text \<open>What became of a row: its event is in the stream and it is published, or it is skipped.\<close>

definition row_state :: "string \<Rightarrow> database \<Rightarrow> string option" where
  "row_state did d = map_option dsp_State (find (\<lambda>x. dsp_ID x = did) (remediation_dispatches d))"

definition handled :: "world \<Rightarrow> dispatch \<times> string \<Rightarrow> bool" where
  "handled w row \<longleftrightarrow>
     (case row of (p, status) \<Rightarrow>
        if Dispatchable status then in_stream (dsp_Event p) w \<and> row_state (dsp_ID p) (db w) = Some ''published''
        else row_state (dsp_ID p) (db w) = Some ''skipped'')"

lemma marked_state:
  assumes "marked st p d" "dsp_ID p \<in> set (map dsp_ID (remediation_dispatches d))" shows "row_state (dsp_ID p) d = Some st"
proof -
  obtain x where "find (\<lambda>x. dsp_ID x = dsp_ID p) (remediation_dispatches d) = Some x" using assms(2) by (cases "find (\<lambda>x. dsp_ID x = dsp_ID p) (remediation_dispatches d)") (auto simp: find_None_iff)
  then show ?thesis using assms(1) by (auto simp: row_state_def marked_def list_all_iff dest!: find_SomeD)
qed

lemma delivered_handled:
  assumes "delivered batch w w'" "(p, s) \<in> set batch" "p \<in> set (remediation_dispatches (db w))"
  shows "handled w' (p, s)"
proof -
  have "map dsp_ID (remediation_dispatches (db w')) = map dsp_ID (remediation_dispatches (db w))"
    using assms(1) by (auto simp: delivered_def dest: closes_rows)
  then have "dsp_ID p \<in> set (map dsp_ID (remediation_dispatches (db w')))" using assms(3) by (simp del: set_map) simp
  moreover have "forwarded w' (p, s)" using assms(1,2) by (auto simp: delivered_def list_all_iff)
  ultimately show ?thesis by (auto simp: handled_def intro: marked_state split: if_splits)
qed

lemma oldest_subset: "oldest n rows batch \<Longrightarrow> set batch \<subseteq> set rows"
  unfolding oldest_def by (metis Un_upper1 set_mset_mset set_mset_union)

text \<open>
  C17: the outbox is emptied when nothing fails. Suppose that no statement and no publication fails, that
  the rows of the outbox have distinct identifiers and that the events of the due ones can be encoded.
  Then a round of the dispatcher succeeds on the oldest due rows, as many as its batch size allows and
  all of them when it allows them all: for each whose remediation is queued or running the event is in
  the stream and the row is published, each other one is skipped, and the stream keeps all it held. The
  result is the number of rows published.
\<close>

theorem outbox_is_delivered:
  assumes "calm e" "tx_time e = None" "distinct (map dsp_ID (remediation_dispatches (tables_at e w)))"
    and "list_all (\<lambda>(p, _). encodable (read_event (dsp_Event p))) (due onlyID (time_at e w) (tables_at e w))"
  shows "\<exists>w' batch. publish cfg onlyID e w = (Inr (int (length (filter (\<lambda>(_, s). Dispatchable s) batch))), w') \<and>
    oldest (nat (BatchSize cfg)) (due onlyID (time_at e w) (tables_at e w)) batch \<and>
    (\<exists>msgs. stream w' = stream w @ msgs) \<and> list_all (handled w') batch"
proof -
  define batch where "batch = pending_batch onlyID (BatchSize cfg) (time_at e w) (tables_at e w)"
  have old: "oldest (nat (BatchSize cfg)) (due onlyID (time_at e w) (tables_at e w)) batch" unfolding batch_def by (rule pending_oldest)
  then have sub: "set batch \<subseteq> set (due onlyID (time_at e w) (tables_at e w))"
    by (rule oldest_subset)
  then have "list_all (\<lambda>(p, _). encodable (read_event (dsp_Event p))) batch" using assms(4) by (auto simp: list_all_iff)
  from publish_calm [OF assms(1-3) this [unfolded batch_def], folded batch_def] obtain w'
    where w': "publish cfg onlyID e w = (Inr (int (length (filter (\<lambda>(_, s). Dispatchable s) batch))), w')"
      "delivered batch (w\<lparr>db := tables_at e w\<rparr>) w'" by blast
  have "handled w' (p, s)" if "(p, s) \<in> set batch" for p s
    by (rule delivered_handled [OF w'(2) that]) (use that sub due_row in auto)
  then have "list_all (handled w') batch" by (auto simp: list_all_iff)
  then show ?thesis using w' old by (auto simp: delivered_def extends_def)
qed

definition fair_env :: env where
  "fair_env = \<lparr>tx_time = None, ext = \<lambda>_. \<lparr>ext_fault = Fine, ext_delay = 1, ext_others = \<lambda>d. d\<rparr>, uuid = show_nat,
     http = \<lambda>_ _. Inl (errorf ''unreachable''), sha256 = \<lambda>s. s\<rparr>"

definition queued_remediation :: remediation_action where
  "queued_remediation =
     \<lparr>rem_ID = ''rem_1'', rem_IncidentID = ''inc_1'', rem_ActionType = ToggleFeatureFlag, rem_Target = ''checkout'',
      rem_Parameters = [], rem_Status = StateQueued, rem_Risk = ''medium'', rem_IdempotencyKey = ''key_1'', rem_ProposedBy = ''alice'',
      rem_ApprovedBy = ''bob'', rem_PolicyDecision = [], rem_DryRun = True, rem_Attempt = 1, rem_MaxAttempts = 2, rem_QueuedAt = None,
      rem_StartedAt = None, rem_CompletedAt = None, rem_Result = None, rem_Error = [], rem_CreatedAt = 0\<rparr>"

definition queued_row :: dispatch where
  "queued_row =
     \<lparr>dsp_ID = ''evt_1'', dsp_RemediationID = ''rem_1'', dsp_Reason = ''execute'', dsp_Subject = RemediationSubject,
      dsp_Event = \<lparr>EventID = ''evt_1'', EventType = ''remediation.execute'', OccurredAt = 0, Producer = ''argus'', TraceID = [],
        EvIdempotencyKey = ''key_1'', Payload = [(''remediation_id'', VStr ''rem_1'')]\<rparr>,
      dsp_State = ''pending'', dsp_Attempts = 0, dsp_LastError = None, dsp_NextAttemptAt = 0, dsp_PublishedAt = None, dsp_CreatedAt = 0\<rparr>"

definition outbox_world :: world where
  "outbox_world =
     \<lparr>db = \<lparr>audit_logs = [], audit_chain_state = None, remediation_actions = [queued_remediation], remediation_dispatches = [queued_row],
        approval_requests = [], incidents = [], incident_alerts = [], signals = [], timeline = [], services_tbl = [],
        service_dependencies = [], rca_reports = [], target_states = [], receipts = [], heartbeats = [], runbooks_tbl = []\<rparr>,
      clock = Second, steps = 0, ids = 0, stream = [], dead_letters = [], dead_count = 0, dead_ids = []\<rparr>"

theorem outbox_is_delivered_witness:
  "calm fair_env \<and> due [] (time_at fair_env outbox_world) (tables_at fair_env outbox_world) = [(queued_row, StateQueued)] \<and>
   (\<exists>w'. publish DefaultDispatcherConfig [] fair_env outbox_world = (Inr 1, w') \<and> handled w' (queued_row, StateQueued))"
proof -
  have calm: "calm fair_env" "tx_time fair_env = None" by (simp_all add: calm_def fair_env_def)
  have rows: "remediation_dispatches (tables_at fair_env outbox_world) = [queued_row]" by (simp add: tables_at_def fair_env_def outbox_world_def)
  have due: "due [] (time_at fair_env outbox_world) (tables_at fair_env outbox_world) = [(queued_row, StateQueued)]" by code_simp
  have "encodable (read_event (dsp_Event queued_row))" by code_simp
  then obtain w' batch where p: "publish DefaultDispatcherConfig [] fair_env outbox_world =
        (Inr (int (length (filter (\<lambda>(_, s). Dispatchable s) batch))), w')"
      and old: "oldest (nat (BatchSize DefaultDispatcherConfig)) [(queued_row, StateQueued)] batch" and h: "list_all (handled w') batch"
    using outbox_is_delivered [OF calm, where w = outbox_world and onlyID = "[]" and cfg = DefaultDispatcherConfig] by (auto simp: rows due)
  have "nat (BatchSize DefaultDispatcherConfig) \<ge> 1" by code_simp
  then have "length batch = 1" using old by (simp add: oldest_def)
  moreover have "set batch \<subseteq> {(queued_row, StateQueued)}" using old unfolding oldest_def
    by (metis Un_upper1 empty_set list.simps(15) set_mset_mset set_mset_union)
  ultimately have "batch = [(queued_row, StateQueued)]" by (cases batch) auto
  then show ?thesis using calm due p h by (simp add: Dispatchable_def)
qed

section \<open>Round after round\<close>

text \<open>
  Rounds that follow each other while nobody else changes the tables. Each takes at least one due row
  out of the pending ones, so that every due row has its turn.
\<close>

definition undisturbed :: "env \<Rightarrow> bool" where
  "undisturbed e \<longleftrightarrow> calm e \<and> tx_time e = None \<and> (\<forall>n d. ext_others (ext e n) d = d)"

fun rounds :: "dispatcher_config \<Rightarrow> env \<Rightarrow> nat \<Rightarrow> world \<Rightarrow> world" where
  "rounds cfg e 0 w = w"
| "rounds cfg e (Suc n) w = rounds cfg e n (snd (PublishPending cfg e w))"

definition outbox_fit :: "database \<Rightarrow> bool" where
  "outbox_fit d \<longleftrightarrow>
     distinct (map dsp_ID (remediation_dispatches d)) \<and> list_all (\<lambda>x. encodable (read_event (dsp_Event x))) (remediation_dispatches d)"

definition pendings :: "database \<Rightarrow> nat" where
  "pendings d = length (filter (\<lambda>x. dsp_State x = ''pending'') (remediation_dispatches d))"

lemma closesE:
  assumes "closes keys d d'"
  obtains g where "remediation_dispatches d' = map g (remediation_dispatches d)" "remediation_actions d' = remediation_actions d"
    "\<And>x. dsp_ID (g x) = dsp_ID x \<and> dsp_Event (g x) = dsp_Event x" "\<And>x. dsp_ID x \<in> keys \<Longrightarrow> dsp_State (g x) \<noteq> ''pending''"
    "\<And>x. dsp_ID x \<notin> keys \<Longrightarrow> g x = x"
proof -
  obtain g where "d' = d\<lparr>remediation_dispatches := map g (remediation_dispatches d)\<rparr>"
    "\<And>x. dsp_ID (g x) = dsp_ID x \<and> dsp_Event (g x) = dsp_Event x \<and> (if dsp_ID x \<in> keys then dsp_State (g x) \<noteq> ''pending'' else g x = x)"
    using assms by (auto simp: closes_def)
  then show ?thesis by (intro that [of g]) (auto split: if_splits)
qed

lemma closes_fit: "closes keys d d' \<Longrightarrow> outbox_fit d \<Longrightarrow> outbox_fit d'"
  by (elim closesE) (simp add: outbox_fit_def list_all_iff comp_def)

lemma closes_pendings:
  assumes "closes keys d d'" "p \<in> set (remediation_dispatches d)" "dsp_State p = ''pending''" "dsp_ID p \<in> keys"
  shows "pendings d' < pendings d"
proof -
  obtain g where g: "remediation_dispatches d' = map g (remediation_dispatches d)" "\<And>x. dsp_ID x \<in> keys \<Longrightarrow> dsp_State (g x) \<noteq> ''pending''"
    "\<And>x. dsp_ID x \<notin> keys \<Longrightarrow> g x = x" using closesE [OF assms(1)] by metis
  let ?rows = "filter (\<lambda>x. dsp_State x = ''pending'') (remediation_dispatches d)"
  have "filter (\<lambda>x. dsp_State (g x) = ''pending'') (remediation_dispatches d) = filter (\<lambda>x. dsp_State (g x) = ''pending'') ?rows"
    using g(2,3) by (auto simp: filter_filter intro!: filter_cong) metis
  moreover have "length (filter (\<lambda>x. dsp_State (g x) = ''pending'') ?rows) < length ?rows"
    using assms(2-4) g(2) by (intro length_filter_less [of p]) auto
  ultimately show ?thesis by (simp add: pendings_def g(1) filter_map comp_def)
qed

lemma closes_due:
  assumes "closes keys d d'" "(p, s) \<in> set (due [] t d)" "dsp_ID p \<notin> keys" "t \<le> t'"
  shows "(p, s) \<in> set (due [] t' d')"
proof -
  obtain g where g: "remediation_dispatches d' = map g (remediation_dispatches d)" "remediation_actions d' = remediation_actions d" "g p = p"
    using closesE [OF assms(1)] assms(3) by metis
  have p: "p \<in> set (remediation_dispatches d)" using due_row [OF assms(2)] .
  have "p \<in> set (remediation_dispatches d')" using p g(1,3) by (metis imageI image_set)
  then show ?thesis using assms(2,4) by (auto simp: due_iff g(2))
qed

lemma closes_state: "closes keys d d' \<Longrightarrow> did \<notin> keys \<Longrightarrow> row_state did d' = row_state did d"
proof (elim closesE)
  fix g assume g: "remediation_dispatches d' = map g (remediation_dispatches d)" "\<And>x. dsp_ID (g x) = dsp_ID x \<and> dsp_Event (g x) = dsp_Event x"
    "\<And>x. dsp_ID x \<notin> keys \<Longrightarrow> g x = x" and did: "did \<notin> keys"
  have "find (\<lambda>x. dsp_ID x = did) (map g rows) = find (\<lambda>x. dsp_ID x = did) rows" for rows
    by (induction rows) (use g(2,3) did in auto)
  then show ?thesis by (simp add: row_state_def g(1))
qed

lemma pending_state:
  assumes "distinct (map dsp_ID (remediation_dispatches d))" "(p, s) \<in> set (due onlyID t d)"
  shows "row_state (dsp_ID p) d = Some ''pending'' \<and> dsp_State p = ''pending''"
proof -
  have p: "dsp_State p = ''pending''" "p \<in> set (remediation_dispatches d)" using assms(2) by (simp_all add: due_iff)
  have "distinct (map dsp_ID rows) \<Longrightarrow> p \<in> set rows \<Longrightarrow> find (\<lambda>x. dsp_ID x = dsp_ID p) rows = Some p" for rows
    by (induction rows) force+
  from this [OF assms(1) p(2)] show ?thesis using p(1) by (simp add: row_state_def)
qed

lemma round_delivers:
  assumes "undisturbed e" "outbox_fit (db w)"
  obtains w' where "snd (PublishPending cfg e w) = w'" "delivered (pending_batch [] (BatchSize cfg) (time_at e w) (db w)) w w'"
    "time_at e w \<le> time_at e w'"
proof -
  have t: "tables_at e w = db w" using assms(1) by (simp add: undisturbed_def tables_at_def)
  have "set (pending_batch [] (BatchSize cfg) (time_at e w) (db w)) \<subseteq> set (due [] (time_at e w) (db w))"
    by (rule oldest_subset [OF pending_oldest])
  then have "list_all (\<lambda>(p, _). encodable (read_event (dsp_Event p))) (pending_batch [] (BatchSize cfg) (time_at e w) (tables_at e w))"
    using assms(2) due_row by (fastforce simp: t outbox_fit_def list_all_iff)
  moreover have "calm e" "tx_time e = None" "distinct (map dsp_ID (remediation_dispatches (tables_at e w)))"
    using assms by (simp_all add: undisturbed_def outbox_fit_def t)
  ultimately obtain w' n where w': "publish cfg [] e w = (Inr n, w')" "delivered (pending_batch [] (BatchSize cfg) (time_at e w) (tables_at e w)) (w\<lparr>db := tables_at e w\<rparr>) w'"
      "clock (snd (tick e w)) \<le> clock w'"
    using publish_calm by metis
  have "clock w' \<le> clock (snd (tick e w'))" by (simp add: tick_def Let_def)
  with w'(3) have "time_at e w \<le> time_at e w'"
    unfolding time_at_def trunc_micro_def by (intro mult_right_mono zdiv_mono1) (auto simp: Microsecond_def)
  with w'(1,2) show ?thesis by (intro that [of w']) (simp_all add: PublishPending_def t)
qed

lemma handled_stays:
  assumes "undisturbed e" "outbox_fit (db w)" "handled w (p, s)"
  shows "outbox_fit (db (rounds cfg e n w)) \<and> handled (rounds cfg e n w) (p, s)"
  using assms(2,3)
proof (induction n arbitrary: w)
  case (Suc n)
  obtain w' where w': "snd (PublishPending cfg e w) = w'" "delivered (pending_batch [] (BatchSize cfg) (time_at e w) (db w)) w w'"
    using round_delivers [OF assms(1) Suc.prems(1)] by metis
  let ?b = "pending_batch [] (BatchSize cfg) (time_at e w) (db w)"
  have c: "closes (dsp_ID ` fst ` set ?b) (db w) (db w')" and x: "extends w w'" using w'(2) by (auto simp: delivered_def)
  have "set ?b \<subseteq> set (due [] (time_at e w) (db w))"
    by (rule oldest_subset [OF pending_oldest])
  then have "row_state did (db w) = Some ''pending''" if "did \<in> dsp_ID ` fst ` set ?b" for did
    using that Suc.prems(1) pending_state [of "db w"] by (fastforce simp: outbox_fit_def)
  then have "dsp_ID p \<notin> dsp_ID ` fst ` set ?b" using Suc.prems(2) by (fastforce simp: handled_def split: if_splits)
  then have "handled w' (p, s)" using Suc.prems(2) closes_state [OF c] in_stream_extends [OF _ x] by (auto simp: handled_def split: if_splits)
  then show ?case using Suc.IH [OF closes_fit [OF c Suc.prems(1)]] w'(1) by simp
qed simp

text \<open>
  C21: every job in the outbox has its turn. When nothing fails and nobody else changes the tables, each
  row that is due when the dispatcher begins is handled after at most as many rounds as there are
  pending rows, whatever the batch size, and stays so: its event is in the stream and the row is
  published if its remediation was queued or running, and else it is skipped.
\<close>

theorem outbox_drains:
  assumes "undisturbed e" "outbox_fit (db w)" "0 < BatchSize cfg" "(p, s) \<in> set (due [] (time_at e w) (db w))" "pendings (db w) \<le> n"
  shows "handled (rounds cfg e n w) (p, s)"
  using assms(2,4,5)
proof (induction n arbitrary: w)
  case 0
  then have "dsp_State p = ''pending''" "p \<in> set (remediation_dispatches (db w))"
    using pending_state due_row by (auto simp: outbox_fit_def)
  then show ?case using 0(3) by (auto simp: pendings_def filter_empty_conv)
next
  case (Suc n)
  obtain w' where w': "snd (PublishPending cfg e w) = w'" "delivered (pending_batch [] (BatchSize cfg) (time_at e w) (db w)) w w'"
      "time_at e w \<le> time_at e w'"
    using round_delivers [OF assms(1) Suc.prems(1)] by metis
  let ?b = "pending_batch [] (BatchSize cfg) (time_at e w) (db w)"
  have c: "closes (dsp_ID ` fst ` set ?b) (db w) (db w')" using w'(2) by (simp add: delivered_def)
  have old: "oldest (nat (BatchSize cfg)) (due [] (time_at e w) (db w)) ?b" by (rule pending_oldest)
  have fit: "outbox_fit (db w')" by (rule closes_fit [OF c Suc.prems(1)])
  show ?case
  proof (cases "dsp_ID p \<in> dsp_ID ` fst ` set ?b")
    case True
    then obtain q u where q: "(q, u) \<in> set ?b" "dsp_ID q = dsp_ID p" by auto
    then have "(q, u) \<in> set (due [] (time_at e w) (db w))" using oldest_subset [OF old] by blast
    moreover from this have "q = p" using q(2) Suc.prems(1,2) by (auto simp: due_iff outbox_fit_def distinct_map inj_on_def)
    ultimately have "(p, s) \<in> set ?b" using Suc.prems(2) q(1) by (auto simp: due_iff)
    then have "handled w' (p, s)" by (rule delivered_handled [OF w'(2)]) (use due_row Suc.prems(2) in auto)
    then show ?thesis using handled_stays [OF assms(1) fit] w'(1) by simp
  next
    case False
    have "due [] (time_at e w) (db w) \<noteq> []" using Suc.prems(2) by auto
    then have "0 < length ?b" using old assms(3) by (simp add: oldest_def)
    then obtain q u where q: "(q, u) \<in> set ?b" by (cases ?b) auto
    then have "(q, u) \<in> set (due [] (time_at e w) (db w))" using oldest_subset [OF old] by blast
    then have "pendings (db w') < pendings (db w)"
      using q by (intro closes_pendings [OF c, of q]) (auto simp: due_iff image_iff intro!: bexI [of _ "(q, u)"])
    then show ?thesis using Suc.IH [OF fit closes_due [OF c Suc.prems(2) False w'(3)]] Suc.prems(3) w'(1) by simp
  qed
qed

definition second_row :: dispatch where
  "second_row = queued_row\<lparr>dsp_ID := ''evt_2'', dsp_Event := (dsp_Event queued_row)\<lparr>EventID := ''evt_2''\<rparr>, dsp_CreatedAt := 1\<rparr>"

definition full_outbox :: world where
  "full_outbox = outbox_world\<lparr>db := (db outbox_world)\<lparr>remediation_dispatches := [queued_row, second_row]\<rparr>\<rparr>"

theorem outbox_drains_witness:
  "pendings (db full_outbox) = 2 \<and>
   handled (rounds (DefaultDispatcherConfig\<lparr>BatchSize := 1\<rparr>) fair_env 2 full_outbox) (second_row, StateQueued)"
proof -
  have "undisturbed fair_env" by (simp add: undisturbed_def calm_def fair_env_def)
  moreover have "outbox_fit (db full_outbox)" by code_simp
  moreover have "(second_row, StateQueued) \<in> set (due [] (time_at fair_env full_outbox) (db full_outbox))" by code_simp
  moreover have n: "pendings (db full_outbox) = 2" by code_simp
  ultimately show ?thesis using outbox_drains [of fair_env full_outbox "DefaultDispatcherConfig\<lparr>BatchSize := 1\<rparr>" second_row StateQueued 2] by simp
qed

end
