(* ===== verification/Api_Correct.thy ===== *)
theory Api_Correct
  imports Control_Api
begin

text \<open>
  Who may do what through the HTTP API. The permission a route asks for is computed apart from the
  dispatch to its handler, from the same path; these lemmas relate the two: a request whose route asks
  only for the right to view reaches only handlers, and only branches of handlers, that read. The one
  exception is the decision on an approval request, whose handler ignores slashes at the ends of the path
  that the permission check counts.
\<close>

section \<open>Routes and paths\<close>

lemma join_segments: "segs \<noteq> [] \<Longrightarrow> rest \<noteq> [] \<Longrightarrow> join_str sep (segs @ rest) = join_str sep segs @ sep @ join_str sep rest"
proof (induction segs)
  case (Cons x segs)
  then show ?case by (cases segs; cases rest) auto
qed simp

fun route_path :: "route_handler \<Rightarrow> string" where
  "route_path Health = ''/healthz''"
| "route_path Ready = ''/readyz''"
| "route_path MetricsPage = ''/metrics''"
| "route_path Alertmanager = ''/v1/alerts/alertmanager''"
| "route_path ManualSignal = ''/v1/signals/manual''"
| "route_path CurrentPrincipal = ''/v1/auth/me''"
| "route_path Incidents = ''/v1/incidents''"
| "route_path IncidentRoutes = ''/v1/incidents/''"
| "route_path RemediationRoutes = ''/v1/remediations/''"
| "route_path ApprovalRequests = ''/v1/approval-requests''"
| "route_path SlackCallback = ''/v1/approval-callbacks/slack''"
| "route_path AuditList = ''/v1/audit''"
| "route_path AuditVerify = ''/v1/audit/verify''"
| "route_path DeadLetters = ''/v1/dead-letters''"
| "route_path DeadLetterRoutes = ''/v1/dead-letters/''"
| "route_path Services = ''/v1/services''"
| "route_path TopologyGraph = ''/v1/topology''"
| "route_path TopologyDependencies = ''/v1/topology/dependencies''"
| "route_path Runbooks = ''/v1/runbooks''"
| "route_path RunbookReindex = ''/v1/runbooks/reindex''"

lemma exact_route_path: "map_of exact_routes segs = Some h \<Longrightarrow> join_str ''/'' segs = route_path h"
  by (drule map_of_SomeD) (auto simp: exact_routes_def)

lemma subtree_route_path:
  assumes "map_of subtree_routes (take 3 segs) = Some h" "4 \<le> length segs"
  shows "h \<in> {IncidentRoutes, RemediationRoutes, DeadLetterRoutes} \<and> (\<exists>x. join_str ''/'' segs = route_path h @ x) \<or>
    h = ApprovalRequests \<and> (\<exists>x. join_str ''/'' segs = ''/v1/approval-requests/'' @ x)"
proof -
  have "drop 3 segs \<noteq> []" "take 3 segs \<noteq> []" using assms(2) by auto
  then have "join_str ''/'' segs = join_str ''/'' (take 3 segs) @ ''/'' @ join_str ''/'' (drop 3 segs)"
    using join_segments [of "take 3 segs" "drop 3 segs" "''/''"] by simp
  then show ?thesis using map_of_SomeD [OF assms(1)] by (auto simp: subtree_routes_def)
qed

lemma served_path:
  assumes "find_handler r = Serve h"
  shows "URLPath r = route_path h \<or>
    h \<in> {IncidentRoutes, RemediationRoutes, DeadLetterRoutes} \<and> (\<exists>x. URLPath r = route_path h @ x) \<or>
    h = ApprovalRequests \<and> (\<exists>x. URLPath r = ''/v1/approval-requests/'' @ x)"
proof -
  have "match_route (path_segments (rq_EscapedPath r)) = Some h"
    using assms by (auto simp: find_handler_def Let_def split: if_splits option.splits)
  then show ?thesis
    using exact_route_path subtree_route_path unfolding URLPath_def match_route_def by (auto split: option.splits if_splits)
qed

section \<open>Permissions of the routes\<close>

lemma incident_route_permission:
  "URLPath r = ''/v1/incidents/'' @ x \<Longrightarrow> requiredPermission r = incident_permission (split_on (CHR ''/'') x)"
  by (simp add: requiredPermission_def Let_def has_prefix_def trim_prefix_def parts_after_def)

lemma remediation_route_permission:
  "URLPath r = ''/v1/remediations/'' @ x \<Longrightarrow> requiredPermission r = remediation_permission (split_on (CHR ''/'') x)"
  by (simp add: requiredPermission_def Let_def has_prefix_def trim_prefix_def parts_after_def)

definition writing :: "string \<Rightarrow> bool" where
  "writing permission \<longleftrightarrow> permission \<noteq> PermissionView \<and> permission \<noteq> PermissionViewAudit"

lemma writing_routes:
  "URLPath r = ''/v1/alerts/alertmanager'' \<Longrightarrow> writing (requiredPermission r)"
  "URLPath r = ''/v1/signals/manual'' \<Longrightarrow> writing (requiredPermission r)"
  "URLPath r = ''/v1/incidents'' \<Longrightarrow> rq_Method r = POST \<Longrightarrow> writing (requiredPermission r)"
  "URLPath r = ''/v1/services'' \<Longrightarrow> rq_Method r = POST \<Longrightarrow> writing (requiredPermission r)"
  "URLPath r = ''/v1/topology/dependencies'' \<Longrightarrow> rq_Method r = POST \<Longrightarrow> writing (requiredPermission r)"
  "URLPath r = ''/v1/dead-letters/'' @ x \<Longrightarrow> writing (requiredPermission r)"
  by (simp_all add: requiredPermission_def Let_def has_prefix_def writing_def permission_defs methods)

text \<open>A request that the approval handler takes as a decision.\<close>

definition decides :: "api_request \<Rightarrow> bool" where
  "decides r \<longleftrightarrow> rq_Method r = POST \<and>
     (case split_on (CHR ''/'') (trim_slashes (trim_prefix (URLPath r) ''/v1/approval-requests'')) of
        [_, act] \<Rightarrow> act = ''decision'' | _ \<Rightarrow> False)"

section \<open>Reading handlers\<close>

context evolution
begin

lemma evolves_incident_view: "\<not> writing (incident_permission [iid, sub]) \<Longrightarrow> evolves R (incident_view r iid sub)"
  unfolding incident_view_def by (intro evo) (simp_all add: incident_permission_def writing_def permission_defs)

lemma evolves_incident_action: "\<not> writing (incident_permission [iid, a, b]) \<Longrightarrow> evolves R (incident_action s r iid a b)"
  unfolding incident_action_def
  by (intro evolves_if evolves_ret) (simp_all add: incident_permission_def writing_def permission_defs)

lemma evolves_incident_routes:
  assumes "URLPath r = ''/v1/incidents/'' @ x" "\<not> writing (requiredPermission r)"
  shows "evolves R (handleIncidentRoutes s (r\<lparr>rq_Principal := p\<rparr>))"
proof -
  have parts: "parts_after ''/v1/incidents/'' (URLPath (r\<lparr>rq_Principal := p\<rparr>)) = split_on (CHR ''/'') x"
    using assms(1) by (simp add: parts_after_def trim_prefix_def has_prefix_def URLPath_def)
  have "\<not> writing (incident_permission (split_on (CHR ''/'') x))"
    using assms(2) incident_route_permission [OF assms(1)] by simp
  then show ?thesis
    unfolding handleIncidentRoutes_def parts
    by (auto intro!: evo evolves_incident_view evolves_incident_action split: list.split)
qed

lemma evolves_remediation_route: "\<not> writing (remediation_permission [rid, act]) \<Longrightarrow> evolves R (remediation_route s r rid act)"
  unfolding remediation_route_def
  by (intro evolves_if evolves_ret) (simp_all add: remediation_permission_def writing_def permission_defs)

lemma evolves_remediation_routes:
  assumes "URLPath r = ''/v1/remediations/'' @ x" "\<not> writing (requiredPermission r)"
  shows "evolves R (handleRemediationRoutes s (r\<lparr>rq_Principal := p\<rparr>))"
proof -
  have parts: "parts_after ''/v1/remediations/'' (URLPath (r\<lparr>rq_Principal := p\<rparr>)) = split_on (CHR ''/'') x"
    using assms(1) by (simp add: parts_after_def trim_prefix_def has_prefix_def URLPath_def)
  have "\<not> writing (remediation_permission (split_on (CHR ''/'') x))"
    using assms(2) remediation_route_permission [OF assms(1)] by simp
  then show ?thesis
    unfolding handleRemediationRoutes_def parts by (auto intro!: evolves_ret evolves_remediation_route split: list.split)
qed

lemma evolves_approvals: "\<not> decides r \<Longrightarrow> evolves R (handleApprovalRequests s (r\<lparr>rq_Principal := p\<rparr>))"
  unfolding handleApprovalRequests_def Let_def by (intro evo) (auto simp: decides_def URLPath_def intro!: evo split: list.split)

lemma evolves_reindex [evo]: "evolves R (handleRunbookReindex s r)"
  unfolding handleRunbookReindex_def ReindexRunbooks_def by (intro evo)

lemma evolves_by_method:
  "rq_Method r \<noteq> POST \<Longrightarrow> evolves R (handleIncidents s (r\<lparr>rq_Principal := p\<rparr>))"
  "rq_Method r \<noteq> POST \<Longrightarrow> evolves R (handleServices (r\<lparr>rq_Principal := p\<rparr>))"
  "rq_Method r \<noteq> POST \<Longrightarrow> evolves R (handleTopologyDependencies (r\<lparr>rq_Principal := p\<rparr>))"
  unfolding handleIncidents_def handleServices_def handleTopologyDependencies_def on_method_def by (auto intro!: evo)

lemma evolves_reading:
  assumes "\<not> writing (requiredPermission r)" "\<not> decides r" "URLPath r \<noteq> route_path SlackCallback"
  shows "evolves R (mux s (r\<lparr>rq_Principal := p\<rparr>))"
proof (cases "find_handler r")
  case (Serve h)
  have same: "find_handler (r\<lparr>rq_Principal := p\<rparr>) = find_handler r" by (simp add: find_handler_def)
  note path = served_path [OF Serve]
  have "evolves R (run_handler s h (r\<lparr>rq_Principal := p\<rparr>))"
  proof (cases "h \<in> {Incidents, Services, TopologyDependencies}")
    case True
    then have "rq_Method r \<noteq> POST" using path assms(1) writing_routes(3-5) by auto
    then show ?thesis using True evolves_by_method by (auto simp: run_handler_def)
  next
    case False
    then show ?thesis
      using path assms(1,3) writing_routes(1,2,6) [of r] evolves_incident_routes [of r] evolves_remediation_routes [of r] evolves_approvals [OF assms(2)]
      by (cases h) (auto simp: run_handler_def intro!: evo)
  qed
  then show ?thesis by (simp add: mux_def same Serve)
qed (simp_all add: mux_def find_handler_def evolves_ret)

lemma evolves_barred:
  assumes "\<And>step now p. vouched (srv_authenticator s) (BearerToken (header_values (rq_Headers r) ''Authorization'')) step now p \<Longrightarrow> \<not> writing (requiredPermission r) \<and> \<not> decides r \<or> \<not> Can p (requiredPermission r)"
    and "\<not> isPublicRoute r"
  shows "evolves R (serve s r)"
proof -
  let ?token = "BearerToken (header_values (rq_Headers r) ''Authorization'')"
  let ?r = "r\<lparr>rq_Principal := None\<rparr>"
  have same: "isPublicRoute ?r = isPublicRoute r" "requiredPermission ?r = requiredPermission r"
    by (simp_all add: isPublicRoute_def requiredPermission_def URLPath_def)
  have "results (Authenticate (srv_authenticator s) ?token) (\<lambda>who. \<forall>p. who = Inr p \<longrightarrow> (\<exists>step now. vouched (srv_authenticator s) ?token step now p))"
    unfolding results_def
  proof (intro allI)
    fix e w
    show "case Authenticate (srv_authenticator s) ?token e w of (Inl _, _) \<Rightarrow> True
      | (Inr who, _) \<Rightarrow> \<forall>p. who = Inr p \<longrightarrow> (\<exists>step now. vouched (srv_authenticator s) ?token step now p)"
      using Authenticate_vouched [where a = "srv_authenticator s" and header = ?token and e = e and w = w]
      by (auto split: prod.splits sum.splits)
  qed
  moreover have "evolves R (authorized s ?r p)" if "vouched (srv_authenticator s) ?token step now p" for step now p
    using assms(1) [OF that] assms(2) evolves_reading [of r s "Some p"] unfolding authorized_def same
    by (auto simp: isPublicRoute_def intro!: evolves_ret)
  ultimately have "evolves R (authMiddleware s ?r)"
    unfolding authMiddleware_def same using assms(2)
    by (auto intro!: evolves_bind_results [OF evolves_keeps [OF keeps_Authenticate]] evolves_ret split: sum.split)
  then show ?thesis unfolding serve_def limitRequestBodies_def by (intro evolves_if evolves_ret)
qed

end

section \<open>Only permitted requests write\<close>

text \<open>
  C7: A request changes something only if its bearer token gives it the right to. A request outside the
  public routes leaves every table as it is, whatever fails and whatever other processes do meanwhile, if
  no principal that its token can stand for has the permission of the route; and also if that permission
  is only one to view or to view the audit log, unless the request is a decision on an approval request.
\<close>

theorem writing_needs_permission:
  assumes "\<not> isPublicRoute r"
    and "(\<forall>step now p. vouched (srv_authenticator s) (BearerToken (header_values (rq_Headers r) ''Authorization'')) step now p \<longrightarrow>
            \<not> Can p (requiredPermission r)) \<or>
         (requiredPermission r = PermissionView \<or> requiredPermission r = PermissionViewAudit) \<and> \<not> decides r"
  shows "evolves (unchanged f) (serve s r)"
  using assms by (intro still.evolves_barred) (auto simp: writing_def)

definition plain_request :: "string \<Rightarrow> string \<Rightarrow> api_request" where
  "plain_request m path =
     \<lparr>rq_Method = m, rq_EscapedPath = path, rq_Query = [], rq_Headers = [], rq_ContentLength = 0, rq_Body = [], rq_Principal = None\<rparr>"

lemma plain_view:
  "\<not> isPublicRoute (plain_request GET ''/v1/incidents/inc_1/timeline'')"
  "requiredPermission (plain_request GET ''/v1/incidents/inc_1/timeline'') = PermissionView"
  "\<not> decides (plain_request GET ''/v1/incidents/inc_1/timeline'')"
  by code_simp+

theorem writing_needs_permission_witness:
  "\<forall>s. evolves (unchanged (\<lambda>d. d)) (serve s (plain_request GET ''/v1/incidents/inc_1/timeline''))"
  by (intro allI writing_needs_permission) (simp_all add: plain_view)

section \<open>A decision with the right to view\<close>

text \<open>
  The handler of approval requests ignores a slash at the end of the path, the permission check does not:
  with it, the route asks only for the right to view, and a viewer's decision is carried out.
\<close>

lemma slash_decision:
  "requiredPermission (plain_request POST ''/v1/approval-requests/apr_1/decision'') = PermissionApproveRemediation"
  "requiredPermission (plain_request POST ''/v1/approval-requests/apr_1/decision/'') = PermissionView"
  "find_handler (plain_request POST ''/v1/approval-requests/apr_1/decision/'') = Serve ApprovalRequests"
  "decides (plain_request POST ''/v1/approval-requests/apr_1/decision/'')"
  by code_simp+

lemma viewer_decides:
  assumes "pr_Role p = RoleViewer"
  shows "authorized s (plain_request POST ''/v1/approval-requests/apr_1/decision/''\<lparr>rq_Body := body\<rparr>) p =
    reads (ReadDecision (plain_request POST ''/v1/approval-requests/apr_1/decision/''\<lparr>rq_Body := body, rq_Principal := Some p\<rparr>)) (\<lambda>(decision, reason).
      answer (Decide (srv_approvals s) ''apr_1'' (pr_ID p) ''user'' decision reason ''webhook_callback'') (\<lambda>_. 400) (oks 200 ApprovalBody))"
proof -
  let ?r = "plain_request POST ''/v1/approval-requests/apr_1/decision/''\<lparr>rq_Body := body\<rparr>"
  have path: "URLPath (plain_request m x) = URLPath (plain_request m x\<lparr>rq_Body := body, rq_Principal := q\<rparr>)" for m x q by (simp add: URLPath_def)
  have "requiredPermission ?r = PermissionView" "find_handler (?r\<lparr>rq_Principal := Some p\<rparr>) = Serve ApprovalRequests"
    using slash_decision(2,3) by (simp_all add: requiredPermission_def find_handler_def URLPath_def)
  moreover have "Can p PermissionView" using assms by (simp add: Can_def permissionsByRole_def role_defs)
  moreover have "trim_prefix (URLPath (?r\<lparr>rq_Principal := Some p\<rparr>)) ''/v1/approval-requests'' = ''/apr_1/decision/''"
    "split_on (CHR ''/'') (trim_slashes ''/apr_1/decision/'') = [''apr_1'', ''decision'']" "rq_Method ?r = POST"
    unfolding path [symmetric] by code_simp+
  ultimately show ?thesis
    by (simp add: authorized_def mux_def run_handler_def handleApprovalRequests_def actorFromRequest_def)
qed

end
