(* ===== verification/Spec2Isabelle.thy ===== *)
theory Spec2Isabelle
  imports Prelude Go_Float Go_Time Values Json Json_Roundtrip Json_Canonical Actions Policy Lifecycle Remediation_States Topology Types World Evolution Ledger Ledger_Migration Documents Incident_States Remediation_Store Approvals Dispatch Executor Remediation_Service Helios_Reconcile Control_State Workers Control_Spec Control_Approvals Control_Execution Control_Helios Control_Workers Config Deployment Control_Plane Delivery
    Graph_Types Go_Strconv Evidence Correlation Rca_Scoring Findings Incident_Store Ingestion Rca Control_Ingestion Ingestion_Correct
    Outcomes Rca_Correct Auth Notifier Slack Dead_Letters Http Api Control_Api Api_Correct
begin

text \<open>
  Argus watches services, groups their alerts into incidents, looks for root causes and proposes
  remediations that run only after a human approved them; every step is recorded in a hash-chained
  audit ledger. This development models the Go program under \<^verbatim>\<open>src/internal\<close> and proves what makes it
  trustworthy. This theory only collects the others.

  \<^bold>\<open>The parts and how they interact.\<close> Alertmanager delivers alerts to the HTTP API
  (\<^verbatim>\<open>api/server.go\<close>), which authenticates and authorizes each request (\<^verbatim>\<open>auth/auth.go\<close>) and calls the
  services. Ingestion (\<^verbatim>\<open>incidents/service.go\<close>) groups the alerts along the service topology
  (\<^verbatim>\<open>topology/graph.go\<close>) into incidents (\<^verbatim>\<open>incidents/store.go\<close>). Root cause analysis (\<^verbatim>\<open>rca/service.go\<close>)
  matches alerts against a compiled table of rules (\<^verbatim>\<open>correlation\<close>), asks Prometheus and Loki for evidence
  (\<^verbatim>\<open>evidence\<close>), and scores hypotheses into a report with candidate actions (\<^verbatim>\<open>actions/catalog.go\<close>). Proposing
  (\<^verbatim>\<open>remediation/service.go\<close>) puts the candidates through the policy engine (\<^verbatim>\<open>policy/engine.go\<close>) and asks for
  approval (\<^verbatim>\<open>approvals\<close>), by webhook or Slack. An approved remediation is executed by a worker, reached through
  a transactional outbox and JetStream (\<^verbatim>\<open>remediation/dispatch.go\<close>, \<^verbatim>\<open>queue\<close>, \<^verbatim>\<open>workers\<close>), or by the Helios
  workflow service (\<^verbatim>\<open>remediation/executor.go\<close>, \<^verbatim>\<open>helios_reconcile.go\<close>). Jobs the worker gives up on become dead
  letters that an administrator replays or discards.

  \<^bold>\<open>The language and its library.\<close> \<open>Prelude\<close> (strings, stable sorting, maps as association lists),
  \<open>Go_Float\<close>, \<open>Go_Time\<close>, \<open>Go_Strconv\<close> (rounding to \<^verbatim>\<open>float64\<close>, instants as nanoseconds, durations, number
  parsing), \<open>Values\<close> (values of Go's \<^verbatim>\<open>any\<close>), \<open>Json\<close>, \<open>Json_Roundtrip\<close>, \<open>Json_Canonical\<close>, \<open>Documents\<close>
  (encoding, decoding into structs, JSONB). \<open>Types\<close> and \<open>Graph_Types\<close> hold the structs, with a prefix per
  struct on the field names. Integers are \<open>int\<close>, wrapped to 64 bits by \<open>wrap64\<close> where the code can overflow.

  \<^bold>\<open>Effects.\<close> \<open>World\<close>: a program maps an environment and a world to an error or a value and a new world.
  The world holds the database, the clock and the streams; the environment decides, for every statement and
  call, whether it fails, whether only its answer is lost, how long it takes, and what other processes
  commit before it. \<^verbatim>\<open>errors.Is\<close> is the sentinel an error carries. \<open>Evolution\<close> holds the locale of
  relations a program keeps to under such interference, with rules for every combinator (the collections
  \<open>evo\<close>, \<open>keep\<close>, \<open>tx\<close>); \<open>Outcomes\<close> adds what a transaction did to what it returns. The locales are
  interpreted on the model's own relations: \<open>flow\<close> on the control machine, \<open>ledger\<close> on the growth of the
  ledger, \<open>still\<close> on what does not change, \<open>tracked\<close> on life cycles.

  \<^bold>\<open>Components.\<close> One theory per part, its definitions in the order of the code and under its names.
  \<^item> \<open>Actions\<close>, \<open>Policy\<close>: the typed validation of actions and \<^verbatim>\<open>Engine.Evaluate\<close>; what they accept is
    characterized exactly, and only diagnostics run unattended.
  \<^item> \<open>Topology\<close>: path search is complete and shortest; grouping partitions the alerted services under
    optimal roots.
  \<^item> \<open>Lifecycle\<close>, \<open>Remediation_States\<close>, \<open>Incident_States\<close>: the transition tables as life cycles.
  \<^item> \<open>Ledger\<close>, \<open>Ledger_Migration\<close> (\<^verbatim>\<open>audit\<close>): canonical JSON, appending, verification, migration; verification
    decides the hash chain, and two ledgers with one head differ only through a collision of the hash.
  \<^item> \<open>Remediation_Store\<close>, \<open>Incident_Store\<close> (\<^verbatim>\<open>incidents/store.go\<close>): the statements, with the constraints of the
    schema they meet.
  \<^item> \<open>Notifier\<close>, \<open>Approvals\<close>, \<open>Slack\<close> (\<^verbatim>\<open>approvals\<close>): requests, decisions, expiry, notifications, and Slack
    callbacks, which count only if signed.
  \<^item> \<open>Dispatch\<close>, \<open>Executor\<close>, \<open>Remediation_Service\<close>, \<open>Helios_Reconcile\<close> (\<^verbatim>\<open>remediation\<close>), \<open>Control_State\<close>,
    \<open>Workers\<close> (\<^verbatim>\<open>workers\<close>), \<open>Dead_Letters\<close> (\<^verbatim>\<open>queue\<close>): the way of a remediation from proposal to effect.
    \<open>Delivery\<close> shows that the worker answers every message, that a round handles the oldest due rows and
    enough rounds all of them, and that polling and retries are bounded.
  \<^item> \<open>Evidence\<close>, \<open>Correlation\<close>, \<open>Rca_Scoring\<close>, \<open>Findings\<close>, \<open>Rca\<close>: probes, rules, scores, reports and advice.
    Probe results say what the backends answered, each alert selects the one rule that names it;
    \<open>Rca_Correct\<close> shows that a high confidence is earned and that advice has no effect.
  \<^item> \<open>Ingestion\<close> (\<^verbatim>\<open>incidents/service.go\<close>); \<open>Ingestion_Correct\<close> shows that a delivery accounts for each of its
    alerts with its signal, opens incidents only with their ledger entry, and joins the incident that carries
    the alert or is nearest to it.
  \<^item> \<open>Auth\<close>, \<open>Http\<close>, \<open>Api\<close>: tokens, permissions, routes, request bodies and all handlers; \<open>Api_Correct\<close> shows
    that only permitted requests write, and where the permission check and the handler disagree.
  \<^item> \<open>Config\<close>, \<open>Deployment\<close>: settings, their check, and how \<^verbatim>\<open>api.New\<close> and the worker put the parts together.

  \<^bold>\<open>The whole.\<close> \<open>Control_Spec\<close> is an abstract machine on the tables of remediations, approvals,
  outbox, receipts, RCA reports and ledger, with its invariant. \<open>Control_Approvals\<close>, \<open>Control_Execution\<close>,
  \<open>Control_Helios\<close>, \<open>Control_Workers\<close>, \<open>Control_Ingestion\<close> and \<open>Control_Api\<close> show operation by operation that
  the program only takes steps of it, whatever fails and whatever others do. \<open>Control_Plane\<close> runs all
  operations of a deployment, requests of the API among them, from an empty schema: every effect in the
  world was approved, by another than the proposer unless the deployment allows it, happens once, and is
  accounted for in the ledger; decisions are final, findings are permanent, and statuses follow the life
  cycle, but for the step back to approved when the reservation of a job is released.

  \<^bold>\<open>Bounds.\<close> Recursions follow their data or have a termination proof. The JSON parser carries fuel of
  twice the length of the text plus two, and each of its calls consumes a character. The Helios poll loop
  terminates because each round moves the clock towards its deadline. A listing of dead letters
  looks at no more than 10000 sequences, as the code does.

  \<^bold>\<open>What is taken as given.\<close> SHA-256 is a parameter; so are the OIDC library's verifier, the answers of
  HTTP services, the identifiers of the UUID library and the text PostgreSQL gives back for a stored JSON
  document. A transaction is atomic: each of the code's transactions locks the rows it goes on to write.
  Rows that \<^verbatim>\<open>SKIP LOCKED\<close> passes over are left to the others: the model's dispatcher sees all due rows.
  Strings are byte sequences; texts are compared by bytes where PostgreSQL would use its collation, and
  letter case is folded for ASCII only. The JSON decoder has no limit on nesting. The probes of one
  analysis run one after the other, and a handler past its deadline is followed to its end before the job
  is recorded as timed out; the code lets both run on beside. The texts of driver and decoder errors are representative. A request body over the limit that also has a
  syntax error within it is answered as too large.

  \<^bold>\<open>Not modelled.\<close> Metrics and logs, which nothing reads back; the connection pool and the schema
  migrations (\<^verbatim>\<open>db\<close>, \<^verbatim>\<open>migrations\<close>), whose constraints are in the statements; the administration of streams and
  consumers and the fetch loop, which are the broker's; the tickers that start background rounds, for which
  each round is an operation; the set-up of the OIDC provider and the URL checks of endpoints, which rest
  on the URL parser; the rendering of responses, which is the JSON encoder's; command-line clients, demo
  services, test support, and the Python service \<^verbatim>\<open>ai-service\<close>, whose answers are those of an HTTP service.
\<close>

end
